(* ===== verification/Prelude.thy ===== *)
theory Prelude
  imports Main "HOL-Library.Word" "HOL-Library.AList"
begin

text \<open>
  The vocabulary shared by every component of the development: the machine types of the C and
  C++ sources, the error values of \<^verbatim>\<open>include/hipfile.h\<close>, the exceptions that the sources throw,
  the state-and-exception monad in which their functions are written, and general facts about
  words and association lists.
\<close>

unbundle bit_operations_syntax

named_theorems cxx_simps \<open>unfolding of the state-and-exception monad\<close>
named_theorems sp_simps \<open>rewriting of shared-pointer stores\<close>
named_theorems op_defs \<open>definitions of the operations of a component\<close>

section \<open>Machine types\<close>

text \<open>
  Pointers, \<^verbatim>\<open>size_t\<close>, \<^verbatim>\<open>uint64_t\<close> and \<^verbatim>\<open>hoff_t\<close> are 64-bit words; \<^verbatim>\<open>hoff_t\<close> (a signed
  \<^verbatim>\<open>off_t\<close>) is read with \<^const>\<open>sint\<close>. Return values of type \<^verbatim>\<open>ssize_t\<close> and \<^verbatim>\<open>int\<close> are integers.
\<close>

type_synonym ptr = "64 word"
type_synonym size_t = "64 word"
type_synonym hoff_t = "64 word"
type_synonym uint32_t = "32 word"
type_synonym byte = "8 word"

abbreviation (input) nullptr :: ptr where "nullptr \<equiv> 0"

section \<open>Error values\<close>

text \<open>\<^verbatim>\<open>enum hipFileOpError\<close>, with the numeric value of each enumerator.\<close>

datatype hipFileOpError =
    hipFileSuccess | hipFileDriverNotInitialized | hipFileDriverInvalidProps
  | hipFileDriverUnsupportedLimit | hipFileDriverVersionMismatch | hipFileDriverVersionReadError
  | hipFileDriverClosing | hipFilePlatformNotSupported | hipFileIONotSupported
  | hipFileDeviceNotSupported | hipFileDriverError | hipFileHipDriverError
  | hipFileHipPointerInvalid | hipFileHipMemoryTypeInvalid | hipFileHipPointerRangeError
  | hipFileHipContextMismatch | hipFileInvalidMappingSize | hipFileInvalidMappingRange
  | hipFileInvalidFileType | hipFileInvalidFileOpenFlag | hipFileDIONotSet
  | hipFileInvalidValue | hipFileMemoryAlreadyRegistered | hipFileMemoryNotRegistered
  | hipFilePermissionDenied | hipFileDriverAlreadyOpen | hipFileHandleNotRegistered
  | hipFileHandleAlreadyRegistered | hipFileDeviceNotFound | hipFileInternalError
  | hipFileGetNewFDFailed | hipFileDriverSetupError | hipFileIODisabled
  | hipFileBatchSubmitFailed | hipFileGPUMemoryPinningFailed | hipFileBatchFull
  | hipFileAsyncNotSupported | hipFileIOMaxError

definition HIPFILE_BASE_ERR :: int where
  "HIPFILE_BASE_ERR = 5000"

fun op_error_code :: "hipFileOpError \<Rightarrow> int" where
  "op_error_code hipFileSuccess = 0"
| "op_error_code hipFileDriverNotInitialized = HIPFILE_BASE_ERR + 1"
| "op_error_code hipFileDriverInvalidProps = HIPFILE_BASE_ERR + 2"
| "op_error_code hipFileDriverUnsupportedLimit = HIPFILE_BASE_ERR + 3"
| "op_error_code hipFileDriverVersionMismatch = HIPFILE_BASE_ERR + 4"
| "op_error_code hipFileDriverVersionReadError = HIPFILE_BASE_ERR + 5"
| "op_error_code hipFileDriverClosing = HIPFILE_BASE_ERR + 6"
| "op_error_code hipFilePlatformNotSupported = HIPFILE_BASE_ERR + 7"
| "op_error_code hipFileIONotSupported = HIPFILE_BASE_ERR + 8"
| "op_error_code hipFileDeviceNotSupported = HIPFILE_BASE_ERR + 9"
| "op_error_code hipFileDriverError = HIPFILE_BASE_ERR + 10"
| "op_error_code hipFileHipDriverError = HIPFILE_BASE_ERR + 11"
| "op_error_code hipFileHipPointerInvalid = HIPFILE_BASE_ERR + 12"
| "op_error_code hipFileHipMemoryTypeInvalid = HIPFILE_BASE_ERR + 13"
| "op_error_code hipFileHipPointerRangeError = HIPFILE_BASE_ERR + 14"
| "op_error_code hipFileHipContextMismatch = HIPFILE_BASE_ERR + 15"
| "op_error_code hipFileInvalidMappingSize = HIPFILE_BASE_ERR + 16"
| "op_error_code hipFileInvalidMappingRange = HIPFILE_BASE_ERR + 17"
| "op_error_code hipFileInvalidFileType = HIPFILE_BASE_ERR + 18"
| "op_error_code hipFileInvalidFileOpenFlag = HIPFILE_BASE_ERR + 19"
| "op_error_code hipFileDIONotSet = HIPFILE_BASE_ERR + 20"
| "op_error_code hipFileInvalidValue = HIPFILE_BASE_ERR + 22"
| "op_error_code hipFileMemoryAlreadyRegistered = HIPFILE_BASE_ERR + 23"
| "op_error_code hipFileMemoryNotRegistered = HIPFILE_BASE_ERR + 24"
| "op_error_code hipFilePermissionDenied = HIPFILE_BASE_ERR + 25"
| "op_error_code hipFileDriverAlreadyOpen = HIPFILE_BASE_ERR + 26"
| "op_error_code hipFileHandleNotRegistered = HIPFILE_BASE_ERR + 27"
| "op_error_code hipFileHandleAlreadyRegistered = HIPFILE_BASE_ERR + 28"
| "op_error_code hipFileDeviceNotFound = HIPFILE_BASE_ERR + 29"
| "op_error_code hipFileInternalError = HIPFILE_BASE_ERR + 30"
| "op_error_code hipFileGetNewFDFailed = HIPFILE_BASE_ERR + 31"
| "op_error_code hipFileDriverSetupError = HIPFILE_BASE_ERR + 33"
| "op_error_code hipFileIODisabled = HIPFILE_BASE_ERR + 34"
| "op_error_code hipFileBatchSubmitFailed = HIPFILE_BASE_ERR + 35"
| "op_error_code hipFileGPUMemoryPinningFailed = HIPFILE_BASE_ERR + 36"
| "op_error_code hipFileBatchFull = HIPFILE_BASE_ERR + 37"
| "op_error_code hipFileAsyncNotSupported = HIPFILE_BASE_ERR + 38"
| "op_error_code hipFileIOMaxError = HIPFILE_BASE_ERR + 39"

text \<open>
  \<^verbatim>\<open>hipError_t\<close> belongs to the HIP runtime: the enumerators that the sources name, and any other
  one by an index. Their numeric values are a parameter of the model (\<open>hip_code\<close> of the
  external interface).
\<close>

datatype hipError_t =
    hipSuccess | hipErrorInvalidValue | hipErrorNotFound | hipErrorOutOfMemory
  | hipError_enum nat

record hipFileError_t =
  err :: hipFileOpError
  hip_drv_err :: hipError_t

abbreviation hipFile_status :: "hipFileOpError \<Rightarrow> hipFileError_t" where
  "hipFile_status e \<equiv> \<lparr>err = e, hip_drv_err = hipSuccess\<rparr>"

section \<open>Exceptions\<close>

text \<open>
  One constructor per exception class that the sources throw. The text of an exception is not
  kept: no handler reads it. \<^verbatim>\<open>InvalidBatchHandle\<close> derives from \<^verbatim>\<open>std::invalid_argument\<close>; every
  other pair of classes that some handler tells apart is unrelated.
\<close>

datatype exn =
    Thrown_hipFileError hipFileError_t
  | Hip_RuntimeError hipError_t
  | Hip_SymbolNotFound
  | Std_invalid_argument
  | Std_runtime_error
  | Std_system_error int
  | Std_bad_alloc
  | Std_bad_optional_access
  | InvalidBatchHandle
  | FileNotRegistered | FileAlreadyRegistered | FileOperationsOutstanding
  | BufferAlreadyRegistered | BufferNotRegistered | BufferOperationsOutstanding
  | InvalidMemoryType | InvalidPointerRange
  | DriverNotInitialized
  | BackendDisabled

fun is_invalid_argument :: "exn \<Rightarrow> bool" where
  "is_invalid_argument Std_invalid_argument = True"
| "is_invalid_argument InvalidBatchHandle = True"
| "is_invalid_argument _ = False"

section \<open>The state-and-exception monad\<close>

text \<open>
  A C++ function call over a state returns a value, throws, or ends the process (an exception
  that leaves a destructor calls \<^verbatim>\<open>std::terminate\<close>, which no handler sees).
\<close>

datatype 'a outcome = Ret 'a | Exn exn | Terminate

type_synonym ('s, 'a) cxx = "'s \<Rightarrow> 'a outcome \<times> 's"

definition cret :: "'a \<Rightarrow> ('s, 'a) cxx" where
  "cret a s = (Ret a, s)"

definition cthrow :: "exn \<Rightarrow> ('s, 'a) cxx" where
  "cthrow e s = (Exn e, s)"

definition cbind :: "('s, 'a) cxx \<Rightarrow> ('a \<Rightarrow> ('s, 'b) cxx) \<Rightarrow> ('s, 'b) cxx" where
  "cbind m k s =
     (case m s of
        (Ret a, s') \<Rightarrow> k a s'
      | (Exn e, s') \<Rightarrow> (Exn e, s')
      | (Terminate, s') \<Rightarrow> (Terminate, s'))"

definition ccatch :: "('s, 'a) cxx \<Rightarrow> (exn \<Rightarrow> ('s, 'a) cxx) \<Rightarrow> ('s, 'a) cxx" where
  "ccatch m h s =
     (case m s of
        (Ret a, s') \<Rightarrow> (Ret a, s')
      | (Exn e, s') \<Rightarrow> h e s'
      | (Terminate, s') \<Rightarrow> (Terminate, s'))"

text \<open>
  A scope with a destructor: the destructor runs on both exits, and an exception that escapes it
  ends the process.
\<close>

definition cscope :: "('s, 'a) cxx \<Rightarrow> ('s, unit) cxx \<Rightarrow> ('s, 'a) cxx" where
  "cscope m d s =
     (case m s of
        (Terminate, s') \<Rightarrow> (Terminate, s')
      | (r, s') \<Rightarrow> (case d s' of (Ret _, s'') \<Rightarrow> (r, s'') | (_, s'') \<Rightarrow> (Terminate, s'')))"

text \<open>Stack unwinding: a local object is destroyed only when the rest throws.\<close>

definition cunwind :: "('s, 'a) cxx \<Rightarrow> ('s, unit) cxx \<Rightarrow> ('s, 'a) cxx" where
  "cunwind m d s =
     (case m s of
        (Exn e, s') \<Rightarrow> (case d s' of (Ret _, s'') \<Rightarrow> (Exn e, s'') | (_, s'') \<Rightarrow> (Terminate, s''))
      | r \<Rightarrow> r)"

definition cnoexcept :: "('s, 'a) cxx \<Rightarrow> ('s, 'a) cxx" where
  "cnoexcept m s =
     (case m s of (Exn _, s') \<Rightarrow> (Terminate, s') | r \<Rightarrow> r)"

definition cget :: "('s \<Rightarrow> 'a) \<Rightarrow> ('s, 'a) cxx" where
  "cget f s = (Ret (f s), s)"

definition cmodify :: "('s \<Rightarrow> 's) \<Rightarrow> ('s, unit) cxx" where
  "cmodify f s = (Ret (), f s)"

definition cwhen :: "bool \<Rightarrow> ('s, unit) cxx \<Rightarrow> ('s, unit) cxx" where
  "cwhen b m = (if b then m else cret ())"

primrec cfor :: "'a list \<Rightarrow> ('a \<Rightarrow> ('s, unit) cxx) \<Rightarrow> ('s, unit) cxx" where
  "cfor [] f = cret ()"
| "cfor (x # xs) f = cbind (f x) (\<lambda>_. cfor xs f)"

lemmas cxx_defs = cret_def cthrow_def cbind_def ccatch_def cscope_def cunwind_def cnoexcept_def
  cget_def
  cmodify_def cwhen_def

lemma cret_apply [cxx_simps]: "cret a s = (Ret a, s)"
  by (simp add: cret_def)

lemma cthrow_apply [cxx_simps]: "cthrow e s = (Exn e, s)"
  by (simp add: cthrow_def)

lemma cget_apply [cxx_simps]: "cget f s = (Ret (f s), s)"
  by (simp add: cget_def)

lemma cmodify_apply [cxx_simps]: "cmodify f s = (Ret (), f s)"
  by (simp add: cmodify_def)

lemma cwhen_apply [cxx_simps]: "cwhen b m s = (if b then m s else (Ret (), s))"
  by (simp add: cwhen_def cret_def)

lemma cbind_eq_Ret_iff:
  "cbind m k s = (Ret b, t) \<longleftrightarrow> (\<exists>a s'. m s = (Ret a, s') \<and> k a s' = (Ret b, t))"
  by (auto simp: cbind_def split: prod.splits outcome.splits)

lemma cbind_eq_Exn_iff:
  "cbind m k s = (Exn e, t) \<longleftrightarrow>
     m s = (Exn e, t) \<or> (\<exists>a s'. m s = (Ret a, s') \<and> k a s' = (Exn e, t))"
  by (auto simp: cbind_def split: prod.splits outcome.splits)

lemma cbind_RetI: "m s = (Ret a, s') \<Longrightarrow> cbind m k s = k a s'"
  by (simp add: cbind_def)

lemma cbind_ExnI: "m s = (Exn e, s') \<Longrightarrow> cbind m k s = (Exn e, s')"
  by (simp add: cbind_def)

lemma cbind_assoc: "cbind (cbind m k) l = cbind m (\<lambda>a. cbind (k a) l)"
  by (rule ext) (auto simp: cbind_def split: prod.splits outcome.splits)

lemma ccatch_RetI: "m s = (Ret a, s') \<Longrightarrow> ccatch m h s = (Ret a, s')"
  by (simp add: ccatch_def)

lemma ccatch_ExnI: "m s = (Exn e, s') \<Longrightarrow> ccatch m h s = h e s'"
  by (simp add: ccatch_def)

lemmas cxx_intros = cbind_RetI cbind_ExnI ccatch_RetI ccatch_ExnI

section \<open>Functions that do not end the process\<close>

definition never_ends :: "('s, 'a) cxx \<Rightarrow> bool" where
  "never_ends m \<longleftrightarrow> (\<forall>s. fst (m s) \<noteq> Terminate)"

lemma never_endsD: "never_ends m \<Longrightarrow> m s \<noteq> (Terminate, t)"
  unfolding never_ends_def by (metis fst_conv)

lemma never_ends_simps [intro]:
  "never_ends (cret a)" "never_ends (cthrow e)" "never_ends (cget f)" "never_ends (cmodify g)"
  by (simp_all add: never_ends_def cxx_simps)

lemma never_ends_cbind [intro]:
  assumes "never_ends m" and "\<And>a. never_ends (k a)"
  shows "never_ends (cbind m k)"
  unfolding never_ends_def
proof
  fix s
  obtain r t where m: "m s = (r, t)" by fastforce
  with assms(1) have "r \<noteq> Terminate" by (auto dest: never_endsD)
  with m assms(2) show "fst (cbind m k s) \<noteq> Terminate"
    by (cases r) (auto simp: cbind_def never_ends_def)
qed

lemma never_ends_cfor [intro]: "(\<And>a. never_ends (f a)) \<Longrightarrow> never_ends (cfor as f)"
  by (induction as) auto

lemma never_ends_if [intro]: "never_ends m \<Longrightarrow> never_ends n \<Longrightarrow> never_ends (if b then m else n)"
  by simp

lemma never_ends_cwhen [intro]: "never_ends m \<Longrightarrow> never_ends (cwhen b m)"
  by (simp add: cwhen_def never_ends_simps)

lemma never_ends_ccatch [intro]:
  assumes "never_ends m" and "\<And>e. never_ends (h e)"
  shows "never_ends (ccatch m h)"
  unfolding never_ends_def
proof
  fix s
  obtain r t where m: "m s = (r, t)" by fastforce
  with assms(1) have "r \<noteq> Terminate" by (auto dest: never_endsD)
  with m assms(2) show "fst (ccatch m h s) \<noteq> Terminate"
    by (cases r) (auto simp: ccatch_def never_ends_def)
qed

section \<open>Functions that may not return\<close>

text \<open>
  A function with a loop that may run forever has an optional result; \<^const>\<open>None\<close> means that it
  does not return.
\<close>

type_synonym ('s, 'a) ocxx = "'s \<Rightarrow> ('a outcome \<times> 's) option"

definition olift :: "('s, 'a) cxx \<Rightarrow> ('s, 'a) ocxx" where
  "olift m s = Some (m s)"

definition obind :: "('s, 'a) ocxx \<Rightarrow> ('a \<Rightarrow> ('s, 'b) ocxx) \<Rightarrow> ('s, 'b) ocxx" where
  "obind m k s =
     (case m s of
        None \<Rightarrow> None
      | Some (Ret a, s') \<Rightarrow> k a s'
      | Some (Exn e, s') \<Rightarrow> Some (Exn e, s')
      | Some (Terminate, s') \<Rightarrow> Some (Terminate, s'))"

definition ocatch :: "('s, 'a) ocxx \<Rightarrow> (exn \<Rightarrow> ('s, 'a) ocxx) \<Rightarrow> ('s, 'a) ocxx" where
  "ocatch m h s =
     (case m s of
        None \<Rightarrow> None
      | Some (Exn e, s') \<Rightarrow> h e s'
      | Some r \<Rightarrow> Some r)"

definition oscope :: "('s, 'a) ocxx \<Rightarrow> ('s, unit) cxx \<Rightarrow> ('s, 'a) ocxx" where
  "oscope m d s =
     (case m s of
        None \<Rightarrow> None
      | Some (Terminate, s') \<Rightarrow> Some (Terminate, s')
      | Some (r, s') \<Rightarrow>
          (case d s' of (Ret _, s'') \<Rightarrow> Some (r, s'') | (_, s'') \<Rightarrow> Some (Terminate, s'')))"

lemmas ocxx_defs = olift_def obind_def ocatch_def oscope_def

lemma olift_apply [cxx_simps]: "olift m s = Some (m s)"
  by (simp add: olift_def)

lemma obind_eq_Some_Ret_iff:
  "obind m k s = Some (Ret b, t) \<longleftrightarrow> (\<exists>a s'. m s = Some (Ret a, s') \<and> k a s' = Some (Ret b, t))"
  by (auto simp: obind_def split: option.splits prod.splits outcome.splits)

lemma obind_RetI: "m s = Some (Ret a, s') \<Longrightarrow> obind m k s = k a s'"
  by (simp add: obind_def)

lemma obind_ExnI: "m s = Some (Exn e, s') \<Longrightarrow> obind m k s = Some (Exn e, s')"
  by (simp add: obind_def)

lemma olift_cbind: "olift (cbind m k) = obind (olift m) (\<lambda>a. olift (k a))"
  by (rule ext) (auto simp: olift_def obind_def cbind_def split: prod.splits outcome.splits)

text \<open>
  A loop: the body yields the next value of the loop variables or the result of the loop.
\<close>

partial_function (option) oloop ::
  "('a \<Rightarrow> ('s, 'a + 'b) cxx) \<Rightarrow> 'a \<Rightarrow> 's \<Rightarrow> ('b outcome \<times> 's) option" where
  "oloop body a s =
     (case body a s of
        (Ret (Inl a'), t) \<Rightarrow> oloop body a' t
      | (Ret (Inr b), t) \<Rightarrow> Some (Ret b, t)
      | (Exn e, t) \<Rightarrow> Some (Exn e, t)
      | (Terminate, t) \<Rightarrow> Some (Terminate, t))"

declare oloop.simps [code]

text \<open>Partial correctness with an invariant, and termination with a well-founded relation.\<close>

lemma oloop_inv:
  assumes "oloop body a s = Some (r, t)" and "I a s"
    and "\<And>a s a' t. I a s \<Longrightarrow> body a s = (Ret (Inl a'), t) \<Longrightarrow> I a' t"
    and "\<And>a s b t. I a s \<Longrightarrow> body a s = (Ret (Inr b), t) \<Longrightarrow> Q (Ret b) t"
    and "\<And>a s e t. I a s \<Longrightarrow> body a s = (Exn e, t) \<Longrightarrow> Q (Exn e) t"
    and "\<And>a s t. I a s \<Longrightarrow> body a s = (Terminate, t) \<Longrightarrow> Q Terminate t"
  shows "Q r t"
proof -
  let ?P = "\<lambda>bd a s y. bd = body \<longrightarrow> I a s \<longrightarrow> Q (fst y) (snd y)"
  have "?P body a s (r, t)"
  proof (rule oloop.raw_induct [of ?P, OF _ assms(1)])
    fix loop bd a s y
    assume "\<And>bd a s y. loop bd a s = Some y \<Longrightarrow> ?P bd a s y"
      and "(case bd a s of (Ret (Inl a'), t) \<Rightarrow> loop bd a' t | (Ret (Inr b), t) \<Rightarrow> Some (Ret b, t)
        | (Exn e, t) \<Rightarrow> Some (Exn e, t) | (Terminate, t) \<Rightarrow> Some (Terminate, t)) = Some y"
    then show "?P bd a s y"
      using assms(3) [of a s] assms(4) [of a s] assms(5) [of a s] assms(6) [of a s]
      by (auto split: prod.splits outcome.splits sum.splits)
  qed
  with assms(1,2) show ?thesis by simp
qed

lemma oloop_returns:
  assumes "wf R" and "I a s"
    and "\<And>a s a' t. I a s \<Longrightarrow> body a s = (Ret (Inl a'), t) \<Longrightarrow> I a' t \<and> ((a', t), (a, s)) \<in> R"
  shows "\<exists>r t. oloop body a s = Some (r, t)"
proof -
  have "I (fst z) (snd z) \<longrightarrow> (\<exists>r t. oloop body (fst z) (snd z) = Some (r, t))" for z
    using assms(1)
  proof (induction z rule: wf_induct_rule)
    case (less z)
    obtain o' t where b: "body (fst z) (snd z) = (o', t)" by fastforce
    show ?case
    proof (cases "\<exists>a'. o' = Ret (Inl a')")
      case True
      with b less assms(3) [of "fst z" "snd z"] show ?thesis
        by (force simp: oloop.simps [of body "fst z" "snd z"])
    next
      case False
      with b show ?thesis
        by (auto simp: oloop.simps [of body "fst z" "snd z"] split: outcome.splits sum.splits)
    qed
  qed
  with assms(2) show ?thesis by (metis fst_conv snd_conv)
qed

text \<open>A loop whose body may itself not return.\<close>

partial_function (option) owloop ::
  "('a \<Rightarrow> ('s, 'a + 'b) ocxx) \<Rightarrow> 'a \<Rightarrow> 's \<Rightarrow> ('b outcome \<times> 's) option" where
  "owloop body a s =
     (case body a s of
        None \<Rightarrow> None
      | Some (Ret (Inl a'), t) \<Rightarrow> owloop body a' t
      | Some (Ret (Inr b), t) \<Rightarrow> Some (Ret b, t)
      | Some (Exn e, t) \<Rightarrow> Some (Exn e, t)
      | Some (Terminate, t) \<Rightarrow> Some (Terminate, t))"

declare owloop.simps [code]

text \<open>Partial correctness with an invariant.\<close>

lemma owloop_inv:
  assumes "owloop body a s = Some (r, t)" and "I a s"
    and "\<And>a s a' t. I a s \<Longrightarrow> body a s = Some (Ret (Inl a'), t) \<Longrightarrow> I a' t"
    and "\<And>a s b t. I a s \<Longrightarrow> body a s = Some (Ret (Inr b), t) \<Longrightarrow> Q (Ret b) t"
    and "\<And>a s e t. I a s \<Longrightarrow> body a s = Some (Exn e, t) \<Longrightarrow> Q (Exn e) t"
    and "\<And>a s t. I a s \<Longrightarrow> body a s = Some (Terminate, t) \<Longrightarrow> Q Terminate t"
  shows "Q r t"
proof -
  let ?P = "\<lambda>bd a s y. bd = body \<longrightarrow> I a s \<longrightarrow> Q (fst y) (snd y)"
  have "?P body a s (r, t)"
  proof (rule owloop.raw_induct [of ?P, OF _ assms(1)])
    fix loop bd a s y
    assume "\<And>bd a s y. loop bd a s = Some y \<Longrightarrow> ?P bd a s y"
      and "(case bd a s of None \<Rightarrow> None | Some (Ret (Inl a'), t) \<Rightarrow> loop bd a' t | Some (Ret (Inr b), t) \<Rightarrow> Some (Ret b, t)
        | Some (Exn e, t) \<Rightarrow> Some (Exn e, t) | Some (Terminate, t) \<Rightarrow> Some (Terminate, t)) = Some y"
    then show "?P bd a s y"
      using assms(3) [of a s] assms(4) [of a s] assms(5) [of a s] assms(6) [of a s]
      by (auto split: option.splits prod.splits outcome.splits sum.splits)
  qed
  with assms(1,2) show ?thesis by simp
qed

text \<open>Total correctness: every round returns, and ends the loop or comes closer to the end.\<close>

lemma owloop_total:
  assumes "wf R" and "I a s"
    and round: "\<And>a s. I a s \<Longrightarrow> \<exists>r t. body a s = Some (Ret r, t) \<and>
      (case r of Inl a' \<Rightarrow> I a' t \<and> ((a', t), (a, s)) \<in> R | Inr b \<Rightarrow> Q b t)"
  shows "\<exists>b t. owloop body a s = Some (Ret b, t) \<and> Q b t"
proof -
  have "I (fst z) (snd z) \<longrightarrow> (\<exists>b t. owloop body (fst z) (snd z) = Some (Ret b, t) \<and> Q b t)" for z
    using assms(1)
  proof (induction z rule: wf_induct_rule)
    case (less z)
    show ?case
    proof
      assume "I (fst z) (snd z)"
      from round [OF this] obtain r t where b: "body (fst z) (snd z) = Some (Ret r, t)"
        "case r of Inl a' \<Rightarrow> I a' t \<and> ((a', t), (fst z, snd z)) \<in> R | Inr b \<Rightarrow> Q b t" by blast
      show "\<exists>b t. owloop body (fst z) (snd z) = Some (Ret b, t) \<and> Q b t"
      proof (cases r)
        case (Inl a')
        with b less.IH [of "(a', t)"] show ?thesis by (simp add: owloop.simps [of body "fst z" "snd z"])
      next
        case (Inr c)
        with b show ?thesis by (simp add: owloop.simps [of body "fst z" "snd z"])
      qed
    qed
  qed
  with assms(2) show ?thesis by (metis fst_conv snd_conv)
qed

text \<open>A round that leaves the variables and the state alone is repeated forever.\<close>

lemma owloop_spins:
  assumes "\<And>s. I s \<Longrightarrow> \<exists>t. body a s = Some (Ret (Inl a), t) \<and> I t" and "I s"
  shows "owloop body a s = None"
proof (rule ccontr)
  assume "owloop body a s \<noteq> None"
  then obtain y where y: "owloop body a s = Some y" by blast
  let ?P = "\<lambda>bd c s y. bd = body \<longrightarrow> c = a \<longrightarrow> \<not> I s"
  have "?P body a s y"
  proof (rule owloop.raw_induct [of ?P, OF _ y])
    fix loop bd c s y
    assume "\<And>bd c s y. loop bd c s = Some y \<Longrightarrow> ?P bd c s y"
      and "(case bd c s of None \<Rightarrow> None | Some (Ret (Inl a'), t) \<Rightarrow> loop bd a' t | Some (Ret (Inr b), t) \<Rightarrow> Some (Ret b, t)
        | Some (Exn e, t) \<Rightarrow> Some (Exn e, t) | Some (Terminate, t) \<Rightarrow> Some (Terminate, t)) = Some y"
    then show "?P bd c s y" using assms(1) [of s] by (cases y) auto
  qed
  with assms(2) show False by simp
qed

section \<open>Decimal printing\<close>

text \<open>\<^verbatim>\<open>std::to_string\<close> and \<^verbatim>\<open>operator<<\<close> on integers.\<close>

fun dec_nat :: "nat \<Rightarrow> string" where
  "dec_nat n = (if n < 10 then [char_of (48 + n)] else dec_nat (n div 10) @ [char_of (48 + n mod 10)])"

declare dec_nat.simps [simp del]

definition dec_int :: "int \<Rightarrow> string" where
  "dec_int i = (if i < 0 then CHR ''-'' # dec_nat (nat (- i)) else dec_nat (nat i))"

section \<open>Signed and unsigned readings of a word\<close>

lemma uint_mod_id: "uint (w :: 64 word) mod 18446744073709551616 = uint w"
  using uint_lt2p [of w] by simp

lemma sint_unfold: "sint (w :: 64 word) = uint w - 2 ^ 64 * of_bool (bit w 63)"
  by (simp add: sint_uint signed_take_bit_eq_take_bit_minus bit_uint_iff take_bit_eq_mod
      uint_mod_id)

lemma sint_nonneg_unat: "0 \<le> sint (w :: 64 word) \<Longrightarrow> sint w = int (unat w)"
  using uint_lt2p [of w] by (cases "bit w 63") (simp_all add: sint_unfold)

lemma olift_not_None [simp]: "olift m s \<noteq> None"
  by (simp add: olift_def)

lemma obind_not_None: "m s \<noteq> None \<Longrightarrow> (\<And>a t. k a t \<noteq> None) \<Longrightarrow> obind m k s \<noteq> None"
  by (auto simp: obind_def split: outcome.splits prod.splits)

lemma ocatch_not_None: "m s \<noteq> None \<Longrightarrow> (\<And>e t. h e t \<noteq> None) \<Longrightarrow> ocatch m h s \<noteq> None"
  by (auto simp: ocatch_def split: outcome.splits prod.splits)

lemma oscope_not_None: "m s \<noteq> None \<Longrightarrow> oscope m d s \<noteq> None"
  by (auto simp: oscope_def split: outcome.splits prod.splits)

lemma find_member: "e \<in> set es \<Longrightarrow> find (\<lambda>a. a = e) es = Some e"
  by (induction es) auto

end
