(* ===== verification/Externals.thy ===== *)
theory Externals
  imports Prelude
begin

text \<open>
  The code that hipFile calls and that is not part of the repository, as a record of functions
  over an arbitrary type of worlds, and the two wrapper classes through which hipFile calls it:
  \<^verbatim>\<open>Sys\<close> (\<^verbatim>\<open>src/amd_detail/sys.cpp\<close>), which throws \<^verbatim>\<open>std::system_error\<close> when a system call
  fails, and \<^verbatim>\<open>Hip\<close> (\<^verbatim>\<open>src/amd_detail/hip.cpp\<close>), which throws \<^verbatim>\<open>Hip::RuntimeError\<close> when a HIP
  call fails. Nothing is assumed here about what the external functions do.
\<close>

section \<open>Constants of the system headers\<close>

definition EINTR :: int where "EINTR = 4"
definition ENODEV :: int where "ENODEV = 19"
definition EINVAL :: int where "EINVAL = 22"
definition EREMOTEIO :: int where "EREMOTEIO = 121"

lemmas errno_defs = EINTR_def ENODEV_def EINVAL_def EREMOTEIO_def

text \<open>Open flags, \<^verbatim>\<open>statx\<close> masks and file types (Linux on x86-64).\<close>

definition O_CREAT :: "32 word" where "O_CREAT = 0x40"
definition O_DIRECT :: "32 word" where "O_DIRECT = 0x4000"
definition O_CLOEXEC :: "32 word" where "O_CLOEXEC = 0x80000"
definition STATX_TYPE :: "32 word" where "STATX_TYPE = 0x1"
definition STATX_MODE :: "32 word" where "STATX_MODE = 0x2"
definition STATX_DIOALIGN :: "32 word" where "STATX_DIOALIGN = 0x2000"
definition S_IFMT :: "32 word" where "S_IFMT = 0xF000"
definition S_IFBLK :: "32 word" where "S_IFBLK = 0x6000"
definition S_IFREG :: "32 word" where "S_IFREG = 0x8000"
definition AT_EMPTY_PATH :: int where "AT_EMPTY_PATH = 0x1000"
definition F_GETFL :: int where "F_GETFL = 3"
definition LOG_CRIT :: int where "LOG_CRIT = 2"
definition PROT_READ_WRITE :: int where "PROT_READ_WRITE = 3"
definition MAP_PRIVATE_ANONYMOUS :: int where "MAP_PRIVATE_ANONYMOUS = 0x22"

definition S_ISBLK :: "32 word \<Rightarrow> bool" where "S_ISBLK m \<longleftrightarrow> m AND S_IFMT = S_IFBLK"
definition S_ISREG :: "32 word \<Rightarrow> bool" where "S_ISREG m \<longleftrightarrow> m AND S_IFMT = S_IFREG"

section \<open>The external functions\<close>

record statx_buf =
  stx_mask :: "32 word"
  stx_mode :: "32 word"
  stx_dev_major :: "32 word"
  stx_dev_minor :: "32 word"
  stx_dio_mem_align :: uint32_t
  stx_dio_offset_align :: uint32_t

datatype hipMemoryType = hipMemoryTypeDevice | hipMemoryType_enum nat

record hipPointerAttribute_t =
  attr_type :: hipMemoryType
  attr_device :: int

datatype hipMemcpyKind = hipMemcpyHostToDevice | hipMemcpyDeviceToHost

text \<open>The functions of hipFile that the HIP runtime calls back, as values of \<^verbatim>\<open>hipHostFn_t\<close>.\<close>

datatype host_fn = fn_async_io_bind_params | fn_async_io_cpu_copy | fn_async_io_cleanup

text \<open>
  A function that can fail reports it the way the C interface does: with its return value (and
  \<^verbatim>\<open>errno\<close>, part of the world), or with a \<^verbatim>\<open>hipError_t\<close>; out parameters are further results.
  \<open>call_file_fn\<close> calls through a function pointer that \<open>hip_GetProcAddress\<close> returned. The
  functions without a world are read once, when a function-local static of the sources is
  initialised. \<open>mem_load\<close> and \<open>mem_store\<close> are the accesses of GPU threads to memory, and the size
  of \<^verbatim>\<open>AsyncOpFallback\<close> is chosen by the compiler.
\<close>

record 'w ext =
  c_errno :: "'w \<Rightarrow> int"
  c_set_errno :: "int \<Rightarrow> 'w \<Rightarrow> 'w"
  c_open :: "string \<Rightarrow> 32 word \<Rightarrow> 32 word option \<Rightarrow> 'w \<Rightarrow> int \<times> 'w"
  c_close :: "int \<Rightarrow> 'w \<Rightarrow> int \<times> 'w"
  c_fdatasync :: "int \<Rightarrow> 'w \<Rightarrow> int \<times> 'w"
  c_mmap :: "ptr \<Rightarrow> size_t \<Rightarrow> int \<Rightarrow> int \<Rightarrow> int \<Rightarrow> hoff_t \<Rightarrow> 'w \<Rightarrow> ptr \<times> 'w"
  c_munmap :: "ptr \<Rightarrow> size_t \<Rightarrow> 'w \<Rightarrow> int \<times> 'w"
  c_pread :: "int \<Rightarrow> ptr \<Rightarrow> size_t \<Rightarrow> hoff_t \<Rightarrow> 'w \<Rightarrow> int \<times> 'w"
  c_pwrite :: "int \<Rightarrow> ptr \<Rightarrow> size_t \<Rightarrow> hoff_t \<Rightarrow> 'w \<Rightarrow> int \<times> 'w"
  c_statx :: "int \<Rightarrow> string \<Rightarrow> int \<Rightarrow> 32 word \<Rightarrow> 'w \<Rightarrow> (int \<times> statx_buf) \<times> 'w"
  c_fcntl :: "int \<Rightarrow> int \<Rightarrow> 64 word \<Rightarrow> 'w \<Rightarrow> int \<times> 'w"
  c_syslog :: "int \<Rightarrow> string \<Rightarrow> 'w \<Rightarrow> 'w"
  c_makedev :: "32 word \<Rightarrow> 32 word \<Rightarrow> 64 word"
  c_getenv :: "string \<Rightarrow> string option"
  c_sysconf_pagesize :: int
  hip_code :: "hipError_t \<Rightarrow> int"
  hip_RuntimeGetVersion :: "hipError_t \<times> int"
  hip_GetProcAddress :: "string \<Rightarrow> int \<Rightarrow> 64 word \<Rightarrow> hipError_t \<times> ptr"
  hip_PointerGetAttributes :: "ptr \<Rightarrow> 'w \<Rightarrow> (hipError_t \<times> hipPointerAttribute_t) \<times> 'w"
  hip_MemGetAddressRange :: "ptr \<Rightarrow> 'w \<Rightarrow> (hipError_t \<times> ptr \<times> size_t) \<times> 'w"
  hip_Memcpy :: "ptr \<Rightarrow> ptr \<Rightarrow> size_t \<Rightarrow> hipMemcpyKind \<Rightarrow> 'w \<Rightarrow> hipError_t \<times> 'w"
  hip_StreamSynchronize :: "ptr \<Rightarrow> 'w \<Rightarrow> hipError_t \<times> 'w"
  hip_StreamGetDevice :: "ptr \<Rightarrow> 'w \<Rightarrow> (hipError_t \<times> int) \<times> 'w"
  hip_DeviceGetAttribute :: "int \<Rightarrow> 'w \<Rightarrow> (hipError_t \<times> int) \<times> 'w"
  hip_HostMalloc :: "size_t \<Rightarrow> 32 word \<Rightarrow> 'w \<Rightarrow> (hipError_t \<times> ptr) \<times> 'w"
  hip_HostFree :: "ptr \<Rightarrow> 'w \<Rightarrow> hipError_t \<times> 'w"
  hip_HostGetDevicePointer :: "ptr \<Rightarrow> 32 word \<Rightarrow> 'w \<Rightarrow> (hipError_t \<times> ptr) \<times> 'w"
  hip_LaunchHostFunc :: "ptr \<Rightarrow> host_fn \<Rightarrow> ptr \<Rightarrow> 'w \<Rightarrow> hipError_t \<times> 'w"
  hip_LaunchKernel :: "32 word \<Rightarrow> 32 word \<Rightarrow> ptr \<Rightarrow> size_t \<Rightarrow> ptr \<Rightarrow> 'w \<Rightarrow> hipError_t \<times> 'w"
  sizeof_AsyncOpFallback :: size_t
  mem_load :: "ptr \<Rightarrow> 'w \<Rightarrow> byte"
  mem_store :: "ptr \<Rightarrow> byte \<Rightarrow> 'w \<Rightarrow> 'w"
  hip_Init :: "32 word \<Rightarrow> 'w \<Rightarrow> hipError_t \<times> 'w"
  call_file_fn :: "ptr \<Rightarrow> int \<Rightarrow> ptr \<Rightarrow> 64 word \<Rightarrow> 64 word \<Rightarrow> 'w \<Rightarrow>
     (hipError_t \<times> 64 word \<times> int) \<times> 'w"
  mnt_new_context :: "'w \<Rightarrow> ptr \<times> 'w"
  mnt_free_context :: "ptr \<Rightarrow> 'w \<Rightarrow> 'w"
  mnt_context_get_mtab :: "ptr \<Rightarrow> 'w \<Rightarrow> (int \<times> ptr) \<times> 'w"
  mnt_table_find_devno :: "ptr \<Rightarrow> 64 word \<Rightarrow> 'w \<Rightarrow> ptr \<times> 'w"
  mnt_fs_get_fstype :: "ptr \<Rightarrow> 'w \<Rightarrow> string \<times> 'w"
  mnt_fs_get_option :: "ptr \<Rightarrow> string \<Rightarrow> 'w \<Rightarrow> (int \<times> string) \<times> 'w"

text \<open>
  The state of the library is a record that each component extends with its own fields; its
  root holds the world.
\<close>

record 'w sys_state =
  world :: 'w

definition call_ext :: "('w \<Rightarrow> 'a \<times> 'w) \<Rightarrow> (('w, 'z) sys_state_scheme, 'a) cxx" where
  "call_ext f s = (case f (world s) of (a, w) \<Rightarrow> (Ret a, s\<lparr>world := w\<rparr>))"

lemma call_ext_apply [cxx_simps]:
  "call_ext f s = (Ret (fst (f (world s))), s\<lparr>world := snd (f (world s))\<rparr>)"
  by (simp add: call_ext_def split: prod.splits)

section \<open>The wrapper class Sys\<close>

definition throwOn :: "'w ext \<Rightarrow> 'a \<Rightarrow> 'a \<Rightarrow> (('w, 'z) sys_state_scheme, 'a) cxx" where
  "throwOn x throw_value value s =
     (if throw_value = value then (Exn (Std_system_error (c_errno x (world s))), s)
      else (Ret value, s))"

definition Sys_open ::
  "'w ext \<Rightarrow> string \<Rightarrow> 32 word \<Rightarrow> 32 word \<Rightarrow> (('w, 'z) sys_state_scheme, int) cxx" where
  "Sys_open x pathname flags mode =
     (if flags AND O_CREAT \<noteq> 0
      then cbind (call_ext (c_open x pathname flags (Some mode))) (throwOn x (-1))
      else cbind (call_ext (c_open x pathname flags None)) (throwOn x (-1)))"

definition Sys_close :: "'w ext \<Rightarrow> int \<Rightarrow> (('w, 'z) sys_state_scheme, unit) cxx" where
  "Sys_close x fd = cbind (cbind (call_ext (c_close x fd)) (throwOn x (-1))) (\<lambda>_. cret ())"

definition Sys_fdatasync :: "'w ext \<Rightarrow> int \<Rightarrow> (('w, 'z) sys_state_scheme, unit) cxx" where
  "Sys_fdatasync x fd =
     cbind (cbind (call_ext (c_fdatasync x fd)) (throwOn x (-1))) (\<lambda>_. cret ())"

definition Sys_mmap ::
  "'w ext \<Rightarrow> ptr \<Rightarrow> size_t \<Rightarrow> int \<Rightarrow> int \<Rightarrow> int \<Rightarrow> hoff_t \<Rightarrow> (('w, 'z) sys_state_scheme, ptr) cxx" where
  "Sys_mmap x addr len prot flags fd offset =
     cbind (call_ext (c_mmap x addr len prot flags fd offset)) (throwOn x (-1))"

definition Sys_munmap ::
  "'w ext \<Rightarrow> ptr \<Rightarrow> size_t \<Rightarrow> (('w, 'z) sys_state_scheme, unit) cxx" where
  "Sys_munmap x addr len =
     cbind (cbind (call_ext (c_munmap x addr len)) (throwOn x (-1))) (\<lambda>_. cret ())"

definition Sys_pread ::
  "'w ext \<Rightarrow> int \<Rightarrow> ptr \<Rightarrow> size_t \<Rightarrow> hoff_t \<Rightarrow> (('w, 'z) sys_state_scheme, int) cxx" where
  "Sys_pread x fd buf count offset =
     cbind (call_ext (c_pread x fd buf count offset)) (throwOn x (-1))"

definition Sys_pwrite ::
  "'w ext \<Rightarrow> int \<Rightarrow> ptr \<Rightarrow> size_t \<Rightarrow> hoff_t \<Rightarrow> (('w, 'z) sys_state_scheme, int) cxx" where
  "Sys_pwrite x fd buf count offset =
     cbind (call_ext (c_pwrite x fd buf count offset)) (throwOn x (-1))"

definition Sys_syslog :: "'w ext \<Rightarrow> int \<Rightarrow> string \<Rightarrow> (('w, 'z) sys_state_scheme, unit) cxx" where
  "Sys_syslog x priority msg = call_ext (\<lambda>w. ((), c_syslog x priority msg w))"

definition Sys_fcntl ::
  "'w ext \<Rightarrow> int \<Rightarrow> int \<Rightarrow> 64 word \<Rightarrow> (('w, 'z) sys_state_scheme, int) cxx" where
  "Sys_fcntl x fd op arg = cbind (call_ext (c_fcntl x fd op arg)) (throwOn x (-1))"

definition Sys_statx ::
  "'w ext \<Rightarrow> int \<Rightarrow> string \<Rightarrow> int \<Rightarrow> 32 word \<Rightarrow> (('w, 'z) sys_state_scheme, statx_buf) cxx" where
  "Sys_statx x dirfd pathname flags stx_request =
     cbind (call_ext (c_statx x dirfd pathname flags stx_request)) (\<lambda>(r, statxbuf).
       cbind (throwOn x (-1) r) (\<lambda>_. cret statxbuf))"

text \<open>Two wrappers that no modelled component calls, over the call itself.\<close>

definition Sys_readlink ::
  "'w ext \<Rightarrow> (string \<Rightarrow> size_t \<Rightarrow> 'w \<Rightarrow> (int \<times> string) \<times> 'w) \<Rightarrow> string \<Rightarrow> size_t \<Rightarrow>
     (('w, 'z) sys_state_scheme, int \<times> string) cxx" where
  "Sys_readlink x c_readlink pathname bufsize =
     cbind (call_ext (c_readlink pathname bufsize)) (\<lambda>(r, buf). cbind (throwOn x (-1) r) (\<lambda>n. cret (n, buf)))"

definition Sys_fstat ::
  "'w ext \<Rightarrow> (int \<Rightarrow> 'w \<Rightarrow> (int \<times> 'b) \<times> 'w) \<Rightarrow> int \<Rightarrow> (('w, 'z) sys_state_scheme, 'b) cxx" where
  "Sys_fstat x c_fstat fd =
     cbind (call_ext (c_fstat fd)) (\<lambda>(r, statbuf). cbind (throwOn x (-1) r) (\<lambda>_. cret statbuf))"

definition Sys_getenv :: "'w ext \<Rightarrow> string \<Rightarrow> string option" where
  "Sys_getenv x name = c_getenv x name"

section \<open>The wrapper class Hip\<close>

definition throwOnHipError :: "hipError_t \<Rightarrow> ('s, hipError_t) cxx" where
  "throwOnHipError error =
     (if hipSuccess \<noteq> error then cthrow (Hip_RuntimeError error) else cret error)"

definition hip_call1 ::
  "('w \<Rightarrow> (hipError_t \<times> 'a) \<times> 'w) \<Rightarrow> (('w, 'z) sys_state_scheme, 'a) cxx" where
  "hip_call1 f = cbind (call_ext f) (\<lambda>(e, a). cbind (throwOnHipError e) (\<lambda>_. cret a))"

definition hip_call0 ::
  "('w \<Rightarrow> hipError_t \<times> 'w) \<Rightarrow> (('w, 'z) sys_state_scheme, unit) cxx" where
  "hip_call0 f = cbind (call_ext f) (\<lambda>e. cbind (throwOnHipError e) (\<lambda>_. cret ()))"

definition hipPointerGetAttributes ::
  "'w ext \<Rightarrow> ptr \<Rightarrow> (('w, 'z) sys_state_scheme, hipPointerAttribute_t) cxx" where
  "hipPointerGetAttributes x p = hip_call1 (hip_PointerGetAttributes x p)"

definition hipMemcpy ::
  "'w ext \<Rightarrow> ptr \<Rightarrow> ptr \<Rightarrow> size_t \<Rightarrow> hipMemcpyKind \<Rightarrow> (('w, 'z) sys_state_scheme, unit) cxx" where
  "hipMemcpy x dst src sizeBytes kind = hip_call0 (hip_Memcpy x dst src sizeBytes kind)"

definition hipStreamSynchronize :: "'w ext \<Rightarrow> ptr \<Rightarrow> (('w, 'z) sys_state_scheme, unit) cxx" where
  "hipStreamSynchronize x stream = hip_call0 (hip_StreamSynchronize x stream)"

definition hipHostMalloc ::
  "'w ext \<Rightarrow> size_t \<Rightarrow> 32 word \<Rightarrow> (('w, 'z) sys_state_scheme, ptr) cxx" where
  "hipHostMalloc x sz flags = hip_call1 (hip_HostMalloc x sz flags)"

definition hipHostFree :: "'w ext \<Rightarrow> ptr \<Rightarrow> (('w, 'z) sys_state_scheme, unit) cxx" where
  "hipHostFree x p = hip_call0 (hip_HostFree x p)"

definition hipHostGetDevicePointer ::
  "'w ext \<Rightarrow> ptr \<Rightarrow> 32 word \<Rightarrow> (('w, 'z) sys_state_scheme, ptr) cxx" where
  "hipHostGetDevicePointer x hstPtr flags = hip_call1 (hip_HostGetDevicePointer x hstPtr flags)"

definition hipMemGetAddressRange ::
  "'w ext \<Rightarrow> ptr \<Rightarrow> (('w, 'z) sys_state_scheme, ptr \<times> size_t) cxx" where
  "hipMemGetAddressRange x dptr = hip_call1 (hip_MemGetAddressRange x dptr)"

definition hipDeviceGetAttribute :: "'w ext \<Rightarrow> int \<Rightarrow> (('w, 'z) sys_state_scheme, int) cxx" where
  "hipDeviceGetAttribute x device_id = hip_call1 (hip_DeviceGetAttribute x device_id)"

definition hipStreamGetDevice :: "'w ext \<Rightarrow> ptr \<Rightarrow> (('w, 'z) sys_state_scheme, int) cxx" where
  "hipStreamGetDevice x stream = hip_call1 (hip_StreamGetDevice x stream)"

definition hipLaunchHostFunc ::
  "'w ext \<Rightarrow> ptr \<Rightarrow> host_fn \<Rightarrow> ptr \<Rightarrow> (('w, 'z) sys_state_scheme, unit) cxx" where
  "hipLaunchHostFunc x stream fn user_data = hip_call0 (hip_LaunchHostFunc x stream fn user_data)"

text \<open>
  The library has one kernel, \<^verbatim>\<open>hipFileMemcpyKernel\<close>, with one argument, and launches it in one
  dimension.
\<close>

definition hipLaunchKernel ::
  "'w ext \<Rightarrow> 32 word \<Rightarrow> 32 word \<Rightarrow> ptr \<Rightarrow> size_t \<Rightarrow> ptr \<Rightarrow> (('w, 'z) sys_state_scheme, unit) cxx" where
  "hipLaunchKernel x numBlocks dimBlocks arg sharedMemBytes stream =
     hip_call0 (hip_LaunchKernel x numBlocks dimBlocks arg sharedMemBytes stream)"

definition hipInit :: "'w ext \<Rightarrow> (('w, 'z) sys_state_scheme, unit) cxx" where
  "hipInit x = hip_call0 (hip_Init x 0)"

definition hipRuntimeGetVersion :: "'w ext \<Rightarrow> ('s, int) cxx" where
  "hipRuntimeGetVersion x =
     (case hip_RuntimeGetVersion x of (e, version) \<Rightarrow> cbind (throwOnHipError e) (\<lambda>_. cret version))"

definition hipGetProcAddress :: "'w ext \<Rightarrow> string \<Rightarrow> int \<Rightarrow> 64 word \<Rightarrow> ('s, ptr) cxx" where
  "hipGetProcAddress x symbol hipVersion flags =
     (case hip_GetProcAddress x symbol hipVersion flags of (e, p) \<Rightarrow> cbind (throwOnHipError e) (\<lambda>_. cret p))"

text \<open>
  \<^verbatim>\<open>hipGetProcAddressHelper\<close> swallows every exception, so a failing runtime looks like a runtime
  without the symbol.
\<close>

definition hipGetProcAddressHelper :: "'w ext \<Rightarrow> string \<Rightarrow> ptr" where
  "hipGetProcAddressHelper x symbol =
     (case hip_RuntimeGetVersion x of (e, hip_version) \<Rightarrow>
        if e \<noteq> hipSuccess then nullptr
        else (case hip_GetProcAddress x symbol hip_version 0 of (e', p) \<Rightarrow>
                if e' \<noteq> hipSuccess then nullptr else p))"

lemma hipGetProcAddressHelper_catches:
  "ccatch (cbind (hipRuntimeGetVersion x) (\<lambda>version. hipGetProcAddress x symbol version 0)) (\<lambda>_. cret nullptr) s =
     (Ret (hipGetProcAddressHelper x symbol), s)"
  by (auto simp: hipGetProcAddressHelper_def hipRuntimeGetVersion_def hipGetProcAddress_def throwOnHipError_def
      ccatch_def cbind_def cret_def cthrow_def split: prod.splits)

definition getHipAmdFileReadPtr :: "'w ext \<Rightarrow> ptr" where
  "getHipAmdFileReadPtr x = hipGetProcAddressHelper x ''hipAmdFileRead''"

definition getHipAmdFileWritePtr :: "'w ext \<Rightarrow> ptr" where
  "getHipAmdFileWritePtr x = hipGetProcAddressHelper x ''hipAmdFileWrite''"

definition hipAmdFile_result ::
  "'w ext \<Rightarrow> hipError_t \<times> 64 word \<times> int \<Rightarrow> ('s, 64 word) cxx" where
  "hipAmdFile_result x r =
     (case r of (hip_error, nbytes, status) \<Rightarrow>
        if status \<noteq> 0 then cthrow (Std_system_error \<bar>status\<bar>)
        else if hip_code x hip_error \<noteq> 0 then cthrow (Hip_RuntimeError hip_error)
        else cret nbytes)"

definition hipAmdFileRead ::
  "'w ext \<Rightarrow> int \<Rightarrow> ptr \<Rightarrow> 64 word \<Rightarrow> 64 word \<Rightarrow> (('w, 'z) sys_state_scheme, 64 word) cxx" where
  "hipAmdFileRead x fd devicePtr sz file_offset =
     (if getHipAmdFileReadPtr x = nullptr then cthrow Hip_SymbolNotFound
      else cbind (call_ext (call_file_fn x (getHipAmdFileReadPtr x) fd devicePtr sz file_offset))
             (hipAmdFile_result x))"

definition hipAmdFileWrite ::
  "'w ext \<Rightarrow> int \<Rightarrow> ptr \<Rightarrow> 64 word \<Rightarrow> 64 word \<Rightarrow> (('w, 'z) sys_state_scheme, 64 word) cxx" where
  "hipAmdFileWrite x fd devicePtr sz file_offset =
     (if getHipAmdFileWritePtr x = nullptr then cthrow Hip_SymbolNotFound
      else cbind (call_ext (call_file_fn x (getHipAmdFileWritePtr x) fd devicePtr sz file_offset))
             (hipAmdFile_result x))"

section \<open>What a wrapper call does\<close>

lemma throwOn_apply [cxx_simps]:
  "throwOn x tv v s =
     (if tv = v then Exn (Std_system_error (c_errno x (world s))) else Ret v, s)"
  by (simp add: throwOn_def)

text \<open>
  A wrapper changes nothing of the library's state but the world, and it either returns or
  throws: it never ends the process. The predicate is closed under the combinators.
\<close>

definition world_only :: "(('w, 'z) sys_state_scheme, 'a) cxx \<Rightarrow> bool" where
  "world_only m \<longleftrightarrow> (\<forall>s. fst (m s) \<noteq> Terminate \<and> (\<exists>w. snd (m s) = s\<lparr>world := w\<rparr>))"

lemma world_only_call_ext [intro]: "world_only (call_ext f)"
  by (auto simp: world_only_def cxx_simps)

lemma world_unchanged: "\<exists>w. s = s\<lparr>world := w\<rparr>"
  by (rule exI [of _ "world s"]) simp

lemma world_only_cret [intro]: "world_only (cret a)"
  by (simp add: world_only_def cxx_simps world_unchanged)

lemma world_only_cthrow [intro]: "world_only (cthrow e)"
  by (simp add: world_only_def cxx_simps world_unchanged)

lemma world_only_throwOn [intro]: "world_only (throwOn x tv v)"
  by (simp add: world_only_def cxx_simps world_unchanged)

lemma world_only_cbind [intro]:
  assumes m: "world_only m" and k: "\<And>a. world_only (k a)"
  shows "world_only (cbind m k)"
  unfolding world_only_def
proof
  fix s
  obtain r w where ms: "m s = (r, s\<lparr>world := w\<rparr>)" and r: "r \<noteq> Terminate"
    using m unfolding world_only_def by (metis prod.collapse)
  show "fst (cbind m k s) \<noteq> Terminate \<and> (\<exists>w. snd (cbind m k s) = s\<lparr>world := w\<rparr>)"
  proof (cases r)
    case (Ret a)
    obtain w' where "snd (k a (s\<lparr>world := w\<rparr>)) = s\<lparr>world := w\<rparr>\<lparr>world := w'\<rparr>"
      and "fst (k a (s\<lparr>world := w\<rparr>)) \<noteq> Terminate"
      using k [of a] unfolding world_only_def by blast
    then show ?thesis by (auto simp: cbind_def ms Ret)
  qed (use ms r in \<open>auto simp: cbind_def\<close>)
qed

lemma world_only_ccatch [intro]:
  assumes m: "world_only m" and h: "\<And>e. world_only (h e)"
  shows "world_only (ccatch m h)"
  unfolding world_only_def
proof
  fix s
  obtain r w where ms: "m s = (r, s\<lparr>world := w\<rparr>)" and r: "r \<noteq> Terminate"
    using m unfolding world_only_def by (metis prod.collapse)
  show "fst (ccatch m h s) \<noteq> Terminate \<and> (\<exists>w. snd (ccatch m h s) = s\<lparr>world := w\<rparr>)"
  proof (cases r)
    case (Exn e)
    obtain w' where "snd (h e (s\<lparr>world := w\<rparr>)) = s\<lparr>world := w\<rparr>\<lparr>world := w'\<rparr>"
      and "fst (h e (s\<lparr>world := w\<rparr>)) \<noteq> Terminate"
      using h [of e] unfolding world_only_def by blast
    then show ?thesis by (auto simp: ccatch_def ms Exn)
  qed (use ms r in \<open>auto simp: ccatch_def\<close>)
qed

lemma world_only_if [intro]:
  "world_only m \<Longrightarrow> world_only n \<Longrightarrow> world_only (if b then m else n)"
  by simp

lemma world_only_case_prod [intro]:
  "(\<And>a b. world_only (f a b)) \<Longrightarrow> world_only (case p of (a, b) \<Rightarrow> f a b)"
  by (simp split: prod.splits)

lemma world_only_throwOnHipError [intro]: "world_only (throwOnHipError e)"
  by (auto simp: throwOnHipError_def)

lemma world_only_hip_call1 [intro]: "world_only (hip_call1 f)"
  unfolding hip_call1_def by (intro world_only_cbind world_only_case_prod) auto

lemma world_only_hip_call0 [intro]: "world_only (hip_call0 f)"
  by (auto simp: hip_call0_def)

lemma world_only_apply:
  assumes "world_only m" and "m s = (r, t)"
  shows "t = s\<lparr>world := world t\<rparr>" and "r \<noteq> Terminate"
proof -
  from assms obtain w where "t = s\<lparr>world := w\<rparr>"
    unfolding world_only_def by (metis snd_conv)
  then show "t = s\<lparr>world := world t\<rparr>" by simp
  from assms show "r \<noteq> Terminate"
    unfolding world_only_def by (metis fst_conv)
qed

lemma never_ends_world_only: "world_only m \<Longrightarrow> never_ends m"
  by (simp add: world_only_def never_ends_def)

lemma world_onlyE [consumes 1, case_names ret exn]:
  assumes "world_only m"
  obtains (ret) a w where "m s = (Ret a, s\<lparr>world := w\<rparr>)"
    | (exn) e w where "m s = (Exn e, s\<lparr>world := w\<rparr>)"
  using assms unfolding world_only_def
  by (metis outcome.exhaust prod.collapse)

lemma oloop_world:
  assumes "\<And>a. world_only (body a)" and "oloop body a s = Some (r, t)"
  shows "\<exists>w. t = s\<lparr>world := w\<rparr>" and "r \<noteq> Terminate"
proof -
  have step: "(\<exists>w. v = s\<lparr>world := w\<rparr>) \<and> q \<noteq> Terminate"
    if ex: "\<exists>w. u = s\<lparr>world := w\<rparr>" and b: "body a u = (q, v)" for a u q v
  proof -
    from assms(1) [of a] obtain w' where v: "v = u\<lparr>world := w'\<rparr>" and q: "q \<noteq> Terminate"
      unfolding world_only_def using b by (metis fst_conv snd_conv)
    from ex obtain w where u: "u = s\<lparr>world := w\<rparr>" by blast
    have "v = s\<lparr>world := w'\<rparr>" by (simp add: u v)
    with q show ?thesis by blast
  qed
  have "(\<exists>w. t = s\<lparr>world := w\<rparr>) \<and> r \<noteq> Terminate"
  proof (rule oloop_inv [OF assms(2), where I = "\<lambda>_ u. \<exists>w. u = s\<lparr>world := w\<rparr>"])
    show "\<exists>w. s = s\<lparr>world := w\<rparr>" by (rule exI [of _ "world s"]) simp
  qed (use step in \<open>blast+\<close>)
  then show "\<exists>w. t = s\<lparr>world := w\<rparr>" and "r \<noteq> Terminate" by simp_all
qed

end
