(* ===== verification/Mount_Info.thy ===== *)
theory Mount_Info
  imports Externals
begin

text \<open>
  \<^verbatim>\<open>LibMountHelper::getMountInfo\<close> (\<^verbatim>\<open>src/amd_detail/mountinfo.cpp\<close>): classifies the file system
  behind a device number by asking libmount for its type and, for ext4, for its journaling mode.
\<close>

datatype FilesystemType = FS_ext4 | FS_xfs | FS_other

datatype ExtJournalingMode = JM_journal | JM_ordered | JM_writeback | JM_unknown

text \<open>\<^verbatim>\<open>MountOptions\<close> is a union whose only member is the ext4 journaling mode, zero-initialised.\<close>

record MountInfo =
  mi_type :: FilesystemType
  mi_journaling_mode :: ExtJournalingMode

definition journaling_mode_of :: "string \<Rightarrow> ExtJournalingMode" where
  "journaling_mode_of value =
     (if value = ''ordered'' then JM_ordered
      else if value = ''journal'' then JM_journal
      else if value = ''writeback'' then JM_writeback
      else JM_unknown)"

definition mnt_free :: "'w ext \<Rightarrow> ptr \<Rightarrow> (('w, 'z) sys_state_scheme, unit) cxx" where
  "mnt_free x ctx = call_ext (\<lambda>w. ((), mnt_free_context x ctx w))"

text \<open>
  A context is freed on every path by its deleter. libmount documents a null type only for a null file system,
  which the function has excluded before it asks, so that the type is a string here.
\<close>

definition getMountInfo ::
  "'w ext \<Rightarrow> 64 word \<Rightarrow> (('w, 'z) sys_state_scheme, MountInfo option) cxx" where
  "getMountInfo x dev =
     cbind (call_ext (mnt_new_context x)) (\<lambda>mnt_ctx.
     if mnt_ctx = nullptr then cthrow Std_runtime_error
     else cbind (call_ext (mnt_context_get_mtab x mnt_ctx)) (\<lambda>(rc, mnt_tbl).
     if rc \<noteq> 0 then cbind (mnt_free x mnt_ctx) (\<lambda>_. cthrow Std_runtime_error)
     else cbind (call_ext (mnt_table_find_devno x mnt_tbl dev)) (\<lambda>mnt_fs.
     if mnt_fs = nullptr then cbind (mnt_free x mnt_ctx) (\<lambda>_. cret None)
     else cbind (call_ext (mnt_fs_get_fstype x mnt_fs)) (\<lambda>fstype.
     cbind
       (if fstype = ''ext4''
        then cbind (call_ext (mnt_fs_get_option x mnt_fs ''data'')) (\<lambda>(rc, value).
               if rc = 0 then cret \<lparr>mi_type = FS_ext4, mi_journaling_mode = journaling_mode_of value\<rparr>
               else if rc = 1 then cret \<lparr>mi_type = FS_ext4, mi_journaling_mode = JM_ordered\<rparr>
               else cbind (mnt_free x mnt_ctx) (\<lambda>_. cthrow Std_runtime_error))
        else if fstype = ''xfs''
        then cret \<lparr>mi_type = FS_xfs, mi_journaling_mode = JM_journal\<rparr>
        else cret \<lparr>mi_type = FS_other, mi_journaling_mode = JM_journal\<rparr>)
       (\<lambda>mountinfo. cbind (mnt_free x mnt_ctx) (\<lambda>_. cret (Some mountinfo)))))))"

lemma world_only_getMountInfo [intro]: "world_only (getMountInfo x dev)"
  unfolding getMountInfo_def mnt_free_def
  by (intro world_only_cbind world_only_if world_only_case_prod) auto

text \<open>
  What libmount documents about its contexts, for a ledger of the live ones: a new context is
  not live before, freeing one removes it, and no other call changes the ledger.
\<close>

definition mnt_ledger :: "'w ext \<Rightarrow> ('w \<Rightarrow> ptr set) \<Rightarrow> bool" where
  "mnt_ledger x live \<longleftrightarrow>
     (\<forall>w c w'. mnt_new_context x w = (c, w') \<longrightarrow>
        (if c = nullptr then live w' = live w else c \<notin> live w \<and> live w' = insert c (live w))) \<and>
     (\<forall>c w. live (mnt_free_context x c w) = live w - {c}) \<and>
     (\<forall>c w. live (snd (mnt_context_get_mtab x c w)) = live w) \<and>
     (\<forall>t d w. live (snd (mnt_table_find_devno x t d w)) = live w) \<and>
     (\<forall>f w. live (snd (mnt_fs_get_fstype x f w)) = live w) \<and>
     (\<forall>f n w. live (snd (mnt_fs_get_option x f n w)) = live w)"

lemma getMountInfo_frees:
  assumes "mnt_ledger x live"
  shows "live (world (snd (getMountInfo x dev s))) = live (world s)"
proof -
  obtain c w1 where c: "mnt_new_context x (world s) = (c, w1)" by fastforce
  obtain rc tb w2 where m: "mnt_context_get_mtab x c w1 = ((rc, tb), w2)" by (metis prod.collapse)
  obtain fs w3 where f: "mnt_table_find_devno x tb dev w2 = (fs, w3)" by fastforce
  obtain ty w4 where y: "mnt_fs_get_fstype x fs w3 = (ty, w4)" by fastforce
  obtain rc' v w5 where p: "mnt_fs_get_option x fs ''data'' w4 = ((rc', v), w5)" by (metis prod.collapse)
  note L = assms [unfolded mnt_ledger_def]
  note new = L [THEN conjunct1, rule_format, OF c]
    and free = L [THEN conjunct2, THEN conjunct1, rule_format, of c]
    and rest = L [THEN conjunct2, THEN conjunct2]
  have "live (snd (mnt_context_get_mtab x c w1)) = live w1"
    "live (snd (mnt_table_find_devno x tb dev w2)) = live w2"
    "live (snd (mnt_fs_get_fstype x fs w3)) = live w3"
    "live (snd (mnt_fs_get_option x fs ''data'' w4)) = live w4"
    using rest by simp_all
  then have led: "live w2 = live w1" "live w3 = live w2" "live w4 = live w3" "live w5 = live w4"
    by (simp_all add: m f y p)
  show ?thesis
    using new free led
    by (simp add: getMountInfo_def mnt_free_def cbind_def call_ext_def cthrow_def cret_def c m f y p)
qed

end
