(* ===== verification/Configuration.thy ===== *)
theory Configuration
  imports Externals
begin

text \<open>
  \<^verbatim>\<open>Environment\<close> and \<^verbatim>\<open>Configuration\<close> (\<^verbatim>\<open>src/amd_detail/environment.cpp\<close>,
  \<^verbatim>\<open>src/amd_detail/configuration.cpp\<close>): parsing of the \<^verbatim>\<open>HIPFILE_*\<close> variables and the switches that
  enable the two backends. The function-local statics of \<^verbatim>\<open>Configuration\<close> are initialised once,
  so the environment and the symbols of the HIP runtime are read as constants.
\<close>

section \<open>C library parsing\<close>

definition code_of :: "char \<Rightarrow> nat" where
  "code_of c = of_char c"

definition to_lower :: "char \<Rightarrow> char" where
  "to_lower c = (if 65 \<le> code_of c \<and> code_of c \<le> 90 then char_of (code_of c + 32) else c)"

definition strcasecmp_eq :: "string \<Rightarrow> string \<Rightarrow> bool" where
  "strcasecmp_eq a b \<longleftrightarrow> map to_lower a = map to_lower b"

definition is_space :: "char \<Rightarrow> bool" where
  "is_space c \<longleftrightarrow> code_of c = 32 \<or> 9 \<le> code_of c \<and> code_of c \<le> 13"

definition is_digit :: "char \<Rightarrow> bool" where
  "is_digit c \<longleftrightarrow> 48 \<le> code_of c \<and> code_of c \<le> 57"

definition digit_val :: "char \<Rightarrow> nat" where
  "digit_val c = code_of c - 48"

fun digits_val :: "nat \<Rightarrow> string \<Rightarrow> nat" where
  "digits_val acc [] = acc"
| "digits_val acc (c # cs) = digits_val (10 * acc + digit_val c) cs"

definition ULONG_MAX :: nat where "ULONG_MAX = 2 ^ 64 - 1"
definition UINT_MAX :: nat where "UINT_MAX = 2 ^ 32 - 1"

text \<open>
  \<^verbatim>\<open>strtoul (value, &end, 10)\<close>: the result, the rest of the string at \<open>end\<close>, and whether
  \<^verbatim>\<open>errno\<close> was set to \<^verbatim>\<open>ERANGE\<close>. White space and one sign may come first; a negative number is
  negated in the unsigned type; without digits nothing is consumed.
\<close>

definition strtoul10 :: "string \<Rightarrow> nat \<times> string \<times> bool" where
  "strtoul10 value =
     (let body = dropWhile is_space value;
          neg = (body \<noteq> [] \<and> hd body = CHR ''-'');
          unsigned_part = (if body \<noteq> [] \<and> hd body \<in> {CHR ''-'', CHR ''+''} then tl body else body);
          ds = takeWhile is_digit unsigned_part;
          n = digits_val 0 ds
      in if ds = [] then (0, value, False)
         else if n > ULONG_MAX then (ULONG_MAX, dropWhile is_digit unsigned_part, True)
         else (if neg then (2 ^ 64 - n) mod 2 ^ 64 else n, dropWhile is_digit unsigned_part, False))"

section \<open>Environment\<close>

definition Environment_get_bool :: "'w ext \<Rightarrow> string \<Rightarrow> bool option" where
  "Environment_get_bool x key =
     (case Sys_getenv x key of
        None \<Rightarrow> None
      | Some value \<Rightarrow>
          if strcasecmp_eq value ''true'' then Some True
          else if strcasecmp_eq value ''false'' then Some False
          else None)"

text \<open>
  \<^verbatim>\<open>Environment::get<unsigned>\<close>. Its assignment \<^verbatim>\<open>errno = 0\<close> before the conversion is only used to detect
  \<^verbatim>\<open>ERANGE\<close>, which is the flag of \<open>strtoul10\<close>; that \<^verbatim>\<open>errno\<close> stays 0 for the caller is not modelled.
\<close>

definition Environment_get_uint :: "'w ext \<Rightarrow> string \<Rightarrow> nat option" where
  "Environment_get_uint x key =
     (case Sys_getenv x key of
        None \<Rightarrow> None
      | Some value \<Rightarrow>
          (case strtoul10 value of (n, rest, erange) \<Rightarrow>
             if erange then None
             else if rest = value then None
             else if rest \<noteq> [] then None
             else if n > UINT_MAX then Some UINT_MAX
             else Some n))"

definition allow_compat_mode :: "'w ext \<Rightarrow> bool option" where
  "allow_compat_mode x = Environment_get_bool x ''HIPFILE_ALLOW_COMPAT_MODE''"

definition force_compat_mode :: "'w ext \<Rightarrow> bool option" where
  "force_compat_mode x = Environment_get_bool x ''HIPFILE_FORCE_COMPAT_MODE''"

definition unsupported_file_systems :: "'w ext \<Rightarrow> bool option" where
  "unsupported_file_systems x = Environment_get_bool x ''HIPFILE_UNSUPPORTED_FILE_SYSTEMS''"

definition stats_level :: "'w ext \<Rightarrow> nat option" where
  "stats_level x = Environment_get_uint x ''HIPFILE_STATS_LEVEL''"

section \<open>Configuration\<close>

record 'w cfg_state = "'w sys_state" +
  m_fastpath_override :: "bool option"
  m_fallback_override :: "bool option"

definition value_or :: "'a option \<Rightarrow> 'a \<Rightarrow> 'a" where
  "value_or v d = (case v of None \<Rightarrow> d | Some a \<Rightarrow> a)"

definition Configuration_fastpath :: "'w ext \<Rightarrow> ('w, 'z) cfg_state_scheme \<Rightarrow> bool" where
  "Configuration_fastpath x s =
     (let fastpath_env = \<not> value_or (force_compat_mode x) False;
          readExists = (getHipAmdFileReadPtr x \<noteq> nullptr);
          writeExists = (getHipAmdFileWritePtr x \<noteq> nullptr)
      in readExists \<and> writeExists \<and> value_or (m_fastpath_override s) fastpath_env)"

definition Configuration_set_fastpath :: "bool \<Rightarrow> (('w, 'z) cfg_state_scheme, unit) cxx" where
  "Configuration_set_fastpath enabled = cmodify (\<lambda>s. s\<lparr>m_fastpath_override := Some enabled\<rparr>)"

definition Configuration_fallback :: "'w ext \<Rightarrow> ('w, 'z) cfg_state_scheme \<Rightarrow> bool" where
  "Configuration_fallback x s =
     (let fallback_env = value_or (allow_compat_mode x) True
      in value_or (m_fallback_override s) fallback_env)"

definition Configuration_set_fallback :: "bool \<Rightarrow> (('w, 'z) cfg_state_scheme, unit) cxx" where
  "Configuration_set_fallback enabled = cmodify (\<lambda>s. s\<lparr>m_fallback_override := Some enabled\<rparr>)"

definition Configuration_statsLevel :: "'w ext \<Rightarrow> nat" where
  "Configuration_statsLevel x = value_or (stats_level x) 0"

definition Configuration_unsupportedFileSystems :: "'w ext \<Rightarrow> bool" where
  "Configuration_unsupportedFileSystems x = value_or (unsupported_file_systems x) False"

lemma fastpath_world [simp]:
  "Configuration_fastpath x (s\<lparr>world := w\<rparr>) = Configuration_fastpath x s"
  by (simp add: Configuration_fastpath_def)

lemma fallback_world [simp]:
  "Configuration_fallback x (s\<lparr>world := w\<rparr>) = Configuration_fallback x s"
  by (simp add: Configuration_fallback_def)

end
