(* ===== verification/Shared_Ptr.thy ===== *)
theory Shared_Ptr
  imports Prelude
begin

text \<open>
  The part of \<^verbatim>\<open>std::shared_ptr\<close> that the sources rely on. A store maps the address of a live
  object to the object and the use count of its control block. Copying a pointer adds a use,
  dropping one removes it, and the object is destroyed with its last use. The number of pointers
  that exist is tracked separately by an ownership function; \<open>sp_owned\<close> says that the
  counters agree with it, and each operation is shown to keep the agreement.
\<close>

type_synonym 'a store = "ptr \<rightharpoonup> 'a \<times> nat"

definition sp_make :: "ptr \<Rightarrow> 'a \<Rightarrow> 'a store \<Rightarrow> 'a store" where
  "sp_make p x h = h(p \<mapsto> (x, 1))"

definition sp_copy :: "ptr \<Rightarrow> 'a store \<Rightarrow> 'a store" where
  "sp_copy p h = (case h p of None \<Rightarrow> h | Some (x, n) \<Rightarrow> h(p \<mapsto> (x, Suc n)))"

definition sp_release :: "ptr \<Rightarrow> 'a store \<Rightarrow> 'a option \<times> 'a store" where
  "sp_release p h =
     (case h p of
        None \<Rightarrow> (None, h)
      | Some (x, n) \<Rightarrow> if n \<le> 1 then (Some x, h(p := None)) else (None, h(p \<mapsto> (x, n - 1))))"

definition sp_use_count :: "ptr \<Rightarrow> 'a store \<Rightarrow> nat" where
  "sp_use_count p h = (case h p of None \<Rightarrow> 0 | Some (_, n) \<Rightarrow> n)"

definition sp_obj :: "ptr \<Rightarrow> 'a store \<Rightarrow> 'a option" where
  "sp_obj p h = map_option fst (h p)"

primrec sp_release_all :: "ptr list \<Rightarrow> 'a store \<Rightarrow> 'a store" where
  "sp_release_all [] h = h"
| "sp_release_all (p # ps) h = sp_release_all ps (snd (sp_release p h))"

type_synonym owners = "ptr \<Rightarrow> nat"

definition sp_owned :: "owners \<Rightarrow> 'a store \<Rightarrow> bool" where
  "sp_owned own h \<longleftrightarrow>
     (\<forall>p. case h p of None \<Rightarrow> own p = 0 | Some (x, n) \<Rightarrow> n = own p \<and> 0 < n)"

lemma sp_owned_cases:
  assumes "sp_owned own h"
  obtains (dead) "h p = None" "own p = 0"
    | (live) x where "h p = Some (x, own p)" "0 < own p"
proof -
  from assms have "case h p of None \<Rightarrow> own p = 0 | Some (x, n) \<Rightarrow> n = own p \<and> 0 < n"
    by (simp add: sp_owned_def)
  then show thesis
    using that by (cases "h p") auto
qed

lemma sp_use_count_make [sp_simps]:
  "sp_use_count q (sp_make p x h) = (if q = p then 1 else sp_use_count q h)"
  by (simp add: sp_use_count_def sp_make_def)

lemma sp_obj_make [sp_simps]:
  "sp_obj q (sp_make p x h) = (if q = p then Some x else sp_obj q h)"
  by (simp add: sp_obj_def sp_make_def)

lemma sp_obj_copy [sp_simps]: "sp_obj q (sp_copy p h) = sp_obj q h"
  by (auto simp: sp_obj_def sp_copy_def split: option.splits)

lemma sp_use_count_copy [sp_simps]:
  "sp_use_count q (sp_copy p h) =
     (if q = p \<and> h p \<noteq> None then Suc (sp_use_count p h) else sp_use_count q h)"
  by (auto simp: sp_use_count_def sp_copy_def split: option.splits)

lemma sp_obj_release_other [sp_simps]:
  "q \<noteq> p \<Longrightarrow> sp_obj q (snd (sp_release p h)) = sp_obj q h"
  by (auto simp: sp_obj_def sp_release_def split: option.splits)

lemma sp_obj_release_shared [sp_simps]:
  "1 < sp_use_count p h \<Longrightarrow> sp_obj q (snd (sp_release p h)) = sp_obj q h"
  by (auto simp: sp_obj_def sp_release_def sp_use_count_def split: option.splits)

lemma sp_use_count_release [sp_simps]:
  "sp_use_count q (snd (sp_release p h)) =
     (if q = p then sp_use_count p h - 1 else sp_use_count q h)"
  by (auto simp: sp_use_count_def sp_release_def split: option.splits)

lemma sp_owned_use_count: "sp_owned own h \<Longrightarrow> sp_use_count p h = own p"
  by (rule sp_owned_cases [of own h p]) (simp_all add: sp_use_count_def)

lemma sp_owned_live: "sp_owned own h \<Longrightarrow> 0 < own p \<Longrightarrow> \<exists>x. sp_obj p h = Some x"
  by (rule sp_owned_cases [of own h p]) (simp_all add: sp_obj_def)

lemma sp_owned_none_iff: "sp_owned own h \<Longrightarrow> h p = None \<longleftrightarrow> own p = 0"
  by (rule sp_owned_cases [of own h p]) simp_all

lemma sp_owned_upd:
  assumes "sp_owned own h"
    and "case v of None \<Rightarrow> n = 0 | Some (x, m) \<Rightarrow> m = n \<and> 0 < m"
  shows "sp_owned (own(p := n)) (h(p := v))"
proof -
  have "case (h(p := v)) q of None \<Rightarrow> (own(p := n)) q = 0
      | Some (x, m) \<Rightarrow> m = (own(p := n)) q \<and> 0 < m" for q
  proof (cases "q = p")
    case True
    then have "(h(p := v)) q = v" and "(own(p := n)) q = n" by simp_all
    with assms(2) show ?thesis by presburger
  next
    case False
    then have "(h(p := v)) q = h q" and "(own(p := n)) q = own q" by simp_all
    moreover have "case h q of None \<Rightarrow> own q = 0 | Some (x, m) \<Rightarrow> m = own q \<and> 0 < m"
      using assms(1) by (simp add: sp_owned_def)
    ultimately show ?thesis by presburger
  qed
  then show ?thesis by (simp only: sp_owned_def) simp
qed

lemma sp_owned_make:
  "sp_owned own h \<Longrightarrow> sp_owned (own(p := 1)) (sp_make p x h)"
  unfolding sp_make_def by (rule sp_owned_upd) simp_all

lemma sp_owned_copy:
  "sp_owned own h \<Longrightarrow> 0 < own p \<Longrightarrow> sp_owned (own(p := Suc (own p))) (sp_copy p h)"
  by (rule sp_owned_cases [of own h p]) (simp_all add: sp_owned_upd sp_copy_def)

lemma sp_owned_release:
  "sp_owned own h \<Longrightarrow> 0 < own p \<Longrightarrow> sp_owned (own(p := own p - 1)) (snd (sp_release p h))"
  by (rule sp_owned_cases [of own h p]) (auto simp: sp_release_def intro!: sp_owned_upd)

lemma sp_release_keeps_shared:
  "sp_owned own h \<Longrightarrow> 1 < own p \<Longrightarrow> fst (sp_release p h) = None"
  by (rule sp_owned_cases [of own h p]) (simp_all add: sp_release_def)

lemma sp_release_last:
  "sp_owned own h \<Longrightarrow> own p = 1 \<Longrightarrow>
     fst (sp_release p h) = sp_obj p h \<and> snd (sp_release p h) p = None"
  by (rule sp_owned_cases [of own h p]) (simp_all add: sp_release_def sp_obj_def)

lemma sp_owned_release_all:
  "sp_owned own h \<Longrightarrow> (\<And>p. count_list ps p \<le> own p) \<Longrightarrow>
     sp_owned (\<lambda>p. own p - count_list ps p) (sp_release_all ps h)"
proof (induction ps arbitrary: own h)
  case Nil
  then show ?case by simp
next
  case (Cons q ps)
  have q: "0 < own q"
    using Cons.prems(2) [of q] by simp
  have bound: "count_list ps p \<le> (own(q := own q - 1)) p" for p
    using Cons.prems(2) [of p] by (auto split: if_splits)
  have "sp_owned (\<lambda>p. (own(q := own q - 1)) p - count_list ps p)
          (sp_release_all ps (snd (sp_release q h)))"
    using Cons.IH [OF sp_owned_release [OF Cons.prems(1) q] bound] .
  moreover have "(\<lambda>p. (own(q := own q - 1)) p - count_list ps p) =
      (\<lambda>p. own p - count_list (q # ps) p)"
    by (auto simp: fun_eq_iff)
  ultimately show ?case by simp
qed

text \<open>A copy followed by the release of that copy leaves the store as it was.\<close>

lemma sp_release_copy:
  "sp_owned own h \<Longrightarrow> 0 < own p \<Longrightarrow> sp_release p (sp_copy p h) = (None, h)"
  by (rule sp_owned_cases [of own h p])
     (auto simp: sp_release_def sp_copy_def fun_eq_iff)

lemma sp_release_make: "h p = None \<Longrightarrow> sp_release p (sp_make p x h) = (Some x, h)"
  by (auto simp: sp_release_def sp_make_def fun_eq_iff)

section \<open>Values of association lists\<close>

text \<open>
  The \<^verbatim>\<open>std::unordered_map\<close> tables of the sources are association lists with distinct keys. The
  pointers a table holds are its values, counted with multiplicity.
\<close>

abbreviation alist_ok :: "('k \<times> 'v) list \<Rightarrow> bool" where
  "alist_ok al \<equiv> distinct (map fst al)"

abbreviation val_count :: "('k \<times> 'v) list \<Rightarrow> 'v \<Rightarrow> nat" where
  "val_count al v \<equiv> count_list (map snd al) v"

lemma update_new: "k \<notin> fst ` set al \<Longrightarrow> AList.update k v al = al @ [(k, v)]"
  by (induction al) auto

lemma map_of_None_iff: "map_of al k = None \<longleftrightarrow> k \<notin> fst ` set al"
  by (simp add: map_of_eq_None_iff)

lemma val_count_update_new [sp_simps]:
  "map_of al k = None \<Longrightarrow>
     val_count (AList.update k v al) q = val_count al q + (if q = v then 1 else 0)"
  by (simp add: update_new map_of_None_iff)

lemma alist_ok_update: "alist_ok al \<Longrightarrow> alist_ok (AList.update k v al)"
  by (simp add: AList.distinct_update)

lemma alist_ok_delete: "alist_ok al \<Longrightarrow> alist_ok (AList.delete k al)"
  by (simp add: AList.distinct_delete)

lemma delete_other: "k \<notin> fst ` set al \<Longrightarrow> AList.delete k al = al"
  by (induction al) auto

lemma val_count_pos: "map_of al k = Some v \<Longrightarrow> 0 < val_count al v"
  by (induction al) (auto split: if_splits)

lemma val_count_delete [sp_simps]:
  "alist_ok al \<Longrightarrow> map_of al k = Some v \<Longrightarrow>
     val_count (AList.delete k al) q = val_count al q - (if q = v then 1 else 0)"
proof (induction al)
  case Nil
  then show ?case by simp
next
  case (Cons a al)
  show ?case
  proof (cases "fst a = k")
    case True
    with Cons.prems show ?thesis by (auto simp: delete_other)
  next
    case False
    with Cons.prems have v: "map_of al k = Some v" by (cases a) simp
    from val_count_pos [OF v] Cons.IH Cons.prems v False show ?thesis
      by (cases a) (simp add: Suc_diff_le)
  qed
qed

lemma map_of_update_eq: "map_of (AList.update k v al) = (map_of al)(k \<mapsto> v)"
  by (rule AList.update_conv')

lemma map_of_delete_eq: "map_of (AList.delete k al) = (map_of al)(k := None)"
  by (rule AList.delete_conv')

lemmas alist_simps = map_of_update_eq map_of_delete_eq alist_ok_update alist_ok_delete

lemma distinct_count_list: "distinct xs \<Longrightarrow> count_list xs v = (if v \<in> set xs then 1 else 0)"
  by (induction xs) auto

lemma val_count_distinct:
  "distinct (map snd al) \<Longrightarrow> map_of al k = Some v \<Longrightarrow> val_count al v = 1"
  by (force simp: distinct_count_list dest!: map_of_SomeD)

lemma val_count_0_iff: "val_count al v = 0 \<longleftrightarrow> v \<notin> snd ` set al"
  by (simp add: count_list_0_iff)

lemma distinct_vals_update_new:
  "map_of al k = None \<Longrightarrow> distinct (map snd al) \<Longrightarrow> v \<notin> snd ` set al \<Longrightarrow>
     distinct (map snd (AList.update k v al))"
  by (simp add: update_new map_of_None_iff)

lemma distinct_vals_delete: "distinct (map snd al) \<Longrightarrow> distinct (map snd (AList.delete k al))"
  by (induction al) (auto simp: AList.delete_eq)

lemma set_update_new: "map_of al k = None \<Longrightarrow> set (AList.update k v al) = insert (k, v) (set al)"
  by (simp add: update_new map_of_None_iff)

lemma set_delete_subset: "set (AList.delete k al) \<subseteq> set al"
  by (auto simp: AList.delete_eq)

text \<open>Owners inside a table and owners outside it.\<close>

definition own_sum :: "owners \<Rightarrow> owners \<Rightarrow> owners" where
  "own_sum c E = (\<lambda>p. c p + E p)"

lemma own_sum_apply [sp_simps]: "own_sum c E p = c p + E p"
  by (simp add: own_sum_def)

lemma sp_owned_sum_copy:
  "sp_owned (own_sum c E) h \<Longrightarrow> 0 < own_sum c E p \<Longrightarrow>
     sp_owned (own_sum c (E(p := Suc (E p)))) (sp_copy p h)"
proof -
  assume "sp_owned (own_sum c E) h" "0 < own_sum c E p"
  moreover have "own_sum c (E(p := Suc (E p))) = (own_sum c E)(p := Suc (own_sum c E p))"
    by (auto simp: own_sum_def)
  ultimately show ?thesis by (simp only: sp_owned_copy)
qed

lemma sp_owned_sum_drop:
  "sp_owned (own_sum c E) h \<Longrightarrow> 0 < E p \<Longrightarrow>
     sp_owned (own_sum c (E(p := E p - 1))) (snd (sp_release p h))"
proof -
  assume "sp_owned (own_sum c E) h" "0 < E p"
  moreover from this have "own_sum c (E(p := E p - 1)) = (own_sum c E)(p := own_sum c E p - 1)"
    and "0 < own_sum c E p"
    by (auto simp: own_sum_def)
  ultimately show ?thesis by (simp only: sp_owned_release)
qed

lemma sp_owned_sum_make:
  "sp_owned (own_sum c E) h \<Longrightarrow> h p = None \<Longrightarrow>
     sp_owned (own_sum c (E(p := Suc (E p)))) (sp_make p x h)"
proof -
  assume a: "sp_owned (own_sum c E) h" "h p = None"
  then have "own_sum c E p = 0" by (simp add: sp_owned_none_iff)
  then have "own_sum c (E(p := Suc (E p))) = (own_sum c E)(p := 1)"
    by (auto simp: own_sum_def)
  with a show ?thesis by (simp only: sp_owned_make)
qed

text \<open>A pointer moved into or out of the table changes only where it is counted.\<close>

lemma own_sum_move:
  "(\<And>q. c' q + E' q = c q + E q) \<Longrightarrow> own_sum c' E' = own_sum c E"
  by (simp add: own_sum_def)

lemma sp_owned_sum_clear:
  assumes "sp_owned (own_sum (count_list ps) E) h"
  shows "sp_owned (own_sum (\<lambda>_. 0) E) (sp_release_all ps h)"
proof -
  have "own_sum (\<lambda>_. 0) E = (\<lambda>p. own_sum (count_list ps) E p - count_list ps p)"
    by (simp add: own_sum_def)
  with sp_owned_release_all [OF assms, of ps] show ?thesis
    by (simp add: own_sum_def)
qed

lemma sp_obj_drop_shared:
  assumes "sp_owned (own_sum c E) h" and "0 < E p" and "0 < c q \<or> q \<noteq> p"
  shows "sp_obj q (snd (sp_release p h)) = sp_obj q h"
proof (cases "q = p")
  case True
  with assms have "1 < sp_use_count p h"
    by (simp add: sp_owned_use_count own_sum_def)
  then show ?thesis by (simp add: sp_simps)
qed (simp add: sp_simps)

lemma sp_owned_clear_one:
  "sp_owned own h \<Longrightarrow> sp_owned (own(p := 0)) (h(p := None))"
  by (rule sp_owned_upd) simp_all

lemma sp_release_twice:
  "sp_use_count p h = 2 \<Longrightarrow>
     fst (sp_release p h) = None \<and> snd (sp_release p (snd (sp_release p h))) = h(p := None)"
  by (auto simp: sp_release_def sp_use_count_def split: option.splits)

lemma sp_release_all_append: "sp_release_all (ps @ qs) h = sp_release_all qs (sp_release_all ps h)"
  by (induction ps arbitrary: h) simp_all

lemma map_of_ex: "v \<in> snd ` set al \<Longrightarrow> alist_ok al \<Longrightarrow> \<exists>k. map_of al k = Some v"
  by (metis imageE map_of_is_SomeI prod.collapse)

section \<open>A table of shared objects\<close>

text \<open>
  A table maps keys to shared objects. Keys are distinct and so are the objects they lead to,
  every use counter is the number of table entries plus the uses held outside, and an entry
  leads to a live object that fits its key.
\<close>

definition entry_ok :: "('k \<Rightarrow> 'a \<Rightarrow> bool) \<Rightarrow> 'a store \<Rightarrow> 'k \<times> ptr \<Rightarrow> bool" where
  "entry_ok fits h e = (case sp_obj (snd e) h of None \<Rightarrow> False | Some b \<Rightarrow> fits (fst e) b)"

definition tbl_inv ::
  "('k \<Rightarrow> 'a \<Rightarrow> bool) \<Rightarrow> owners \<Rightarrow> ('k \<times> ptr) list \<Rightarrow> 'a store \<Rightarrow> bool" where
  "tbl_inv fits E al h \<longleftrightarrow>
     alist_ok al \<and> distinct (map snd al) \<and> sp_owned (own_sum (val_count al) E) h \<and>
     list_all (entry_ok fits h) al"

lemma entries_mono:
  assumes "list_all (entry_ok fits h) al"
    and "\<And>p b. p \<in> snd ` set al \<Longrightarrow> sp_obj p h = Some b \<Longrightarrow> sp_obj p h' = Some b"
  shows "list_all (entry_ok fits h') al"
  using assms by (fastforce simp: list_all_iff entry_ok_def split: option.splits)

lemma tbl_fresh: "tbl_inv fits E al h \<Longrightarrow> h na = None \<Longrightarrow> E na = 0 \<and> na \<notin> snd ` set al"
  using sp_owned_none_iff [of "own_sum (val_count al) E" h na]
  by (simp add: tbl_inv_def sp_simps val_count_0_iff)

lemma tbl_uses: "tbl_inv fits E al h \<Longrightarrow> map_of al k = Some p \<Longrightarrow> sp_use_count p h = Suc (E p)"
  using val_count_distinct [of al k p] sp_owned_use_count [of "own_sum (val_count al) E" h p]
  by (simp add: tbl_inv_def sp_simps)

lemma tbl_entry:
  "tbl_inv fits E al h \<Longrightarrow> map_of al k = Some p \<Longrightarrow> \<exists>b. sp_obj p h = Some b \<and> fits k b"
  by (fastforce simp: tbl_inv_def list_all_iff entry_ok_def split: option.splits
      dest!: map_of_SomeD)

lemma tbl_copy:
  assumes "tbl_inv fits E al h" and "map_of al k = Some p"
  shows "tbl_inv fits (E(p := Suc (E p))) al (sp_copy p h)"
proof -
  have "0 < own_sum (val_count al) E p"
    using val_count_pos [OF assms(2)] by (simp add: sp_simps)
  with assms(1) show ?thesis
    by (simp add: tbl_inv_def sp_owned_sum_copy) (auto simp: sp_simps elim!: entries_mono)
qed

lemma tbl_make:
  assumes "tbl_inv fits E al h" and "h na = None"
  shows "tbl_inv fits (E(na := Suc (E na))) al (sp_make na b h)"
proof -
  have "list_all (entry_ok fits (sp_make na b h)) al"
    by (rule entries_mono [of _ h]) (use assms(1) tbl_fresh [OF assms] in
      \<open>auto simp: tbl_inv_def sp_obj_make\<close>)
  moreover have "sp_owned (own_sum (val_count al) (E(na := Suc (E na)))) (sp_make na b h)"
    using assms unfolding tbl_inv_def by (metis sp_owned_sum_make)
  ultimately show ?thesis
    using assms(1) by (simp only: tbl_inv_def simp_thms)
qed

lemma tbl_drop:
  assumes "tbl_inv fits E al h" and "0 < E p"
  shows "tbl_inv fits (E(p := E p - 1)) al (snd (sp_release p h))"
proof -
  have own: "sp_owned (own_sum (val_count al) E) h"
    using assms(1) by (simp add: tbl_inv_def)
  have keep: "sp_obj q (snd (sp_release p h)) = sp_obj q h" if "q \<in> snd ` set al" for q
    using sp_obj_drop_shared [OF own assms(2)] that val_count_0_iff [of al q]
    by (metis neq0_conv)
  have "list_all (entry_ok fits (snd (sp_release p h))) al"
    by (rule entries_mono [of _ h]) (use assms(1) keep in \<open>simp_all only: tbl_inv_def\<close>)
  with assms(1) sp_owned_sum_drop [OF own assms(2)] show ?thesis
    by (simp only: tbl_inv_def simp_thms)
qed

lemma tbl_register:
  assumes "tbl_inv fits E al h" and "h na = None" and "map_of al k = None" and "fits k b"
  shows "tbl_inv fits E (AList.update k na al) (sp_make na b h)"
proof -
  note fresh = tbl_fresh [OF assms(1,2)]
  have "tbl_inv fits (E(na := Suc (E na))) al (sp_make na b h)"
    by (rule tbl_make [OF assms(1,2)])
  moreover have "own_sum (val_count (AList.update k na al)) E =
      own_sum (val_count al) (E(na := Suc (E na)))"
    using assms(3) by (intro own_sum_move) (simp add: sp_simps)
  ultimately show ?thesis
    using assms(3,4) fresh
    by (simp add: tbl_inv_def alist_ok_update distinct_vals_update_new list_all_iff set_update_new
        entry_ok_def sp_simps)
qed

lemma tbl_delete:
  assumes "tbl_inv fits E al h" and "map_of al k = Some p"
  shows "tbl_inv fits (E(p := Suc (E p))) (AList.delete k al) h"
proof -
  have "own_sum (val_count (AList.delete k al)) (E(p := Suc (E p))) = own_sum (val_count al) E"
    using assms val_count_distinct [of al k p]
    by (intro own_sum_move) (simp add: sp_simps tbl_inv_def)
  then show ?thesis
    using assms set_delete_subset [of k al]
    by (auto simp: tbl_inv_def alist_ok_delete distinct_vals_delete list_all_iff)
qed

lemma tbl_remove:
  assumes "tbl_inv fits E al h" and "map_of al k = Some p"
  shows "tbl_inv fits E (AList.delete k al) (snd (sp_release p h))"
  using tbl_drop [OF tbl_delete [OF assms], of p] by (simp add: fun_upd_idem)

lemma tbl_clear:
  "tbl_inv fits E al h \<Longrightarrow> tbl_inv fits E [] (sp_release_all (map snd al) h)"
  using sp_owned_sum_clear [of "map snd al" E h] by (simp add: tbl_inv_def)

lemma sp_obj_release_all:
  "sp_owned own h \<Longrightarrow> (\<And>q. count_list ps q \<le> own q) \<Longrightarrow> count_list ps p < own p \<Longrightarrow>
     sp_obj p (sp_release_all ps h) = sp_obj p h"
proof (induction ps arbitrary: own h)
  case (Cons q ps)
  have q: "0 < own q" using Cons.prems(2) [of q] by simp
  have bound: "count_list ps r \<le> (own(q := own q - 1)) r" for r
    using Cons.prems(2) [of r] by (auto split: if_splits)
  have "count_list ps p < (own(q := own q - 1)) p"
    using Cons.prems(3) by (auto split: if_splits)
  from Cons.IH [OF sp_owned_release [OF Cons.prems(1) q] bound this]
  have "sp_obj p (sp_release_all (q # ps) h) = sp_obj p (snd (sp_release q h))" by simp
  also have "\<dots> = sp_obj p h"
  proof (cases "p = q")
    case True
    then have "1 < sp_use_count q h"
      using Cons.prems(3) sp_owned_use_count [OF Cons.prems(1), of q] by simp
    then show ?thesis by (rule sp_obj_release_shared)
  qed (simp add: sp_simps)
  finally show ?case .
qed simp

text \<open>An object with a use outside the released pointers survives.\<close>

lemma sp_obj_sum_clear:
  assumes "sp_owned (own_sum (count_list ps) E) h" and "0 < E p"
  shows "sp_obj p (sp_release_all ps h) = sp_obj p h"
  by (rule sp_obj_release_all [OF assms(1)]) (use assms(2) in \<open>simp_all add: own_sum_apply\<close>)

lemma tbl_copy_held:
  assumes "tbl_inv fits E al h" and "0 < E p"
  shows "tbl_inv fits (E(p := Suc (E p))) al (sp_copy p h)"
proof -
  have "0 < own_sum (val_count al) E p" using assms(2) by (simp add: sp_simps)
  with assms(1) show ?thesis
    by (simp add: tbl_inv_def sp_owned_sum_copy) (auto simp: sp_simps elim!: entries_mono)
qed

end
