(* ===== verification/Registry.thy ===== *)
theory Registry
  imports Shared_Ptr
begin

text \<open>
  The contract that the driver relies on when it hands out reference-counted objects from a
  lookup table (\<^verbatim>\<open>BufferMap\<close>, \<^verbatim>\<open>FileMap\<close>): a lookup gives the client one use of the object, an
  object with uses outside the table cannot be removed, and a removal that succeeds unbinds
  exactly one key. The first argument of the invariant counts the uses held outside the table.
\<close>

locale registry =
  fixes inv :: "owners \<Rightarrow> 's \<Rightarrow> bool"
    and present :: "'s \<Rightarrow> 'k \<Rightarrow> ptr option"
    and get :: "'k \<Rightarrow> ('s, ptr) cxx"
    and deregister :: "'k \<Rightarrow> ('s, unit) cxx"
    and drop_use :: "ptr \<Rightarrow> ('s, unit) cxx"
    and missing :: exn
    and busy :: exn
  assumes get_missing: "present s k = None \<Longrightarrow> get k s = (Exn missing, s)"
    and get_present: "inv E s \<Longrightarrow> present s k = Some p \<Longrightarrow>
      \<exists>t. get k s = (Ret p, t) \<and> inv (E(p := Suc (E p))) t \<and> present t = present s"
    and deregister_missing: "present s k = None \<Longrightarrow> deregister k s = (Exn missing, s)"
    and deregister_busy: "inv E s \<Longrightarrow> present s k = Some p \<Longrightarrow> 0 < E p \<Longrightarrow>
      deregister k s = (Exn busy, s)"
    and deregister_free: "inv E s \<Longrightarrow> present s k = Some p \<Longrightarrow> E p = 0 \<Longrightarrow>
      deregister k s = (r, t) \<Longrightarrow> r \<noteq> Terminate \<Longrightarrow>
      r = Ret () \<and> inv E t \<and> present t = (present s)(k := None)"
    and drop_use_shared: "inv E s \<Longrightarrow> present s k = Some p \<Longrightarrow> 0 < E p \<Longrightarrow>
      \<exists>t. drop_use p s = (Ret (), t) \<and> inv (E(p := E p - 1)) t \<and> present t = present s"
begin

text \<open>A lookup followed by the release of what it returned is neutral.\<close>

lemma get_drop:
  assumes "inv E s" and "present s k = Some p"
  shows "\<exists>t. cbind (get k) drop_use s = (Ret (), t) \<and> inv E t \<and> present t = present s"
proof -
  obtain t where t: "get k s = (Ret p, t)" "inv (E(p := Suc (E p))) t" "present t = present s"
    using get_present [OF assms] by blast
  obtain u where "drop_use p t = (Ret (), u)" "inv ((E(p := Suc (E p)))(p := E p)) u"
    "present u = present t"
    using drop_use_shared [OF t(2), of k p] t(3) assms(2) by auto
  with t show ?thesis by (auto simp: cbind_def fun_upd_triv)
qed

text \<open>While a client holds what it looked up, the object cannot be removed.\<close>

lemma get_then_deregister:
  assumes "inv E s" and "present s k = Some p"
  shows "\<exists>t. cbind (get k) (\<lambda>_. deregister k) s = (Exn busy, t) \<and> present t = present s"
proof -
  obtain t where t: "get k s = (Ret p, t)" "inv (E(p := Suc (E p))) t" "present t = present s"
    using get_present [OF assms] by blast
  have "deregister k t = (Exn busy, t)"
    using deregister_busy [OF t(2), of k p] t(3) assms(2) by simp
  with t show ?thesis by (auto simp: cbind_def)
qed

text \<open>
  Removal succeeds exactly when the table holds the only uses: the outcome of a deregistration
  is decided by the binding and the outside uses.
\<close>

lemma deregister_outcome:
  assumes "inv E s" and "deregister k s = (r, t)" and "r \<noteq> Terminate"
  shows "r = (case present s k of
                None \<Rightarrow> Exn missing
              | Some p \<Rightarrow> if 0 < E p then Exn busy else Ret ())"
    and "inv E t"
    and "present t = (if r = Ret () then (present s)(k := None) else present s)"
proof -
  consider (none) "present s k = None"
    | (busy) p where "present s k = Some p" "0 < E p"
    | (free) p where "present s k = Some p" "E p = 0"
    by (cases "present s k") auto
  then have "r = (case present s k of
                None \<Rightarrow> Exn missing
              | Some p \<Rightarrow> if 0 < E p then Exn busy else Ret ()) \<and> inv E t \<and>
             present t = (if r = Ret () then (present s)(k := None) else present s)"
  proof cases
    case none
    with deregister_missing [OF none] assms show ?thesis by auto
  next
    case busy
    with deregister_busy [OF assms(1) busy] assms show ?thesis by auto
  next
    case free
    with deregister_free [OF assms(1) free assms(2,3)] show ?thesis by simp
  qed
  then show "r = (case present s k of
                None \<Rightarrow> Exn missing
              | Some p \<Rightarrow> if 0 < E p then Exn busy else Ret ())"
    and "inv E t"
    and "present t = (if r = Ret () then (present s)(k := None) else present s)"
    by blast+
qed

end

end
