(* ===== verification/Buffer_Map.thy ===== *)
theory Buffer_Map
  imports Configuration Registry
begin

text \<open>
  \<^verbatim>\<open>Buffer\<close> and \<^verbatim>\<open>BufferMap\<close> (\<^verbatim>\<open>src/amd_detail/buffer.cpp\<close>) and the check of IO parameters against a
  buffer, \<^verbatim>\<open>paramsValid\<close> (\<^verbatim>\<open>src/amd_detail/io.cpp\<close>). The addresses that \<^verbatim>\<open>new Buffer\<close> returns are
  arguments of the operations that allocate; a theorem that depends on it assumes that the
  address is not that of a live object.
\<close>

section \<open>Buffers\<close>

record Buffer =
  b_buffer :: ptr
  b_length :: size_t
  b_flags :: int
  b_type :: hipMemoryType
  b_gpu_id :: int

definition isValidBufferRegion ::
  "'w ext \<Rightarrow> ptr \<Rightarrow> size_t \<Rightarrow> (('w, 'z) sys_state_scheme, bool) cxx" where
  "isValidBufferRegion x p len =
     ccatch
       (cbind (hipMemGetAddressRange x p) (\<lambda>(base, range_size).
          if len > (-1) - p then cret False
          else if p + len > base + range_size then cret False
          else cret True))
       (\<lambda>e. if e = Hip_RuntimeError hipErrorNotFound then cthrow Std_invalid_argument
            else cthrow e)"

text \<open>The two constructors: a registered buffer with a length, and a temporary one.\<close>

definition Buffer_ctor ::
  "'w ext \<Rightarrow> ptr \<Rightarrow> size_t \<Rightarrow> int \<Rightarrow> (('w, 'z) sys_state_scheme, Buffer) cxx" where
  "Buffer_ctor x buf len flags =
     (if buf = nullptr then cthrow Std_invalid_argument
      else cbind (hipPointerGetAttributes x buf) (\<lambda>attrs.
             if attr_type attrs \<noteq> hipMemoryTypeDevice then cthrow InvalidMemoryType
             else cbind (isValidBufferRegion x buf len) (\<lambda>valid.
                    if \<not> valid then cthrow InvalidPointerRange
                    else cret \<lparr>b_buffer = buf, b_length = len, b_flags = flags,
                               b_type = attr_type attrs, b_gpu_id = attr_device attrs\<rparr>)))"

definition Buffer_ctor_temp ::
  "'w ext \<Rightarrow> ptr \<Rightarrow> (('w, 'z) sys_state_scheme, Buffer) cxx" where
  "Buffer_ctor_temp x buf =
     (if buf = nullptr then cthrow Std_invalid_argument
      else cbind (hipPointerGetAttributes x buf) (\<lambda>attrs.
             if attr_type attrs \<noteq> hipMemoryTypeDevice then cthrow InvalidMemoryType
             else cbind (hipMemGetAddressRange x buf) (\<lambda>(base, range_size).
                    cret \<lparr>b_buffer = buf, b_length = range_size - (buf - base), b_flags = 0,
                          b_type = attr_type attrs, b_gpu_id = attr_device attrs\<rparr>)))"

definition Buffer_getBuffer :: "Buffer \<Rightarrow> ptr" where "Buffer_getBuffer b = b_buffer b"
definition Buffer_getLength :: "Buffer \<Rightarrow> size_t" where "Buffer_getLength b = b_length b"
definition Buffer_getFlags :: "Buffer \<Rightarrow> int" where "Buffer_getFlags b = b_flags b"
definition Buffer_getType :: "Buffer \<Rightarrow> hipMemoryType" where "Buffer_getType b = b_type b"
definition Buffer_getGpuId :: "Buffer \<Rightarrow> int" where "Buffer_getGpuId b = b_gpu_id b"

lemmas buffer_getters = Buffer_getBuffer_def Buffer_getLength_def Buffer_getFlags_def
  Buffer_getType_def Buffer_getGpuId_def

section \<open>The check of IO parameters\<close>

definition paramsValid :: "Buffer \<Rightarrow> size_t \<Rightarrow> hoff_t \<Rightarrow> hoff_t \<Rightarrow> bool" where
  "paramsValid buffer sz file_offset buffer_offset =
     (let buffer_length = Buffer_getLength buffer in
      if sint file_offset < 0 then False
      else if sint buffer_offset < 0 then False
      else if buffer_length \<le> buffer_offset then False
      else if buffer_length - buffer_offset < sz then False
      else True)"

section \<open>The table of registered buffers\<close>

record 'w buf_state = "'w cfg_state" +
  buf_heap :: "Buffer store"
  from_ptr :: "(ptr \<times> ptr) list"

definition Buffer_drop :: "ptr \<Rightarrow> (('w, 'z) buf_state_scheme, unit) cxx" where
  "Buffer_drop p = cmodify (\<lambda>s. s\<lparr>buf_heap := snd (sp_release p (buf_heap s))\<rparr>)"

definition BufferMap_registerBuffer ::
  "'w ext \<Rightarrow> ptr \<Rightarrow> ptr \<Rightarrow> size_t \<Rightarrow> int \<Rightarrow> (('w, 'z) buf_state_scheme, unit) cxx" where
  "BufferMap_registerBuffer x na buf len flags =
     cbind (cget from_ptr) (\<lambda>m.
       if map_of m buf \<noteq> None then cthrow BufferAlreadyRegistered
       else cbind (Buffer_ctor x buf len flags) (\<lambda>buffer.
              cmodify (\<lambda>s. s\<lparr>buf_heap := sp_make na buffer (buf_heap s),
                             from_ptr := AList.update buf na (from_ptr s)\<rparr>)))"

definition BufferMap_deregisterBuffer :: "ptr \<Rightarrow> (('w, 'z) buf_state_scheme, unit) cxx" where
  "BufferMap_deregisterBuffer buf s =
     (case map_of (from_ptr s) buf of
        None \<Rightarrow> (Exn BufferNotRegistered, s)
      | Some p \<Rightarrow>
          if 1 < sp_use_count p (buf_heap s) then (Exn BufferOperationsOutstanding, s)
          else Buffer_drop p (s\<lparr>from_ptr := AList.delete buf (from_ptr s)\<rparr>))"

definition BufferMap_getRegisteredBuffer :: "ptr \<Rightarrow> (('w, 'z) buf_state_scheme, ptr) cxx" where
  "BufferMap_getRegisteredBuffer buf s =
     (case map_of (from_ptr s) buf of
        None \<Rightarrow> (Exn BufferNotRegistered, s)
      | Some p \<Rightarrow> (Ret p, s\<lparr>buf_heap := sp_copy p (buf_heap s)\<rparr>))"

definition BufferMap_getBuffer :: "'w ext \<Rightarrow> ptr \<Rightarrow> ptr \<Rightarrow> (('w, 'z) buf_state_scheme, ptr) cxx" where
  "BufferMap_getBuffer x na buf s =
     (case map_of (from_ptr s) buf of
        None \<Rightarrow>
          cbind (Buffer_ctor_temp x buf) (\<lambda>buffer.
            cbind (cmodify (\<lambda>s. s\<lparr>buf_heap := sp_make na buffer (buf_heap s)\<rparr>)) (\<lambda>_. cret na)) s
      | Some p \<Rightarrow> (Ret p, s\<lparr>buf_heap := sp_copy p (buf_heap s)\<rparr>))"

definition BufferMap_clear :: "(('w, 'z) buf_state_scheme, unit) cxx" where
  "BufferMap_clear =
     cmodify (\<lambda>s. s\<lparr>buf_heap := sp_release_all (map snd (from_ptr s)) (buf_heap s), from_ptr := []\<rparr>)"

definition BufferMap_dtor :: "'w ext \<Rightarrow> (('w, 'z) buf_state_scheme, unit) cxx" where
  "BufferMap_dtor x =
     cbind (cget (\<lambda>s. length (filter (\<lambda>p. sp_use_count (snd p) (buf_heap s) > 1) (from_ptr s))))
       (\<lambda>count. cbind (cwhen (count > 0)
          (Sys_syslog x LOG_CRIT ''BufferMap state is being destructed with in-use buffers''))
       (\<lambda>_. BufferMap_clear))"

section \<open>What the constructors and the parameter check guarantee\<close>

lemma world_only_isValidBufferRegion [intro]: "world_only (isValidBufferRegion x p len)"
  unfolding isValidBufferRegion_def hipMemGetAddressRange_def
  by (intro world_only_ccatch world_only_cbind world_only_if world_only_case_prod) auto

lemma world_only_Buffer_ctor [intro]: "world_only (Buffer_ctor x buf len flags)"
  unfolding Buffer_ctor_def hipPointerGetAttributes_def
  by (intro world_only_if world_only_cbind) auto

lemma world_only_Buffer_ctor_temp [intro]: "world_only (Buffer_ctor_temp x buf)"
  unfolding Buffer_ctor_temp_def hipPointerGetAttributes_def hipMemGetAddressRange_def
  by (intro world_only_if world_only_cbind world_only_case_prod) auto

lemma Buffer_ctor_Ret:
  assumes "Buffer_ctor x buf len flags s = (Ret b, t)"
  shows "buf \<noteq> nullptr" and "b_buffer b = buf" and "b_length b = len"
    and "b_flags b = flags" and "b_type b = hipMemoryTypeDevice"
  using assms
  by (auto simp: Buffer_ctor_def cbind_eq_Ret_iff cret_def cthrow_def split: if_splits)

lemma Buffer_ctor_temp_Ret:
  assumes "Buffer_ctor_temp x buf s = (Ret b, t)"
  shows "buf \<noteq> nullptr" and "b_buffer b = buf" and "b_type b = hipMemoryTypeDevice"
  using assms
  by (auto simp: Buffer_ctor_temp_def cbind_eq_Ret_iff cret_def cthrow_def split: if_splits)

lemma paramsValid_iff:
  "paramsValid b sz fo bo \<longleftrightarrow>
     0 \<le> sint fo \<and> 0 \<le> sint bo \<and> unat bo < unat (b_length b) \<and>
     unat bo + unat sz \<le> unat (b_length b)"
proof -
  have "bo < b_length b \<Longrightarrow>
      b_length b - bo < sz \<longleftrightarrow> unat (b_length b) < unat bo + unat sz"
    by (simp add: word_less_nat_alt unat_sub word_le_nat_alt less_diff_conv2 add.commute)
  then show ?thesis
    by (auto simp: paramsValid_def Let_def Buffer_getLength_def word_less_nat_alt
        word_le_nat_alt not_less)
qed

section \<open>The invariant of the table\<close>

definition buf_lookup :: "('w, 'z) buf_state_scheme \<Rightarrow> ptr \<Rightarrow> ptr option" where
  "buf_lookup s = map_of (from_ptr s)"

definition device_buffer_for :: "ptr \<Rightarrow> Buffer \<Rightarrow> bool" where
  "device_buffer_for k b \<longleftrightarrow> b_buffer b = k \<and> k \<noteq> nullptr \<and> b_type b = hipMemoryTypeDevice"

text \<open>The table of buffers: an entry leads to a live device buffer for its key.\<close>

definition buf_inv :: "owners \<Rightarrow> ('w, 'z) buf_state_scheme \<Rightarrow> bool" where
  "buf_inv E s \<longleftrightarrow> tbl_inv device_buffer_for E (from_ptr s) (buf_heap s)"

lemma buf_inv_world [simp]: "buf_inv E (s\<lparr>world := w\<rparr>) = buf_inv E s"
  by (simp add: buf_inv_def)

lemma buf_lookup_world [simp]: "buf_lookup (s\<lparr>world := w\<rparr>) = buf_lookup s"
  by (simp add: buf_lookup_def)

lemma buf_inv_uses:
  "buf_inv E s \<Longrightarrow> buf_lookup s k = Some p \<Longrightarrow> sp_use_count p (buf_heap s) = Suc (E p)"
  unfolding buf_inv_def buf_lookup_def by (rule tbl_uses)

lemma buf_inv_entry:
  "buf_inv E s \<Longrightarrow> buf_lookup s k = Some p \<Longrightarrow>
     \<exists>b. sp_obj p (buf_heap s) = Some b \<and> device_buffer_for k b"
  unfolding buf_inv_def buf_lookup_def by (rule tbl_entry)

lemma buf_inv_copy:
  "buf_inv E s \<Longrightarrow> buf_lookup s k = Some p \<Longrightarrow>
     buf_inv (E(p := Suc (E p))) (s\<lparr>buf_heap := sp_copy p (buf_heap s)\<rparr>)"
  by (simp add: buf_inv_def buf_lookup_def tbl_copy)

lemma buf_inv_drop:
  "buf_inv E s \<Longrightarrow> 0 < E p \<Longrightarrow>
     buf_inv (E(p := E p - 1)) (s\<lparr>buf_heap := snd (sp_release p (buf_heap s))\<rparr>)"
  using tbl_drop [of device_buffer_for E] by (simp add: buf_inv_def)

section \<open>The operations keep the invariant\<close>

lemma getRegisteredBuffer_present:
  assumes "buf_inv E s" and "buf_lookup s k = Some p"
  shows "\<exists>t. BufferMap_getRegisteredBuffer k s = (Ret p, t) \<and> buf_inv (E(p := Suc (E p))) t \<and>
           buf_lookup t = buf_lookup s"
  using buf_inv_copy [OF assms] assms(2)
  by (simp add: BufferMap_getRegisteredBuffer_def buf_lookup_def)

interpretation bufs: registry buf_inv buf_lookup BufferMap_getRegisteredBuffer
  BufferMap_deregisterBuffer Buffer_drop BufferNotRegistered BufferOperationsOutstanding
proof (unfold_locales, goal_cases)
  case (1 s k)
  then show ?case by (simp add: BufferMap_getRegisteredBuffer_def buf_lookup_def)
next
  case (2 E s k p)
  then show ?case by (rule getRegisteredBuffer_present)
next
  case (3 s k)
  then show ?case by (simp add: BufferMap_deregisterBuffer_def buf_lookup_def)
next
  case (4 E s k p)
  then show ?case
    using buf_inv_uses [of E s k p] by (simp add: BufferMap_deregisterBuffer_def buf_lookup_def)
next
  case (5 E s k p r t)
  from 5 tbl_remove [of device_buffer_for E "from_ptr s" "buf_heap s" k p] show ?case
    using buf_inv_uses [of E s k p]
    by (auto simp: BufferMap_deregisterBuffer_def buf_lookup_def Buffer_drop_def cmodify_def
        map_of_delete_eq buf_inv_def split: if_splits)
next
  case (6 E s k p)
  from buf_inv_drop [OF 6(1,3)] show ?case
    by (simp add: Buffer_drop_def cmodify_def buf_lookup_def)
qed

lemma registerBuffer_present:
  "buf_lookup s buf \<noteq> None \<Longrightarrow>
     BufferMap_registerBuffer x na buf len flags s = (Exn BufferAlreadyRegistered, s)"
  by (auto simp: BufferMap_registerBuffer_def buf_lookup_def cxx_defs)

lemma registerBuffer_spec:
  assumes "buf_inv E s" and "buf_heap s na = None"
    and "BufferMap_registerBuffer x na buf len flags s = (r, t)"
  shows "buf_inv E t \<and> r \<noteq> Terminate \<and>
    buf_lookup t = (if r = Ret () then (buf_lookup s)(buf \<mapsto> na) else buf_lookup s)"
proof (cases "buf_lookup s buf")
  case (Some p)
  with assms registerBuffer_present show ?thesis by fastforce
next
  case None
  then have unfold: "BufferMap_registerBuffer x na buf len flags s =
      cbind (Buffer_ctor x buf len flags) (\<lambda>buffer.
              cmodify (\<lambda>s. s\<lparr>buf_heap := sp_make na buffer (buf_heap s),
                             from_ptr := AList.update buf na (from_ptr s)\<rparr>)) s"
    by (simp add: BufferMap_registerBuffer_def buf_lookup_def cbind_def cget_def)
  from world_only_Buffer_ctor [of x buf len flags] show ?thesis
  proof (cases rule: world_onlyE [where s = s])
    case (ret b w)
    note b = Buffer_ctor_Ret [OF ret]
    have "buf_inv E (s\<lparr>world := w, buf_heap := sp_make na b (buf_heap s),
                     from_ptr := AList.update buf na (from_ptr s)\<rparr>)"
      using tbl_register [of device_buffer_for E "from_ptr s" "buf_heap s" na buf b] assms(1,2) None b
      by (simp add: buf_inv_def buf_lookup_def device_buffer_for_def)
    with assms(3) show ?thesis
      by (auto simp: unfold cbind_def ret cmodify_def buf_lookup_def map_of_update_eq)
  next
    case (exn e w)
    with assms show ?thesis by (auto simp: unfold cbind_def)
  qed
qed

definition device_buffer :: "ptr \<Rightarrow> ptr \<Rightarrow> Buffer store \<Rightarrow> bool" where
  "device_buffer buf p h =
     (case sp_obj p h of
        None \<Rightarrow> False
      | Some b \<Rightarrow> b_buffer b = buf \<and> b_type b = hipMemoryTypeDevice)"

lemma getBuffer_spec:
  assumes "buf_inv E s" and "buf_heap s na = None"
    and "BufferMap_getBuffer x na buf s = (r, t)"
  shows "buf_lookup t = buf_lookup s \<and>
         (case r of
            Ret p \<Rightarrow> buf_inv (E(p := Suc (E p))) t \<and> device_buffer buf p (buf_heap t) \<and>
                    p = (case buf_lookup s buf of None \<Rightarrow> na | Some q \<Rightarrow> q)
          | Exn e \<Rightarrow> buf_inv E t \<and> buf_heap t = buf_heap s \<and> buf_lookup s buf = None
          | Terminate \<Rightarrow> False)"
proof (cases "buf_lookup s buf")
  case (Some p)
  have rt: "r = Ret p" "t = s\<lparr>buf_heap := sp_copy p (buf_heap s)\<rparr>"
    using assms(3) Some by (simp_all add: BufferMap_getBuffer_def buf_lookup_def)
  from buf_inv_copy [OF assms(1) Some] buf_inv_entry [OF assms(1) Some] Some show ?thesis
    by (auto simp: rt sp_simps buf_lookup_def device_buffer_def device_buffer_for_def)
next
  case None
  then have unfold: "BufferMap_getBuffer x na buf s =
     cbind (Buffer_ctor_temp x buf) (\<lambda>buffer.
       cbind (cmodify (\<lambda>s. s\<lparr>buf_heap := sp_make na buffer (buf_heap s)\<rparr>)) (\<lambda>_. cret na)) s"
    by (simp add: BufferMap_getBuffer_def buf_lookup_def)
  from world_only_Buffer_ctor_temp [of x buf] show ?thesis
  proof (cases rule: world_onlyE [where s = s])
    case (ret b w)
    from tbl_make [of device_buffer_for E "from_ptr s" "buf_heap s" na b]
      Buffer_ctor_temp_Ret [OF ret] assms None
    show ?thesis
      by (auto simp: unfold cbind_def ret cmodify_def cret_def sp_simps buf_lookup_def
          device_buffer_def buf_inv_def)
  next
    case (exn e w)
    with assms None show ?thesis by (auto simp: unfold cbind_def)
  qed
qed

lemma clear_spec:
  assumes "buf_inv E s"
  shows "\<exists>t. BufferMap_clear s = (Ret (), t) \<and> buf_inv E t \<and> buf_lookup t = Map.empty"
  using tbl_clear [of device_buffer_for E] assms
  by (simp add: BufferMap_clear_def cmodify_def buf_lookup_def buf_inv_def)

end
