(* ===== verification/File_Map.thy ===== *)
theory File_Map
  imports File_Descriptor Mount_Info Buffer_Map
begin

text \<open>
  \<^verbatim>\<open>UnregisteredFile\<close>, \<^verbatim>\<open>File\<close> and \<^verbatim>\<open>FileMap\<close> (\<^verbatim>\<open>src/amd_detail/file.cpp\<close>). A file handle is the
  address of its \<^verbatim>\<open>File\<close> object; a registered file is held by two tables, one by descriptor and one
  by handle, so its use count is two plus the uses of running operations.
\<close>

section \<open>Files\<close>

record UnregisteredFile =
  uf_client_fd :: FileDescriptor
  uf_buffered_fd :: FileDescriptor
  uf_unbuffered_fd :: "FileDescriptor option"
  uf_stx :: statx_buf
  uf_flags :: "32 word"
  uf_mountinfo :: "MountInfo option"
  uf_dio_mem_align :: uint32_t
  uf_dio_offset_align :: uint32_t

text \<open>
  The constructor keeps the descriptor of the client and opens a second one on the same file
  with the opposite setting of \<^verbatim>\<open>O_DIRECT\<close>. A file that cannot be opened with \<^verbatim>\<open>O_DIRECT\<close> has no
  unbuffered descriptor and alignments of zero. (Built against headers that define
  \<^verbatim>\<open>STATX_DIOALIGN\<close>.)
\<close>

definition UnregisteredFile_ctor ::
  "'w ext \<Rightarrow> int \<Rightarrow> (('w, 'z) sys_state_scheme, UnregisteredFile) cxx" where
  "UnregisteredFile_ctor x fd =
     cbind (Sys_statx x fd '''' AT_EMPTY_PATH (STATX_TYPE OR STATX_MODE OR STATX_DIOALIGN)) (\<lambda>stx.
     cbind (Sys_fcntl x fd F_GETFL 0) (\<lambda>fl.
     cbind (getMountInfo x (c_makedev x (stx_dev_major stx) (stx_dev_minor stx))) (\<lambda>mountinfo.
     let flags = word_of_int fl;
         path = ''/proc/self/fd/'' @ dec_int fd;
         has_align = (stx_mask stx AND STATX_DIOALIGN \<noteq> 0);
         uf = \<lparr>uf_client_fd = make_unmanaged fd, uf_buffered_fd = FileDescriptor_empty,
               uf_unbuffered_fd = None, uf_stx = stx, uf_flags = flags, uf_mountinfo = mountinfo,
               uf_dio_mem_align = (if has_align then stx_dio_mem_align stx else 4096),
               uf_dio_offset_align = (if has_align then stx_dio_offset_align stx else 4096)\<rparr>
     in if flags AND O_DIRECT \<noteq> 0
        then cbind (Sys_open x path ((flags OR O_CLOEXEC) AND NOT O_DIRECT) 0) (\<lambda>bfd.
               cret (uf\<lparr>uf_unbuffered_fd := Some (make_unmanaged fd),
                        uf_buffered_fd := make_managed bfd\<rparr>))
        else ccatch
               (cbind (Sys_open x path (flags OR O_CLOEXEC OR O_DIRECT) 0) (\<lambda>ufd.
                  cret (uf\<lparr>uf_buffered_fd := make_unmanaged fd,
                           uf_unbuffered_fd := Some (make_managed ufd)\<rparr>)))
               (\<lambda>e. case e of
                      Std_system_error c \<Rightarrow>
                        if c \<noteq> EINVAL then cthrow e
                        else cret (uf\<lparr>uf_buffered_fd := make_unmanaged fd, uf_unbuffered_fd := None,
                                      uf_dio_mem_align := 0, uf_dio_offset_align := 0\<rparr>)
                    | _ \<Rightarrow> cthrow e))))"

definition optional_dtor ::
  "'w ext \<Rightarrow> FileDescriptor option \<Rightarrow> (('w, 'z) sys_state_scheme, unit) cxx" where
  "optional_dtor x ofd = (case ofd of None \<Rightarrow> cret () | Some fd \<Rightarrow> FileDescriptor_dtor x fd)"

definition UnregisteredFile_dtor ::
  "'w ext \<Rightarrow> UnregisteredFile \<Rightarrow> (('w, 'z) sys_state_scheme, unit) cxx" where
  "UnregisteredFile_dtor x uf =
     cbind (optional_dtor x (uf_unbuffered_fd uf)) (\<lambda>_.
     cbind (FileDescriptor_dtor x (uf_buffered_fd uf)) (\<lambda>_.
     FileDescriptor_dtor x (uf_client_fd uf)))"

record File =
  f_client_fd :: FileDescriptor
  f_buffered_fd :: FileDescriptor
  f_unbuffered_fd :: "FileDescriptor option"
  f_dio_mem_align :: uint32_t
  f_dio_offset_align :: uint32_t
  f_is_block_device :: bool
  f_is_regular_file :: bool
  f_on_ext4_ordered :: bool
  f_on_xfs :: bool

definition File_ctor :: "UnregisteredFile \<Rightarrow> File" where
  "File_ctor uf =
     \<lparr>f_client_fd = fst (FileDescriptor_move (uf_client_fd uf)),
      f_buffered_fd = fst (FileDescriptor_move (uf_buffered_fd uf)),
      f_unbuffered_fd = map_option (\<lambda>fd. fst (FileDescriptor_move fd)) (uf_unbuffered_fd uf),
      f_dio_mem_align = uf_dio_mem_align uf,
      f_dio_offset_align = uf_dio_offset_align uf,
      f_is_block_device = (stx_mask (uf_stx uf) AND STATX_TYPE \<noteq> 0 \<and> S_ISBLK (stx_mode (uf_stx uf))),
      f_is_regular_file = (stx_mask (uf_stx uf) AND STATX_TYPE \<noteq> 0 \<and> S_ISREG (stx_mode (uf_stx uf))),
      f_on_ext4_ordered =
        (case uf_mountinfo uf of
           None \<Rightarrow> False
         | Some mi \<Rightarrow> mi_type mi = FS_ext4 \<and> mi_journaling_mode mi = JM_ordered),
      f_on_xfs = (case uf_mountinfo uf of None \<Rightarrow> False | Some mi \<Rightarrow> mi_type mi = FS_xfs)\<rparr>"

definition File_clientFd :: "File \<Rightarrow> int" where "File_clientFd f = FileDescriptor_get (f_client_fd f)"
definition File_bufferedFd :: "File \<Rightarrow> int" where
  "File_bufferedFd f = FileDescriptor_get (f_buffered_fd f)"
definition File_unbufferedFd :: "File \<Rightarrow> int option" where
  "File_unbufferedFd f = map_option FileDescriptor_get (f_unbuffered_fd f)"
definition File_dioMemAlign :: "File \<Rightarrow> uint32_t" where "File_dioMemAlign f = f_dio_mem_align f"
definition File_dioOffsetAlign :: "File \<Rightarrow> uint32_t" where
  "File_dioOffsetAlign f = f_dio_offset_align f"
definition File_isBlockDevice :: "File \<Rightarrow> bool" where "File_isBlockDevice f = f_is_block_device f"
definition File_isRegularFile :: "File \<Rightarrow> bool" where "File_isRegularFile f = f_is_regular_file f"
definition File_onExt4Ordered :: "File \<Rightarrow> bool" where "File_onExt4Ordered f = f_on_ext4_ordered f"
definition File_onXfs :: "File \<Rightarrow> bool" where "File_onXfs f = f_on_xfs f"

lemmas file_getters = File_clientFd_def File_bufferedFd_def File_unbufferedFd_def
  File_dioMemAlign_def File_dioOffsetAlign_def File_isBlockDevice_def File_isRegularFile_def
  File_onExt4Ordered_def File_onXfs_def

text \<open>Members are destroyed in the reverse order of their declaration.\<close>

definition File_dtor :: "'w ext \<Rightarrow> File \<Rightarrow> (('w, 'z) sys_state_scheme, unit) cxx" where
  "File_dtor x f =
     cbind (optional_dtor x (f_unbuffered_fd f)) (\<lambda>_.
     cbind (FileDescriptor_dtor x (f_buffered_fd f)) (\<lambda>_.
     FileDescriptor_dtor x (f_client_fd f)))"

section \<open>The tables of registered files\<close>

record 'w file_state = "'w buf_state" +
  file_heap :: "File store"
  from_fd :: "(int \<times> ptr) list"
  from_fh :: "(ptr \<times> ptr) list"

text \<open>The handle of a file is the address of the object (\<^verbatim>\<open>IFile::handle\<close>).\<close>

definition IFile_handle :: "ptr \<Rightarrow> ptr" where
  "IFile_handle this = this"

definition File_drop :: "'w ext \<Rightarrow> ptr \<Rightarrow> (('w, 'z) file_state_scheme, unit) cxx" where
  "File_drop x p s =
     (case sp_release p (file_heap s) of
        (None, h) \<Rightarrow> (Ret (), s\<lparr>file_heap := h\<rparr>)
      | (Some f, h) \<Rightarrow> File_dtor x f (s\<lparr>file_heap := h\<rparr>))"

definition FileMap_getFile :: "ptr \<Rightarrow> (('w, 'z) file_state_scheme, ptr) cxx" where
  "FileMap_getFile fh s =
     (case map_of (from_fh s) fh of
        None \<Rightarrow> (Exn FileNotRegistered, s)
      | Some p \<Rightarrow> (Ret p, s\<lparr>file_heap := sp_copy p (file_heap s)\<rparr>))"

text \<open>
  The local pointer of \<^verbatim>\<open>registerFile\<close> is made, copied into both tables and dropped on return.
\<close>

definition FileMap_registerFile ::
  "ptr \<Rightarrow> UnregisteredFile \<Rightarrow> (('w, 'z) file_state_scheme, ptr) cxx" where
  "FileMap_registerFile na uf s =
     (if map_of (from_fd s) (FileDescriptor_get (uf_client_fd uf)) \<noteq> None
      then (Exn FileAlreadyRegistered, s)
      else
        let file = File_ctor uf;
            h1 = sp_make na file (file_heap s);
            h2 = sp_copy na h1;
            h3 = sp_copy na h2
        in (Ret (IFile_handle na),
            s\<lparr>from_fd := AList.update (File_clientFd file) na (from_fd s),
              from_fh := AList.update (IFile_handle na) na (from_fh s),
              file_heap := snd (sp_release na h3)\<rparr>))"

definition FileMap_erase_fd :: "'w ext \<Rightarrow> int \<Rightarrow> (('w, 'z) file_state_scheme, unit) cxx" where
  "FileMap_erase_fd x fd s =
     (case map_of (from_fd s) fd of
        None \<Rightarrow> (Ret (), s)
      | Some q \<Rightarrow> File_drop x q (s\<lparr>from_fd := AList.delete fd (from_fd s)\<rparr>))"

definition FileMap_erase_fh :: "'w ext \<Rightarrow> ptr \<Rightarrow> (('w, 'z) file_state_scheme, unit) cxx" where
  "FileMap_erase_fh x fh s =
     (case map_of (from_fh s) fh of
        None \<Rightarrow> (Ret (), s)
      | Some q \<Rightarrow> File_drop x q (s\<lparr>from_fh := AList.delete fh (from_fh s)\<rparr>))"

definition FileMap_deregisterFile :: "'w ext \<Rightarrow> ptr \<Rightarrow> (('w, 'z) file_state_scheme, unit) cxx" where
  "FileMap_deregisterFile x fh s =
     (case map_of (from_fh s) fh of
        None \<Rightarrow> (Exn FileNotRegistered, s)
      | Some p \<Rightarrow>
          if 2 < sp_use_count p (file_heap s) then (Exn FileOperationsOutstanding, s)
          else (case sp_obj p (file_heap s) of
                  None \<Rightarrow> (Terminate, s)
                | Some f \<Rightarrow>
                    cbind (FileMap_erase_fd x (File_clientFd f)) (\<lambda>_. FileMap_erase_fh x fh) s))"

definition FileMap_clear :: "'w ext \<Rightarrow> (('w, 'z) file_state_scheme, unit) cxx" where
  "FileMap_clear x =
     cbind (cget (\<lambda>s. map snd (from_fd s))) (\<lambda>ps.
     cbind (cmodify (\<lambda>s. s\<lparr>from_fd := []\<rparr>)) (\<lambda>_.
     cbind (cfor ps (File_drop x)) (\<lambda>_.
     cbind (cget (\<lambda>s. map snd (from_fh s))) (\<lambda>qs.
     cbind (cmodify (\<lambda>s. s\<lparr>from_fh := []\<rparr>)) (\<lambda>_.
     cfor qs (File_drop x))))))"

definition FileMap_dtor :: "'w ext \<Rightarrow> (('w, 'z) file_state_scheme, unit) cxx" where
  "FileMap_dtor x =
     cbind (cget (\<lambda>s. length (filter (\<lambda>p. sp_use_count (snd p) (file_heap s) > 2) (from_fh s))))
       (\<lambda>count. cbind (cwhen (count > 0)
          (Sys_syslog x LOG_CRIT ''FileMap state is being destructed with in-use files''))
       (\<lambda>_. cbind (cget (\<lambda>s. map snd (from_fh s))) (\<lambda>ps.
            cbind (cmodify (\<lambda>s. s\<lparr>from_fh := []\<rparr>)) (\<lambda>_.
            cbind (cfor ps (File_drop x)) (\<lambda>_.
            cbind (cget (\<lambda>s. map snd (from_fd s))) (\<lambda>qs.
            cbind (cmodify (\<lambda>s. s\<lparr>from_fd := []\<rparr>)) (\<lambda>_.
            cfor qs (File_drop x))))))))"

section \<open>The invariant of the tables\<close>

definition file_lookup :: "('w, 'z) file_state_scheme \<Rightarrow> ptr \<Rightarrow> ptr option" where
  "file_lookup s = map_of (from_fh s)"

definition table_uses :: "('w, 'z) file_state_scheme \<Rightarrow> owners" where
  "table_uses s = (\<lambda>p. val_count (from_fd s) p + val_count (from_fh s) p)"

text \<open>
  The two tables hold the same objects: a handle is the address of its object, a descriptor
  leads to the object whose client descriptor it is, and both directions are injective.
\<close>

definition file_entries_ok :: "('w, 'z) file_state_scheme \<Rightarrow> bool" where
  "file_entries_ok s \<longleftrightarrow>
     (\<forall>fh p. map_of (from_fh s) fh = Some p \<longrightarrow>
        fh = p \<and> p \<noteq> nullptr \<and>
        (\<exists>f. sp_obj p (file_heap s) = Some f \<and> map_of (from_fd s) (File_clientFd f) = Some p)) \<and>
     (\<forall>fd p. map_of (from_fd s) fd = Some p \<longrightarrow>
        map_of (from_fh s) p = Some p \<and>
        (\<exists>f. sp_obj p (file_heap s) = Some f \<and> File_clientFd f = fd))"

definition file_inv :: "owners \<Rightarrow> ('w, 'z) file_state_scheme \<Rightarrow> bool" where
  "file_inv E s \<longleftrightarrow>
     alist_ok (from_fd s) \<and> alist_ok (from_fh s) \<and>
     distinct (map snd (from_fd s)) \<and> distinct (map snd (from_fh s)) \<and>
     sp_owned (own_sum (table_uses s) E) (file_heap s) \<and> file_entries_ok s"

lemma file_inv_world [simp]: "file_inv E (s\<lparr>world := w\<rparr>) = file_inv E s"
  by (simp add: file_inv_def file_entries_ok_def table_uses_def)

lemma file_lookup_world [simp]: "file_lookup (s\<lparr>world := w\<rparr>) = file_lookup s"
  by (simp add: file_lookup_def)

lemma file_inv_fh:
  assumes "file_inv E s" and "file_lookup s fh = Some p"
  obtains f where "fh = p" "p \<noteq> nullptr" "sp_obj p (file_heap s) = Some f"
    "map_of (from_fd s) (File_clientFd f) = Some p"
  using assms unfolding file_inv_def file_entries_ok_def file_lookup_def by blast

lemma file_inv_fd:
  assumes "file_inv E s" and "map_of (from_fd s) fd = Some p"
  obtains f where "file_lookup s p = Some p" "sp_obj p (file_heap s) = Some f"
    "File_clientFd f = fd"
  using assms unfolding file_inv_def file_entries_ok_def file_lookup_def by blast

lemma file_inv_alists:
  assumes "file_inv E s"
  shows "alist_ok (from_fd s)" "alist_ok (from_fh s)" "distinct (map snd (from_fd s))"
    "distinct (map snd (from_fh s))" "sp_owned (own_sum (table_uses s) E) (file_heap s)"
  using assms by (simp_all add: file_inv_def)

lemma table_uses_registered:
  assumes "file_inv E s" and "file_lookup s fh = Some p"
  shows "table_uses s p = 2"
proof -
  obtain f where "map_of (from_fd s) (File_clientFd f) = Some p"
    using file_inv_fh [OF assms] by metis
  from val_count_distinct [OF file_inv_alists(3) [OF assms(1)] this]
    val_count_distinct [OF file_inv_alists(4) [OF assms(1)], of fh p] assms(2)
  show ?thesis by (simp add: table_uses_def file_lookup_def)
qed

lemma file_inv_uses:
  "file_inv E s \<Longrightarrow> file_lookup s fh = Some p \<Longrightarrow> sp_use_count p (file_heap s) = 2 + E p"
  using table_uses_registered [of E s fh p]
    sp_owned_use_count [of "own_sum (table_uses s) E" "file_heap s" p]
  by (simp add: file_inv_def sp_simps)

lemma table_uses_0:
  assumes inv: "file_inv E s"
  shows "table_uses s p = 0 \<longleftrightarrow> file_lookup s p = None"
proof
  assume "table_uses s p = 0"
  then show "file_lookup s p = None"
    using table_uses_registered [OF inv, of p] file_inv_fh [OF inv, of p]
    by (metis option.exhaust zero_neq_numeral)
next
  assume none: "file_lookup s p = None"
  have "map_of (from_fh s) fh \<noteq> Some p" for fh
    using none file_inv_fh [OF inv, of fh p] unfolding file_lookup_def by (metis option.distinct(1))
  moreover have "map_of (from_fd s) fd \<noteq> Some p" for fd
    using none file_inv_fd [OF inv, of fd p] by (metis option.distinct(1))
  ultimately have "p \<notin> snd ` set (from_fh s)" "p \<notin> snd ` set (from_fd s)"
    using map_of_ex [OF _ file_inv_alists(2) [OF inv]] map_of_ex [OF _ file_inv_alists(1) [OF inv]]
    by blast+
  then show "table_uses s p = 0"
    by (simp only: table_uses_def val_count_0_iff add_is_0 simp_thms)
qed

lemma file_inv_fresh:
  "file_inv E s \<Longrightarrow> file_heap s na = None \<Longrightarrow> E na = 0 \<and> file_lookup s na = None"
  using sp_owned_none_iff [of "own_sum (table_uses s) E" "file_heap s" na] table_uses_0 [of E s na]
  by (simp add: file_inv_def sp_simps)

lemma file_inv_heap:
  assumes "file_inv E s"
    and "sp_owned (own_sum (table_uses s) E') h"
    and keep: "\<And>p. file_lookup s p \<noteq> None \<Longrightarrow> sp_obj p h = sp_obj p (file_heap s)"
  shows "file_inv E' (s\<lparr>file_heap := h\<rparr>)"
proof -
  have "file_entries_ok (s\<lparr>file_heap := h\<rparr>)"
    unfolding file_entries_ok_def
  proof (intro conjI allI impI)
    fix fh p
    assume a: "map_of (from_fh (s\<lparr>file_heap := h\<rparr>)) fh = Some p"
    obtain f where "fh = p" "p \<noteq> nullptr" "sp_obj p (file_heap s) = Some f"
      "map_of (from_fd s) (File_clientFd f) = Some p"
      using file_inv_fh [OF assms(1), of fh p] a by (auto simp: file_lookup_def)
    with a keep [of p] show "fh = p" "p \<noteq> nullptr" "\<exists>f. sp_obj p (file_heap (s\<lparr>file_heap := h\<rparr>)) = Some f \<and>
        map_of (from_fd (s\<lparr>file_heap := h\<rparr>)) (File_clientFd f) = Some p"
      by (auto simp: file_lookup_def)
  next
    fix fd p
    assume a: "map_of (from_fd (s\<lparr>file_heap := h\<rparr>)) fd = Some p"
    obtain f where "file_lookup s p = Some p" "sp_obj p (file_heap s) = Some f"
      "File_clientFd f = fd"
      using file_inv_fd [OF assms(1), of fd p] a by auto
    with keep [of p] show "map_of (from_fh (s\<lparr>file_heap := h\<rparr>)) p = Some p"
      "\<exists>f. sp_obj p (file_heap (s\<lparr>file_heap := h\<rparr>)) = Some f \<and> File_clientFd f = fd"
      by (auto simp: file_lookup_def)
  qed
  with assms(1,2) show ?thesis
    by (simp add: file_inv_def table_uses_def)
qed

lemma file_inv_copy:
  assumes "file_inv E s" and "file_lookup s fh = Some p"
  shows "file_inv (E(p := Suc (E p))) (s\<lparr>file_heap := sp_copy p (file_heap s)\<rparr>)"
proof (rule file_inv_heap [OF assms(1)])
  have "0 < own_sum (table_uses s) E p"
    using table_uses_registered [OF assms] by (simp add: sp_simps)
  then show "sp_owned (own_sum (table_uses s) (E(p := Suc (E p)))) (sp_copy p (file_heap s))"
    using assms(1) by (intro sp_owned_sum_copy) (simp_all add: file_inv_def)
qed (simp add: sp_simps)

lemma file_inv_drop:
  assumes "file_inv E s" and "0 < E p"
  shows "file_inv (E(p := E p - 1)) (s\<lparr>file_heap := snd (sp_release p (file_heap s))\<rparr>)"
proof (rule file_inv_heap [OF assms(1)])
  have own: "sp_owned (own_sum (table_uses s) E) (file_heap s)"
    using assms(1) by (simp add: file_inv_def)
  then show "sp_owned (own_sum (table_uses s) (E(p := E p - 1))) (snd (sp_release p (file_heap s)))"
    using assms(2) by (rule sp_owned_sum_drop)
  show "sp_obj q (snd (sp_release p (file_heap s))) = sp_obj q (file_heap s)"
    if "file_lookup s q \<noteq> None" for q
    using sp_obj_drop_shared [OF own assms(2), of q] that table_uses_0 [OF assms(1), of q]
    by auto
qed


section \<open>Dropping a use\<close>

lemma world_dtor_File_dtor: "world_dtor (File_dtor x f)"
  by (simp add: File_dtor_def world_dtor_bind world_dtor_FileDescriptor optional_dtor_def world_dtor_ret
      split: option.split)

text \<open>Destroying a file changes only the world, and it returns or ends the process.\<close>

lemma file_heap_world: "s\<lparr>file_heap := h, world := w\<rparr> = s\<lparr>world := w, file_heap := h\<rparr>"
  for s :: "('w, 'z) file_state_scheme"
  by (cases s) simp

lemma file_table_upds:
  fixes s :: "('w, 'z) file_state_scheme"
  shows "s\<lparr>from_fd := a, file_heap := h, from_fh := b, world := w, file_heap := h'\<rparr> =
    s\<lparr>world := w, from_fd := a, from_fh := b, file_heap := h'\<rparr>"
  by (cases s) simp

lemma file_inv_world_tables:
  "file_inv E (s\<lparr>world := w, from_fd := a, from_fh := b, file_heap := h\<rparr>) =
   file_inv E (s\<lparr>from_fd := a, from_fh := b, file_heap := h\<rparr>)"
  "file_inv E (s\<lparr>from_fd := a, from_fh := b, world := w, file_heap := h\<rparr>) =
   file_inv E (s\<lparr>from_fd := a, from_fh := b, file_heap := h\<rparr>)"
  by (simp_all add: file_inv_def file_entries_ok_def table_uses_def)

lemma file_world_heap:
  "s\<lparr>world := w, file_heap := h, world := w', file_heap := h'\<rparr> = s\<lparr>world := w', file_heap := h'\<rparr>"
  for s :: "('w, 'z) file_state_scheme"
  by (cases s) simp

lemma file_clear_upds:
  fixes s :: "('w, 'z) file_state_scheme"
  shows "s\<lparr>from_fd := a, world := w', file_heap := h', from_fh := b, world := w, file_heap := h\<rparr> =
    s\<lparr>world := w, from_fd := a, from_fh := b, file_heap := h\<rparr>"
  by (cases s) simp

lemma File_drop_outcome:
  obtains w where "File_drop x p s = (Ret (), s\<lparr>world := w, file_heap := snd (sp_release p (file_heap s))\<rparr>)"
  | w where "File_drop x p s = (Terminate, s\<lparr>world := w, file_heap := snd (sp_release p (file_heap s))\<rparr>)"
proof (cases "sp_release p (file_heap s)")
  case (Pair fo h)
  show thesis
  proof (cases fo)
    case None
    with Pair that(1) [of "world s"] show thesis by (simp add: File_drop_def)
  next
    case (Some f)
    from world_dtor_File_dtor [of x f] show thesis
      by (rule world_dtorE [where s = "s\<lparr>file_heap := h\<rparr>"]) (use Some Pair that [of _] in \<open>simp_all add: File_drop_def file_heap_world\<close>)
  qed
qed


lemma File_drop_shared:
  "1 < sp_use_count p (file_heap s) \<Longrightarrow>
     File_drop x p s = (Ret (), s\<lparr>file_heap := snd (sp_release p (file_heap s))\<rparr>)"
  by (auto simp: File_drop_def sp_release_def sp_use_count_def split: option.splits)

lemma getFile_present:
  assumes "file_inv E s" and "file_lookup s fh = Some p"
  shows "\<exists>t. FileMap_getFile fh s = (Ret p, t) \<and> file_inv (E(p := Suc (E p))) t \<and>
           file_lookup t = file_lookup s"
  using file_inv_copy [OF assms] assms(2) by (simp add: FileMap_getFile_def file_lookup_def)

lemma file_entries_remove:
  assumes inv: "file_inv E s" and p: "file_lookup s fh = Some p"
    and f: "sp_obj p (file_heap s) = Some f"
  shows "file_entries_ok
    (s\<lparr>from_fd := AList.delete (File_clientFd f) (from_fd s),
       from_fh := AList.delete fh (from_fh s), file_heap := (file_heap s)(p := None)\<rparr>)"
    (is "file_entries_ok ?t")
proof -
  have obj: "sp_obj q (file_heap ?t) = sp_obj q (file_heap s)" if "q \<noteq> p" for q
    using that by (simp add: sp_obj_def)
  have fh: "map_of (from_fh ?t) g = (if g = fh then None else file_lookup s g)" for g
    by (simp add: map_of_delete_eq file_lookup_def)
  have fd: "map_of (from_fd ?t) d = (if d = File_clientFd f then None else map_of (from_fd s) d)" for d
    by (simp add: map_of_delete_eq)
  show ?thesis
    unfolding file_entries_ok_def
  proof (intro conjI allI impI)
    fix g q
    assume "map_of (from_fh ?t) g = Some q"
    then have g: "g \<noteq> fh" "file_lookup s g = Some q"
      unfolding fh by (simp_all split: if_splits)
    obtain f' where f': "g = q" "q \<noteq> nullptr" "sp_obj q (file_heap s) = Some f'"
      "map_of (from_fd s) (File_clientFd f') = Some q"
      using file_inv_fh [OF inv g(2)] by metis
    have "q \<noteq> p" using file_inv_fh [OF inv p] f'(1) g(1) by metis
    moreover have "File_clientFd f' \<noteq> File_clientFd f"
      using file_inv_fh [OF inv p] f f'(4) \<open>q \<noteq> p\<close> by (metis option.inject)
    ultimately show "g = q" "q \<noteq> nullptr" "\<exists>f. sp_obj q (file_heap ?t) = Some f \<and>
        map_of (from_fd ?t) (File_clientFd f) = Some q"
      using f' obj fd by simp_all
  next
    fix d q
    assume "map_of (from_fd ?t) d = Some q"
    then have d: "d \<noteq> File_clientFd f" "map_of (from_fd s) d = Some q"
      unfolding fd by (simp_all split: if_splits)
    obtain f' where f': "file_lookup s q = Some q" "sp_obj q (file_heap s) = Some f'"
      "File_clientFd f' = d"
      using file_inv_fd [OF inv d(2)] by metis
    have "q \<noteq> p" using f f'(2,3) d(1) by auto
    moreover have "fh = p" using file_inv_fh [OF inv p] by metis
    ultimately show "map_of (from_fh ?t) q = Some q"
      "\<exists>f. sp_obj q (file_heap ?t) = Some f \<and> File_clientFd f = d"
      using f' obj fh by simp_all
  qed
qed

lemma file_inv_remove:
  assumes inv: "file_inv E s" and p: "file_lookup s fh = Some p" and "E p = 0"
    and f: "sp_obj p (file_heap s) = Some f"
  shows "file_inv E
    (s\<lparr>from_fd := AList.delete (File_clientFd f) (from_fd s),
       from_fh := AList.delete fh (from_fh s), file_heap := (file_heap s)(p := None)\<rparr>)"
    (is "file_inv E ?t")
proof -
  note al = file_inv_alists [OF inv]
  have fd: "map_of (from_fd s) (File_clientFd f) = Some p"
    using file_inv_fh [OF inv p] f by (metis option.inject)
  have fh: "map_of (from_fh s) fh = Some p" using p by (simp add: file_lookup_def)
  have "own_sum (table_uses ?t) E = (own_sum (table_uses s) E)(p := 0)"
  proof
    fix q
    have "table_uses ?t q = table_uses s q - (if q = p then 2 else 0)"
      using val_count_delete [OF al(1) fd, of q] val_count_delete [OF al(2) fh, of q]
        val_count_distinct [OF al(3) fd] val_count_distinct [OF al(4) fh]
      by (cases "q = p") (simp_all add: table_uses_def)
    then show "own_sum (table_uses ?t) E q = ((own_sum (table_uses s) E)(p := 0)) q"
      using assms(3) table_uses_registered [OF inv p] by (simp add: own_sum_apply)
  qed
  then show ?thesis
    using al sp_owned_clear_one [OF al(5), of p] file_entries_remove [OF inv p f]
    by (simp add: file_inv_def alist_ok_delete distinct_vals_delete)
qed


lemma deregisterFile_free:
  assumes inv: "file_inv E s" and p: "file_lookup s fh = Some p" and E: "E p = 0"
    and f: "sp_obj p (file_heap s) = Some f"
  obtains w where "FileMap_deregisterFile x fh s = (Ret (),
      s\<lparr>world := w, from_fd := AList.delete (File_clientFd f) (from_fd s),
        from_fh := AList.delete fh (from_fh s), file_heap := (file_heap s)(p := None)\<rparr>)"
  | w where "FileMap_deregisterFile x fh s = (Terminate,
      s\<lparr>world := w, from_fd := AList.delete (File_clientFd f) (from_fd s),
        from_fh := AList.delete fh (from_fh s), file_heap := (file_heap s)(p := None)\<rparr>)"
proof -
  have uses: "sp_use_count p (file_heap s) = 2"
    using file_inv_uses [OF inv p] E by simp
  note two = sp_release_twice [OF uses]
  have fd: "map_of (from_fd s) (File_clientFd f) = Some p"
    using file_inv_fh [OF inv p] f by (metis option.inject)
  let ?h = "snd (sp_release p (file_heap s))"
  let ?s1 = "s\<lparr>from_fd := AList.delete (File_clientFd f) (from_fd s), file_heap := ?h\<rparr>"
  have e1: "FileMap_erase_fd x (File_clientFd f) s = (Ret (), ?s1)"
    using fd uses by (simp add: FileMap_erase_fd_def File_drop_shared)
  have "FileMap_deregisterFile x fh s = FileMap_erase_fh x fh ?s1"
    using p uses f e1 by (simp add: FileMap_deregisterFile_def file_lookup_def cbind_def)
  also have "\<dots> = File_drop x p (?s1\<lparr>from_fh := AList.delete fh (from_fh s)\<rparr>)"
    using p by (simp add: FileMap_erase_fh_def file_lookup_def)
  finally show thesis
    using that File_drop_outcome [of x p "?s1\<lparr>from_fh := AList.delete fh (from_fh s)\<rparr>"] two
    by (auto simp: file_table_upds)
qed

interpretation files: registry file_inv file_lookup FileMap_getFile "FileMap_deregisterFile x"
  "File_drop x" FileNotRegistered FileOperationsOutstanding for x
proof (unfold_locales, goal_cases)
  case (1 s k)
  then show ?case by (simp add: FileMap_getFile_def file_lookup_def)
next
  case (2 E s k p)
  then show ?case by (rule getFile_present)
next
  case (3 s k)
  then show ?case by (simp add: FileMap_deregisterFile_def file_lookup_def)
next
  case (4 E s k p)
  then show ?case
    using file_inv_uses [of E s k p] by (simp add: FileMap_deregisterFile_def file_lookup_def)
next
  case (5 E s k p r t)
  obtain f where f: "sp_obj p (file_heap s) = Some f"
    using file_inv_fh [OF 5(1,2)] by metis
  note inv' = file_inv_remove [OF 5(1,2,3) f]
  show ?case
    by (rule deregisterFile_free [OF 5(1,2,3) f, of x])
       (use inv' 5 in \<open>auto simp: file_lookup_def map_of_delete_eq file_inv_world_tables\<close>)
next
  case (6 E s k p)
  have "1 < sp_use_count p (file_heap s)"
    using file_inv_uses [OF 6(1,2)] by simp
  with file_inv_drop [OF 6(1,3)] show ?case
    by (simp add: File_drop_shared file_lookup_def)
qed


section \<open>Registration and clearing\<close>

lemma registerFile_present:
  "map_of (from_fd s) (FileDescriptor_get (uf_client_fd uf)) \<noteq> None \<Longrightarrow>
     FileMap_registerFile na uf s = (Exn FileAlreadyRegistered, s)"
  by (simp add: FileMap_registerFile_def)

lemma File_ctor_clientFd: "File_clientFd (File_ctor uf) = FileDescriptor_get (uf_client_fd uf)"
  by (simp add: File_clientFd_def File_ctor_def FileDescriptor_get_def FileDescriptor_move_def)

lemma registerFile_new:
  assumes "map_of (from_fd s) (FileDescriptor_get (uf_client_fd uf)) = None"
  shows "FileMap_registerFile na uf s =
    (Ret na, s\<lparr>from_fd := AList.update (File_clientFd (File_ctor uf)) na (from_fd s),
               from_fh := AList.update na na (from_fh s),
               file_heap := (file_heap s)(na \<mapsto> (File_ctor uf, 2))\<rparr>)"
  using assms
  by (simp add: FileMap_registerFile_def IFile_handle_def sp_make_def sp_copy_def sp_release_def
      Let_def numeral_2_eq_2)

lemma file_entries_add:
  assumes inv: "file_inv E s" and na: "file_lookup s na = None" "na \<noteq> nullptr"
    and fd: "map_of (from_fd s) (File_clientFd f) = None"
  shows "file_entries_ok (s\<lparr>from_fd := AList.update (File_clientFd f) na (from_fd s),
       from_fh := AList.update na na (from_fh s), file_heap := (file_heap s)(na \<mapsto> (f, 2))\<rparr>)"
    (is "file_entries_ok ?t")
proof -
  have obj: "sp_obj q (file_heap ?t) = (if q = na then Some f else sp_obj q (file_heap s))" for q
    by (simp add: sp_obj_def)
  have fh': "map_of (from_fh ?t) g = (if g = na then Some na else file_lookup s g)" for g
    by (simp add: map_of_update_eq file_lookup_def)
  have fd': "map_of (from_fd ?t) d = (if d = File_clientFd f then Some na else map_of (from_fd s) d)"
    for d by (simp add: map_of_update_eq)
  show ?thesis
    unfolding file_entries_ok_def fh' fd' obj
  proof (intro conjI allI impI)
    fix g q
    assume g: "(if g = na then Some na else file_lookup s g) = Some q"
    have "g \<noteq> na \<Longrightarrow> \<exists>f'. g = q \<and> q \<noteq> nullptr \<and> sp_obj q (file_heap s) = Some f' \<and>
        map_of (from_fd s) (File_clientFd f') = Some q"
      using g file_inv_fh [OF inv, of g q] by (metis (full_types))
    then show "g = q" "q \<noteq> nullptr" "\<exists>fa. (if q = na then Some f else sp_obj q (file_heap s)) = Some fa \<and>
        (if File_clientFd fa = File_clientFd f then Some na
         else map_of (from_fd s) (File_clientFd fa)) = Some q"
      using g na fd by (cases "g = na"; force)+
  next
    fix d q
    assume d: "(if d = File_clientFd f then Some na else map_of (from_fd s) d) = Some q"
    have "d \<noteq> File_clientFd f \<Longrightarrow> q \<noteq> na \<and> file_lookup s q = Some q \<and>
        (\<exists>f'. sp_obj q (file_heap s) = Some f' \<and> File_clientFd f' = d)"
      using d na(1) file_inv_fd [OF inv, of d q] by (metis (full_types) option.distinct(1))
    then show "(if q = na then Some na else file_lookup s q) = Some q"
      "\<exists>fa. (if q = na then Some f else sp_obj q (file_heap s)) = Some fa \<and> File_clientFd fa = d"
      using d by (cases "d = File_clientFd f"; force)+
  qed
qed

lemma file_inv_add:
  assumes inv: "file_inv E s" and na: "file_heap s na = None" "na \<noteq> nullptr"
    and fd: "map_of (from_fd s) (File_clientFd f) = None"
  shows "file_inv E (s\<lparr>from_fd := AList.update (File_clientFd f) na (from_fd s),
       from_fh := AList.update na na (from_fh s), file_heap := (file_heap s)(na \<mapsto> (f, 2))\<rparr>)"
    (is "file_inv E ?t")
proof -
  note al = file_inv_alists [OF inv] and fresh = file_inv_fresh [OF inv na(1)]
  then have none: "map_of (from_fh s) na = None" by (simp add: file_lookup_def)
  have t0: "table_uses s na = 0" using table_uses_0 [OF inv] fresh by blast
  then have vals: "na \<notin> snd ` set (from_fd s)" "na \<notin> snd ` set (from_fh s)"
    by (simp_all add: table_uses_def val_count_0_iff)
  have "own_sum (table_uses ?t) E = (own_sum (table_uses s) E)(na := 2)"
  proof
    fix q
    have "table_uses ?t q = table_uses s q + (if q = na then 2 else 0)"
      using fd none by (simp add: table_uses_def val_count_update_new)
    then show "own_sum (table_uses ?t) E q = ((own_sum (table_uses s) E)(na := 2)) q"
      using fresh t0 by (simp add: own_sum_apply)
  qed
  moreover have "sp_owned ((own_sum (table_uses s) E)(na := 2)) ((file_heap s)(na \<mapsto> (f, 2)))"
    by (rule sp_owned_upd [OF al(5)]) simp
  ultimately show ?thesis
    using al fd none vals file_entries_add [OF inv _ na(2) fd] fresh
    by (simp add: file_inv_def alist_ok_update distinct_vals_update_new)
qed

lemma registerFile_spec:
  assumes inv: "file_inv E s" and na: "file_heap s na = None" "na \<noteq> nullptr"
    and "FileMap_registerFile na uf s = (r, t)"
  shows "file_inv E t \<and>
    (if map_of (from_fd s) (FileDescriptor_get (uf_client_fd uf)) = None
     then r = Ret na \<and> file_lookup t = (file_lookup s)(na \<mapsto> na)
     else r = Exn FileAlreadyRegistered \<and> t = s)"
proof (cases "map_of (from_fd s) (FileDescriptor_get (uf_client_fd uf)) = None")
  case True
  from registerFile_new [OF True, of na] assms(4) file_inv_add [OF inv na, of "File_ctor uf"] True
  show ?thesis by (auto simp: File_ctor_clientFd file_lookup_def map_of_update_eq)
next
  case False
  with registerFile_present [OF False, of na] assms show ?thesis by auto
qed

lemma File_drop_all:
  obtains (ret) w where "cfor ps (File_drop x) s =
      (Ret (), s\<lparr>world := w, file_heap := sp_release_all ps (file_heap s)\<rparr>)"
  | (terminate) w h where "cfor ps (File_drop x) s = (Terminate, s\<lparr>world := w, file_heap := h\<rparr>)"
proof (induction ps arbitrary: s thesis)
  case Nil
  show ?case by (rule Nil(1) [of "world s"]) (simp add: cret_def)
next
  case (Cons p ps)
  let ?h = "snd (sp_release p (file_heap s))"
  show ?case
  proof (rule File_drop_outcome [of x p s])
    fix w assume w: "File_drop x p s = (Ret (), s\<lparr>world := w, file_heap := ?h\<rparr>)"
    show ?thesis
      by (rule Cons.IH [of "s\<lparr>world := w, file_heap := ?h\<rparr>"])
         (use w Cons.prems in \<open>simp_all add: cbind_def file_world_heap\<close>)
  next
    fix w assume "File_drop x p s = (Terminate, s\<lparr>world := w, file_heap := ?h\<rparr>)"
    then show ?thesis using Cons.prems(2) by (simp add: cbind_def)
  qed
qed

lemma file_inv_cleared:
  assumes "file_inv E s"
  shows "file_inv E (s\<lparr>from_fd := [], from_fh := [],
    file_heap := sp_release_all (map snd (from_fd s) @ map snd (from_fh s)) (file_heap s)\<rparr>)"
proof -
  have "own_sum (count_list (map snd (from_fd s) @ map snd (from_fh s))) E =
      own_sum (table_uses s) E"
    by (rule own_sum_move) (simp add: table_uses_def)
  then have "sp_owned (own_sum (\<lambda>_. 0) E)
      (sp_release_all (map snd (from_fd s) @ map snd (from_fh s)) (file_heap s))"
    using file_inv_alists(5) [OF assms] by (intro sp_owned_sum_clear) simp
  then show ?thesis
    by (simp add: file_inv_def file_entries_ok_def table_uses_def)
qed

lemma FileMap_clear_spec:
  assumes "file_inv E s" and "FileMap_clear x s = (r, t)"
  shows "r \<noteq> Exn e \<and> (r = Ret () \<longrightarrow> file_inv E t \<and> file_lookup t = Map.empty)"
proof -
  let ?s1 = "s\<lparr>from_fd := []\<rparr>" and ?ps = "map snd (from_fd s)" and ?qs = "map snd (from_fh s)"
  show ?thesis
  proof (rule File_drop_all [of ?ps x ?s1])
    fix w
    let ?s2 = "?s1\<lparr>world := w, file_heap := sp_release_all ?ps (file_heap s), from_fh := []\<rparr>"
    assume d1: "cfor ?ps (File_drop x) ?s1 =
      (Ret (), ?s1\<lparr>world := w, file_heap := sp_release_all ?ps (file_heap ?s1)\<rparr>)"
    have eq: "FileMap_clear x s = cfor ?qs (File_drop x) ?s2"
      using d1 by (simp add: FileMap_clear_def cbind_def cget_def cmodify_def)
    show ?thesis
      by (rule File_drop_all [of ?qs x ?s2])
         (use eq assms file_inv_cleared [OF assms(1)] in
           \<open>auto simp: file_lookup_def file_clear_upds sp_release_all_append file_inv_world_tables\<close>)
  next
    fix w h assume "cfor ?ps (File_drop x) ?s1 = (Terminate, ?s1\<lparr>world := w, file_heap := h\<rparr>)"
    with assms(2) show ?thesis
      by (auto simp: FileMap_clear_def cbind_def cget_def cmodify_def)
  qed
qed

lemma FileMap_clear_heap:
  assumes "FileMap_clear x s = (Ret (), t)"
  shows "file_heap t = sp_release_all (map snd (from_fd s) @ map snd (from_fh s)) (file_heap s) \<and>
    from_fd t = [] \<and> from_fh t = []"
proof -
  let ?s1 = "s\<lparr>from_fd := []\<rparr>" and ?ps = "map snd (from_fd s)" and ?qs = "map snd (from_fh s)"
  show ?thesis
  proof (rule File_drop_all [of ?ps x ?s1])
    fix w
    let ?s2 = "?s1\<lparr>world := w, file_heap := sp_release_all ?ps (file_heap s), from_fh := []\<rparr>"
    assume d1: "cfor ?ps (File_drop x) ?s1 =
      (Ret (), ?s1\<lparr>world := w, file_heap := sp_release_all ?ps (file_heap ?s1)\<rparr>)"
    have eq: "FileMap_clear x s = cfor ?qs (File_drop x) ?s2"
      using d1 by (simp add: FileMap_clear_def cbind_def cget_def cmodify_def)
    show ?thesis
      by (rule File_drop_all [of ?qs x ?s2])
         (use eq assms in \<open>auto simp: sp_release_all_append\<close>)
  next
    fix w h assume "cfor ?ps (File_drop x) ?s1 = (Terminate, ?s1\<lparr>world := w, file_heap := h\<rparr>)"
    with assms show ?thesis
      by (auto simp: FileMap_clear_def cbind_def cget_def cmodify_def)
  qed
qed

lemma file_inv_owned_vals:
  "file_inv E s \<Longrightarrow>
     sp_owned (own_sum (count_list (map snd (from_fd s) @ map snd (from_fh s))) E) (file_heap s)"
proof -
  assume inv: "file_inv E s"
  have "own_sum (count_list (map snd (from_fd s) @ map snd (from_fh s))) E = own_sum (table_uses s) E"
    by (rule own_sum_move) (simp add: table_uses_def)
  with file_inv_alists(5) [OF inv] show ?thesis by simp
qed

lemma File_drop_inv:
  assumes "file_inv E s" and "0 < E p" and "File_drop x p s = (r, t)"
  shows "file_inv (E(p := E p - 1)) t \<and> file_lookup t = file_lookup s \<and> (r = Ret () \<or> r = Terminate)"
  by (rule File_drop_outcome [of x p s])
     (use file_inv_drop [of E "s\<lparr>world := _\<rparr>" p] assms in \<open>auto simp: file_lookup_def\<close>)

lemma file_inv_copy_held:
  assumes "file_inv E s" and "0 < E p"
  shows "file_inv (E(p := Suc (E p))) (s\<lparr>file_heap := sp_copy p (file_heap s)\<rparr>)"
proof (rule file_inv_heap [OF assms(1)])
  have "0 < own_sum (table_uses s) E p" using assms(2) by (simp add: sp_simps)
  then show "sp_owned (own_sum (table_uses s) (E(p := Suc (E p)))) (sp_copy p (file_heap s))"
    using assms(1) by (intro sp_owned_sum_copy) (simp_all add: file_inv_def)
qed (simp add: sp_simps)

lemma world_only_UnregisteredFile_ctor: "world_only (UnregisteredFile_ctor x fd)"
proof -
  have c: "world_only (Sys_open x p fl m)" "world_only (Sys_fcntl x fd' op arg)" 
    "world_only (Sys_statx x fd' p' fl' req)" for p fl m fd' op arg p' fl' req
    unfolding Sys_open_def Sys_fcntl_def Sys_statx_def
    by (auto intro!: world_only_cbind world_only_case_prod)
  show ?thesis
    unfolding UnregisteredFile_ctor_def Let_def
    by (intro world_only_cbind world_only_if world_only_ccatch c world_only_getMountInfo world_only_cret)
       (auto split: exn.split)
qed

end
