(* ===== verification/Stream_Map.thy ===== *)
theory Stream_Map
  imports File_Map
begin

text \<open>
  \<^verbatim>\<open>Stream\<close> and \<^verbatim>\<open>StreamMap\<close> (\<^verbatim>\<open>src/amd_detail/stream.cpp\<close>): the HIP streams that a client registered
  with usage flags. A stream that was not registered is used with a temporary object without
  flags. The mutex of a stream is not part of the model: a function of the library runs to its
  end before the next one.
\<close>

section \<open>Streams\<close>

definition HIPFILE_STREAM_FIXED_BUF_OFFSET :: uint32_t where "HIPFILE_STREAM_FIXED_BUF_OFFSET = 1"
definition HIPFILE_STREAM_FIXED_FILE_OFFSET :: uint32_t where "HIPFILE_STREAM_FIXED_FILE_OFFSET = 2"
definition HIPFILE_STREAM_FIXED_FILE_SIZE :: uint32_t where "HIPFILE_STREAM_FIXED_FILE_SIZE = 4"
definition HIPFILE_STREAM_PAGE_ALIGNED_INPUTS :: uint32_t where
  "HIPFILE_STREAM_PAGE_ALIGNED_INPUTS = 8"
definition HIPFILE_STREAM_FLAGS_MASK :: uint32_t where "HIPFILE_STREAM_FLAGS_MASK = 0xf"

lemmas stream_flag_defs = HIPFILE_STREAM_FIXED_BUF_OFFSET_def HIPFILE_STREAM_FIXED_FILE_OFFSET_def
  HIPFILE_STREAM_FIXED_FILE_SIZE_def HIPFILE_STREAM_PAGE_ALIGNED_INPUTS_def
  HIPFILE_STREAM_FLAGS_MASK_def

record Stream =
  st_hip_stream :: ptr
  st_device_id :: int
  st_fixed_buf_offset :: bool
  st_fixed_file_offset :: bool
  st_fixed_io_size :: bool
  st_page_aligned :: bool

definition Stream_ctor :: "'w ext \<Rightarrow> ptr \<Rightarrow> uint32_t \<Rightarrow> (('w, 'z) sys_state_scheme, Stream) cxx" where
  "Stream_ctor x hip_stream flags =
     (let st = \<lparr>st_hip_stream = hip_stream, st_device_id = 0,
                st_fixed_buf_offset = (flags AND HIPFILE_STREAM_FIXED_BUF_OFFSET \<noteq> 0),
                st_fixed_file_offset = (flags AND HIPFILE_STREAM_FIXED_FILE_OFFSET \<noteq> 0),
                st_fixed_io_size = (flags AND HIPFILE_STREAM_FIXED_FILE_SIZE \<noteq> 0),
                st_page_aligned = (flags AND HIPFILE_STREAM_PAGE_ALIGNED_INPUTS \<noteq> 0)\<rparr>
      in if flags AND HIPFILE_STREAM_FLAGS_MASK \<noteq> flags then cthrow Std_invalid_argument
         else cbind (hipStreamGetDevice x hip_stream) (\<lambda>device_id.
                cret (st\<lparr>st_device_id := device_id\<rparr>)))"

definition Stream_getHipStream :: "Stream \<Rightarrow> ptr" where "Stream_getHipStream st = st_hip_stream st"
definition Stream_getHipDevice :: "Stream \<Rightarrow> int" where "Stream_getHipDevice st = st_device_id st"
definition Stream_fixedBufferOffset :: "Stream \<Rightarrow> bool" where
  "Stream_fixedBufferOffset st = st_fixed_buf_offset st"
definition Stream_fixedFileOffset :: "Stream \<Rightarrow> bool" where
  "Stream_fixedFileOffset st = st_fixed_file_offset st"
definition Stream_fixedIOSize :: "Stream \<Rightarrow> bool" where
  "Stream_fixedIOSize st = st_fixed_io_size st"
definition Stream_pageAligned :: "Stream \<Rightarrow> bool" where "Stream_pageAligned st = st_page_aligned st"

lemmas stream_getters = Stream_getHipStream_def Stream_getHipDevice_def
  Stream_fixedBufferOffset_def Stream_fixedFileOffset_def Stream_fixedIOSize_def
  Stream_pageAligned_def

section \<open>The table of registered streams\<close>

record 'w stream_state = "'w file_state" +
  stream_heap :: "Stream store"
  from_stream :: "(ptr \<times> ptr) list"

definition Stream_drop :: "ptr \<Rightarrow> (('w, 'z) stream_state_scheme, unit) cxx" where
  "Stream_drop p = cmodify (\<lambda>s. s\<lparr>stream_heap := snd (sp_release p (stream_heap s))\<rparr>)"

definition StreamMap_registerStream ::
  "'w ext \<Rightarrow> ptr \<Rightarrow> ptr \<Rightarrow> uint32_t \<Rightarrow> (('w, 'z) stream_state_scheme, unit) cxx" where
  "StreamMap_registerStream x na hip_stream flags =
     cbind (cget from_stream) (\<lambda>m.
       if map_of m hip_stream \<noteq> None then cthrow Std_invalid_argument
       else cbind (Stream_ctor x hip_stream flags) (\<lambda>stream.
              cmodify (\<lambda>s. s\<lparr>stream_heap := sp_make na stream (stream_heap s),
                             from_stream := AList.update hip_stream na (from_stream s)\<rparr>)))"

definition StreamMap_deregisterStream :: "ptr \<Rightarrow> (('w, 'z) stream_state_scheme, unit) cxx" where
  "StreamMap_deregisterStream hip_stream s =
     (case map_of (from_stream s) hip_stream of
        None \<Rightarrow> (Exn Std_invalid_argument, s)
      | Some p \<Rightarrow> Stream_drop p (s\<lparr>from_stream := AList.delete hip_stream (from_stream s)\<rparr>))"

definition StreamMap_getStream ::
  "'w ext \<Rightarrow> ptr \<Rightarrow> ptr \<Rightarrow> (('w, 'z) stream_state_scheme, ptr) cxx" where
  "StreamMap_getStream x na hip_stream s =
     (case map_of (from_stream s) hip_stream of
        None \<Rightarrow>
          cbind (Stream_ctor x hip_stream 0) (\<lambda>stream.
            cbind (cmodify (\<lambda>s. s\<lparr>stream_heap := sp_make na stream (stream_heap s)\<rparr>))
              (\<lambda>_. cret na)) s
      | Some p \<Rightarrow> (Ret p, s\<lparr>stream_heap := sp_copy p (stream_heap s)\<rparr>))"

definition StreamMap_dtor :: "'w ext \<Rightarrow> (('w, 'z) stream_state_scheme, unit) cxx" where
  "StreamMap_dtor x =
     cbind (cget (\<lambda>s. length (filter (\<lambda>p. sp_use_count (snd p) (stream_heap s) > 1) (from_stream s))))
       (\<lambda>count. cbind (cwhen (count > 0)
          (Sys_syslog x LOG_CRIT ''Stream state is being destructed with outstanding operations''))
       (\<lambda>_. cmodify (\<lambda>s. s\<lparr>stream_heap := sp_release_all (map snd (from_stream s)) (stream_heap s),
                           from_stream := []\<rparr>)))"

section \<open>What a registered stream promises\<close>

lemma world_only_Stream_ctor [intro]: "world_only (Stream_ctor x hs flags)"
  unfolding Stream_ctor_def hipStreamGetDevice_def Let_def
  by (intro world_only_if world_only_cbind) auto

lemma flags_mask_iff: "flags AND HIPFILE_STREAM_FLAGS_MASK = flags \<longleftrightarrow> unat flags < 16"
proof -
  have "flags AND HIPFILE_STREAM_FLAGS_MASK = take_bit 4 flags"
    by (simp add: HIPFILE_STREAM_FLAGS_MASK_def take_bit_eq_mask mask_eq_exp_minus_1)
  moreover have "take_bit 4 flags = flags \<longleftrightarrow> take_bit 4 (unat flags) = unat flags"
    by (metis unsigned_take_bit_eq unsigned_word_eqI)
  ultimately show ?thesis by (simp add: take_bit_nat_eq_self_iff)
qed

lemma Stream_ctor_Ret:
  assumes "Stream_ctor x hs flags s = (Ret st, t)"
  shows "st_hip_stream st = hs" and "unat flags < 16"
    and "st_fixed_buf_offset st \<longleftrightarrow> bit flags 0"
    and "st_fixed_file_offset st \<longleftrightarrow> bit flags 1"
    and "st_fixed_io_size st \<longleftrightarrow> bit flags 2"
    and "st_page_aligned st \<longleftrightarrow> bit flags 3"
  using assms
  by (auto simp: Stream_ctor_def Let_def cbind_eq_Ret_iff cret_def cthrow_def
      flags_mask_iff [symmetric] stream_flag_defs and_one_eq bit_iff_and_push_bit_not_eq_0
      push_bit_eq_mult split: if_splits)

definition stream_lookup :: "('w, 'z) stream_state_scheme \<Rightarrow> ptr \<Rightarrow> ptr option" where
  "stream_lookup s = map_of (from_stream s)"

definition stream_for :: "ptr \<Rightarrow> Stream \<Rightarrow> bool" where
  "stream_for k st \<longleftrightarrow> st_hip_stream st = k"

definition stream_inv :: "owners \<Rightarrow> ('w, 'z) stream_state_scheme \<Rightarrow> bool" where
  "stream_inv E s \<longleftrightarrow> tbl_inv stream_for E (from_stream s) (stream_heap s)"

lemma stream_inv_world [simp]: "stream_inv E (s\<lparr>world := w\<rparr>) = stream_inv E s"
  by (simp add: stream_inv_def)

lemma registerStream_spec:
  assumes "stream_inv E s" and "stream_heap s na = None"
    and "StreamMap_registerStream x na hs flags s = (r, t)"
  shows "stream_inv E t \<and> r \<noteq> Terminate \<and>
    stream_lookup t = (if r = Ret () then (stream_lookup s)(hs \<mapsto> na) else stream_lookup s)"
proof (cases "stream_lookup s hs")
  case (Some p)
  with assms show ?thesis
    by (auto simp: StreamMap_registerStream_def stream_lookup_def cxx_defs)
next
  case None
  then have unfold: "StreamMap_registerStream x na hs flags s =
      cbind (Stream_ctor x hs flags) (\<lambda>stream.
              cmodify (\<lambda>s. s\<lparr>stream_heap := sp_make na stream (stream_heap s),
                             from_stream := AList.update hs na (from_stream s)\<rparr>)) s"
    by (simp add: StreamMap_registerStream_def stream_lookup_def cbind_def cget_def)
  from world_only_Stream_ctor [of x hs flags] show ?thesis
  proof (cases rule: world_onlyE [where s = s])
    case (ret st w)
    with assms None tbl_register [of stream_for E "from_stream s" "stream_heap s" na hs st]
      Stream_ctor_Ret [OF ret] show ?thesis
      by (auto simp: unfold cbind_def cmodify_def stream_lookup_def map_of_update_eq
          stream_inv_def stream_for_def)
  next
    case (exn e w)
    with assms show ?thesis by (auto simp: unfold cbind_def stream_lookup_def)
  qed
qed

lemma deregisterStream_spec:
  assumes "stream_inv E s" and "StreamMap_deregisterStream hs s = (r, t)"
  shows "stream_inv E t \<and> stream_lookup t = (stream_lookup s)(hs := None) \<and>
    r = (if stream_lookup s hs = None then Exn Std_invalid_argument else Ret ())"
proof (cases "stream_lookup s hs")
  case None
  with assms show ?thesis
    by (auto simp: StreamMap_deregisterStream_def stream_lookup_def fun_upd_idem)
next
  case (Some p)
  with assms tbl_remove [of stream_for E "from_stream s" "stream_heap s" hs p] show ?thesis
    by (auto simp: StreamMap_deregisterStream_def stream_lookup_def Stream_drop_def cmodify_def
        map_of_delete_eq stream_inv_def)
qed

text \<open>A stream that was not registered is used without flags.\<close>

lemma getStream_spec:
  assumes "stream_inv E s" and "stream_heap s na = None"
    and "StreamMap_getStream x na hs s = (r, t)"
  shows "stream_lookup t = stream_lookup s \<and>
         (case r of
            Ret p \<Rightarrow> stream_inv (E(p := Suc (E p))) t \<and>
                    (\<exists>st. sp_obj p (stream_heap t) = Some st \<and> st_hip_stream st = hs \<and>
                       (stream_lookup s hs = None \<longrightarrow>
                          \<not> st_fixed_buf_offset st \<and> \<not> st_fixed_file_offset st \<and>
                          \<not> st_fixed_io_size st \<and> \<not> st_page_aligned st))
          | Exn e \<Rightarrow> stream_inv E t
          | Terminate \<Rightarrow> False)"
proof (cases "stream_lookup s hs")
  case (Some p)
  with assms tbl_copy [of stream_for E "from_stream s" "stream_heap s" hs p]
    tbl_entry [of stream_for E "from_stream s" "stream_heap s" hs p] show ?thesis
    by (auto simp: StreamMap_getStream_def stream_lookup_def stream_inv_def stream_for_def sp_simps)
next
  case None
  then have unfold: "StreamMap_getStream x na hs s =
     cbind (Stream_ctor x hs 0) (\<lambda>stream.
       cbind (cmodify (\<lambda>s. s\<lparr>stream_heap := sp_make na stream (stream_heap s)\<rparr>)) (\<lambda>_. cret na)) s"
    by (simp add: StreamMap_getStream_def stream_lookup_def)
  from world_only_Stream_ctor [of x hs 0] show ?thesis
  proof (cases rule: world_onlyE [where s = s])
    case (ret st w)
    from tbl_make [of stream_for E "from_stream s" "stream_heap s" na st]
      Stream_ctor_Ret [OF ret] assms None
    show ?thesis
      by (auto simp: unfold cbind_def ret cmodify_def cret_def sp_simps stream_lookup_def
          stream_inv_def)
  next
    case (exn e w)
    with assms None show ?thesis by (auto simp: unfold cbind_def stream_lookup_def)
  qed
qed

end
