(* ===== verification/Driver.thy ===== *)
theory Driver
  imports Stream_Map
begin

text \<open>
  \<^verbatim>\<open>DriverState\<close> (\<^verbatim>\<open>src/amd_detail/state.cpp\<close>): the reference count of the driver and the maps it
  guards. Each operation runs under \<^verbatim>\<open>state_mutex\<close>, so an operation is one atomic step of the
  library. The reference count is an unbounded integer (the \<^verbatim>\<open>int64_t\<close> of the source overflows
  only after \<open>2 ^ 63\<close> opens).
\<close>

record 'w drv_state = "'w stream_state" +
  ref_count :: int

section \<open>Operations\<close>

definition DriverState_ensureInitialized :: "(('w, 'z) drv_state_scheme, unit) cxx" where
  "DriverState_ensureInitialized =
     cmodify (\<lambda>s. if ref_count s = 0 then s\<lparr>ref_count := ref_count s + 1\<rparr> else s)"

definition DriverState_registerBuffer ::
  "'w ext \<Rightarrow> ptr \<Rightarrow> ptr \<Rightarrow> size_t \<Rightarrow> int \<Rightarrow> (('w, 'z) drv_state_scheme, unit) cxx" where
  "DriverState_registerBuffer x na buf len flags =
     cbind (cmodify (\<lambda>s. if ref_count s = 0 then s\<lparr>ref_count := ref_count s + 1\<rparr> else s))
       (\<lambda>_. BufferMap_registerBuffer x na buf len flags)"

definition DriverState_deregisterBuffer :: "ptr \<Rightarrow> (('w, 'z) drv_state_scheme, unit) cxx" where
  "DriverState_deregisterBuffer buf =
     cbind (cget ref_count) (\<lambda>rc.
       if rc = 0 then cthrow DriverNotInitialized else BufferMap_deregisterBuffer buf)"

definition DriverState_getRegisteredBuffer :: "ptr \<Rightarrow> (('w, 'z) drv_state_scheme, ptr) cxx" where
  "DriverState_getRegisteredBuffer buf =
     cbind (cget ref_count) (\<lambda>rc.
       if rc = 0 then cthrow DriverNotInitialized else BufferMap_getRegisteredBuffer buf)"

definition DriverState_getBuffer ::
  "'w ext \<Rightarrow> ptr \<Rightarrow> ptr \<Rightarrow> (('w, 'z) drv_state_scheme, ptr) cxx" where
  "DriverState_getBuffer x na buf = BufferMap_getBuffer x na buf"

definition DriverState_registerFile ::
  "ptr \<Rightarrow> UnregisteredFile \<Rightarrow> (('w, 'z) drv_state_scheme, ptr) cxx" where
  "DriverState_registerFile na uf =
     cbind (cmodify (\<lambda>s. if ref_count s = 0 then s\<lparr>ref_count := ref_count s + 1\<rparr> else s))
       (\<lambda>_. FileMap_registerFile na uf)"

definition DriverState_deregisterFile :: "'w ext \<Rightarrow> ptr \<Rightarrow> (('w, 'z) drv_state_scheme, unit) cxx" where
  "DriverState_deregisterFile x fh =
     cbind (cget ref_count) (\<lambda>rc.
       if rc = 0 then cthrow DriverNotInitialized else FileMap_deregisterFile x fh)"

definition DriverState_getFile :: "ptr \<Rightarrow> (('w, 'z) drv_state_scheme, ptr) cxx" where
  "DriverState_getFile fh =
     cbind (cget ref_count) (\<lambda>rc.
       if rc = 0 then cthrow DriverNotInitialized else FileMap_getFile fh)"

definition DriverState_registerStream ::
  "'w ext \<Rightarrow> ptr \<Rightarrow> ptr \<Rightarrow> uint32_t \<Rightarrow> (('w, 'z) drv_state_scheme, unit) cxx" where
  "DriverState_registerStream x na hip_stream flags = StreamMap_registerStream x na hip_stream flags"

definition DriverState_deregisterStream :: "ptr \<Rightarrow> (('w, 'z) drv_state_scheme, unit) cxx" where
  "DriverState_deregisterStream hip_stream = StreamMap_deregisterStream hip_stream"

definition DriverState_getStream ::
  "'w ext \<Rightarrow> ptr \<Rightarrow> ptr \<Rightarrow> (('w, 'z) drv_state_scheme, ptr) cxx" where
  "DriverState_getStream x na hip_stream = StreamMap_getStream x na hip_stream"

text \<open>
  The combined lookups: when a later lookup throws, the pointers that the earlier ones returned
  are dropped on the way out.
\<close>

definition DriverState_getFileAndBuffer ::
  "'w ext \<Rightarrow> ptr \<Rightarrow> ptr \<Rightarrow> ptr \<Rightarrow> (('w, 'z) drv_state_scheme, ptr \<times> ptr) cxx" where
  "DriverState_getFileAndBuffer x nb fh buf =
     cbind (cget ref_count) (\<lambda>rc.
       if rc = 0 then cthrow DriverNotInitialized
       else cbind (FileMap_getFile fh) (\<lambda>file.
              cunwind (cbind (BufferMap_getBuffer x nb buf) (\<lambda>buffer. cret (file, buffer)))
                (File_drop x file)))"

definition DriverState_getFileBufferAndStream ::
  "'w ext \<Rightarrow> ptr \<Rightarrow> ptr \<Rightarrow> ptr \<Rightarrow> ptr \<Rightarrow> ptr \<Rightarrow>
     (('w, 'z) drv_state_scheme, ptr \<times> ptr \<times> ptr) cxx" where
  "DriverState_getFileBufferAndStream x nb ns fh buf hip_stream =
     cbind (cget ref_count) (\<lambda>rc.
       if rc = 0 then cthrow DriverNotInitialized
       else cbind (FileMap_getFile fh) (\<lambda>file.
              cunwind
                (cbind (BufferMap_getBuffer x nb buf) (\<lambda>buffer.
                   cunwind (cbind (StreamMap_getStream x ns hip_stream) (\<lambda>stream.
                              cret (file, buffer, stream)))
                     (Buffer_drop buffer)))
                (File_drop x file)))"

definition DriverState_incrRefCount :: "(('w, 'z) drv_state_scheme, unit) cxx" where
  "DriverState_incrRefCount = cmodify (\<lambda>s. s\<lparr>ref_count := ref_count s + 1\<rparr>)"

definition DriverState_decrRefCount :: "'w ext \<Rightarrow> (('w, 'z) drv_state_scheme, unit) cxx" where
  "DriverState_decrRefCount x =
     cbind (cmodify (\<lambda>s. if 0 < ref_count s then s\<lparr>ref_count := ref_count s - 1\<rparr> else s)) (\<lambda>_.
     cbind (cget ref_count) (\<lambda>rc.
     cbind (cwhen (rc = 0) (cbind BufferMap_clear (\<lambda>_. FileMap_clear x))) (\<lambda>_.
     cbind (cget ref_count) (\<lambda>rc'.
     if rc' < 0 then cthrow Std_runtime_error else cret ()))))"

definition DriverState_getRefCount :: "(('w, 'z) drv_state_scheme, int) cxx" where
  "DriverState_getRefCount = cget ref_count"

text \<open>The destructor of a \<^verbatim>\<open>file_buffer_pair\<close>: members in the reverse order of declaration.\<close>

definition file_buffer_pair_dtor :: "'w ext \<Rightarrow> ptr \<times> ptr \<Rightarrow> (('w, 'z) drv_state_scheme, unit) cxx" where
  "file_buffer_pair_dtor x fb = cbind (Buffer_drop (snd fb)) (\<lambda>_. File_drop x (fst fb))"

section \<open>Frames\<close>

text \<open>What an operation on one map leaves alone.\<close>

definition buf_frame :: "('w, 'z) buf_state_scheme \<Rightarrow> ('w, 'z) buf_state_scheme \<Rightarrow> bool" where
  "buf_frame s t \<longleftrightarrow> t = s\<lparr>world := world t, buf_heap := buf_heap t, from_ptr := from_ptr t\<rparr>"

definition file_frame :: "('w, 'z) file_state_scheme \<Rightarrow> ('w, 'z) file_state_scheme \<Rightarrow> bool" where
  "file_frame s t \<longleftrightarrow>
     t = s\<lparr>world := world t, file_heap := file_heap t, from_fd := from_fd t, from_fh := from_fh t\<rparr>"

definition stream_frame :: "('w, 'z) stream_state_scheme \<Rightarrow> ('w, 'z) stream_state_scheme \<Rightarrow> bool" where
  "stream_frame s t \<longleftrightarrow>
     t = s\<lparr>world := world t, stream_heap := stream_heap t, from_stream := from_stream t\<rparr>"

lemma buf_frame_refl [simp]: "buf_frame s s"
  by (simp add: buf_frame_def)

lemma file_frame_refl [simp]: "file_frame s s"
  by (simp add: file_frame_def)

lemma stream_frame_refl [simp]: "stream_frame s s"
  by (simp add: stream_frame_def)

lemma buf_frame_trans: "buf_frame s t \<Longrightarrow> buf_frame t u \<Longrightarrow> buf_frame s u"
  by (cases s; cases t; cases u) (simp add: buf_frame_def)

lemma file_frame_trans: "file_frame s t \<Longrightarrow> file_frame t u \<Longrightarrow> file_frame s u"
  by (cases s; cases t; cases u) (simp add: file_frame_def)

lemma buf_frame_upds [simp]:
  "buf_frame s (s\<lparr>world := w\<rparr>)" "buf_frame s (s\<lparr>buf_heap := h\<rparr>)"
  "buf_frame s (s\<lparr>from_ptr := al\<rparr>)" "buf_frame s (s\<lparr>buf_heap := h, from_ptr := al\<rparr>)"
  "buf_frame s (s\<lparr>from_ptr := al, buf_heap := h\<rparr>)"
  "buf_frame s (s\<lparr>world := w, buf_heap := h\<rparr>)"
  "buf_frame s (s\<lparr>world := w, buf_heap := h, from_ptr := al\<rparr>)"
  by (cases s; simp add: buf_frame_def)+

lemma file_frame_upds [simp]:
  "file_frame s (s\<lparr>world := w\<rparr>)" "file_frame s (s\<lparr>file_heap := h\<rparr>)"
  "file_frame s (s\<lparr>from_fd := a\<rparr>)" "file_frame s (s\<lparr>from_fh := b\<rparr>)"
  "file_frame s (s\<lparr>world := w, file_heap := h\<rparr>)"
  "file_frame s (s\<lparr>from_fd := a, from_fh := b, file_heap := h\<rparr>)"
  by (cases s; simp add: file_frame_def)+

lemma stream_frame_upds [simp]:
  "stream_frame s (s\<lparr>world := w\<rparr>)" "stream_frame s (s\<lparr>stream_heap := h\<rparr>)"
  "stream_frame s (s\<lparr>world := w, stream_heap := h\<rparr>)"
  "stream_frame s (s\<lparr>from_stream := al, stream_heap := h\<rparr>)"
  "stream_frame s (s\<lparr>world := w, stream_heap := h, from_stream := al\<rparr>)"
  by (cases s; simp add: stream_frame_def)+

lemma buf_frame_keeps:
  fixes s t :: "('w, 'z) drv_state_scheme"
  assumes "buf_frame s t"
  shows "file_inv E t = file_inv E s" "stream_inv E' t = stream_inv E' s"
    "ref_count t = ref_count s" "from_fd t = from_fd s" "from_fh t = from_fh s"
    "file_heap t = file_heap s" "stream_heap t = stream_heap s" "from_stream t = from_stream s"
  using assms
  by (cases s; cases t; simp add: buf_frame_def buf_inv_def file_inv_def file_entries_ok_def
      table_uses_def stream_inv_def)+

lemma file_frame_keeps:
  fixes s t :: "('w, 'z) drv_state_scheme"
  assumes "file_frame s t"
  shows "buf_inv E t = buf_inv E s" "stream_inv E' t = stream_inv E' s"
    "ref_count t = ref_count s" "from_ptr t = from_ptr s" "buf_heap t = buf_heap s"
    "stream_heap t = stream_heap s" "from_stream t = from_stream s"
  using assms
  by (cases s; cases t; simp add: file_frame_def buf_inv_def file_inv_def file_entries_ok_def
      table_uses_def stream_inv_def)+

lemma stream_frame_keeps:
  fixes s t :: "('w, 'z) drv_state_scheme"
  assumes "stream_frame s t"
  shows "buf_inv E t = buf_inv E s" "file_inv E' t = file_inv E' s"
    "ref_count t = ref_count s" "from_ptr t = from_ptr s" "buf_heap t = buf_heap s"
    "from_fd t = from_fd s" "from_fh t = from_fh s" "file_heap t = file_heap s"
  using assms
  by (cases s; cases t; simp add: stream_frame_def buf_inv_def file_inv_def file_entries_ok_def
      table_uses_def stream_inv_def)+

lemma registerBuffer_frame: "buf_frame s (snd (BufferMap_registerBuffer x na buf len flags s))"
  using world_only_Buffer_ctor [of x buf len flags]
  by (rule world_onlyE [where s = s])
     (simp_all add: BufferMap_registerBuffer_def cbind_def cget_def cthrow_def cmodify_def)

lemma deregisterBuffer_frame: "buf_frame s (snd (BufferMap_deregisterBuffer buf s))"
  by (simp add: BufferMap_deregisterBuffer_def Buffer_drop_def cmodify_def split: option.split)

lemma getRegisteredBuffer_frame: "buf_frame s (snd (BufferMap_getRegisteredBuffer buf s))"
  by (simp add: BufferMap_getRegisteredBuffer_def split: option.split)

lemma getBuffer_frame: "buf_frame s (snd (BufferMap_getBuffer x na buf s))"
  using world_only_Buffer_ctor_temp [of x buf]
  by (rule world_onlyE [where s = s])
     (simp_all add: BufferMap_getBuffer_def cbind_def cmodify_def cret_def split: option.split)

lemma Buffer_drop_frame: "buf_frame s (snd (Buffer_drop p s))"
  by (simp add: Buffer_drop_def cmodify_def)

lemma BufferMap_clear_frame: "buf_frame s (snd (BufferMap_clear s))"
  by (simp add: BufferMap_clear_def cmodify_def)

lemma File_drop_frame: "file_frame s (snd (File_drop x p s))"
  by (rule File_drop_outcome [of x p s]) simp_all

lemma getFile_frame: "file_frame s (snd (FileMap_getFile fh s))"
  by (simp add: FileMap_getFile_def split: option.split)

lemma registerFile_frame: "file_frame s (snd (FileMap_registerFile na uf s))"
  by (simp add: FileMap_registerFile_def Let_def)

lemma erase_fd_frame: "file_frame s (snd (FileMap_erase_fd x fd s))"
  by (simp add: FileMap_erase_fd_def file_frame_trans [OF file_frame_upds(3) File_drop_frame]
      split: option.split)

lemma erase_fh_frame: "file_frame s (snd (FileMap_erase_fh x fd s))"
  by (simp add: FileMap_erase_fh_def file_frame_trans [OF file_frame_upds(4) File_drop_frame]
      split: option.split)

lemma file_frame_cbind:
  assumes "\<And>s. file_frame s (snd (m s))" "\<And>a s. file_frame s (snd (k a s))"
  shows "file_frame s (snd (cbind m k s))"
  using assms(1) [of s] file_frame_trans [OF _ assms(2)]
  by (cases "m s"; cases "fst (m s)") (auto simp: cbind_def)

lemma deregisterFile_frame: "file_frame s (snd (FileMap_deregisterFile x fh s))"
  by (simp add: FileMap_deregisterFile_def file_frame_cbind erase_fd_frame erase_fh_frame
      split: option.split)

lemma file_frame_cfor: "(\<And>a s. file_frame s (snd (f a s))) \<Longrightarrow> file_frame s (snd (cfor xs f s))"
  by (induction xs arbitrary: s) (simp_all add: cret_def file_frame_cbind)

lemma FileMap_clear_frame: "file_frame s (snd (FileMap_clear x s))"
  unfolding FileMap_clear_def
  by (intro file_frame_cbind file_frame_cfor File_drop_frame)
     (simp_all add: cget_def cmodify_def)

lemma registerStream_frame: "stream_frame s (snd (StreamMap_registerStream x na hs flags s))"
  using world_only_Stream_ctor [of x hs flags]
  by (rule world_onlyE [where s = s])
     (simp_all add: StreamMap_registerStream_def cbind_def cget_def cthrow_def cmodify_def)

lemma deregisterStream_frame: "stream_frame s (snd (StreamMap_deregisterStream hs s))"
  by (simp add: StreamMap_deregisterStream_def Stream_drop_def cmodify_def split: option.split)

lemma getStream_frame: "stream_frame s (snd (StreamMap_getStream x na hs s))"
  using world_only_Stream_ctor [of x hs 0]
  by (rule world_onlyE [where s = s])
     (simp_all add: StreamMap_getStream_def cbind_def cmodify_def cret_def split: option.split)

lemma Stream_drop_frame: "stream_frame s (snd (Stream_drop p s))"
  by (simp add: Stream_drop_def cmodify_def)

section \<open>The invariant of the driver\<close>

text \<open>
  The maps keep their invariants, the reference count is not negative, and a driver with
  reference count zero has no registered buffer and no registered file.
\<close>

definition drv_inv ::
  "owners \<Rightarrow> owners \<Rightarrow> owners \<Rightarrow> ('w, 'z) drv_state_scheme \<Rightarrow> bool" where
  "drv_inv EB EF ES s \<longleftrightarrow>
     buf_inv EB s \<and> file_inv EF s \<and> stream_inv ES s \<and> 0 \<le> ref_count s \<and>
     (ref_count s = 0 \<longrightarrow> from_ptr s = [] \<and> from_fd s = [] \<and> from_fh s = [])"

lemma drv_inv_refs [simp]:
  "buf_inv EB (s\<lparr>ref_count := n\<rparr>) = buf_inv EB s" "file_inv EF (s\<lparr>ref_count := n\<rparr>) = file_inv EF s"
  "stream_inv ES (s\<lparr>ref_count := n\<rparr>) = stream_inv ES s"
  "buf_lookup (s\<lparr>ref_count := n\<rparr>) = buf_lookup s" "file_lookup (s\<lparr>ref_count := n\<rparr>) = file_lookup s"
  by (simp_all add: buf_inv_def file_inv_def file_entries_ok_def table_uses_def stream_inv_def
      buf_lookup_def file_lookup_def)

lemma drv_inv_parts:
  "drv_inv EB EF ES s \<Longrightarrow> buf_inv EB s" "drv_inv EB EF ES s \<Longrightarrow> file_inv EF s"
  "drv_inv EB EF ES s \<Longrightarrow> stream_inv ES s" "drv_inv EB EF ES s \<Longrightarrow> 0 \<le> ref_count s"
  by (simp_all add: drv_inv_def)

definition implicit_init :: "('w, 'z) drv_state_scheme \<Rightarrow> ('w, 'z) drv_state_scheme" where
  "implicit_init s = (if ref_count s = 0 then s\<lparr>ref_count := ref_count s + 1\<rparr> else s)"

lemma implicit_init_inv:
  "drv_inv EB EF ES s \<Longrightarrow> drv_inv EB EF ES (implicit_init s) \<and> 0 < ref_count (implicit_init s)"
  by (auto simp: implicit_init_def drv_inv_def)

lemma implicit_init_keeps [simp]:
  "buf_heap (implicit_init s) = buf_heap s" "file_heap (implicit_init s) = file_heap s"
  "buf_lookup (implicit_init s) = buf_lookup s" "file_lookup (implicit_init s) = file_lookup s"
  "from_fd (implicit_init s) = from_fd s"
  by (simp_all add: implicit_init_def)

lemma drv_inv_buf:
  assumes "drv_inv EB EF ES s" and "buf_frame s t" and "buf_inv EB' t"
    and "ref_count s = 0 \<Longrightarrow> from_ptr t = []"
  shows "drv_inv EB' EF ES t"
  using assms buf_frame_keeps [OF assms(2)] by (simp add: drv_inv_def)

lemma drv_inv_file:
  assumes "drv_inv EB EF ES s" and "file_frame s t" and "file_inv EF' t"
    and "ref_count s = 0 \<Longrightarrow> from_fd t = [] \<and> from_fh t = []"
  shows "drv_inv EB EF' ES t"
  using assms file_frame_keeps [OF assms(2)] by (simp add: drv_inv_def)

lemma drv_inv_stream:
  assumes "drv_inv EB EF ES s" and "stream_frame s t" and "stream_inv ES' t"
  shows "drv_inv EB EF ES' t"
  using assms stream_frame_keeps [OF assms(2)] by (simp add: drv_inv_def)

section \<open>Operations on buffers and files\<close>

lemma DriverState_registerBuffer_inv:
  assumes inv: "drv_inv EB EF ES s" and "buf_heap s na = None"
    and op: "DriverState_registerBuffer x na buf len flags s = (r, t)"
  shows "drv_inv EB EF ES t \<and> 0 < ref_count t \<and> r \<noteq> Terminate \<and>
    buf_lookup t = (if r = Ret () then (buf_lookup s)(buf \<mapsto> na) else buf_lookup s)"
proof -
  let ?s = "implicit_init s"
  have op': "BufferMap_registerBuffer x na buf len flags ?s = (r, t)"
    using op by (simp add: DriverState_registerBuffer_def cbind_def cmodify_def implicit_init_def)
  note inv' = implicit_init_inv [OF inv]
  have spec: "buf_inv EB t \<and> r \<noteq> Terminate \<and>
      buf_lookup t = (if r = Ret () then (buf_lookup ?s)(buf \<mapsto> na) else buf_lookup ?s)"
    by (rule registerBuffer_spec [OF _ _ op']) (use inv' assms(2) in \<open>simp_all add: drv_inv_def\<close>)
  have frame: "buf_frame ?s t" using registerBuffer_frame [of ?s] op' by (metis snd_conv)
  show ?thesis
    using drv_inv_buf [OF conjunct1 [OF inv'] frame] spec inv' buf_frame_keeps(3) [OF frame] by simp
qed

lemma DriverState_deregisterBuffer_inv:
  assumes inv: "drv_inv EB EF ES s" and op: "DriverState_deregisterBuffer buf s = (r, t)"
  shows "drv_inv EB EF ES t \<and>
    r = (if ref_count s = 0 then Exn DriverNotInitialized
         else case buf_lookup s buf of
                None \<Rightarrow> Exn BufferNotRegistered
              | Some p \<Rightarrow> if 0 < EB p then Exn BufferOperationsOutstanding else Ret ()) \<and>
    buf_lookup t = (if r = Ret () then (buf_lookup s)(buf := None) else buf_lookup s) \<and>
    (if r = Ret () then t = s\<lparr>buf_heap := buf_heap t, from_ptr := from_ptr t\<rparr> else t = s)"
proof (cases "ref_count s = 0")
  case True
  with inv op show ?thesis
    by (auto simp: DriverState_deregisterBuffer_def cbind_def cget_def cthrow_def)
next
  case False
  with op have op': "BufferMap_deregisterBuffer buf s = (r, t)"
    by (simp add: DriverState_deregisterBuffer_def cbind_def cget_def)
  have "r \<noteq> Terminate"
    using op' by (auto simp: BufferMap_deregisterBuffer_def Buffer_drop_def cmodify_def
        split: option.splits if_splits)
  note spec = bufs.deregister_outcome [OF drv_inv_parts(1) [OF inv] op' this]
  have "buf_frame s t" using deregisterBuffer_frame [of s buf] op' by simp
  moreover have "if r = Ret () then t = s\<lparr>buf_heap := buf_heap t, from_ptr := from_ptr t\<rparr> else t = s"
    using op' by (auto simp: BufferMap_deregisterBuffer_def Buffer_drop_def cmodify_def split: option.splits if_splits)
  ultimately show ?thesis using drv_inv_buf [OF inv _ spec(2)] False spec(1,3) by simp
qed

lemma DriverState_registerFile_inv:
  assumes inv: "drv_inv EB EF ES s" and na: "file_heap s na = None" "na \<noteq> nullptr"
    and op: "DriverState_registerFile na uf s = (r, t)"
  shows "drv_inv EB EF ES t \<and> 0 < ref_count t \<and>
    (if map_of (from_fd s) (FileDescriptor_get (uf_client_fd uf)) = None
     then r = Ret na \<and> file_lookup t = (file_lookup s)(na \<mapsto> na)
     else r = Exn FileAlreadyRegistered \<and> file_lookup t = file_lookup s)"
proof -
  let ?s = "implicit_init s"
  have op': "FileMap_registerFile na uf ?s = (r, t)"
    using op by (simp add: DriverState_registerFile_def cbind_def cmodify_def implicit_init_def)
  note inv' = implicit_init_inv [OF inv]
  note spec = registerFile_spec [OF drv_inv_parts(2) [OF conjunct1 [OF inv']] _ na(2) op']
  have frame: "file_frame ?s t" using registerFile_frame [of ?s na uf] op' by simp
  show ?thesis
    using drv_inv_file [OF conjunct1 [OF inv'] frame] spec na inv' file_frame_keeps(3) [OF frame]
    by (auto split: if_splits)
qed

lemma DriverState_deregisterFile_inv:
  assumes inv: "drv_inv EB EF ES s" and op: "DriverState_deregisterFile x fh s = (r, t)"
    and "r \<noteq> Terminate"
  shows "drv_inv EB EF ES t \<and>
    r = (if ref_count s = 0 then Exn DriverNotInitialized
         else case file_lookup s fh of
                None \<Rightarrow> Exn FileNotRegistered
              | Some p \<Rightarrow> if 0 < EF p then Exn FileOperationsOutstanding else Ret ()) \<and>
    file_lookup t = (if r = Ret () then (file_lookup s)(fh := None) else file_lookup s)"
proof (cases "ref_count s = 0")
  case True
  with inv op show ?thesis
    by (auto simp: DriverState_deregisterFile_def cbind_def cget_def cthrow_def)
next
  case False
  with op have op': "FileMap_deregisterFile x fh s = (r, t)"
    by (simp add: DriverState_deregisterFile_def cbind_def cget_def)
  note spec = files.deregister_outcome [OF drv_inv_parts(2) [OF inv] op' assms(3)]
  have "file_frame s t" using deregisterFile_frame [of s x fh] op' by simp
  from drv_inv_file [OF inv this spec(2)] False spec(1,3) show ?thesis by simp
qed

lemma Buffer_drop_inv:
  assumes inv: "drv_inv EB EF ES s" and "0 < EB p" and op: "Buffer_drop p s = (r, t)"
  shows "drv_inv (EB(p := EB p - 1)) EF ES t \<and> r = Ret () \<and> buf_lookup t = buf_lookup s \<and>
    file_heap t = file_heap s \<and> from_fh t = from_fh s \<and> ref_count t = ref_count s"
proof -
  have t: "t = s\<lparr>buf_heap := snd (sp_release p (buf_heap s))\<rparr>" "r = Ret ()"
    using op by (simp_all add: Buffer_drop_def cmodify_def)
  have "drv_inv (EB(p := EB p - 1)) EF ES t"
    using drv_inv_buf [OF inv buf_frame_upds(2)] buf_inv_drop [OF drv_inv_parts(1) [OF inv] assms(2)]
      inv by (simp add: t drv_inv_def)
  then show ?thesis by (simp add: t buf_lookup_def)
qed

lemma File_drop_drv_inv:
  assumes inv: "drv_inv EB EF ES s" and "0 < EF p" and op: "File_drop x p s = (r, t)"
  shows "drv_inv EB (EF(p := EF p - 1)) ES t \<and> (r = Ret () \<or> r = Terminate) \<and>
    file_lookup t = file_lookup s"
proof -
  have fr: "file_frame s t" using File_drop_frame [of s x p] op by simp
  have tabs: "from_fd t = from_fd s \<and> from_fh t = from_fh s"
    by (rule File_drop_outcome [of x p s]) (use op in auto)
  note drop = File_drop_inv [OF drv_inv_parts(2) [OF inv] assms(2) op]
  have "drv_inv EB (EF(p := EF p - 1)) ES t"
    by (rule drv_inv_file [OF inv fr]) (use drop tabs inv in \<open>simp_all add: drv_inv_def\<close>)
  with drop show ?thesis by simp
qed


section \<open>The combined lookup\<close>

lemma DriverState_getFileAndBuffer_inv:
  assumes inv: "drv_inv EB EF ES s" and fresh: "buf_heap s nb = None"
    and op: "DriverState_getFileAndBuffer x nb fh buf s = (r, t)"
  shows "case r of
      Ret fb \<Rightarrow> drv_inv (EB(snd fb := Suc (EB (snd fb)))) (EF(fst fb := Suc (EF (fst fb)))) ES t \<and>
              file_lookup s fh = Some (fst fb) \<and> 0 < ref_count s \<and>
              device_buffer buf (snd fb) (buf_heap t) \<and>
              snd fb = (case buf_lookup s buf of None \<Rightarrow> nb | Some q \<Rightarrow> q)
    | Exn e \<Rightarrow> drv_inv EB EF ES t \<and> file_heap t = file_heap s \<and> buf_heap t = buf_heap s
    | Terminate \<Rightarrow> False"
proof -
  consider (closed) "ref_count s = 0"
    | (nofile) "ref_count s \<noteq> 0" "file_lookup s fh = None"
    | (found) f where "ref_count s \<noteq> 0" "file_lookup s fh = Some f"
    by (cases "file_lookup s fh") auto
  then show ?thesis
  proof cases
    case closed
    with inv op show ?thesis
      by (auto simp: DriverState_getFileAndBuffer_def cbind_def cget_def cthrow_def)
  next
    case nofile
    with inv op show ?thesis
      by (auto simp: DriverState_getFileAndBuffer_def cbind_def cget_def FileMap_getFile_def
          file_lookup_def)
  next
    case found
    let ?s1 = "s\<lparr>file_heap := sp_copy f (file_heap s)\<rparr>" and ?EF = "EF(f := Suc (EF f))"
    obtain rb u where b: "BufferMap_getBuffer x nb buf ?s1 = (rb, u)" by fastforce
    have inv1: "drv_inv EB ?EF ES ?s1"
      using file_inv_copy [OF drv_inv_parts(2) [OF inv] found(2)] found(1) inv
      by (intro drv_inv_file [OF inv]) simp_all
    have fr: "buf_frame ?s1 u" using getBuffer_frame [of ?s1 x nb buf] b by simp
    note spec = getBuffer_spec [OF drv_inv_parts(1) [OF inv1] _ b]
    have op': "(r, t) = cunwind (cbind (BufferMap_getBuffer x nb buf) (\<lambda>b. cret (f, b)))
        (File_drop x f) ?s1"
      using op found by (simp add: DriverState_getFileAndBuffer_def cbind_def cget_def
          FileMap_getFile_def file_lookup_def)
    show ?thesis
    proof (cases rb)
      case (Ret p)
      with spec fresh have p: "buf_inv (EB(p := Suc (EB p))) u" "device_buffer buf p (buf_heap u)"
        "p = (case buf_lookup s buf of None \<Rightarrow> nb | Some q \<Rightarrow> q)"
        unfolding buf_lookup_def by auto
      have "drv_inv (EB(p := Suc (EB p))) ?EF ES u"
        by (rule drv_inv_buf [OF inv1 fr p(1)]) (use found(1) in simp)
      with Ret op' b p found drv_inv_parts(4) [OF inv] show ?thesis
        by (auto simp: cunwind_def cbind_def cret_def)
    next
      case (Exn e)
      with spec fresh have e: "buf_inv EB u" "buf_heap u = buf_heap s" by simp_all
      have inv2: "drv_inv EB ?EF ES u"
        by (rule drv_inv_buf [OF inv1 fr e(1)]) (use found(1) in simp)
      have heap: "file_heap u = sp_copy f (file_heap s)"
        using buf_frame_keeps(6) [OF fr] by simp
      have undo: "sp_release f (file_heap u) = (None, file_heap s)"
        unfolding heap
        by (rule sp_release_copy [OF file_inv_alists(5) [OF drv_inv_parts(2) [OF inv]]])
           (simp add: own_sum_apply table_uses_registered [OF drv_inv_parts(2) [OF inv] found(2)])
      have drop: "File_drop x f u = (Ret (), u\<lparr>file_heap := file_heap s\<rparr>)"
        using undo by (simp add: File_drop_def)
      have "drv_inv EB (?EF(f := ?EF f - 1)) ES (u\<lparr>file_heap := file_heap s\<rparr>)"
        using File_drop_drv_inv [OF inv2 _ drop] by simp
      then have "drv_inv EB EF ES (u\<lparr>file_heap := file_heap s\<rparr>)"
        by (simp only: fun_upd_same fun_upd_upd diff_Suc_1 fun_upd_triv)
      with Exn op' b e drop show ?thesis
        by (auto simp: cunwind_def cbind_def)
    next
      case Terminate
      with spec fresh show ?thesis by simp
    qed
  qed
qed

lemma file_buffer_pair_dtor_inv:
  assumes inv: "drv_inv EB EF ES s" and "0 < EB (snd fb)" "0 < EF (fst fb)"
    and op: "file_buffer_pair_dtor x fb s = (r, t)"
  shows "drv_inv (EB(snd fb := EB (snd fb) - 1)) (EF(fst fb := EF (fst fb) - 1)) ES t \<and>
    (r = Ret () \<or> r = Terminate)"
proof -
  obtain u where u: "Buffer_drop (snd fb) s = (Ret (), u)"
    by (simp add: Buffer_drop_def cmodify_def)
  from op u have "File_drop x (fst fb) u = (r, t)"
    by (simp add: file_buffer_pair_dtor_def cbind_def)
  with File_drop_drv_inv [OF conjunct1 [OF Buffer_drop_inv [OF assms(1,2) u]] assms(3)]
  show ?thesis by blast
qed

section \<open>The reference count\<close>

lemma DriverState_incrRefCount_inv:
  assumes "drv_inv EB EF ES s"
  shows "\<exists>t. DriverState_incrRefCount s = (Ret (), t) \<and> drv_inv EB EF ES t \<and>
    ref_count t = ref_count s + 1"
  using assms by (auto simp: DriverState_incrRefCount_def cmodify_def drv_inv_def)

text \<open>
  Closing: the last close empties the tables of buffers and files, and an object that an
  operation still uses stays alive.
\<close>

lemma DriverState_decrRefCount_inv:
  assumes inv: "drv_inv EB EF ES s" and op: "DriverState_decrRefCount x s = (r, t)"
    and "r \<noteq> Terminate"
  shows "r = Ret () \<and> drv_inv EB EF ES t \<and> ref_count t = max 0 (ref_count s - 1) \<and>
    (if ref_count t = 0 then buf_lookup t = Map.empty \<and> file_lookup t = Map.empty
     else buf_lookup t = buf_lookup s \<and> file_lookup t = file_lookup s) \<and>
    (\<forall>p. 0 < EB p \<longrightarrow> sp_obj p (buf_heap t) = sp_obj p (buf_heap s)) \<and>
    (\<forall>p. 0 < EF p \<longrightarrow> sp_obj p (file_heap t) = sp_obj p (file_heap s))"
proof -
  let ?n = "max 0 (ref_count s - 1)"
  let ?s1 = "s\<lparr>ref_count := ?n\<rparr>"
  have s1: "(if 0 < ref_count s then s\<lparr>ref_count := ref_count s - 1\<rparr> else s) = ?s1"
    using drv_inv_parts(4) [OF inv] by (cases s) (auto simp: max_def)
  show ?thesis
  proof (cases "?n = 0")
    case False
    then have "2 \<le> ref_count s" by simp
    with op inv show ?thesis
      by (auto simp: DriverState_decrRefCount_def cbind_def cmodify_def cget_def cwhen_def cret_def
          drv_inv_def)
  next
    case True
    obtain u where u: "BufferMap_clear ?s1 = (Ret (), u)"
      by (simp add: BufferMap_clear_def cmodify_def)
    have clr: "buf_inv EB u" "from_ptr u = []"
      "buf_heap u = sp_release_all (map snd (from_ptr s)) (buf_heap s)"
      using u tbl_clear [of device_buffer_for EB "from_ptr s" "buf_heap s"] drv_inv_parts(1) [OF inv]
      by (auto simp: BufferMap_clear_def cmodify_def buf_inv_def)
    have fru: "buf_frame ?s1 u" using BufferMap_clear_frame [of ?s1] u by simp
    note ku = buf_frame_keeps [OF fru, simplified]
    obtain rf v where v: "FileMap_clear x u = (rf, v)" by fastforce
    have finv: "file_inv EF u" using ku drv_inv_parts(2) [OF inv] by simp
    have rt: "rf \<noteq> Terminate"
      using op v u assms(3) True
      by (auto simp: DriverState_decrRefCount_def cbind_def cmodify_def cget_def cwhen_def s1)
    with FileMap_clear_spec [OF finv v] have rf: "rf = Ret ()" "file_inv EF v"
      "file_lookup v = Map.empty" by (cases rf; simp)+
    note hp = FileMap_clear_heap [OF v [unfolded rf(1)]]
    have frv: "file_frame u v" using FileMap_clear_frame [of u x] v by simp
    note kv = file_frame_keeps [OF frv]
    have tv: "t = v" "r = Ret ()"
      using op v u True rf(1) kv(3) ku(3)
      by (auto simp: DriverState_decrRefCount_def cbind_def cmodify_def cget_def cwhen_def cret_def s1
          split: if_splits)
    have "drv_inv EB EF ES v"
      using clr kv ku rf(2) hp inv by (simp add: drv_inv_def)
    moreover have "sp_obj p (buf_heap v) = sp_obj p (buf_heap s)" if "0 < EB p" for p
      using sp_obj_sum_clear [of "map snd (from_ptr s)" EB "buf_heap s" p] that inv kv(5) clr(3)
      by (simp add: drv_inv_def buf_inv_def tbl_inv_def)
    moreover have "sp_obj p (file_heap v) = sp_obj p (file_heap s)" if "0 < EF p" for p
      using sp_obj_sum_clear [OF file_inv_owned_vals [OF finv] that] hp ku by simp
    ultimately show ?thesis
      using True tv rf(3) kv(3,4) ku(3) clr(2) by (simp add: buf_lookup_def)
  qed
qed

lemma drv_inv_copy_held:
  assumes inv: "drv_inv EB EF ES s" and b: "0 < EB b" and f: "0 < EF f"
  shows "drv_inv (EB(b := Suc (EB b))) (EF(f := Suc (EF f))) ES
    (s\<lparr>buf_heap := sp_copy b (buf_heap s), file_heap := sp_copy f (file_heap s)\<rparr>)"
proof -
  let ?s1 = "s\<lparr>buf_heap := sp_copy b (buf_heap s)\<rparr>"
  have "buf_inv (EB(b := Suc (EB b))) ?s1"
    using tbl_copy_held [OF drv_inv_parts(1) [OF inv, unfolded buf_inv_def] b] by (simp add: buf_inv_def)
  then have i1: "drv_inv (EB(b := Suc (EB b))) EF ES ?s1"
    using drv_inv_buf [OF inv buf_frame_upds(2)] inv by (simp add: drv_inv_def)
  from file_inv_copy_held [OF drv_inv_parts(2) [OF i1] f]
  have "drv_inv (EB(b := Suc (EB b))) (EF(f := Suc (EF f))) ES (?s1\<lparr>file_heap := sp_copy f (file_heap ?s1)\<rparr>)"
    using drv_inv_file [OF i1 file_frame_upds(2)] i1 by (simp add: drv_inv_def)
  then show ?thesis by simp
qed

text \<open>What lookups and drops leave alone besides: the table of buffers, the reference count and
  everything that later components add to the state.\<close>

definition drv_rest :: "('w, 'z) drv_state_scheme \<Rightarrow> (ptr \<times> ptr) list \<times> int \<times> 'z" where
  "drv_rest s = (from_ptr s, ref_count s, drv_state.more s)"

lemma drv_rest_upds [simp]:
  "drv_rest (s\<lparr>world := w\<rparr>) = drv_rest s" "drv_rest (s\<lparr>buf_heap := h\<rparr>) = drv_rest s"
  "drv_rest (s\<lparr>file_heap := h'\<rparr>) = drv_rest s"
  by (cases s; simp add: drv_rest_def)+

lemma file_frame_rest: "file_frame s t \<Longrightarrow> drv_rest t = drv_rest s"
  by (cases s; cases t; simp add: file_frame_def drv_rest_def)

lemma File_drop_rest: "File_drop x p s = (r, t) \<Longrightarrow> drv_rest t = drv_rest s"
  using file_frame_rest [OF File_drop_frame, of x p s] by simp

lemma Buffer_drop_rest: "Buffer_drop p s = (r, t) \<Longrightarrow> drv_rest t = drv_rest s"
  by (auto simp: Buffer_drop_def cmodify_def)

lemma getBuffer_rest: "BufferMap_getBuffer x nb buf s = (r, t) \<Longrightarrow> drv_rest t = drv_rest s"
  using world_only_Buffer_ctor_temp [of x buf]
  by (rule world_onlyE [where s = s])
     (auto simp: BufferMap_getBuffer_def cbind_def cmodify_def cret_def split: option.splits)

lemma getFileAndBuffer_rest:
  "DriverState_getFileAndBuffer x nb fh buf s = (r, t) \<Longrightarrow> drv_rest t = drv_rest s"
  by (auto simp: DriverState_getFileAndBuffer_def cbind_def cget_def cthrow_def cunwind_def
      FileMap_getFile_def cret_def split: option.splits prod.splits outcome.splits if_splits
      dest!: File_drop_rest getBuffer_rest)

lemma file_buffer_pair_dtor_rest: "file_buffer_pair_dtor x fb s = (r, t) \<Longrightarrow> drv_rest t = drv_rest s"
  by (auto simp: file_buffer_pair_dtor_def cbind_def split: prod.splits outcome.splits
      dest!: File_drop_rest Buffer_drop_rest)

end
