(* ===== verification/Stats.thy ===== *)
theory Stats
  imports Driver
begin

text \<open>
  The statistics of the library (\<^verbatim>\<open>src/amd_detail/stats.h\<close>, the counters and the report of
  \<^verbatim>\<open>src/amd_detail/stats.cpp\<close>): a block of 64 atomic 64-bit counters in shared memory, of which
  four are used, and a level that switches counting on.
\<close>

section \<open>The block of counters\<close>

datatype StatsLevel = Stats_Disabled | Stats_Basic | Stats_Detailed | Stats_Max

fun level_code :: "StatsLevel \<Rightarrow> nat" where
  "level_code Stats_Disabled = 0"
| "level_code Stats_Basic = 1"
| "level_code Stats_Detailed = 2"
| "level_code Stats_Max = 3"

datatype StatsCounters =
    TotalFastPathReadBytes | TotalFastPathWriteBytes
  | TotalFallbackPathReadBytes | TotalFallbackPathWriteBytes

fun counter_index :: "StatsCounters \<Rightarrow> nat" where
  "counter_index TotalFastPathReadBytes = 0"
| "counter_index TotalFastPathWriteBytes = 1"
| "counter_index TotalFallbackPathReadBytes = 2"
| "counter_index TotalFallbackPathWriteBytes = 3"

definition StatsCounters_Capacity :: nat where "StatsCounters_Capacity = 64"

text \<open>The level is stored as the number it was cast from.\<close>

record Stats =
  st_level :: nat
  st_version :: "64 word"
  st_counters :: "64 word list"

definition Stats_init :: Stats where
  "Stats_init = \<lparr>st_level = 0, st_version = 1, st_counters = replicate StatsCounters_Capacity 0\<rparr>"

definition Stats_getCounter :: "StatsCounters \<Rightarrow> Stats \<Rightarrow> 64 word" where
  "Stats_getCounter c st = st_counters st ! counter_index c"

text \<open>The level that the server stores, \<^verbatim>\<open>std::min\<close> of the configured one and \<^verbatim>\<open>StatsLevel::Max\<close>.\<close>

definition effective_level :: "nat \<Rightarrow> nat" where
  "effective_level configured = min configured (level_code Stats_Max)"

section \<open>Counting\<close>

record 'w stats_state = "'w drv_state" +
  m_stats :: "Stats option"
  hip_inited :: bool

definition stats_add ::
  "StatsCounters \<Rightarrow> 64 word \<Rightarrow> (('w, 'z) stats_state_scheme, unit) cxx" where
  "stats_add c bytes =
     cmodify (\<lambda>s. case m_stats s of
                    None \<Rightarrow> s
                  | Some st \<Rightarrow>
                      if st_level st \<ge> level_code Stats_Basic
                      then s\<lparr>m_stats := Some (st\<lparr>st_counters :=
                             (st_counters st)[counter_index c := Stats_getCounter c st + bytes]\<rparr>)\<rparr>
                      else s)"

definition statsAddFastPathRead :: "64 word \<Rightarrow> (('w, 'z) stats_state_scheme, unit) cxx" where
  "statsAddFastPathRead bytes = stats_add TotalFastPathReadBytes bytes"

definition statsAddFastPathWrite :: "64 word \<Rightarrow> (('w, 'z) stats_state_scheme, unit) cxx" where
  "statsAddFastPathWrite bytes = stats_add TotalFastPathWriteBytes bytes"

definition statsAddFallbackPathRead :: "64 word \<Rightarrow> (('w, 'z) stats_state_scheme, unit) cxx" where
  "statsAddFallbackPathRead bytes = stats_add TotalFallbackPathReadBytes bytes"

definition statsAddFallbackPathWrite :: "64 word \<Rightarrow> (('w, 'z) stats_state_scheme, unit) cxx" where
  "statsAddFallbackPathWrite bytes = stats_add TotalFallbackPathWriteBytes bytes"

lemmas stats_add_defs = statsAddFastPathRead_def statsAddFastPathWrite_def
  statsAddFallbackPathRead_def statsAddFallbackPathWrite_def

section \<open>The report\<close>

definition generateReportV1 :: "Stats option \<Rightarrow> string" where
  "generateReportV1 stats =
     (case stats of
        None \<Rightarrow> ''''
      | Some st \<Rightarrow>
          ''Total fast path reads (B): '' @ dec_nat (unat (Stats_getCounter TotalFastPathReadBytes st)) @
          [CHR 0x0A] @ ''Total fast path writes (B): '' @
          dec_nat (unat (Stats_getCounter TotalFastPathWriteBytes st)) @
          [CHR 0x0A] @ ''Total fallback path reads (B): '' @
          dec_nat (unat (Stats_getCounter TotalFallbackPathReadBytes st)) @
          [CHR 0x0A] @ ''Total fallback path writes (B): '' @
          dec_nat (unat (Stats_getCounter TotalFallbackPathWriteBytes st)) @ [CHR 0x0A])"

definition report_text :: "Stats \<Rightarrow> string" where
  "report_text st =
     ''AIS-STATS Version: '' @ dec_nat (unat (st_version st)) @ [CHR 0x0A] @
     ''HipFile Stats Level: '' @ dec_nat (st_level st) @ [CHR 0x0A] @
     (if st_version st = 1 then generateReportV1 (Some st) else '''')"

section \<open>What counting does\<close>

definition stats_wf :: "('w, 'z) stats_state_scheme \<Rightarrow> bool" where
  "stats_wf s =
     (case m_stats s of
        None \<Rightarrow> True
      | Some st \<Rightarrow> length (st_counters st) = StatsCounters_Capacity \<and> st_level st \<le> level_code Stats_Max)"

lemma counter_index_inj: "counter_index c = counter_index c' \<longleftrightarrow> c = c'"
  by (cases c; cases c') simp_all

lemma counter_index_bound: "counter_index c < StatsCounters_Capacity"
  by (cases c) (simp_all add: StatsCounters_Capacity_def)

definition stats_counter :: "StatsCounters \<Rightarrow> ('w, 'z) stats_state_scheme \<Rightarrow> 64 word" where
  "stats_counter c s = (case m_stats s of None \<Rightarrow> 0 | Some st \<Rightarrow> Stats_getCounter c st)"

definition stats_enabled :: "('w, 'z) stats_state_scheme \<Rightarrow> bool" where
  "stats_enabled s = (case m_stats s of None \<Rightarrow> False | Some st \<Rightarrow> st_level st \<ge> level_code Stats_Basic)"

text \<open>Adding touches one counter, only when statistics are enabled, and wraps at \<open>2 ^ 64\<close>.\<close>

lemma stats_add_spec:
  assumes "stats_wf s"
  shows "\<exists>t. stats_add c n s = (Ret (), t) \<and> stats_wf t \<and> stats_enabled t = stats_enabled s \<and>
    t = s\<lparr>m_stats := m_stats t\<rparr> \<and>
    (\<forall>c'. stats_counter c' t =
       stats_counter c' s + (if c' = c \<and> stats_enabled s then n else 0))"
proof (cases "m_stats s")
  case None
  then show ?thesis
    by (simp add: stats_add_def cmodify_def stats_wf_def stats_counter_def stats_enabled_def)
next
  case (Some st)
  have len: "length (st_counters st) = StatsCounters_Capacity"
    using assms Some by (simp add: stats_wf_def)
  with Some assms counter_index_bound [of c] show ?thesis
    by (auto simp: stats_add_def cmodify_def stats_wf_def stats_enabled_def stats_counter_def
        Stats_getCounter_def nth_list_update counter_index_inj)
qed

end
