(* ===== verification/Backend.thy ===== *)
theory Backend
  imports Stats
begin

text \<open>
  The backend interface (\<^verbatim>\<open>src/amd_detail/backend.h\<close>, \<^verbatim>\<open>src/amd_detail/backend.cpp\<close>): a backend scores
  an IO request and performs it, and \<^verbatim>\<open>BackendWithFallback\<close> hands a failed request to another
  backend. The \<^verbatim>\<open>shared_ptr\<close> arguments are copies of pointers that the caller holds, so a backend
  receives the file and the buffer as values.
\<close>

section \<open>Limits\<close>

definition getPageSize :: "'w ext \<Rightarrow> ('s, size_t) cxx" where
  "getPageSize x =
     (if c_sysconf_pagesize x = -1 then cthrow Std_runtime_error
      else cret (word_of_int (c_sysconf_pagesize x)))"

definition getPageMask :: "'w ext \<Rightarrow> ('s, size_t) cxx" where
  "getPageMask x = cbind (getPageSize x) (\<lambda>p. cret (NOT (p - 1)))"

definition C_INT_MAX :: size_t where "C_INT_MAX = 0x7fffffff"

definition getMaxRwCount :: "'w ext \<Rightarrow> ('s, size_t) cxx" where
  "getMaxRwCount x = cbind (getPageMask x) (\<lambda>m. cret (C_INT_MAX AND m))"

text \<open>The value of \<^verbatim>\<open>getMaxRwCount\<close> where the page size can be read.\<close>

definition max_rw_count :: "'w ext \<Rightarrow> size_t" where
  "max_rw_count x = C_INT_MAX AND NOT (word_of_int (c_sysconf_pagesize x) - 1)"

lemma getMaxRwCount_eq:
  "getMaxRwCount x s =
     (if c_sysconf_pagesize x = -1 then (Exn Std_runtime_error, s) else (Ret (max_rw_count x), s))"
  by (simp add: getMaxRwCount_def getPageMask_def getPageSize_def max_rw_count_def cxx_defs)

lemma max_rw_count_bound: "unat (max_rw_count x) \<le> 0x7fffffff"
proof -
  have "max_rw_count x \<le> C_INT_MAX"
    by (simp add: max_rw_count_def word_and_le2)
  then show ?thesis
    by (simp add: word_le_nat_alt C_INT_MAX_def)
qed

section \<open>Backends\<close>

datatype IoType = IoRead | IoWrite

type_synonym ('s, 'a) io_fun =
  "IoType \<Rightarrow> File \<Rightarrow> Buffer \<Rightarrow> size_t \<Rightarrow> hoff_t \<Rightarrow> hoff_t \<Rightarrow> ('s, 'a) ocxx"

record 's Backend =
  be_score :: "File \<Rightarrow> Buffer \<Rightarrow> size_t \<Rightarrow> hoff_t \<Rightarrow> hoff_t \<Rightarrow> 's \<Rightarrow> int"
  be_io :: "('s, int) io_fun"

definition Backend_io :: "('s, int) io_fun \<Rightarrow> ('s, int) io_fun" where
  "Backend_io io_impl = io_impl"

text \<open>\<^verbatim>\<open>static_cast<int>\<close> of an \<^verbatim>\<open>ssize_t\<close>.\<close>

definition to_int32 :: "int \<Rightarrow> int" where
  "to_int32 i = sint (word_of_int i :: 32 word)"

text \<open>The body of the handler in \<^verbatim>\<open>BackendWithFallback::io\<close>.\<close>

definition retry_io ::
  "(exn \<Rightarrow> int \<Rightarrow> bool) \<Rightarrow> 's Backend option \<Rightarrow> exn \<Rightarrow> int \<Rightarrow> ('s, int) io_fun" where
  "retry_io is_fallback_eligible fallback_backend e nbytes type file buffer sz fo bo s =
     (case fallback_backend of
        None \<Rightarrow> Some (Exn e, s)
      | Some fb \<Rightarrow>
          if is_fallback_eligible e nbytes \<and> 0 \<le> be_score fb file buffer sz fo bo s
          then be_io fb type file buffer sz fo bo s
          else Some (Exn e, s))"

definition BackendWithFallback_io ::
  "('s, int) io_fun \<Rightarrow> (exn \<Rightarrow> int \<Rightarrow> bool) \<Rightarrow> 's Backend option \<Rightarrow> ('s, int) io_fun" where
  "BackendWithFallback_io io_impl is_fallback_eligible fallback_backend type file buffer sz fo bo s =
     (case io_impl type file buffer sz fo bo s of
        None \<Rightarrow> None
      | Some (Ret nbytes, t) \<Rightarrow>
          if nbytes < 0
          then retry_io is_fallback_eligible fallback_backend
                 (Std_system_error (- to_int32 nbytes)) nbytes type file buffer sz fo bo t
          else Some (Ret nbytes, t)
      | Some (Exn e, t) \<Rightarrow>
          retry_io is_fallback_eligible fallback_backend e 0 type file buffer sz fo bo t
      | Some (Terminate, t) \<Rightarrow> Some (Terminate, t))"

text \<open>
  \<^verbatim>\<open>register_fallback_backend\<close>: \<open>this\<close> and the key of the argument are the addresses of the two
  objects, a missing argument is a null pointer. The result is the new \<^verbatim>\<open>fallback_backend\<close>.
\<close>

definition register_fallback_backend ::
  "ptr \<Rightarrow> (ptr \<times> 's Backend) option \<Rightarrow> ('t, 's Backend option) cxx" where
  "register_fallback_backend this backend =
     (case backend of
        None \<Rightarrow> cthrow Std_invalid_argument
      | Some (p, b) \<Rightarrow> if p = this then cthrow Std_invalid_argument else cret (Some b))"

section \<open>The contract of a backend\<close>

text \<open>What an IO may change of the library's state: the world, the counters and the flag of HIP.\<close>

definition io_frame :: "('w, 'z) stats_state_scheme \<Rightarrow> ('w, 'z) stats_state_scheme \<Rightarrow> bool" where
  "io_frame s t \<longleftrightarrow>
     t = s\<lparr>world := world t, m_stats := m_stats t, hip_inited := hip_inited t\<rparr>"

lemma io_frame_refl [simp]: "io_frame s s"
  by (simp add: io_frame_def)

lemma io_frame_trans: "io_frame s t \<Longrightarrow> io_frame t u \<Longrightarrow> io_frame s u"
  by (cases s; cases t; cases u) (simp add: io_frame_def)

lemma io_frame_upds [simp]:
  "io_frame s (s\<lparr>world := w\<rparr>)" "io_frame s (s\<lparr>m_stats := st\<rparr>)" "io_frame s (s\<lparr>hip_inited := b\<rparr>)"
  "io_frame s (s\<lparr>world := w, m_stats := st\<rparr>)" "io_frame s (s\<lparr>world := w, hip_inited := b\<rparr>)"
  by (cases s; simp add: io_frame_def)+

lemma io_frame_keeps:
  fixes s t :: "('w, 'z) stats_state_scheme"
  assumes "io_frame s t"
  shows "drv_inv EB EF ES t = drv_inv EB EF ES s" "buf_heap t = buf_heap s"
    "file_heap t = file_heap s" "stream_heap t = stream_heap s" "ref_count t = ref_count s"
    "buf_lookup t = buf_lookup s" "file_lookup t = file_lookup s"
  using assms
  by (cases s; cases t; simp add: io_frame_def drv_inv_def buf_inv_def file_inv_def stream_inv_def
      file_entries_ok_def table_uses_def buf_lookup_def file_lookup_def)+

lemma io_frame_world_only: "world_only m \<Longrightarrow> m s = (r, t) \<Longrightarrow> io_frame s t"
  using world_only_apply(1) [of m s r t] io_frame_upds(1) [of s "world t"] by simp

lemma io_frame_stats_add: "io_frame s (snd (stats_add c n s))"
  by (simp add: stats_add_def cmodify_def split: option.split)

definition cxx_in_frame :: "(('w, 'z) stats_state_scheme, 'a) cxx \<Rightarrow> bool" where
  "cxx_in_frame m \<longleftrightarrow> (\<forall>s. io_frame s (snd (m s)))"

definition ocxx_in_frame :: "(('w, 'z) stats_state_scheme, 'a) ocxx \<Rightarrow> bool" where
  "ocxx_in_frame m \<longleftrightarrow> (\<forall>s r t. m s = Some (r, t) \<longrightarrow> io_frame s t)"

lemma in_frame_world_only: "world_only m \<Longrightarrow> cxx_in_frame m"
  unfolding cxx_in_frame_def using io_frame_world_only by (metis prod.collapse)

lemma in_frame_stats_add [intro]: "cxx_in_frame (stats_add c n)"
  by (simp add: cxx_in_frame_def io_frame_stats_add)

lemma in_frame_cret [intro]: "cxx_in_frame (cret a)"
  by (simp add: cxx_in_frame_def cret_def)

lemma in_frame_cthrow [intro]: "cxx_in_frame (cthrow e)"
  by (simp add: cxx_in_frame_def cthrow_def)

lemma in_frame_cbind [intro]:
  assumes "cxx_in_frame m" "\<And>a. cxx_in_frame (k a)"
  shows "cxx_in_frame (cbind m k)"
  unfolding cxx_in_frame_def
proof
  fix s
  obtain r t where m: "m s = (r, t)" by fastforce
  with assms(1) have s: "io_frame s t" unfolding cxx_in_frame_def by (metis snd_conv)
  show "io_frame s (snd (cbind m k s))"
  proof (cases r)
    case (Ret a)
    have "io_frame t (snd (k a t))" using assms(2) unfolding cxx_in_frame_def by blast
    with io_frame_trans [OF s] m Ret show ?thesis by (simp add: cbind_def)
  qed (simp_all add: cbind_def m s)
qed

lemma in_frame_olift [intro]: "cxx_in_frame m \<Longrightarrow> ocxx_in_frame (olift m)"
  unfolding cxx_in_frame_def ocxx_in_frame_def olift_def by (metis option.inject snd_conv)

lemma in_frame_obind [intro]:
  assumes "ocxx_in_frame m" "\<And>a. ocxx_in_frame (k a)"
  shows "ocxx_in_frame (obind m k)"
  unfolding ocxx_in_frame_def
proof (intro allI impI)
  fix s r t
  assume b: "obind m k s = Some (r, t)"
  then obtain r0 u where m: "m s = Some (r0, u)"
    by (auto simp: obind_def split: option.splits)
  with assms(1) have s: "io_frame s u" unfolding ocxx_in_frame_def by blast
  show "io_frame s t"
  proof (cases r0)
    case (Ret a)
    with b m have "k a u = Some (r, t)" by (simp add: obind_def)
    with assms(2) [of a] have "io_frame u t" unfolding ocxx_in_frame_def by blast
    with s show ?thesis by (rule io_frame_trans)
  qed (use b m s in \<open>simp_all add: obind_def\<close>)
qed

lemma in_frame_oscope [intro]:
  assumes "ocxx_in_frame m" "cxx_in_frame d"
  shows "ocxx_in_frame (oscope m d)"
  unfolding ocxx_in_frame_def
proof (intro allI impI)
  fix s r t
  assume b: "oscope m d s = Some (r, t)"
  then obtain r0 u where m: "m s = Some (r0, u)"
    by (auto simp: oscope_def split: option.splits)
  with assms(1) have s: "io_frame s u" unfolding ocxx_in_frame_def by blast
  have d: "io_frame u (snd (d u))" using assms(2) unfolding cxx_in_frame_def by blast
  show "io_frame s t"
  proof (cases "r0 = Terminate")
    case True
    with b m s show ?thesis by (simp add: oscope_def)
  next
    case False
    with b m have "t = snd (d u)"
      by (auto simp: oscope_def split: outcome.splits prod.splits)
    with io_frame_trans [OF s d] show ?thesis by simp
  qed
qed

text \<open>
  The contract: an IO stays within the frame, and a request whose parameters do not fit the
  buffer after clamping transfers nothing: it throws and changes no counter. The client of the
  contract, \<^verbatim>\<open>BackendWithFallback\<close>, keeps it when both of its parts do.
\<close>

locale backend_contract =
  fixes x :: "'w ext" and io :: "(('w, 'z) stats_state_scheme, int) io_fun"
  assumes io_in_frame:
      "io type file buffer sz fo bo s = Some (r, t) \<Longrightarrow> io_frame s t"
    and io_refuses:
      "io type file buffer sz fo bo s = Some (r, t) \<Longrightarrow>
         \<not> paramsValid buffer (min sz (max_rw_count x)) fo bo \<Longrightarrow>
         (\<exists>e. r = Exn e) \<and> m_stats t = m_stats s"
begin

lemma io_returns_valid:
  "io type file buffer sz fo bo s = Some (Ret n, t) \<Longrightarrow>
     paramsValid buffer (min sz (max_rw_count x)) fo bo"
  using io_refuses by blast

lemma io_keeps_driver:
  "io type file buffer sz fo bo s = Some (r, t) \<Longrightarrow> drv_inv EB EF ES s \<Longrightarrow> drv_inv EB EF ES t"
  using io_frame_keeps(1) [OF io_in_frame] by blast

end

lemma with_fallback_contract:
  assumes "backend_contract x impl" and "\<And>b. fb = Some b \<Longrightarrow> backend_contract x (be_io b)"
  shows "backend_contract x (BackendWithFallback_io impl eligible fb)"
proof
  fix type f buffer sz fo bo s r t
  assume io: "BackendWithFallback_io impl eligible fb type f buffer sz fo bo s = Some (r, t)"
  have retry: "io_frame u t \<and> (\<not> paramsValid buffer (min sz (max_rw_count x)) fo bo \<longrightarrow>
      (\<exists>e. r = Exn e) \<and> m_stats t = m_stats u)"
    if "retry_io eligible fb e n type f buffer sz fo bo u = Some (r, t)" for e n u
  proof (cases fb)
    case None
    with that show ?thesis by (auto simp: retry_io_def)
  next
    case (Some b)
    from backend_contract.io_in_frame [OF assms(2) [OF Some]]
      backend_contract.io_refuses [OF assms(2) [OF Some]] that Some
    show ?thesis by (auto simp: retry_io_def split: if_splits)
  qed
  obtain r0 u where impl: "impl type f buffer sz fo bo s = Some (r0, u)"
    using io by (auto simp: BackendWithFallback_io_def split: option.splits)
  note fr = backend_contract.io_in_frame [OF assms(1) impl]
    and ref = backend_contract.io_refuses [OF assms(1) impl]
  show "io_frame s t"
    using io impl fr retry [of _ _ u] io_frame_trans [OF fr, of t]
    by (auto simp: BackendWithFallback_io_def split: outcome.splits if_splits)
  show "(\<exists>e. r = Exn e) \<and> m_stats t = m_stats s"
    if "\<not> paramsValid buffer (min sz (max_rw_count x)) fo bo"
    using io impl ref [OF that] retry [of _ _ u] that
    by (auto simp: BackendWithFallback_io_def)
qed

end
