(* ===== verification/Fallback.thy ===== *)
theory Fallback
  imports Backend
begin

text \<open>
  The fallback backend (\<^verbatim>\<open>src/amd_detail/backend/fallback.cpp\<close>): an IO through a bounce buffer in
  chunks, restarted when a system call is interrupted. The loop may run forever: nothing in the code
  bounds the number of interruptions.
\<close>

section \<open>The operations\<close>

definition DefaultChunkSize :: size_t where "DefaultChunkSize = 16 * 1024 * 1024"

definition Fallback_score ::
  "'w ext \<Rightarrow> File \<Rightarrow> Buffer \<Rightarrow> size_t \<Rightarrow> hoff_t \<Rightarrow> hoff_t \<Rightarrow> ('w, 'z) stats_state_scheme \<Rightarrow> int" where
  "Fallback_score x file buffer sz fo bo s =
     (if Configuration_fallback x s \<and> Buffer_getType buffer = hipMemoryTypeDevice then 0 else -1)"

text \<open>The body of the \<^verbatim>\<open>try\<close> block: one transfer of at most \<open>count\<close> bytes.\<close>

definition Fallback_transfer ::
  "'w ext \<Rightarrow> IoType \<Rightarrow> File \<Rightarrow> ptr \<Rightarrow> ptr \<Rightarrow> size_t \<Rightarrow> hoff_t \<Rightarrow>
     (('w, 'z) stats_state_scheme, int) cxx" where
  "Fallback_transfer x type file bounce_buffer device_buffer_position count offset =
     (case type of
        IoRead \<Rightarrow>
          cbind (Sys_pread x (File_bufferedFd file) bounce_buffer count offset) (\<lambda>io_bytes.
          cbind (cwhen (io_bytes > 0)
                   (hipMemcpy x device_buffer_position bounce_buffer (word_of_int io_bytes)
                      hipMemcpyHostToDevice)) (\<lambda>_.
          cret io_bytes))
      | IoWrite \<Rightarrow>
          cbind (hipMemcpy x bounce_buffer device_buffer_position count hipMemcpyDeviceToHost) (\<lambda>_.
          cbind (hipStreamSynchronize x nullptr) (\<lambda>_.
          cbind (Sys_pwrite x (File_bufferedFd file) bounce_buffer count offset) (\<lambda>io_bytes.
          cbind (Sys_fdatasync x (File_bufferedFd file)) (\<lambda>_.
          cret io_bytes)))))"

text \<open>
  One round of the \<^verbatim>\<open>do ... while\<close> loop from the state in which \<open>total_io_bytes\<close> bytes were
  transferred: the next total, or the result. A \<^verbatim>\<open>continue\<close> goes to the loop condition.
\<close>

definition Fallback_round ::
  "'w ext \<Rightarrow> IoType \<Rightarrow> File \<Rightarrow> Buffer \<Rightarrow> size_t \<Rightarrow> hoff_t \<Rightarrow> hoff_t \<Rightarrow> size_t \<Rightarrow> ptr \<Rightarrow> int \<Rightarrow>
     (('w, 'z) stats_state_scheme, int + int) cxx" where
  "Fallback_round x type file buffer sz fo bo chunk_size bounce_buffer total_io_bytes s =
     (let count = min chunk_size (sz - word_of_int total_io_bytes);
          offset = fo + word_of_int total_io_bytes;
          position = Buffer_getBuffer buffer + bo + word_of_int total_io_bytes;
          while_test = (\<lambda>n. if (word_of_int n :: size_t) < sz then Inl n else Inr n)
      in case Fallback_transfer x type file bounce_buffer position count offset s of
           (Terminate, t) \<Rightarrow> (Terminate, t)
         | (Exn e, t) \<Rightarrow>
             if e = Std_system_error EINTR then (Ret (while_test total_io_bytes), t) else (Exn e, t)
         | (Ret io_bytes, t) \<Rightarrow>
             if io_bytes = 0 then (Ret (Inr (total_io_bytes + io_bytes)), t)
             else (Ret (while_test (total_io_bytes + io_bytes)), t))"

definition Fallback_loop ::
  "'w ext \<Rightarrow> IoType \<Rightarrow> File \<Rightarrow> Buffer \<Rightarrow> size_t \<Rightarrow> hoff_t \<Rightarrow> hoff_t \<Rightarrow> size_t \<Rightarrow> ptr \<Rightarrow> int \<Rightarrow>
     (('w, 'z) stats_state_scheme, int) ocxx" where
  "Fallback_loop x type file buffer sz fo bo chunk_size bounce_buffer =
     oloop (Fallback_round x type file buffer sz fo bo chunk_size bounce_buffer)"

definition Fallback_count_io :: "IoType \<Rightarrow> int \<Rightarrow> (('w, 'z) stats_state_scheme, unit) cxx" where
  "Fallback_count_io type total_io_bytes =
     (case type of
        IoRead \<Rightarrow> statsAddFallbackPathRead (word_of_int total_io_bytes)
      | IoWrite \<Rightarrow> statsAddFallbackPathWrite (word_of_int total_io_bytes))"

text \<open>The loop, the statistics and the return, inside the scope of the bounce buffer.\<close>

definition Fallback_body ::
  "'w ext \<Rightarrow> IoType \<Rightarrow> File \<Rightarrow> Buffer \<Rightarrow> size_t \<Rightarrow> hoff_t \<Rightarrow> hoff_t \<Rightarrow> size_t \<Rightarrow> ptr \<Rightarrow>
     (('w, 'z) stats_state_scheme, int) ocxx" where
  "Fallback_body x type file buffer sz fo bo chunk_size p =
     oscope
       (obind (Fallback_loop x type file buffer sz fo bo chunk_size p 0) (\<lambda>total_io_bytes.
          olift (cbind (Fallback_count_io type total_io_bytes) (\<lambda>_. cret total_io_bytes))))
       (cwhen (p \<noteq> nullptr) (Sys_munmap x p chunk_size))"

definition Fallback_io_chunked ::
  "'w ext \<Rightarrow> size_t \<Rightarrow> (('w, 'z) stats_state_scheme, int) io_fun" where
  "Fallback_io_chunked x chunk_size type file buffer size0 fo bo s =
     (if \<not> Configuration_fallback x s then Some (Exn BackendDisabled, s)
      else obind (olift (getMaxRwCount x)) (\<lambda>limit.
             let sz = min size0 limit in
             if \<not> paramsValid buffer sz fo bo then olift (cthrow Std_invalid_argument)
             else obind (olift (Sys_mmap x nullptr chunk_size PROT_READ_WRITE MAP_PRIVATE_ANONYMOUS (-1) 0))
                    (Fallback_body x type file buffer sz fo bo chunk_size)) s)"

definition Fallback_io :: "'w ext \<Rightarrow> (('w, 'z) stats_state_scheme, int) io_fun" where
  "Fallback_io x = Backend_io (Fallback_io_chunked x DefaultChunkSize)"

definition Fallback_backend :: "'w ext \<Rightarrow> ('w, 'z) stats_state_scheme Backend" where
  "Fallback_backend x = \<lparr>be_score = Fallback_score x, be_io = Fallback_io x\<rparr>"

section \<open>The contract\<close>

lemma world_only_cwhen [intro]: "world_only m \<Longrightarrow> world_only (cwhen b m)"
  by (auto simp: cwhen_def)

lemma world_only_sys_calls [intro]:
  "world_only (Sys_pread x fd p n fo)" "world_only (Sys_pwrite x fd p n fo)"
  "world_only (Sys_fdatasync x fd)" "world_only (Sys_mmap x p n pr fl fd fo)"
  "world_only (Sys_munmap x p n)" "world_only (hipMemcpy x d s n k)"
  "world_only (hipStreamSynchronize x st)"
  unfolding Sys_pread_def Sys_pwrite_def Sys_fdatasync_def Sys_mmap_def Sys_munmap_def
    hipMemcpy_def hipStreamSynchronize_def
  by (auto intro!: world_only_cbind)

lemma world_only_Fallback_transfer: "world_only (Fallback_transfer x type f p d n fo)"
  unfolding Fallback_transfer_def
  by (cases type) (auto intro!: world_only_cbind)

lemma world_only_Fallback_round: "world_only (Fallback_round x type f b sz fo bo ch p n)"
  unfolding world_only_def
proof
  fix s :: "('a, 'b) stats_state_scheme"
  let ?tr = "Fallback_transfer x type f p (Buffer_getBuffer b + bo + word_of_int n)
      (min ch (sz - word_of_int n)) (fo + word_of_int n)"
  from world_only_Fallback_transfer show "fst (Fallback_round x type f b sz fo bo ch p n s) \<noteq> Terminate \<and>
      (\<exists>w. snd (Fallback_round x type f b sz fo bo ch p n s) = s\<lparr>world := w\<rparr>)"
    by (rule world_onlyE [of ?tr s]) (auto simp: Fallback_round_def)
qed

lemma Fallback_loop_world:
  "Fallback_loop x type f b sz fo bo ch p n s = Some (r, t) \<Longrightarrow>
     (\<exists>w. t = s\<lparr>world := w\<rparr>) \<and> r \<noteq> Terminate"
  unfolding Fallback_loop_def
  using oloop_world [of "Fallback_round x type f b sz fo bo ch p" n s r t]
    world_only_Fallback_round [of x type f b sz fo bo ch p] by blast

lemma Fallback_count_io_eq:
  "Fallback_count_io type n =
     stats_add (case type of IoRead \<Rightarrow> TotalFallbackPathReadBytes
                           | IoWrite \<Rightarrow> TotalFallbackPathWriteBytes) (word_of_int n)"
  by (cases type) (simp_all add: Fallback_count_io_def stats_add_defs)

lemmas in_frame_sys_calls [intro] = world_only_sys_calls [THEN in_frame_world_only]

lemma Fallback_loop_in_frame: "ocxx_in_frame (Fallback_loop x type f b sz fo bo ch p n)"
  unfolding ocxx_in_frame_def using Fallback_loop_world by fastforce

lemma Fallback_body_in_frame: "ocxx_in_frame (Fallback_body x type f b sz fo bo ch p)"
  unfolding Fallback_body_def Fallback_count_io_eq
  by (auto simp: cwhen_def intro!: in_frame_oscope in_frame_obind in_frame_olift in_frame_cbind
      Fallback_loop_in_frame)

lemma getMaxRwCount_in_frame: "cxx_in_frame (getMaxRwCount x)"
  by (simp add: cxx_in_frame_def getMaxRwCount_eq)

interpretation fallback: backend_contract x "Fallback_io x" for x
proof
  fix type f b sz fo bo s r t
  assume io: "Fallback_io x type f b sz fo bo s = Some (r, t)"
  have "ocxx_in_frame (obind (olift (getMaxRwCount x)) (\<lambda>limit.
             let sz = min sz limit in
             if \<not> paramsValid b sz fo bo then olift (cthrow Std_invalid_argument)
             else obind (olift (Sys_mmap x nullptr DefaultChunkSize PROT_READ_WRITE
                           MAP_PRIVATE_ANONYMOUS (-1) 0))
                    (Fallback_body x type f b sz fo bo DefaultChunkSize)))"
    unfolding Let_def
    by (auto intro!: in_frame_obind in_frame_olift getMaxRwCount_in_frame Fallback_body_in_frame)
  with io show "io_frame s t"
    by (auto simp: Fallback_io_def Backend_io_def Fallback_io_chunked_def ocxx_in_frame_def
        split: if_splits)
  show "(\<exists>e. r = Exn e) \<and> m_stats t = m_stats s"
    if "\<not> paramsValid b (min sz (max_rw_count x)) fo bo"
    using io that
    by (auto simp: Fallback_io_def Backend_io_def Fallback_io_chunked_def obind_def olift_def
        getMaxRwCount_eq cthrow_def split: if_splits)
qed

end
