(* ===== verification/Fastpath.thy ===== *)
theory Fastpath
  imports Fallback
begin

text \<open>
  The fast path (\<^verbatim>\<open>src/amd_detail/backend/fastpath.cpp\<close>): an IO handed to the HIP runtime, for
  requests that are aligned for direct IO, and the rule that says which failures are retried with
  the fallback backend.
\<close>

definition Fastpath_score ::
  "'w ext \<Rightarrow> File \<Rightarrow> Buffer \<Rightarrow> size_t \<Rightarrow> hoff_t \<Rightarrow> hoff_t \<Rightarrow> ('w, 'z) stats_state_scheme \<Rightarrow> int" where
  "Fastpath_score x file buffer sz fo bo s =
     (let dio_offset_align = File_dioOffsetAlign file;
          dio_mem_align = File_dioMemAlign file;
          mem_addr = Buffer_getBuffer buffer + bo;
          accept_io =
            (Configuration_fastpath x s \<and>
             File_unbufferedFd file \<noteq> None \<and>
             Buffer_getType buffer = hipMemoryTypeDevice \<and>
             0 \<le> sint fo \<and> 0 \<le> sint bo \<and>
             (File_isBlockDevice file \<or>
              File_isRegularFile file \<and>
                (Configuration_unsupportedFileSystems x \<or> File_onExt4Ordered file \<or> File_onXfs file)) \<and>
             (dio_offset_align \<noteq> 0 \<and> fo AND ucast (dio_offset_align - 1) = 0) \<and>
             (dio_offset_align \<noteq> 0 \<and> sz AND ucast (dio_offset_align - 1) = 0) \<and>
             (dio_mem_align \<noteq> 0 \<and> mem_addr AND ucast (dio_mem_align - 1) = 0))
      in if accept_io then 100 else -1)"

text \<open>The flag \<open>hip_inited\<close> is the \<^verbatim>\<open>thread_local\<close> of the calling thread.\<close>

definition ensure_hip_init :: "'w ext \<Rightarrow> (('w, 'z) stats_state_scheme, unit) cxx" where
  "ensure_hip_init x =
     cbind (cget hip_inited) (\<lambda>i.
       cwhen (\<not> i) (cbind (hipInit x) (\<lambda>_. cmodify (\<lambda>s. s\<lparr>hip_inited := True\<rparr>))))"

definition Fastpath_transfer ::
  "'w ext \<Rightarrow> IoType \<Rightarrow> int \<Rightarrow> ptr \<Rightarrow> size_t \<Rightarrow> hoff_t \<Rightarrow> (('w, 'z) stats_state_scheme, int) cxx" where
  "Fastpath_transfer x type fd devptr size0 fo =
     cbind (getMaxRwCount x) (\<lambda>limit.
     let sz = min size0 limit in
     cbind (ensure_hip_init x) (\<lambda>_.
     case type of
       IoRead \<Rightarrow>
         cbind (hipAmdFileRead x fd devptr sz fo) (\<lambda>nbytes.
         cbind (statsAddFastPathRead nbytes) (\<lambda>_. cret (sint nbytes)))
     | IoWrite \<Rightarrow>
         cbind (hipAmdFileWrite x fd devptr sz fo) (\<lambda>nbytes.
         cbind (statsAddFastPathWrite nbytes) (\<lambda>_. cret (sint nbytes)))))"

definition Fastpath_io_impl :: "'w ext \<Rightarrow> (('w, 'z) stats_state_scheme, int) io_fun" where
  "Fastpath_io_impl x type file buffer sz fo bo s =
     (if \<not> Configuration_fastpath x s then Some (Exn BackendDisabled, s)
      else case File_unbufferedFd file of
             None \<Rightarrow> Some (Exn Std_bad_optional_access, s)
           | Some fd \<Rightarrow>
               if \<not> paramsValid buffer sz fo bo then Some (Exn Std_invalid_argument, s)
               else olift (Fastpath_transfer x type fd (Buffer_getBuffer buffer + bo) sz fo) s)"

definition Fastpath_is_fallback_eligible :: "exn \<Rightarrow> int \<Rightarrow> bool" where
  "Fastpath_is_fallback_eligible e nbytes =
     (case e of
        Std_system_error c \<Rightarrow> if c = ENODEV then True else if c = EREMOTEIO then True else False
      | _ \<Rightarrow> False)"

definition Fastpath_io ::
  "'w ext \<Rightarrow> ('w, 'z) stats_state_scheme Backend option \<Rightarrow> (('w, 'z) stats_state_scheme, int) io_fun" where
  "Fastpath_io x fallback_backend =
     BackendWithFallback_io (Fastpath_io_impl x) Fastpath_is_fallback_eligible fallback_backend"

definition Fastpath_backend ::
  "'w ext \<Rightarrow> ('w, 'z) stats_state_scheme Backend option \<Rightarrow> ('w, 'z) stats_state_scheme Backend" where
  "Fastpath_backend x fallback_backend =
     \<lparr>be_score = Fastpath_score x, be_io = Fastpath_io x fallback_backend\<rparr>"

text \<open>
  \<^verbatim>\<open>DriverState::getBackends\<close>: the fallback first, then the fast path with the fallback registered. The source fills a
  static list on the first call and returns it from then on; its contents never depend on the state, so that the
  list is a constant here (\<open>getCachedBackends\<close> of \<^verbatim>\<open>Api\<close> has the cache).
\<close>

definition DriverState_getBackends ::
  "'w ext \<Rightarrow> ('w, 'z) stats_state_scheme Backend list" where
  "DriverState_getBackends x =
     [Fallback_backend x, Fastpath_backend x (Some (Fallback_backend x))]"

section \<open>The contract\<close>

lemma paramsValid_mono: "paramsValid b sz fo bo \<Longrightarrow> sz' \<le> sz \<Longrightarrow> paramsValid b sz' fo bo"
  by (auto simp: paramsValid_iff word_le_nat_alt)

lemma world_only_amd [intro]:
  "world_only (hipAmdFileRead x fd p sz fo)" "world_only (hipAmdFileWrite x fd p sz fo)"
  "world_only (hipInit x)"
  unfolding hipAmdFileRead_def hipAmdFileWrite_def hipInit_def
  by (auto intro!: world_only_cbind simp: hipAmdFile_result_def)

lemmas in_frame_amd [intro] = world_only_amd [THEN in_frame_world_only]

lemma ensure_hip_init_in_frame: "cxx_in_frame (ensure_hip_init x)"
proof -
  have "cxx_in_frame (cmodify (\<lambda>s. s\<lparr>hip_inited := True\<rparr>))" "cxx_in_frame (cget hip_inited)"
    by (simp_all add: cxx_in_frame_def cmodify_def cget_def)
  then show ?thesis
    unfolding ensure_hip_init_def cwhen_def
    by (auto intro!: in_frame_cbind)
qed

lemma Fastpath_transfer_in_frame: "cxx_in_frame (Fastpath_transfer x type fd devptr sz fo)"
  unfolding Fastpath_transfer_def Let_def stats_add_defs
  by (cases type) (auto intro!: in_frame_cbind getMaxRwCount_in_frame ensure_hip_init_in_frame)

interpretation fastpath: backend_contract x "Fastpath_io_impl x" for x
proof
  fix type f b sz fo bo s r t
  assume io: "Fastpath_io_impl x type f b sz fo bo s = Some (r, t)"
  then show "io_frame s t"
    using in_frame_olift [OF Fastpath_transfer_in_frame [of x type _ "Buffer_getBuffer b + bo" sz fo]]
    by (auto simp: Fastpath_io_impl_def ocxx_in_frame_def split: if_splits option.splits)
  show "(\<exists>e. r = Exn e) \<and> m_stats t = m_stats s"
    if "\<not> paramsValid b (min sz (max_rw_count x)) fo bo"
  proof -
    have "\<not> paramsValid b sz fo bo"
      using that paramsValid_mono [of b sz fo bo "min sz (max_rw_count x)"] by auto
    with io show ?thesis
      by (auto simp: Fastpath_io_impl_def Let_def split: if_splits option.splits)
  qed
qed

interpretation retrying: backend_contract x "Fastpath_io x (Some (Fallback_backend x))" for x
  unfolding Fastpath_io_def
  by (rule with_fallback_contract)
     (auto simp: Fallback_backend_def fastpath.backend_contract_axioms fallback.backend_contract_axioms)

section \<open>Alignment\<close>

text \<open>The mask test of the score is divisibility, for alignments that are powers of two.\<close>

lemma align_mask_iff:
  fixes w :: "64 word" and a :: "32 word"
  assumes "unat a = 2 ^ k"
  shows "w AND ucast (a - 1) = 0 \<longleftrightarrow> unat a dvd unat w"
proof -
  have "a \<noteq> 0" using assms by auto
  then have "unat (a - 1) = 2 ^ k - 1"
    using assms by (simp add: unat_minus_one)
  then have "(ucast (a - 1) :: 64 word) = of_nat (2 ^ k - 1)"
    by (metis of_nat_unat)
  then have m: "(ucast (a - 1) :: 64 word) = mask k"
    by (simp add: mask_eq_exp_minus_1 of_nat_diff)
  have "w AND mask k = 0 \<longleftrightarrow> take_bit k (unat w) = 0"
    by (metis take_bit_eq_mask unsigned_take_bit_eq unat_eq_zero)
  then show ?thesis
    by (simp add: m assms take_bit_eq_0_iff)
qed

lemma Fastpath_score_values: "Fastpath_score x f b sz fo bo s \<in> {100, -1}"
  by (simp add: Fastpath_score_def Let_def)

lemma Fastpath_score_iff:
  assumes "unat (f_dio_offset_align f) = 2 ^ j" and "unat (f_dio_mem_align f) = 2 ^ k"
  shows "Fastpath_score x f b sz fo bo s = 100 \<longleftrightarrow>
    Configuration_fastpath x s \<and> f_unbuffered_fd f \<noteq> None \<and> b_type b = hipMemoryTypeDevice \<and>
    0 \<le> sint fo \<and> 0 \<le> sint bo \<and>
    (f_is_block_device f \<or> f_is_regular_file f \<and>
       (Configuration_unsupportedFileSystems x \<or> f_on_ext4_ordered f \<or> f_on_xfs f)) \<and>
    2 ^ j dvd unat fo \<and> 2 ^ j dvd unat sz \<and> 2 ^ k dvd unat (b_buffer b + bo)"
proof -
  have "f_dio_offset_align f \<noteq> 0" "f_dio_mem_align f \<noteq> 0"
    using assms by (metis power_not_zero unat_0 zero_neq_numeral)+
  then show ?thesis
    using align_mask_iff [OF assms(1)] align_mask_iff [OF assms(2)] assms
    by (simp add: Fastpath_score_def Let_def file_getters buffer_getters)
qed

end
