(* ===== verification/Batch.thy ===== *)
theory Batch
  imports Fastpath
begin

text \<open>
  Batches (\<^verbatim>\<open>src/amd_detail/batch/batch.cpp\<close>): the checks of a single operation, contexts with a
  bounded number of outstanding operations, and submission, which accepts all operations of a
  call or none. The array that a client passes is the list of its entries.
\<close>

section \<open>Operations\<close>

definition hipFileBatchRead :: int where "hipFileBatchRead = 0"
definition hipFileBatchWrite :: int where "hipFileBatchWrite = 1"
definition hipFileBatch :: int where "hipFileBatch = 1"

record hipFileIOParams_t =
  iop_mode :: int
  iop_devPtr_base :: ptr
  iop_file_offset :: hoff_t
  iop_devPtr_offset :: hoff_t
  iop_size :: size_t
  iop_fh :: ptr
  iop_opcode :: int
  iop_cookie :: ptr

record BatchOperation =
  bop_io_params :: hipFileIOParams_t
  bop_buffer :: ptr
  bop_file :: ptr

text \<open>The checks of the constructor, in the order of the source.\<close>

definition BatchOperation_checks ::
  "hipFileIOParams_t \<Rightarrow> Buffer \<Rightarrow> ptr \<Rightarrow> ('s, unit) cxx" where
  "BatchOperation_checks params buffer file =
     (if iop_devPtr_base params \<noteq> Buffer_getBuffer buffer then cthrow Std_invalid_argument
      else if sint (iop_devPtr_offset params) < 0 then cthrow Std_invalid_argument
      else if Buffer_getLength buffer \<le> iop_devPtr_offset params then cthrow Std_invalid_argument
      else if Buffer_getLength buffer - iop_devPtr_offset params < iop_size params
      then cthrow Std_invalid_argument
      else if iop_fh params \<noteq> IFile_handle file then cthrow Std_invalid_argument
      else if sint (iop_file_offset params) < 0 then cthrow Std_invalid_argument
      else if iop_opcode params \<noteq> hipFileBatchRead \<and> iop_opcode params \<noteq> hipFileBatchWrite
      then cthrow Std_invalid_argument
      else if iop_mode params \<noteq> hipFileBatch then cthrow Std_invalid_argument
      else cret ())"

text \<open>
  The members of an operation are its own uses of the buffer and the file; they are destroyed in
  reverse order, also when the constructor throws.
\<close>

definition BatchOperation_dtor ::
  "'w ext \<Rightarrow> BatchOperation \<Rightarrow> (('w, 'z) drv_state_scheme, unit) cxx" where
  "BatchOperation_dtor x op = cbind (File_drop x (bop_file op)) (\<lambda>_. Buffer_drop (bop_buffer op))"

definition BatchOperation_ctor ::
  "'w ext \<Rightarrow> hipFileIOParams_t \<Rightarrow> ptr \<Rightarrow> ptr \<Rightarrow> (('w, 'z) drv_state_scheme, BatchOperation) cxx" where
  "BatchOperation_ctor x params buffer file s =
     (let op = \<lparr>bop_io_params = params, bop_buffer = buffer, bop_file = file\<rparr>;
          s1 = s\<lparr>buf_heap := sp_copy buffer (buf_heap s), file_heap := sp_copy file (file_heap s)\<rparr>
      in case sp_obj buffer (buf_heap s) of
           None \<Rightarrow> (Terminate, s)
         | Some b \<Rightarrow>
             cunwind (cbind (BatchOperation_checks params b file) (\<lambda>_. cret op))
               (BatchOperation_dtor x op) s1)"

section \<open>Contexts\<close>

definition BatchContext_MAX_SIZE :: "32 word" where "BatchContext_MAX_SIZE = 128"

record BatchContext =
  bc_capacity :: "32 word"
  bc_outstanding_ops :: "BatchOperation list"

definition BatchContext_ctor :: "32 word \<Rightarrow> ('s, BatchContext) cxx" where
  "BatchContext_ctor capacity =
     (if capacity = 0 then cthrow Std_invalid_argument
      else if capacity > BatchContext_MAX_SIZE then cthrow Std_invalid_argument
      else cret \<lparr>bc_capacity = capacity, bc_outstanding_ops = []\<rparr>)"

definition BatchContext_get_capacity :: "BatchContext \<Rightarrow> 32 word" where
  "BatchContext_get_capacity c = bc_capacity c"

record 'w batch_state = "'w stats_state" +
  batch_heap :: "BatchContext store"
  active_contexts :: "(ptr \<times> ptr) list"

text \<open>
  One round of the submission loop: the pair of the lookup lives until the end of the round. The
  address is that of a temporary buffer object, should the lookup make one.
\<close>

definition submit_one ::
  "'w ext \<Rightarrow> ptr \<Rightarrow> hipFileIOParams_t \<Rightarrow> (('w, 'z) drv_state_scheme, BatchOperation) cxx" where
  "submit_one x nb param_copy =
     cbind (DriverState_getFileAndBuffer x nb (iop_fh param_copy) (iop_devPtr_base param_copy)) (\<lambda>fb.
       cscope (BatchOperation_ctor x param_copy (snd fb) (fst fb)) (file_buffer_pair_dtor x fb))"

text \<open>The loop; an exception destroys the pending operations.\<close>

fun submit_loop ::
  "'w ext \<Rightarrow> BatchOperation list \<Rightarrow> (ptr \<times> hipFileIOParams_t) list \<Rightarrow>
     (('w, 'z) drv_state_scheme, BatchOperation list) cxx" where
  "submit_loop x pending_ops [] s = (Ret pending_ops, s)"
| "submit_loop x pending_ops (p # ps) s =
     (case submit_one x (fst p) (snd p) s of
        (Ret op, t) \<Rightarrow> submit_loop x (pending_ops @ [op]) ps t
      | (Exn e, t) \<Rightarrow>
          (case cfor pending_ops (BatchOperation_dtor x) t of
             (Ret _, u) \<Rightarrow> (Exn e, u)
           | (_, u) \<Rightarrow> (Terminate, u))
      | (Terminate, t) \<Rightarrow> (Terminate, t))"

definition BatchContext_submit_operations ::
  "'w ext \<Rightarrow> ptr \<Rightarrow> (ptr \<times> hipFileIOParams_t) list \<Rightarrow> (('w, 'z) batch_state_scheme, unit) cxx" where
  "BatchContext_submit_operations x this params s =
     (case batch_heap s this of
        None \<Rightarrow> (Terminate, s)
      | Some (ctx, uses) \<Rightarrow>
          if (of_nat (length params) :: size_t) >
             ucast (bc_capacity ctx) - of_nat (length (bc_outstanding_ops ctx))
          then (Exn Std_invalid_argument, s)
          else cbind (submit_loop x [] params) (\<lambda>pending_ops.
                 cmodify (\<lambda>s. s\<lparr>batch_heap := (batch_heap s)(this \<mapsto>
                   (ctx\<lparr>bc_outstanding_ops := bc_outstanding_ops ctx @ pending_ops\<rparr>, uses))\<rparr>)) s)"

section \<open>The table of contexts\<close>

definition BatchContext_drop :: "'w ext \<Rightarrow> ptr \<Rightarrow> (('w, 'z) batch_state_scheme, unit) cxx" where
  "BatchContext_drop x p s =
     (case sp_release p (batch_heap s) of
        (None, h) \<Rightarrow> (Ret (), s\<lparr>batch_heap := h\<rparr>)
      | (Some ctx, h) \<Rightarrow>
          cfor (bc_outstanding_ops ctx) (BatchOperation_dtor x) (s\<lparr>batch_heap := h\<rparr>))"

definition BatchContextMap_createContext ::
  "ptr \<Rightarrow> 32 word \<Rightarrow> (('w, 'z) batch_state_scheme, ptr) cxx" where
  "BatchContextMap_createContext na capacity =
     cbind (BatchContext_ctor capacity) (\<lambda>ctx.
     cbind (cmodify (\<lambda>s. s\<lparr>batch_heap := sp_make na ctx (batch_heap s),
                           active_contexts := AList.update na na (active_contexts s)\<rparr>)) (\<lambda>_.
     cret na))"

definition BatchContextMap_destroyContext ::
  "'w ext \<Rightarrow> ptr \<Rightarrow> (('w, 'z) batch_state_scheme, unit) cxx" where
  "BatchContextMap_destroyContext x handle s =
     (case map_of (active_contexts s) handle of
        None \<Rightarrow> (Exn InvalidBatchHandle, s)
      | Some p \<Rightarrow> BatchContext_drop x p (s\<lparr>active_contexts := AList.delete handle (active_contexts s)\<rparr>))"

definition BatchContextMap_get :: "ptr \<Rightarrow> (('w, 'z) batch_state_scheme, ptr) cxx" where
  "BatchContextMap_get handle s =
     (case map_of (active_contexts s) handle of
        None \<Rightarrow> (Exn InvalidBatchHandle, s)
      | Some p \<Rightarrow> (Ret p, s\<lparr>batch_heap := sp_copy p (batch_heap s)\<rparr>))"

definition BatchContextMap_clear :: "'w ext \<Rightarrow> (('w, 'z) batch_state_scheme, unit) cxx" where
  "BatchContextMap_clear x =
     cbind (cget (\<lambda>s. map snd (active_contexts s))) (\<lambda>ps.
     cbind (cmodify (\<lambda>s. s\<lparr>active_contexts := []\<rparr>)) (\<lambda>_.
     cfor ps (BatchContext_drop x)))"

text \<open>The batch interface of \<^verbatim>\<open>DriverState\<close>, and its destructor: members in reverse order.\<close>

definition DriverState_createBatchContext ::
  "ptr \<Rightarrow> 32 word \<Rightarrow> (('w, 'z) batch_state_scheme, ptr) cxx" where
  "DriverState_createBatchContext na capacity = BatchContextMap_createContext na capacity"

definition DriverState_destroyBatchContext ::
  "'w ext \<Rightarrow> ptr \<Rightarrow> (('w, 'z) batch_state_scheme, unit) cxx" where
  "DriverState_destroyBatchContext x handle = BatchContextMap_destroyContext x handle"

definition DriverState_getBatchContext :: "ptr \<Rightarrow> (('w, 'z) batch_state_scheme, ptr) cxx" where
  "DriverState_getBatchContext handle = BatchContextMap_get handle"

definition DriverState_dtor :: "'w ext \<Rightarrow> (('w, 'z) batch_state_scheme, unit) cxx" where
  "DriverState_dtor x =
     cbind (StreamMap_dtor x) (\<lambda>_.
     cbind (BufferMap_dtor x) (\<lambda>_.
     cbind (BatchContextMap_clear x) (\<lambda>_.
     FileMap_dtor x)))"

section \<open>An operation is accepted when its parameters are valid\<close>

definition batch_params_ok :: "hipFileIOParams_t \<Rightarrow> Buffer \<Rightarrow> ptr \<Rightarrow> bool" where
  "batch_params_ok params b file \<longleftrightarrow>
     iop_devPtr_base params = b_buffer b \<and> iop_fh params = file \<and>
     paramsValid b (iop_size params) (iop_file_offset params) (iop_devPtr_offset params) \<and>
     iop_opcode params \<in> {hipFileBatchRead, hipFileBatchWrite} \<and> iop_mode params = hipFileBatch"

lemma BatchOperation_checks_eq:
  "BatchOperation_checks params b file s =
     (if batch_params_ok params b file then (Ret (), s) else (Exn Std_invalid_argument, s))"
  by (auto simp: BatchOperation_checks_def batch_params_ok_def paramsValid_def Let_def
      buffer_getters IFile_handle_def cthrow_def cret_def)

section \<open>Uses of buffers and files by operations\<close>

definition ops_buffers :: "BatchOperation list \<Rightarrow> owners" where
  "ops_buffers ops = count_list (map bop_buffer ops)"

definition ops_files :: "BatchOperation list \<Rightarrow> owners" where
  "ops_files ops = count_list (map bop_file ops)"

lemma ops_snoc:
  "own_sum (ops_buffers (ops @ [op])) E =
     (own_sum (ops_buffers ops) E)(bop_buffer op := Suc (own_sum (ops_buffers ops) E (bop_buffer op)))"
  "own_sum (ops_files (ops @ [op])) E =
     (own_sum (ops_files ops) E)(bop_file op := Suc (own_sum (ops_files ops) E (bop_file op)))"
  by (auto simp: ops_buffers_def ops_files_def own_sum_def)

lemma ops_Cons:
  "own_sum (ops_buffers ops) E = (own_sum (ops_buffers (op # ops)) E)
     (bop_buffer op := own_sum (ops_buffers (op # ops)) E (bop_buffer op) - 1)"
  "own_sum (ops_files ops) E = (own_sum (ops_files (op # ops)) E)
     (bop_file op := own_sum (ops_files (op # ops)) E (bop_file op) - 1)"
  by (auto simp: ops_buffers_def ops_files_def own_sum_def)

lemma ops_Nil: "own_sum (ops_buffers []) E = E" "own_sum (ops_files []) E = E"
  by (simp_all add: ops_buffers_def ops_files_def own_sum_def)

lemma BatchOperation_dtor_inv:
  assumes inv: "drv_inv EB EF ES s" and "0 < EB (bop_buffer op)" "0 < EF (bop_file op)"
    and d: "BatchOperation_dtor x op s = (r, t)"
  shows "r = Terminate \<or> r = Ret () \<and>
    drv_inv (EB(bop_buffer op := EB (bop_buffer op) - 1)) (EF(bop_file op := EF (bop_file op) - 1)) ES t"
proof -
  obtain r1 u where u: "File_drop x (bop_file op) s = (r1, u)" by fastforce
  note i1 = File_drop_drv_inv [OF inv assms(3) u]
  show ?thesis
  proof (cases "r1 = Ret ()")
    case True
    with d u have "Buffer_drop (bop_buffer op) u = (r, t)" by (simp add: BatchOperation_dtor_def cbind_def)
    with Buffer_drop_inv [OF conjunct1 [OF i1] assms(2)] show ?thesis by blast
  next
    case False
    with i1 d u show ?thesis by (auto simp: BatchOperation_dtor_def cbind_def)
  qed
qed

lemma drop_ops_inv:
  assumes "drv_inv (own_sum (ops_buffers ops) EB) (own_sum (ops_files ops) EF) ES s"
    and "cfor ops (BatchOperation_dtor x) s = (r, t)"
  shows "r = Terminate \<or> r = Ret () \<and> drv_inv EB EF ES t"
  using assms
proof (induction ops arbitrary: s)
  case Nil
  then show ?case by (simp add: cret_def ops_Nil)
next
  case (Cons op ops)
  obtain r1 u where u: "BatchOperation_dtor x op s = (r1, u)" by fastforce
  have "0 < own_sum (ops_buffers (op # ops)) EB (bop_buffer op)"
    "0 < own_sum (ops_files (op # ops)) EF (bop_file op)"
    by (simp_all add: ops_buffers_def ops_files_def own_sum_def)
  from BatchOperation_dtor_inv [OF Cons.prems(1) this u]
  consider "r1 = Terminate"
    | "r1 = Ret ()" "drv_inv (own_sum (ops_buffers ops) EB) (own_sum (ops_files ops) EF) ES u"
    unfolding ops_Cons [of ops _ op, symmetric] by blast
  then show ?case
    using Cons.IH [of u] Cons.prems(2) u by cases (auto simp: cbind_def)
qed

section \<open>Submission\<close>

lemma BatchOperation_ctor_inv:
  assumes inv: "drv_inv EB EF ES s" and b: "0 < EB b" and f: "0 < EF f"
    and c: "BatchOperation_ctor x params b f s = (r, t)"
  shows "case r of
      Ret op \<Rightarrow> drv_inv (EB(b := Suc (EB b))) (EF(f := Suc (EF f))) ES t \<and>
              op = \<lparr>bop_io_params = params, bop_buffer = b, bop_file = f\<rparr> \<and>
              (\<exists>bf. sp_obj b (buf_heap s) = Some bf \<and> batch_params_ok params bf f)
    | Exn e \<Rightarrow> e = Std_invalid_argument \<and> drv_inv EB EF ES t \<and>
              (\<exists>bf. sp_obj b (buf_heap s) = Some bf \<and> \<not> batch_params_ok params bf f)
    | Terminate \<Rightarrow> True"
proof -
  let ?op = "\<lparr>bop_io_params = params, bop_buffer = b, bop_file = f\<rparr>"
  let ?s1 = "s\<lparr>buf_heap := sp_copy b (buf_heap s), file_heap := sp_copy f (file_heap s)\<rparr>"
  note i1 = drv_inv_copy_held [OF inv b f]
  have "0 < own_sum (val_count (from_ptr s)) EB b" using b by (simp add: own_sum_apply)
  with inv obtain bf where bf: "sp_obj b (buf_heap s) = Some bf"
    using sp_owned_live [of "own_sum (val_count (from_ptr s)) EB" "buf_heap s" b]
    by (auto simp: drv_inv_def buf_inv_def tbl_inv_def)
  show ?thesis
  proof (cases "batch_params_ok params bf f")
    case True
    with c bf i1 show ?thesis
      by (auto simp: BatchOperation_ctor_def Let_def cunwind_def cbind_def BatchOperation_checks_eq cret_def)
  next
    case False
    obtain r1 u where u: "BatchOperation_dtor x ?op ?s1 = (r1, u)" by fastforce
    have "r1 = Terminate \<or> r1 = Ret () \<and> drv_inv EB EF ES u"
      using BatchOperation_dtor_inv [OF i1 _ _ u] by simp
    with c bf False u show ?thesis
      by (auto simp: BatchOperation_ctor_def Let_def cunwind_def cbind_def BatchOperation_checks_eq)
  qed
qed

lemma submit_one_inv:
  assumes inv: "drv_inv EB EF ES s" and fresh: "buf_heap s nb = None"
    and c: "submit_one x nb params s = (r, t)"
  shows "case r of
      Ret op \<Rightarrow> drv_inv (EB(bop_buffer op := Suc (EB (bop_buffer op))))
                       (EF(bop_file op := Suc (EF (bop_file op)))) ES t \<and>
              bop_io_params op = params \<and> file_lookup s (iop_fh params) = Some (bop_file op) \<and>
              (bop_buffer op = nb \<or> (\<exists>k. buf_lookup s k = Some (bop_buffer op)))
    | Exn e \<Rightarrow> drv_inv EB EF ES t
    | Terminate \<Rightarrow> True"
proof -
  obtain r1 u where u: "DriverState_getFileAndBuffer x nb (iop_fh params) (iop_devPtr_base params) s = (r1, u)"
    by fastforce
  note g = DriverState_getFileAndBuffer_inv [OF inv fresh u]
  show ?thesis
  proof (cases r1)
    case (Ret fb)
    let ?f = "fst fb" and ?b = "snd fb"
    let ?EB = "EB(?b := Suc (EB ?b))" and ?EF = "EF(?f := Suc (EF ?f))"
    from g Ret have i1: "drv_inv ?EB ?EF ES u" and f: "file_lookup s (iop_fh params) = Some ?f"
      and b: "?b = (case buf_lookup s (iop_devPtr_base params) of None \<Rightarrow> nb | Some q \<Rightarrow> q)" by auto
    have pos: "0 < ?EB ?b" "0 < ?EF ?f" by simp_all
    obtain r2 v where v: "BatchOperation_ctor x params ?b ?f u = (r2, v)" by fastforce
    note ct = BatchOperation_ctor_inv [OF i1 pos v]
    obtain r3 w where w: "file_buffer_pair_dtor x fb v = (r3, w)" by fastforce
    have c': "(r, t) = (case r2 of Terminate \<Rightarrow> (Terminate, v)
        | _ \<Rightarrow> (case r3 of Ret _ \<Rightarrow> (r2, w) | _ \<Rightarrow> (Terminate, w)))"
      using c u Ret v w by (auto simp: submit_one_def cbind_def cscope_def split: outcome.splits)
    show ?thesis
    proof (cases r2)
      case (Ret op)
      with ct have i2: "drv_inv (?EB(?b := Suc (?EB ?b))) (?EF(?f := Suc (?EF ?f))) ES v"
        and op: "op = \<lparr>bop_io_params = params, bop_buffer = ?b, bop_file = ?f\<rparr>" by auto
      from file_buffer_pair_dtor_inv [OF i2 _ _ w] have
        "r3 = Terminate \<or> r3 = Ret () \<and> drv_inv ?EB ?EF ES w" by auto
      with c' Ret op f b show ?thesis by (auto split: option.splits)
    next
      case (Exn e)
      with ct have i2: "drv_inv ?EB ?EF ES v" by simp
      have eq: "?EB(?b := ?EB ?b - 1) = EB" "?EF(?f := ?EF ?f - 1) = EF" by auto
      have "r3 = Terminate \<or> r3 = Ret () \<and> drv_inv EB EF ES w"
        using file_buffer_pair_dtor_inv [OF i2 pos w, unfolded eq] by blast
      with c' Exn show ?thesis by auto
    qed (use c' in auto)
  next
    case (Exn e)
    with g c u show ?thesis by (auto simp: submit_one_def cbind_def)
  qed (use g in simp)
qed

lemma fresh_after:
  assumes i: "drv_inv EB EF ES s" and j: "drv_inv (EB(p := n)) EF' ES' t"
    and "from_ptr t = from_ptr s" and "q \<noteq> p" and "buf_heap s q = None"
  shows "buf_heap t q = None"
proof -
  have "own_sum (val_count (from_ptr s)) EB q = 0"
    using i assms(5) sp_owned_none_iff [of "own_sum (val_count (from_ptr s)) EB" "buf_heap s" q]
    by (simp add: drv_inv_def buf_inv_def tbl_inv_def)
  then have "own_sum (val_count (from_ptr t)) (EB(p := n)) q = 0"
    using assms(3,4) by (simp add: own_sum_apply)
  then show ?thesis
    using j sp_owned_none_iff [of "own_sum (val_count (from_ptr t)) (EB(p := n))" "buf_heap t" q]
    by (simp add: drv_inv_def buf_inv_def tbl_inv_def)
qed

lemma BatchOperation_dtor_rest: "BatchOperation_dtor x op s = (r, t) \<Longrightarrow> drv_rest t = drv_rest s"
  by (auto simp: BatchOperation_dtor_def cbind_def split: prod.splits outcome.splits
      dest!: File_drop_rest Buffer_drop_rest)

lemma BatchOperation_ctor_rest: "BatchOperation_ctor x params b f s = (r, t) \<Longrightarrow> drv_rest t = drv_rest s"
  by (auto simp: BatchOperation_ctor_def Let_def cunwind_def cbind_def BatchOperation_checks_eq cret_def
      split: option.splits prod.splits outcome.splits if_splits dest!: BatchOperation_dtor_rest)

lemma submit_one_rest: "submit_one x nb params s = (r, t) \<Longrightarrow> drv_rest t = drv_rest s"
  by (auto simp: submit_one_def cbind_def cscope_def split: prod.splits outcome.splits
      dest!: getFileAndBuffer_rest BatchOperation_ctor_rest file_buffer_pair_dtor_rest)

text \<open>An address that is not in use stays so, unless the operation made its buffer object there.\<close>

lemma submit_one_fresh:
  assumes inv: "drv_inv EB EF ES s" and fresh: "buf_heap s nb = None"
    and c: "submit_one x nb params s = (Ret op, t)"
    and q: "buf_heap s q = None" "q \<noteq> nb"
  shows "buf_heap t q = None"
proof -
  note one = submit_one_inv [OF inv fresh c, simplified]
  have "q \<noteq> bop_buffer op"
  proof
    assume eq: "q = bop_buffer op"
    with one q(2) obtain k where "buf_lookup s k = Some q" by auto
    from buf_inv_entry [OF drv_inv_parts(1) [OF inv] this] q(1) show False
      by (auto simp: sp_obj_def)
  qed
  with fresh_after [OF inv conjunct1 [OF one]] q(1) submit_one_rest [OF c]
  show ?thesis by (simp add: drv_rest_def)
qed

lemma submit_one_rest_fresh:
  assumes "drv_inv EB EF ES s" and "submit_one x (fst p) (snd p) s = (Ret op, t)"
    and "distinct (map fst (p # ps))" and "\<forall>q \<in> set (p # ps). buf_heap s (fst q) = None"
  shows "\<forall>q \<in> set ps. buf_heap t (fst q) = None"
proof
  fix q
  assume "q \<in> set ps"
  with assms(3) have "fst q \<noteq> fst p" by (metis distinct.simps(2) image_eqI list.map(2) set_map)
  with \<open>q \<in> set ps\<close> assms(4) submit_one_fresh [OF assms(1) _ assms(2), of "fst q"]
  show "buf_heap t (fst q) = None" by simp
qed

lemma drop_ops_rest: "cfor ops (BatchOperation_dtor x) s = (r, t) \<Longrightarrow> drv_rest t = drv_rest s"
proof (induction ops arbitrary: s)
  case (Cons op ops)
  then show ?case
    by (auto simp: cbind_def split: prod.splits outcome.splits dest!: BatchOperation_dtor_rest)
qed (simp add: cret_def)

lemma submit_loop_rest: "submit_loop x pending ps s = (r, t) \<Longrightarrow> drv_rest t = drv_rest s"
proof (induction x pending ps s rule: submit_loop.induct)
  case (2 x pending p ps s)
  then show ?case
    by (auto split: prod.splits outcome.splits dest!: submit_one_rest drop_ops_rest)
qed simp

text \<open>
  Submission is all or nothing: when it throws, no use of a buffer or file is left behind, and
  when it returns, each submitted operation holds one use of each.
\<close>

lemma submit_loop_inv:
  assumes "drv_inv (own_sum (ops_buffers pending) EB) (own_sum (ops_files pending) EF) ES s"
    and "distinct (map fst ps)" and "\<forall>p \<in> set ps. buf_heap s (fst p) = None"
    and "submit_loop x pending ps s = (r, t)"
  shows "case r of
      Ret ops \<Rightarrow> drv_inv (own_sum (ops_buffers ops) EB) (own_sum (ops_files ops) EF) ES t \<and>
               map bop_io_params ops = map bop_io_params pending @ map snd ps
    | Exn e \<Rightarrow> drv_inv EB EF ES t
    | Terminate \<Rightarrow> True"
  using assms
proof (induction ps arbitrary: pending s)
  case Nil
  then show ?case by auto
next
  case (Cons p ps)
  obtain r1 u where u: "submit_one x (fst p) (snd p) s = (r1, u)" by fastforce
  have "buf_heap s (fst p) = None" using Cons.prems(3) by simp
  note one = submit_one_inv [OF Cons.prems(1) this u]
  show ?case
  proof (cases r1)
    case (Ret op)
    with one have i1: "drv_inv (own_sum (ops_buffers (pending @ [op])) EB)
        (own_sum (ops_files (pending @ [op])) EF) ES u"
      and par: "bop_io_params op = snd p"
      unfolding ops_snoc by auto
    have "\<forall>q \<in> set ps. buf_heap u (fst q) = None"
      by (rule submit_one_rest_fresh [OF Cons.prems(1) u [unfolded Ret] Cons.prems(2,3)])
    with Cons.IH [OF i1] Cons.prems(2,4) u Ret par show ?thesis
      by (auto split: outcome.splits)
  next
    case (Exn e)
    obtain r2 v where v: "cfor pending (BatchOperation_dtor x) u = (r2, v)" by fastforce
    from one Exn have "drv_inv (own_sum (ops_buffers pending) EB) (own_sum (ops_files pending) EF) ES u"
      by simp
    from drop_ops_inv [OF this v] Cons.prems(4) u Exn v show ?thesis by auto
  next
    case Terminate
    with Cons.prems(4) u show ?thesis by auto
  qed
qed

section \<open>Contexts stay within their capacity\<close>

definition context_ok :: "BatchContext \<Rightarrow> bool" where
  "context_ok ctx \<longleftrightarrow>
     0 < unat (bc_capacity ctx) \<and> unat (bc_capacity ctx) \<le> 128 \<and>
     length (bc_outstanding_ops ctx) \<le> unat (bc_capacity ctx)"

text \<open>The constructor of the driver makes empty tables; on a process without objects the invariant holds.\<close>

definition DriverState_ctor :: "('w, 'z) batch_state_scheme \<Rightarrow> ('w, 'z) batch_state_scheme" where
  "DriverState_ctor s =
     s\<lparr>ref_count := 0, from_fd := [], from_fh := [], active_contexts := [], from_ptr := [], from_stream := []\<rparr>"

lemma DriverState_ctor_inv:
  assumes "buf_heap s = Map.empty" and "file_heap s = Map.empty" and "stream_heap s = Map.empty"
  shows "drv_inv (\<lambda>_. 0) (\<lambda>_. 0) (\<lambda>_. 0) (DriverState_ctor s)"
  using assms
  by (simp add: DriverState_ctor_def drv_inv_def buf_inv_def file_inv_def stream_inv_def tbl_inv_def
      sp_owned_def own_sum_def table_uses_def file_entries_ok_def)

definition batch_inv :: "('w, 'z) batch_state_scheme \<Rightarrow> bool" where
  "batch_inv s \<longleftrightarrow> (\<forall>p ctx n. batch_heap s p = Some (ctx, n) \<longrightarrow> context_ok ctx)"

lemma BatchContext_ctor_ok:
  "BatchContext_ctor cap s = (Ret ctx, t) \<longleftrightarrow>
     t = s \<and> 0 < unat cap \<and> unat cap \<le> 128 \<and> ctx = \<lparr>bc_capacity = cap, bc_outstanding_ops = []\<rparr>"
proof -
  have "cap = 0 \<longleftrightarrow> unat cap = 0" by (simp add: unat_eq_zero)
  moreover have "BatchContext_MAX_SIZE < cap \<longleftrightarrow> 128 < unat cap"
    by (simp add: word_less_nat_alt BatchContext_MAX_SIZE_def)
  ultimately show ?thesis
    by (auto simp: BatchContext_ctor_def cthrow_def cret_def)
qed

text \<open>The guard of the submission, in 64-bit unsigned arithmetic, does not wrap.\<close>

lemma capacity_guard:
  assumes "context_ok ctx" and "n < 2 ^ 64"
  shows "(of_nat n :: size_t) > ucast (bc_capacity ctx) - of_nat (length (bc_outstanding_ops ctx)) \<longleftrightarrow>
    unat (bc_capacity ctx) < length (bc_outstanding_ops ctx) + n"
proof -
  let ?k = "length (bc_outstanding_ops ctx)" and ?c = "unat (bc_capacity ctx)"
  have k: "?k \<le> ?c" "?c \<le> 128" using assms(1) by (simp_all add: context_ok_def)
  have "unat (ucast (bc_capacity ctx) :: size_t) = ?c"
    by (simp add: unsigned_ucast_eq take_bit_nat_eq_self_iff) (use k in simp)
  moreover have "unat (of_nat ?k :: size_t) = ?k" using k by (simp add: unat_of_nat)
  ultimately have "unat (ucast (bc_capacity ctx) - of_nat ?k :: size_t) = ?c - ?k"
    using k by (simp add: unat_sub word_le_nat_alt)
  moreover have "unat (of_nat n :: size_t) = n" using assms(2) by (simp add: unat_of_nat)
  ultimately show ?thesis
    using k by (simp add: word_less_nat_alt less_diff_conv2) linarith
qed

lemma drv_rest_batch:
  "drv_rest t = drv_rest s \<Longrightarrow> batch_heap t = batch_heap s \<and> active_contexts t = active_contexts s"
  by (cases s; cases t; simp add: drv_rest_def)

lemma drv_inv_batch [simp]:
  "drv_inv EB EF ES (s\<lparr>batch_heap := h\<rparr>) = drv_inv EB EF ES s"
  "drv_inv EB EF ES (s\<lparr>active_contexts := al\<rparr>) = drv_inv EB EF ES s"
  by (simp_all add: drv_inv_def buf_inv_def file_inv_def file_entries_ok_def table_uses_def
      stream_inv_def)

lemma submit_operations_spec:
  assumes inv: "drv_inv EB EF ES s" and bi: "batch_inv s" and ctx: "batch_heap s p = Some (ctx, n)"
    and fr: "distinct (map fst ps)" "\<forall>q \<in> set ps. buf_heap s (fst q) = None"
    and len: "length ps < 2 ^ 64"
    and sub: "BatchContext_submit_operations x p ps s = (r, t)"
  shows "case r of
      Ret _ \<Rightarrow> length (bc_outstanding_ops ctx) + length ps \<le> unat (bc_capacity ctx) \<and> batch_inv t \<and>
        (\<exists>ops. map bop_io_params ops = map snd ps \<and>
           batch_heap t = (batch_heap s)(p \<mapsto>
             (ctx\<lparr>bc_outstanding_ops := bc_outstanding_ops ctx @ ops\<rparr>, n)) \<and>
           drv_inv (own_sum (ops_buffers ops) EB) (own_sum (ops_files ops) EF) ES t)
    | Exn e \<Rightarrow> drv_inv EB EF ES t \<and> batch_heap t = batch_heap s
    | Terminate \<Rightarrow> True"
proof -
  have ok: "context_ok ctx" using bi ctx by (auto simp: batch_inv_def)
  note guard = capacity_guard [OF ok len]
  show ?thesis
  proof (cases "unat (bc_capacity ctx) < length (bc_outstanding_ops ctx) + length ps")
    case True
    with guard sub ctx inv show ?thesis by (auto simp: BatchContext_submit_operations_def)
  next
    case False
    obtain r1 u where u: "submit_loop x [] ps s = (r1, u)" by fastforce
    note loop = submit_loop_inv [of "[]" EB EF ES s ps x r1 u, unfolded ops_Nil, OF inv fr u]
    have bh: "batch_heap u = batch_heap s" using drv_rest_batch [OF submit_loop_rest [OF u]] by simp
    have rt: "(r, t) = (case r1 of
        Ret ops \<Rightarrow> (Ret (), u\<lparr>batch_heap := (batch_heap u)(p \<mapsto>
           (ctx\<lparr>bc_outstanding_ops := bc_outstanding_ops ctx @ ops\<rparr>, n))\<rparr>)
      | Exn e \<Rightarrow> (Exn e, u) | Terminate \<Rightarrow> (Terminate, u))"
      using sub ctx guard False u
      by (auto simp: BatchContext_submit_operations_def cbind_def cmodify_def split: outcome.splits)
    show ?thesis
    proof (cases r1)
      case (Ret ops)
      with loop have ops: "map bop_io_params ops = map snd ps"
        "drv_inv (own_sum (ops_buffers ops) EB) (own_sum (ops_files ops) EF) ES u" by auto
      have "length ops = length ps" using arg_cong [OF ops(1), of length] by simp
      then have "context_ok (ctx\<lparr>bc_outstanding_ops := bc_outstanding_ops ctx @ ops\<rparr>)"
        using ok False by (simp add: context_ok_def)
      with bi bh have "batch_inv (u\<lparr>batch_heap := (batch_heap u)(p \<mapsto>
           (ctx\<lparr>bc_outstanding_ops := bc_outstanding_ops ctx @ ops\<rparr>, n))\<rparr>)"
        by (auto simp: batch_inv_def)
      with rt Ret ops bh False show ?thesis by auto
    qed (use rt loop bh in auto)
  qed
qed

end
