(* ===== verification/Api.thy ===== *)
theory Api
  imports Batch
begin

text \<open>
  The public C interface (\<^verbatim>\<open>src/amd_detail/hipfile.cpp\<close>, without the asynchronous functions): each
  function calls the driver and turns exceptions into error values. Out parameters are further
  results; an optional one is \<^const>\<open>None\<close> when the function does not write it.
\<close>

section \<open>Errors\<close>

definition handle_exception :: "exn \<Rightarrow> hipFileError_t" where
  "handle_exception ex =
     (case ex of
        Thrown_hipFileError e \<Rightarrow> e
      | Hip_RuntimeError h \<Rightarrow> \<lparr>err = hipFileHipDriverError, hip_drv_err = h\<rparr>
      | _ \<Rightarrow> hipFile_status hipFileInternalError)"

text \<open>Functions whose body only throws \<^verbatim>\<open>std::runtime_error ("Not Implemented")\<close>.\<close>

definition not_implemented :: "('s, hipFileError_t) cxx" where
  "not_implemented = ccatch (cthrow Std_runtime_error) (\<lambda>ex. cret (handle_exception ex))"

section \<open>File handles\<close>

datatype hipFileFileHandleType =
  hipFileHandleTypeOpaqueFD | hipFileHandleTypeOpaqueWin32 | hipFileHandleTypeUserspaceFS
  | hipFileHandleType_other int

text \<open>The two members of the union \<open>handle\<close> are two fields; the type says which one the client filled.\<close>

record hipFileDescr_t =
  descr_type :: hipFileFileHandleType
  descr_fd :: int
  descr_hFile :: ptr
  descr_fs_ops :: ptr

text \<open>What \<^verbatim>\<open>std::move\<close> leaves of an unregistered file whose members were moved into a file.\<close>

definition UnregisteredFile_moved :: "UnregisteredFile \<Rightarrow> UnregisteredFile" where
  "UnregisteredFile_moved uf =
     uf\<lparr>uf_client_fd := snd (FileDescriptor_move (uf_client_fd uf)),
        uf_buffered_fd := snd (FileDescriptor_move (uf_buffered_fd uf)),
        uf_unbuffered_fd := map_option (\<lambda>fd. snd (FileDescriptor_move fd)) (uf_unbuffered_fd uf)\<rparr>"

definition register_unregistered ::
  "'w ext \<Rightarrow> ptr \<Rightarrow> UnregisteredFile \<Rightarrow> (('w, 'z) drv_state_scheme, ptr) cxx" where
  "register_unregistered x na uf s =
     (case DriverState_registerFile na uf s of
        (Ret fh, t) \<Rightarrow> cscope (cret fh) (UnregisteredFile_dtor x (UnregisteredFile_moved uf)) t
      | (Exn e, t) \<Rightarrow> cscope (cthrow e) (UnregisteredFile_dtor x uf) t
      | (Terminate, t) \<Rightarrow> (Terminate, t))"

definition hipFileHandleRegister ::
  "'w ext \<Rightarrow> ptr \<Rightarrow> ptr \<Rightarrow> hipFileDescr_t option \<Rightarrow>
     (('w, 'z) drv_state_scheme, hipFileError_t \<times> ptr option) cxx" where
  "hipFileHandleRegister x na fh descr =
     ccatch
       (if fh = nullptr \<or> descr = None then cret (hipFile_status hipFileInvalidValue, None)
        else (case descr_type (the descr) of
                hipFileHandleTypeOpaqueFD \<Rightarrow>
                  cbind (UnregisteredFile_ctor x (descr_fd (the descr))) (\<lambda>uf.
                  cbind (register_unregistered x na uf) (\<lambda>h.
                  cret (hipFile_status hipFileSuccess, Some h)))
              | _ \<Rightarrow> cret (hipFile_status hipFileIONotSupported, None)))
       (\<lambda>ex. cret (case ex of
                     FileAlreadyRegistered \<Rightarrow> hipFile_status hipFileHandleAlreadyRegistered
                   | _ \<Rightarrow> handle_exception ex, None))"

definition hipFileHandleDeregister :: "'w ext \<Rightarrow> ptr \<Rightarrow> (('w, 'z) drv_state_scheme, unit) cxx" where
  "hipFileHandleDeregister x fh =
     ccatch (if fh = nullptr then cret () else DriverState_deregisterFile x fh) (\<lambda>ex. cret ())"

section \<open>Buffers\<close>

definition hipFileBufRegister ::
  "'w ext \<Rightarrow> ptr \<Rightarrow> ptr \<Rightarrow> size_t \<Rightarrow> int \<Rightarrow> (('w, 'z) drv_state_scheme, hipFileError_t) cxx" where
  "hipFileBufRegister x na buffer_base len flags =
     ccatch
       (cbind (DriverState_registerBuffer x na buffer_base len flags) (\<lambda>_.
          cret (hipFile_status hipFileSuccess)))
       (\<lambda>ex. cret (case ex of
                     BufferAlreadyRegistered \<Rightarrow> hipFile_status hipFileMemoryAlreadyRegistered
                   | InvalidMemoryType \<Rightarrow> hipFile_status hipFileHipMemoryTypeInvalid
                   | InvalidPointerRange \<Rightarrow> hipFile_status hipFileHipPointerRangeError
                   | Hip_RuntimeError h \<Rightarrow>
                       if h = hipErrorInvalidValue then hipFile_status hipFileInvalidValue
                       else handle_exception ex
                   | _ \<Rightarrow> if is_invalid_argument ex then hipFile_status hipFileInvalidValue
                          else handle_exception ex))"

definition hipFileBufDeregister :: "ptr \<Rightarrow> (('w, 'z) drv_state_scheme, hipFileError_t) cxx" where
  "hipFileBufDeregister buffer_base =
     ccatch
       (cbind (DriverState_deregisterBuffer buffer_base) (\<lambda>_. cret (hipFile_status hipFileSuccess)))
       (\<lambda>ex. cret (case ex of
                     DriverNotInitialized \<Rightarrow> hipFile_status hipFileDriverClosing
                   | BufferNotRegistered \<Rightarrow> hipFile_status hipFileMemoryNotRegistered
                   | BufferOperationsOutstanding \<Rightarrow> hipFile_status hipFileInternalError
                   | _ \<Rightarrow> handle_exception ex))"

section \<open>Synchronous IO\<close>

text \<open>The loop that picks the backend: the first one with the highest score that is not negative.\<close>

fun select_backend ::
  "('b \<Rightarrow> int) \<Rightarrow> int \<Rightarrow> 'b option \<Rightarrow> 'b list \<Rightarrow> 'b option" where
  "select_backend score_of score backend [] = backend"
| "select_backend score_of score backend (b # bs) =
     (if score < score_of b then select_backend score_of (score_of b) (Some b) bs
      else select_backend score_of score backend bs)"

text \<open>
  The body of \<^verbatim>\<open>hipFileIo\<close> after the lookup. \<^const>\<open>Terminate\<close> stands for the dereference of a
  pointer to a destroyed object; the invariant excludes it.
\<close>

definition hipFileIo_run ::
  "IoType \<Rightarrow> size_t \<Rightarrow> hoff_t \<Rightarrow> hoff_t \<Rightarrow> ('w, 'z) stats_state_scheme Backend list \<Rightarrow> ptr \<times> ptr \<Rightarrow>
     (('w, 'z) stats_state_scheme, int) ocxx" where
  "hipFileIo_run type sz fo bo backends fb s =
     (case (sp_obj (fst fb) (file_heap s), sp_obj (snd fb) (buf_heap s)) of
        (Some file, Some buffer) \<Rightarrow>
          (case select_backend (\<lambda>b. be_score b file buffer sz fo bo s) (-1) None backends of
             None \<Rightarrow> Some (Exn Std_runtime_error, s)
           | Some b \<Rightarrow> be_io b type file buffer sz fo bo s)
      | _ \<Rightarrow> Some (Terminate, s))"

definition set_errno :: "'w ext \<Rightarrow> int \<Rightarrow> (('w, 'z) sys_state_scheme, unit) cxx" where
  "set_errno x c = cmodify (\<lambda>s. s\<lparr>world := c_set_errno x c (world s)\<rparr>)"

definition hipFileIo_catch :: "'w ext \<Rightarrow> exn \<Rightarrow> (('w, 'z) sys_state_scheme, int) cxx" where
  "hipFileIo_catch x ex =
     (case ex of
        DriverNotInitialized \<Rightarrow> cret (- op_error_code hipFileDriverNotInitialized)
      | Thrown_hipFileError e \<Rightarrow> cret (- op_error_code (err e))
      | InvalidMemoryType \<Rightarrow> cret (- op_error_code hipFileHipMemoryTypeInvalid)
      | FileNotRegistered \<Rightarrow> cret (- op_error_code hipFileHandleNotRegistered)
      | Hip_RuntimeError h \<Rightarrow> cret (- hip_code x h)
      | Std_system_error c \<Rightarrow> cbind (set_errno x c) (\<lambda>_. cret (-1))
      | _ \<Rightarrow> if is_invalid_argument ex then cret (- op_error_code hipFileInvalidValue)
             else cret (- op_error_code hipFileInternalError))"

definition hipFileIo ::
  "'w ext \<Rightarrow> ptr \<Rightarrow> IoType \<Rightarrow> ptr \<Rightarrow> ptr \<Rightarrow> size_t \<Rightarrow> hoff_t \<Rightarrow> hoff_t \<Rightarrow>
     ('w, 'z) stats_state_scheme Backend list \<Rightarrow> (('w, 'z) stats_state_scheme, int) ocxx" where
  "hipFileIo x nb type fh buffer_base sz fo bo backends =
     ocatch
       (obind (olift (DriverState_getFileAndBuffer x nb fh buffer_base)) (\<lambda>fb.
          oscope (hipFileIo_run type sz fo bo backends fb) (file_buffer_pair_dtor x fb)))
       (\<lambda>ex. olift (hipFileIo_catch x ex))"

text \<open>
  The list is a static variable of a function: the first call fills it, later calls return it. What it
  holds is always \<^verbatim>\<open>getBackends\<close>, which the functions below take directly.
\<close>

definition getCachedBackends ::
  "'w ext \<Rightarrow> ('w, 'z) stats_state_scheme Backend list option \<Rightarrow>
     ('w, 'z) stats_state_scheme Backend list \<times> ('w, 'z) stats_state_scheme Backend list option" where
  "getCachedBackends x cache =
     (case cache of
        None \<Rightarrow> (DriverState_getBackends x, Some (DriverState_getBackends x))
      | Some backends \<Rightarrow> (backends, Some backends))"

lemma getCachedBackends_stable:
  "cache \<in> {None, Some (DriverState_getBackends x)} \<Longrightarrow>
     getCachedBackends x cache = (DriverState_getBackends x, Some (DriverState_getBackends x))"
  by (auto simp: getCachedBackends_def)

definition match_cufile :: "'w ext \<Rightarrow> int \<Rightarrow> (('w, 'z) sys_state_scheme, int) cxx" where
  "match_cufile x result =
     (if result = - op_error_code hipFileDriverNotInitialized
      then cbind (set_errno x EINVAL) (\<lambda>_. cret (-1))
      else cret result)"

definition hipFileRead ::
  "'w ext \<Rightarrow> ptr \<Rightarrow> ptr \<Rightarrow> ptr \<Rightarrow> size_t \<Rightarrow> hoff_t \<Rightarrow> hoff_t \<Rightarrow>
     (('w, 'z) stats_state_scheme, int) ocxx" where
  "hipFileRead x nb fh buffer_base sz fo bo =
     obind (hipFileIo x nb IoRead fh buffer_base sz fo bo (DriverState_getBackends x)) (\<lambda>result.
       olift (match_cufile x result))"

definition hipFileWrite ::
  "'w ext \<Rightarrow> ptr \<Rightarrow> ptr \<Rightarrow> ptr \<Rightarrow> size_t \<Rightarrow> hoff_t \<Rightarrow> hoff_t \<Rightarrow>
     (('w, 'z) stats_state_scheme, int) ocxx" where
  "hipFileWrite x nb fh buffer_base sz fo bo =
     obind (hipFileIo x nb IoWrite fh buffer_base sz fo bo (DriverState_getBackends x)) (\<lambda>result.
       olift (match_cufile x result))"

section \<open>The driver\<close>

definition hipFileDriverOpen :: "(('w, 'z) drv_state_scheme, hipFileError_t) cxx" where
  "hipFileDriverOpen =
     ccatch (cbind DriverState_incrRefCount (\<lambda>_. cret (hipFile_status hipFileSuccess)))
       (\<lambda>ex. cret (handle_exception ex))"

text \<open>The test and the decrement take the lock separately.\<close>

definition hipFileDriverClose :: "'w ext \<Rightarrow> (('w, 'z) drv_state_scheme, hipFileError_t) cxx" where
  "hipFileDriverClose x =
     ccatch
       (cbind DriverState_getRefCount (\<lambda>rc.
          if rc > 0
          then cbind (DriverState_decrRefCount x) (\<lambda>_. cret (hipFile_status hipFileSuccess))
          else cret (hipFile_status hipFileDriverNotInitialized)))
       (\<lambda>ex. cret (handle_exception ex))"

definition hipFileUseCount :: "(('w, 'z) drv_state_scheme, int) cxx" where
  "hipFileUseCount = ccatch DriverState_getRefCount (\<lambda>ex. cret (-1))"

definition hipFileDriverGetProperties :: "('s, hipFileError_t) cxx" where
  "hipFileDriverGetProperties = not_implemented"
definition hipFileDriverSetPollMode :: "bool \<Rightarrow> size_t \<Rightarrow> ('s, hipFileError_t) cxx" where
  "hipFileDriverSetPollMode poll poll_threshold_size = not_implemented"
definition hipFileDriverSetMaxDirectIOSize :: "size_t \<Rightarrow> ('s, hipFileError_t) cxx" where
  "hipFileDriverSetMaxDirectIOSize max_direct_io_size = not_implemented"
definition hipFileDriverSetMaxCacheSize :: "size_t \<Rightarrow> ('s, hipFileError_t) cxx" where
  "hipFileDriverSetMaxCacheSize max_cache_size = not_implemented"
definition hipFileDriverSetMaxPinnedMemSize :: "size_t \<Rightarrow> ('s, hipFileError_t) cxx" where
  "hipFileDriverSetMaxPinnedMemSize max_pinned_size = not_implemented"

section \<open>Batches\<close>

definition hipFileBatchIOSetUp ::
  "ptr \<Rightarrow> ptr \<Rightarrow> 32 word \<Rightarrow> (('w, 'z) batch_state_scheme, hipFileError_t \<times> ptr option) cxx" where
  "hipFileBatchIOSetUp na batch_idp max_nr =
     ccatch
       (if batch_idp = nullptr then cret (hipFile_status hipFileInvalidValue, None)
        else cbind (DriverState_createBatchContext na max_nr) (\<lambda>h.
               cret (hipFile_status hipFileSuccess, Some h)))
       (\<lambda>ex. cret (if is_invalid_argument ex then hipFile_status hipFileInvalidValue
                   else handle_exception ex, None))"

definition hipFileBatchIOSubmit ::
  "'w ext \<Rightarrow> ptr \<Rightarrow> (ptr \<times> hipFileIOParams_t) list \<Rightarrow> 32 word \<Rightarrow>
     (('w, 'z) batch_state_scheme, hipFileError_t) cxx" where
  "hipFileBatchIOSubmit x batch_idp iocbp flags =
     ccatch
       (cbind (DriverState_getBatchContext batch_idp) (\<lambda>batch_context.
          cscope
            (cbind (BatchContext_submit_operations x batch_context iocbp) (\<lambda>_.
               cret (hipFile_status hipFileSuccess)))
            (BatchContext_drop x batch_context)))
       (\<lambda>ex. cret (if is_invalid_argument ex then hipFile_status hipFileInvalidValue
                   else handle_exception ex))"

definition hipFileBatchIOGetStatus :: "ptr \<Rightarrow> 32 word \<Rightarrow> ('s, hipFileError_t) cxx" where
  "hipFileBatchIOGetStatus batch_idp min_nr = not_implemented"
definition hipFileBatchIOCancel :: "ptr \<Rightarrow> ('s, hipFileError_t) cxx" where
  "hipFileBatchIOCancel batch_idp = not_implemented"
definition hipFileBatchIODestroy :: "ptr \<Rightarrow> ('s, unit) cxx" where
  "hipFileBatchIODestroy batch_idp = ccatch (cthrow Std_runtime_error) (\<lambda>ex. cret ())"

section \<open>Streams\<close>

definition hipFileStreamRegister ::
  "'w ext \<Rightarrow> ptr \<Rightarrow> ptr \<Rightarrow> uint32_t \<Rightarrow> (('w, 'z) drv_state_scheme, hipFileError_t) cxx" where
  "hipFileStreamRegister x na stream flags =
     ccatch
       (cbind (DriverState_registerStream x na stream flags) (\<lambda>_. cret (hipFile_status hipFileSuccess)))
       (\<lambda>ex. cret (if is_invalid_argument ex then hipFile_status hipFileInvalidValue
                   else handle_exception ex))"

definition hipFileStreamDeregister :: "ptr \<Rightarrow> (('w, 'z) drv_state_scheme, hipFileError_t) cxx" where
  "hipFileStreamDeregister stream =
     ccatch
       (cbind (DriverState_deregisterStream stream) (\<lambda>_. cret (hipFile_status hipFileSuccess)))
       (\<lambda>ex. cret (if is_invalid_argument ex then hipFile_status hipFileInvalidValue
                   else handle_exception ex))"

section \<open>Parameters\<close>

definition hipFileGetParameterSizeT :: "int \<Rightarrow> ('s, hipFileError_t) cxx" where
  "hipFileGetParameterSizeT param = not_implemented"
definition hipFileGetParameterBool :: "int \<Rightarrow> ('s, hipFileError_t) cxx" where
  "hipFileGetParameterBool param = not_implemented"
definition hipFileGetParameterString :: "int \<Rightarrow> int \<Rightarrow> ('s, hipFileError_t) cxx" where
  "hipFileGetParameterString param len = not_implemented"
definition hipFileSetParameterSizeT :: "int \<Rightarrow> size_t \<Rightarrow> ('s, hipFileError_t) cxx" where
  "hipFileSetParameterSizeT param value = not_implemented"
definition hipFileSetParameterBool :: "int \<Rightarrow> bool \<Rightarrow> ('s, hipFileError_t) cxx" where
  "hipFileSetParameterBool param value = not_implemented"
definition hipFileSetParameterString :: "int \<Rightarrow> string \<Rightarrow> ('s, hipFileError_t) cxx" where
  "hipFileSetParameterString param desc_str = not_implemented"

section \<open>Choosing a backend\<close>

lemma select_backend_inv:
  "select_backend sc m best bs = Some b \<Longrightarrow> (\<And>c. best = Some c \<Longrightarrow> sc c = m) \<Longrightarrow>
     (best = Some b \<or> b \<in> set bs \<and> m < sc b) \<and> m \<le> sc b \<and> (\<forall>c \<in> set bs. sc c \<le> sc b)"
proof (induction sc m best bs rule: select_backend.induct)
  case (1 sc m best)
  then show ?case by auto
next
  case (2 sc m best c bs)
  show ?case
  proof (cases "m < sc c")
    case True
    then have "select_backend sc (sc c) (Some c) bs = Some b" using 2(3) by simp
    from 2(1) [OF True this] True show ?thesis by auto
  next
    case False
    then have "select_backend sc m best bs = Some b" using 2(3) by simp
    from 2(2) [OF False this 2(4)] False show ?thesis by auto
  qed
qed

lemma select_backend_None:
  "select_backend sc m best bs = None \<longleftrightarrow> best = None \<and> (\<forall>b \<in> set bs. sc b \<le> m)"
  by (induction sc m best bs rule: select_backend.induct) auto

section \<open>Synchronous IO leaves no use behind\<close>

lemma File_drop_from_fh: "File_drop x p s = (r, t) \<Longrightarrow> from_fh t = from_fh s"
  by (rule File_drop_outcome [of x p s]) auto

lemma getBuffer_from_fh:
  "BufferMap_getBuffer x nb buf s = (r, t) \<Longrightarrow> from_fh t = from_fh s"
  for s t :: "('w, 'z) drv_state_scheme"
  using buf_frame_keeps(5) [OF getBuffer_frame, of x nb buf s] by simp

lemma getFileAndBuffer_from_fh:
  "DriverState_getFileAndBuffer x nb fh buf s = (r, t) \<Longrightarrow> from_fh t = from_fh s"
  by (auto simp: DriverState_getFileAndBuffer_def cbind_def cget_def cthrow_def cunwind_def
      FileMap_getFile_def cret_def split: option.splits prod.splits outcome.splits if_splits
      dest!: File_drop_from_fh getBuffer_from_fh)

lemma pair_dtor_registered:
  assumes inv: "drv_inv EB EF ES s" and b: "0 < EB (snd fb)" and f: "0 < EF (fst fb)"
    and reg: "file_lookup s fh = Some (fst fb)"
  obtains t where "file_buffer_pair_dtor x fb s = (Ret (), t)"
    "drv_inv (EB(snd fb := EB (snd fb) - 1)) (EF(fst fb := EF (fst fb) - 1)) ES t"
    "drv_rest t = drv_rest s"
proof -
  obtain r t where d: "file_buffer_pair_dtor x fb s = (r, t)" by fastforce
  obtain u where u: "Buffer_drop (snd fb) s = (Ret (), u)" by (simp add: Buffer_drop_def cmodify_def)
  note bd = Buffer_drop_inv [OF inv b u]
  have "sp_use_count (fst fb) (file_heap u) = 2 + EF (fst fb)"
    using file_inv_uses [OF drv_inv_parts(2) [OF inv] reg] bd by simp
  then have "File_drop x (fst fb) u = (Ret (), u\<lparr>file_heap := snd (sp_release (fst fb) (file_heap u))\<rparr>)"
    using f by (intro File_drop_shared) simp
  with d u have "r = Ret ()" by (simp add: file_buffer_pair_dtor_def cbind_def)
  with d file_buffer_pair_dtor_inv [OF inv b f d] file_buffer_pair_dtor_rest [OF d] that
  show thesis by blast
qed

lemma held_objects:
  assumes inv: "drv_inv EB EF ES s" and "0 < EB b" "0 < EF f"
  obtains fo bf where "sp_obj f (file_heap s) = Some fo" "sp_obj b (buf_heap s) = Some bf"
proof -
  have "0 < own_sum (val_count (from_ptr s)) EB b" "0 < own_sum (table_uses s) EF f"
    using assms(2,3) by (simp_all add: own_sum_apply)
  then show thesis
    using that inv sp_owned_live [of "own_sum (val_count (from_ptr s)) EB" "buf_heap s" b]
      sp_owned_live [of "own_sum (table_uses s) EF" "file_heap s" f]
    by (auto simp: drv_inv_def buf_inv_def file_inv_def tbl_inv_def)
qed

definition contract_list :: "'w ext \<Rightarrow> ('w, 'z) stats_state_scheme Backend list \<Rightarrow> bool" where
  "contract_list x bs \<longleftrightarrow> (\<forall>b \<in> set bs. backend_contract x (be_io b))"

lemma getBackends_contract: "contract_list x (DriverState_getBackends x)"
  by (simp add: contract_list_def DriverState_getBackends_def Fallback_backend_def
      Fastpath_backend_def fallback.backend_contract_axioms retrying.backend_contract_axioms
      [unfolded Fallback_backend_def])

lemma hipFileIo_run_frame:
  assumes "contract_list x bs" and "hipFileIo_run type sz fo bo bs fb s = Some (r, t)"
  shows "io_frame s t"
proof (cases "sp_obj (fst fb) (file_heap s)"; cases "sp_obj (snd fb) (buf_heap s)")
  fix f b
  assume o: "sp_obj (fst fb) (file_heap s) = Some f" "sp_obj (snd fb) (buf_heap s) = Some b"
  show ?thesis
  proof (cases "select_backend (\<lambda>be. be_score be f b sz fo bo s) (-1) None bs")
    case None
    with assms o show ?thesis by (simp add: hipFileIo_run_def)
  next
    case (Some be)
    have "be \<in> set bs" using select_backend_inv [OF Some] by simp
    with assms(1) have "backend_contract x (be_io be)" by (simp add: contract_list_def)
    from backend_contract.io_in_frame [OF this] assms(2) Some o show ?thesis
      by (simp add: hipFileIo_run_def)
  qed
qed (use assms in \<open>simp_all add: hipFileIo_run_def\<close>)

lemma hipFileIo_catch_Ret: "\<exists>n w. hipFileIo_catch x ex s = (Ret n, s\<lparr>world := w\<rparr>)"
  by (cases ex) (auto simp: hipFileIo_catch_def set_errno_def cxx_defs world_unchanged)

lemma drv_inv_world [simp]: "drv_inv EB EF ES (s\<lparr>world := w\<rparr>) = drv_inv EB EF ES s"
  by (simp add: drv_inv_def stream_inv_def)

lemma hipFileIo_spec:
  assumes inv: "drv_inv EB EF ES s" and fresh: "buf_heap s nb = None" and bs: "contract_list x bs"
    and io: "hipFileIo x nb type fh buf sz fo bo bs s = Some (r, t)"
  shows "r = Terminate \<or> (\<exists>n. r = Ret n) \<and> drv_inv EB EF ES t"
proof -
  obtain r1 u where u: "DriverState_getFileAndBuffer x nb fh buf s = (r1, u)" by fastforce
  note g = DriverState_getFileAndBuffer_inv [OF inv fresh u]
  note un = io [unfolded hipFileIo_def ocatch_def obind_def olift_def u]
  show ?thesis
  proof (cases r1)
    case (Exn e)
    from hipFileIo_catch_Ret [of x e u] obtain n w where "hipFileIo_catch x e u = (Ret n, u\<lparr>world := w\<rparr>)"
      by blast
    with un Exn g show ?thesis by auto
  next
    case (Ret fb)
    let ?EB = "EB(snd fb := Suc (EB (snd fb)))" and ?EF = "EF(fst fb := Suc (EF (fst fb)))"
    from g Ret have i1: "drv_inv ?EB ?EF ES u" and reg: "file_lookup s fh = Some (fst fb)" by auto
    obtain r2 v where v: "hipFileIo_run type sz fo bo bs fb u = Some (r2, v)"
      using un Ret by (auto simp: oscope_def split: option.splits)
    note fr = hipFileIo_run_frame [OF bs v]
    note kp = io_frame_keeps [OF fr]
    have i2: "drv_inv ?EB ?EF ES v" using kp(1) i1 by blast
    have reg': "file_lookup v fh = Some (fst fb)"
      using kp reg getFileAndBuffer_from_fh [OF u] by (simp add: file_lookup_def)
    have pos: "0 < ?EB (snd fb)" "0 < ?EF (fst fb)" by simp_all
    obtain w where w: "file_buffer_pair_dtor x fb v = (Ret (), w)"
      and i3: "drv_inv (?EB(snd fb := ?EB (snd fb) - 1)) (?EF(fst fb := ?EF (fst fb) - 1)) ES w"
      by (rule pair_dtor_registered [OF i2 pos reg'])
    have eq: "?EB(snd fb := ?EB (snd fb) - 1) = EB" "?EF(fst fb := ?EF (fst fb) - 1) = EF" by auto
    show ?thesis
    proof (cases r2)
      case (Ret n)
      with un \<open>r1 = Ret fb\<close> v w i3 [unfolded eq] show ?thesis by (auto simp: oscope_def)
    next
      case (Exn e)
      from hipFileIo_catch_Ret [of x e w] obtain n w' where "hipFileIo_catch x e w = (Ret n, w\<lparr>world := w'\<rparr>)"
        by blast
      with un \<open>r1 = Ret fb\<close> v w Exn i3 [unfolded eq] show ?thesis by (auto simp: oscope_def)
    next
      case Terminate
      with un \<open>r1 = Ret fb\<close> v show ?thesis by (auto simp: oscope_def)
    qed
  qed (use g in simp)
qed

section \<open>Registering and deregistering files\<close>

lemma world_dtor_UnregisteredFile: "world_dtor (UnregisteredFile_dtor x uf)"
  by (simp add: UnregisteredFile_dtor_def world_dtor_bind world_dtor_FileDescriptor
      optional_dtor_def world_dtor_ret split: option.split)

lemma register_unregistered_spec:
  assumes inv: "drv_inv EB EF ES s" and na: "file_heap s na = None" "na \<noteq> nullptr"
    and op: "register_unregistered x na uf s = (r, t)"
  shows "r = Terminate \<or> drv_inv EB EF ES t \<and> 0 < ref_count t \<and>
    (if map_of (from_fd s) (FileDescriptor_get (uf_client_fd uf)) = None
     then r = Ret na \<and> file_lookup t = (file_lookup s)(na \<mapsto> na)
     else r = Exn FileAlreadyRegistered \<and> file_lookup t = file_lookup s)"
proof -
  obtain r1 u where u: "DriverState_registerFile na uf s = (r1, u)" by fastforce
  note reg = DriverState_registerFile_inv [OF inv na u]
  let ?d = "UnregisteredFile_dtor x (case r1 of Ret _ \<Rightarrow> UnregisteredFile_moved uf | _ \<Rightarrow> uf)"
  from world_dtor_UnregisteredFile show ?thesis
    by (rule world_dtorE [of ?d u])
       (use op u reg in \<open>auto simp: register_unregistered_def cscope_def cret_def cthrow_def
          split: if_splits\<close>)
qed

lemma hipFileHandleRegister_spec:
  assumes inv: "drv_inv EB EF ES s" and na: "file_heap s na = None" "na \<noteq> nullptr"
    and op: "hipFileHandleRegister x na fhp descr s = (Ret (e, h), t)"
  shows "drv_inv EB EF ES t \<and>
    (h = None \<and> file_lookup t = file_lookup s \<or>
     h = Some na \<and> e = hipFile_status hipFileSuccess \<and> 0 < ref_count t \<and>
       file_lookup s na = None \<and> file_lookup t = (file_lookup s)(na \<mapsto> na))"
proof -
  consider (bad) "fhp = nullptr \<or> descr = None"
    | (fd) d where "fhp \<noteq> nullptr" "descr = Some d" "descr_type d = hipFileHandleTypeOpaqueFD"
    | (other) d where "fhp \<noteq> nullptr" "descr = Some d" "descr_type d \<noteq> hipFileHandleTypeOpaqueFD"
    by (cases descr) auto
  then show ?thesis
  proof cases
    case bad
    with op inv show ?thesis by (auto simp: hipFileHandleRegister_def ccatch_def cret_def)
  next
    case other
    with op inv show ?thesis
      by (cases "descr_type d") (auto simp: hipFileHandleRegister_def ccatch_def cret_def)
  next
    case fd
    note un = op [unfolded hipFileHandleRegister_def ccatch_def cbind_def]
    from world_only_UnregisteredFile_ctor [of x "descr_fd d"] show ?thesis
    proof (cases rule: world_onlyE [where s = s])
      case (exn ex w)
      with un fd inv show ?thesis by (auto simp: cret_def)
    next
      case (ret uf w)
      let ?s = "s\<lparr>world := w\<rparr>"
      obtain r1 u where u: "register_unregistered x na uf ?s = (r1, u)" by fastforce
      have none: "file_lookup s na = None"
        using file_inv_fresh [OF drv_inv_parts(2) [OF inv] na(1)] by simp
      from register_unregistered_spec [OF _ _ na(2) u, of EB EF ES] inv na
      consider "r1 = Terminate"
        | "r1 = Ret na" "drv_inv EB EF ES u" "0 < ref_count u" "file_lookup u = (file_lookup s)(na \<mapsto> na)"
        | ex where "r1 = Exn ex" "drv_inv EB EF ES u" "file_lookup u = file_lookup s"
        by (auto split: if_splits)
      then show ?thesis
        using un fd ret u none by cases (auto simp: cret_def)
    qed
  qed
qed

lemma hipFileHandleDeregister_spec:
  assumes inv: "drv_inv EB EF ES s" and op: "hipFileHandleDeregister x fh s = (r, t)"
    and "r \<noteq> Terminate"
  shows "r = Ret () \<and> drv_inv EB EF ES t \<and>
    file_lookup t =
      (case file_lookup s fh of
         None \<Rightarrow> file_lookup s
       | Some p \<Rightarrow> if ref_count s = 0 \<or> 0 < EF p then file_lookup s else (file_lookup s)(fh := None))"
proof (cases "fh = nullptr")
  case True
  have "file_lookup s nullptr = None"
    using file_inv_fh [OF drv_inv_parts(2) [OF inv]] by (metis option.exhaust)
  with True op inv show ?thesis
    by (auto simp: hipFileHandleDeregister_def ccatch_def cret_def)
next
  case False
  obtain r1 u where u: "DriverState_deregisterFile x fh s = (r1, u)" by fastforce
  have "r1 \<noteq> Terminate"
    using op u assms(3) False by (auto simp: hipFileHandleDeregister_def ccatch_def)
  from DriverState_deregisterFile_inv [OF inv u this] False op u assms(3) show ?thesis
    by (auto simp: hipFileHandleDeregister_def ccatch_def cret_def split: option.splits if_splits)
qed

section \<open>Results of the synchronous functions\<close>

lemma hipFileRead_closed:
  assumes "ref_count s = 0"
  shows "hipFileRead x nb fh buf sz fo bo s = Some (Ret (-1), s\<lparr>world := c_set_errno x EINVAL (world s)\<rparr>)"
    and "hipFileWrite x nb fh buf sz fo bo s = Some (Ret (-1), s\<lparr>world := c_set_errno x EINVAL (world s)\<rparr>)"
  using assms
  by (simp_all add: hipFileRead_def hipFileWrite_def hipFileIo_def DriverState_getFileAndBuffer_def
      ocxx_defs cxx_defs hipFileIo_catch_def match_cufile_def set_errno_def HIPFILE_BASE_ERR_def)

lemma op_error_code_nonneg: "0 \<le> op_error_code e"
  by (cases e) (simp_all add: HIPFILE_BASE_ERR_def)

lemma hipFileIo_catch_neg:
  assumes "\<forall>h. 0 \<le> hip_code x h" and "hipFileIo_catch x ex s = (Ret n, t)"
  shows "n \<le> 0"
  using assms op_error_code_nonneg
  by (cases ex) (auto simp: hipFileIo_catch_def cxx_defs set_errno_def HIPFILE_BASE_ERR_def)

text \<open>A positive result is the number of bytes that the chosen backend transferred.\<close>

lemma hipFileIo_positive:
  assumes hc: "\<forall>h. 0 \<le> hip_code x h" and "0 < n"
    and io: "hipFileIo x nb type fh buf sz fo bo bs s = Some (Ret n, t)"
  obtains fb u f b be v where
    "DriverState_getFileAndBuffer x nb fh buf s = (Ret fb, u)"
    "sp_obj (fst fb) (file_heap u) = Some f" "sp_obj (snd fb) (buf_heap u) = Some b"
    "select_backend (\<lambda>be. be_score be f b sz fo bo u) (-1) None bs = Some be"
    "be_io be type f b sz fo bo u = Some (Ret n, v)"
    "file_buffer_pair_dtor x fb v = (Ret (), t)"
proof -
  obtain r1 u where u: "DriverState_getFileAndBuffer x nb fh buf s = (r1, u)" by fastforce
  have nocatch: "\<not> hipFileIo_catch x ex w = (Ret n, t)" for ex w
    using hipFileIo_catch_neg [OF hc, of ex w n t] assms(2) by auto
  note un = io [unfolded hipFileIo_def ocatch_def obind_def olift_def u]
  obtain fb where fb: "r1 = Ret fb" using un nocatch by (cases r1) auto
  obtain r2 v where v: "hipFileIo_run type sz fo bo bs fb u = Some (r2, v)"
    using un fb by (auto simp: oscope_def split: option.splits)
  obtain r3 w where w: "file_buffer_pair_dtor x fb v = (r3, w)" by fastforce
  have r: "r2 = Ret n" "r3 = Ret ()" "w = t"
    using un fb v w nocatch by (auto simp: oscope_def split: outcome.splits)
  obtain f where f: "sp_obj (fst fb) (file_heap u) = Some f"
    using v r by (cases "sp_obj (fst fb) (file_heap u)") (auto simp: hipFileIo_run_def)
  obtain b where b: "sp_obj (snd fb) (buf_heap u) = Some b"
    using v r by (cases "sp_obj (snd fb) (buf_heap u)") (auto simp: hipFileIo_run_def split: option.splits)
  obtain be where be: "select_backend (\<lambda>be. be_score be f b sz fo bo u) (-1) None bs = Some be"
    using v r f b by (auto simp: hipFileIo_run_def split: option.splits)
  show thesis
    using that [of fb u f b be v] u fb f b be v r w by (auto simp: hipFileIo_run_def)
qed

end
