(* ===== verification/Fallback_Bytes.thy ===== *)
theory Fallback_Bytes
  imports Fastpath
begin

text \<open>
  What an IO of the fallback backend does to bytes. Memory and file contents are views of the
  world; the documented behaviour of \<^verbatim>\<open>pread\<close>, \<^verbatim>\<open>pwrite\<close>, \<^verbatim>\<open>mmap\<close>, \<^verbatim>\<open>munmap\<close>, \<^verbatim>\<open>fdatasync\<close>,
  \<^verbatim>\<open>hipMemcpy\<close> and \<^verbatim>\<open>hipStreamSynchronize\<close> is stated over these views, as predicates that the
  theorems take as hypotheses. A read puts exactly the bytes of the file into the device buffer and
  is short only at the end of the file; a write puts exactly the bytes of the buffer into the file;
  both return when system calls are interrupted finitely often.
\<close>

section \<open>Regions of memory\<close>

definition region :: "ptr \<Rightarrow> nat \<Rightarrow> ptr set" where
  "region p n = (\<lambda>i. p + of_nat i) ` {..<n}"

lemma region_mem [intro]: "i < n \<Longrightarrow> p + of_nat i \<in> region p n"
  by (auto simp: region_def)

lemma region_offset_subset: "k + m \<le> n \<Longrightarrow> region (p + of_nat k) m \<subseteq> region p n"
proof
  fix a
  assume "k + m \<le> n" and "a \<in> region (p + of_nat k) m"
  then obtain i where "i < m" "a = p + of_nat (k + i)"
    by (auto simp: region_def add.assoc)
  then show "a \<in> region p n"
    using \<open>k + m \<le> n\<close> region_mem [of "k + i" n p] by simp
qed

lemma region_mono: "m \<le> n \<Longrightarrow> region p m \<subseteq> region p n"
  by (auto simp: region_def)

lemma region_split: "region p (n + m) = region p n \<union> region (p + of_nat n) m"
proof
  show "region p (n + m) \<subseteq> region p n \<union> region (p + of_nat n) m"
  proof
    fix a
    assume "a \<in> region p (n + m)"
    then obtain i where i: "i < n + m" "a = p + of_nat i" by (auto simp: region_def)
    show "a \<in> region p n \<union> region (p + of_nat n) m"
    proof (cases "i < n")
      case False
      then have "a = p + of_nat n + of_nat (i - n)" "i - n < m"
        using i by (simp_all add: of_nat_diff)
      then show ?thesis by (auto simp: region_def)
    qed (use i in auto)
  qed
  show "region p n \<union> region (p + of_nat n) m \<subseteq> region p (n + m)"
    using region_mono [of n "n + m" p] region_offset_subset [of n m "n + m" p] by simp
qed

lemma before_region:
  assumes "i < n" and "n + r \<le> 2 ^ 64"
  shows "p + of_nat i \<notin> region (p + of_nat n) r"
proof
  assume "p + of_nat i \<in> region (p + of_nat n) r"
  then obtain j where j: "j < r" "p + of_nat i = p + of_nat n + of_nat j" by (auto simp: region_def)
  then have "(of_nat i :: ptr) = of_nat (n + j)" by (simp add: add.assoc)
  then have "unat (of_nat i :: ptr) = unat (of_nat (n + j) :: ptr)" by (simp only:)
  then have "i mod 2 ^ 64 = (n + j) mod 2 ^ 64" unfolding unat_of_nat by simp
  with assms j show False by simp
qed

section \<open>Documented behaviour of the external calls\<close>

text \<open>
  Views of the world: memory, the contents of the file behind a descriptor, and the addresses
  that are mapped. The last field translates addresses of the device: a GPU thread that accesses an address
  finds the byte that \<open>v_mem\<close> knows under the translated one. Pinned memory of the host has
  an address for the host and another, which may differ, for the device.
\<close>

record 'w view =
  v_mem :: "'w \<Rightarrow> ptr \<Rightarrow> byte"
  v_file :: "'w \<Rightarrow> int \<Rightarrow> byte list"
  v_live :: "'w \<Rightarrow> ptr set"
  v_dev :: "ptr \<Rightarrow> ptr"

definition documented_pread :: "'w ext \<Rightarrow> 'w view \<Rightarrow> bool" where
  "documented_pread x v \<longleftrightarrow>
     (\<forall>fd p n off w r w'. c_pread x fd p n off w = (r, w') \<and> 0 \<le> sint off \<longrightarrow>
        v_file v w' = v_file v w \<and> length (v_file v w fd) < 2 ^ 63 \<and>
        (\<forall>a. a \<notin> region p (unat n) \<longrightarrow> v_mem v w' a = v_mem v w a) \<and>
        (r = -1 \<or>
         0 \<le> r \<and> nat r \<le> unat n \<and>
         (\<forall>i < nat r. v_mem v w' (p + of_nat i) = v_file v w fd ! (nat (sint off) + i)) \<and>
         (0 < r \<longrightarrow> nat (sint off) + nat r \<le> length (v_file v w fd)) \<and>
         (r = 0 \<and> 0 < unat n \<longrightarrow> length (v_file v w fd) \<le> nat (sint off))))"

definition documented_memcpy :: "'w ext \<Rightarrow> 'w view \<Rightarrow> bool" where
  "documented_memcpy x v \<longleftrightarrow>
     (\<forall>dst src n k w e w'. hip_Memcpy x dst src n k w = (e, w') \<longrightarrow>
        v_file v w' = v_file v w \<and>
        (\<forall>a. a \<notin> region dst (unat n) \<longrightarrow> v_mem v w' a = v_mem v w a) \<and>
        (e = hipSuccess \<and> region dst (unat n) \<inter> region src (unat n) = {} \<longrightarrow>
           (\<forall>i < unat n. v_mem v w' (dst + of_nat i) = v_mem v w (src + of_nat i))))"

definition documented_mmap :: "'w ext \<Rightarrow> 'w view \<Rightarrow> bool" where
  "documented_mmap x v \<longleftrightarrow>
     (\<forall>n prot fd off w p w'. c_mmap x nullptr n prot MAP_PRIVATE_ANONYMOUS fd off w = (p, w') \<longrightarrow>
        v_file v w' = v_file v w \<and> (\<forall>a \<in> v_live v w. v_mem v w' a = v_mem v w a) \<and>
        (p \<noteq> -1 \<longrightarrow> region p (unat n) \<inter> v_live v w = {}))"

definition documented_munmap :: "'w ext \<Rightarrow> 'w view \<Rightarrow> bool" where
  "documented_munmap x v \<longleftrightarrow>
     (\<forall>p n w r w'. c_munmap x p n w = (r, w') \<longrightarrow>
        v_file v w' = v_file v w \<and> (\<forall>a. a \<notin> region p (unat n) \<longrightarrow> v_mem v w' a = v_mem v w a))"

text \<open>Writing bytes at an offset; a gap before the offset is filled with zeros.\<close>

definition write_at :: "byte list \<Rightarrow> nat \<Rightarrow> byte list \<Rightarrow> byte list" where
  "write_at c off bs =
     (if bs = [] then c else take off (c @ replicate (off - length c) 0) @ bs @ drop (off + length bs) c)"

definition documented_pwrite :: "'w ext \<Rightarrow> 'w view \<Rightarrow> bool" where
  "documented_pwrite x v \<longleftrightarrow>
     (\<forall>fd p n off w r w'. c_pwrite x fd p n off w = (r, w') \<and> 0 \<le> sint off \<longrightarrow>
        v_mem v w' = v_mem v w \<and>
        (r = -1 \<and> v_file v w' fd = v_file v w fd \<or>
         0 \<le> r \<and> nat r \<le> unat n \<and> nat (sint off) + nat r < 2 ^ 63 \<and>
         v_file v w' fd =
           write_at (v_file v w fd) (nat (sint off)) (map (\<lambda>i. v_mem v w (p + of_nat i)) [0..<nat r])))"

definition documented_syncs :: "'w ext \<Rightarrow> 'w view \<Rightarrow> bool" where
  "documented_syncs x v \<longleftrightarrow>
     (\<forall>fd w r w'. c_fdatasync x fd w = (r, w') \<longrightarrow> v_mem v w' = v_mem v w \<and> v_file v w' = v_file v w) \<and>
     (\<forall>st w e w'. hip_StreamSynchronize x st w = (e, w') \<longrightarrow>
        v_mem v w' = v_mem v w \<and> v_file v w' = v_file v w)"

section \<open>Machine arithmetic of the loop\<close>

lemma sint_add_nat:
  fixes fo :: "64 word"
  assumes "0 \<le> sint fo" and "sint fo + int n < 2 ^ 63"
  shows "sint (fo + of_nat n) = sint fo + int n"
proof -
  have "int (unat fo + n) < int (2 ^ 63)"
    using assms(2) unfolding sint_nonneg_unat [OF assms(1)] by (simp only: of_nat_add of_nat_power of_nat_numeral)
  then have lt: "unat fo + n < 2 ^ 63" by (simp only: of_nat_less_iff)
  then have u: "unat (fo + of_nat n) = unat fo + n"
    by (simp add: unat_word_ariths unat_of_nat)
  have "bit (fo + of_nat n) 63 = bit (unat (fo + of_nat n)) 63"
    by (simp only: bit_unsigned_iff) simp
  also have "\<dots> = False"
    unfolding u using lt by (simp add: bit_iff_odd)
  finally have "\<not> bit (fo + of_nat n) 63" by simp
  then have "sint (fo + of_nat n) = int (unat (fo + of_nat n))"
    by (simp add: sint_unfold)
  then show ?thesis
    using u sint_nonneg_unat [OF assms(1)] by simp
qed

lemma unat_less_64: "unat (w :: 64 word) < 2 ^ 64"
  using unsigned_less [of w] by simp

lemma chunk_count:
  fixes ch sz :: "64 word"
  assumes "n \<le> unat sz"
  shows "unat (min ch (sz - of_nat n)) = min (unat ch) (unat sz - n)"
proof -
  have "unat (of_nat n :: 64 word) = n"
    using assms unat_less_64 [of sz] by (simp add: unat_of_nat)
  then have "unat (sz - of_nat n) = unat sz - n"
    using assms by (simp add: unat_sub word_le_nat_alt)
  then show ?thesis
    by (simp add: min_def word_le_nat_alt)
qed

lemma word_int_nat: "0 \<le> n \<Longrightarrow> (word_of_int n :: 64 word) = of_nat (nat n)"
  by simp

lemma while_test_iff:
  fixes sz :: "64 word"
  assumes "n < 2 ^ 64"
  shows "(of_nat n :: 64 word) < sz \<longleftrightarrow> n < unat sz"
  using assms by (simp add: word_less_nat_alt unat_of_nat)

lemma unat_of_int_le:
  assumes "0 \<le> r" and "nat r \<le> unat (c :: 64 word)"
  shows "unat (word_of_int r :: 64 word) = nat r"
proof -
  have "nat r < 2 ^ 64" using assms(2) unat_less_64 [of c] by simp
  then show ?thesis
    unfolding word_int_nat [OF assms(1)] unat_of_nat by simp
qed

section \<open>Reading\<close>

lemma read_transfer_unfold:
  assumes "c_pread x (File_bufferedFd f) p cnt off (world s) = (r, w1)"
  shows "Fallback_transfer x IoRead f p d cnt off s =
    (if r = -1 then (Exn (Std_system_error (c_errno x w1)), s\<lparr>world := w1\<rparr>)
     else if r > 0 then
       (case hip_Memcpy x d p (word_of_int r) hipMemcpyHostToDevice w1 of
          (e, w2) \<Rightarrow> (if e = hipSuccess then Ret r else Exn (Hip_RuntimeError e), s\<lparr>world := w2\<rparr>))
     else (Ret r, s\<lparr>world := w1\<rparr>))"
  using assms
  by (auto simp: Fallback_transfer_def Sys_pread_def hipMemcpy_def hip_call0_def throwOnHipError_def
      cbind_def call_ext_def throwOn_def cwhen_def cret_def cthrow_def split: prod.splits)

lemma read_transfer:
  assumes pr: "documented_pread x v" and mc: "documented_memcpy x v"
    and off: "0 \<le> sint off" and disj: "region d (unat cnt) \<inter> region p (unat cnt) = {}"
    and tr: "Fallback_transfer x IoRead f p d cnt off s = (Ret r, t)"
  shows "0 \<le> r" and "nat r \<le> unat cnt" and "v_file v (world t) = v_file v (world s)"
    and "\<forall>i < nat r. v_mem v (world t) (d + of_nat i) =
           v_file v (world s) (File_bufferedFd f) ! (nat (sint off) + i)"
    and "0 < r \<longrightarrow> nat (sint off) + nat r \<le> length (v_file v (world s) (File_bufferedFd f))"
    and "r = 0 \<and> 0 < unat cnt \<longrightarrow> length (v_file v (world s) (File_bufferedFd f)) \<le> nat (sint off)"
    and "\<forall>a. a \<notin> region p (unat cnt) \<union> region d (nat r) \<longrightarrow>
           v_mem v (world t) a = v_mem v (world s) a"
proof -
  obtain r' w1 where c: "c_pread x (File_bufferedFd f) p cnt off (world s) = (r', w1)" by fastforce
  note un = read_transfer_unfold [OF c, of d]
  have r': "r' = r" "r' \<noteq> -1"
    using tr un by (auto split: if_splits prod.splits)
  note pread = pr [unfolded documented_pread_def, rule_format, OF conjI [OF c off]]
  show r: "0 \<le> r" and le: "nat r \<le> unat cnt"
    and "0 < r \<longrightarrow> nat (sint off) + nat r \<le> length (v_file v (world s) (File_bufferedFd f))"
    and "r = 0 \<and> 0 < unat cnt \<longrightarrow> length (v_file v (world s) (File_bufferedFd f)) \<le> nat (sint off)"
    using pread r' by auto
  have file1: "v_file v w1 = v_file v (world s)"
    and mem1: "\<And>a. a \<notin> region p (unat cnt) \<Longrightarrow> v_mem v w1 a = v_mem v (world s) a"
    and bytes1: "\<And>i. i < nat r \<Longrightarrow> v_mem v w1 (p + of_nat i) =
        v_file v (world s) (File_bufferedFd f) ! (nat (sint off) + i)"
    using pread r' by auto
  have "v_file v (world t) = v_file v (world s) \<and>
    (\<forall>i < nat r. v_mem v (world t) (d + of_nat i) =
       v_file v (world s) (File_bufferedFd f) ! (nat (sint off) + i)) \<and>
    (\<forall>a. a \<notin> region p (unat cnt) \<union> region d (nat r) \<longrightarrow>
       v_mem v (world t) a = v_mem v (world s) a)"
  proof (cases "r = 0")
    case True
    with tr un r' file1 mem1 show ?thesis by auto
  next
    case False
    obtain e w2 where m: "hip_Memcpy x d p (word_of_int r) hipMemcpyHostToDevice w1 = (e, w2)" by fastforce
    have t: "t = s\<lparr>world := w2\<rparr>" "e = hipSuccess"
      using tr un r' r False m by (auto split: if_splits)
    note memcpy = mc [unfolded documented_memcpy_def, rule_format, OF m, unfolded unat_of_int_le [OF r le]]
    have "region d (nat r) \<inter> region p (nat r) = {}"
      using disj region_mono [OF le, of d] region_mono [OF le, of p] by blast
    with memcpy t file1 bytes1 mem1 show ?thesis by auto
  qed
  then show "v_file v (world t) = v_file v (world s)"
    and "\<forall>i < nat r. v_mem v (world t) (d + of_nat i) =
           v_file v (world s) (File_bufferedFd f) ! (nat (sint off) + i)"
    and "\<forall>a. a \<notin> region p (unat cnt) \<union> region d (nat r) \<longrightarrow>
           v_mem v (world t) a = v_mem v (world s) a"
    by blast+
qed

lemma read_transfer_interrupted:
  assumes pr: "documented_pread x v" and off: "0 \<le> sint off"
    and tr: "Fallback_transfer x IoRead f p d cnt off s = (Exn (Std_system_error c), t)"
  shows "v_file v (world t) = v_file v (world s)"
    and "\<forall>a. a \<notin> region p (unat cnt) \<longrightarrow> v_mem v (world t) a = v_mem v (world s) a"
proof -
  obtain r' w1 where c: "c_pread x (File_bufferedFd f) p cnt off (world s) = (r', w1)" by fastforce
  have "t = s\<lparr>world := w1\<rparr>"
    using tr read_transfer_unfold [OF c, of d] by (auto split: if_splits prod.splits)
  with pr [unfolded documented_pread_def, rule_format, OF conjI [OF c off]]
  show "v_file v (world t) = v_file v (world s)"
    and "\<forall>a. a \<notin> region p (unat cnt) \<longrightarrow> v_mem v (world t) a = v_mem v (world s) a"
    by auto
qed

text \<open>
  The state of a read after \<open>n\<close> bytes: they are in the buffer, nothing else of the mapped memory
  has changed, and the file has them all.
\<close>

definition read_inv ::
  "'w view \<Rightarrow> ptr set \<Rightarrow> 'w \<Rightarrow> int \<Rightarrow> ptr \<Rightarrow> nat \<Rightarrow> nat \<Rightarrow> 'w \<Rightarrow> bool" where
  "read_inv v L w0 fd pos off n w \<longleftrightarrow>
     v_file v w = v_file v w0 \<and>
     (\<forall>i < n. v_mem v w (pos + of_nat i) = v_file v w0 fd ! (off + i)) \<and>
     (0 < n \<longrightarrow> off + n \<le> length (v_file v w0 fd)) \<and>
     (\<forall>a \<in> L. a \<notin> region pos n \<longrightarrow> v_mem v w a = v_mem v w0 a)"

lemma file_length_bound: "documented_pread x v \<Longrightarrow> length (v_file v w fd) < 2 ^ 63"
  unfolding documented_pread_def by (metis order_refl prod.collapse signed_0)

lemma read_inv_extend:
  assumes inv: "read_inv v L w0 fd pos off n w" and sub: "region pos (n + m) \<subseteq> L"
    and bnd: "n + m \<le> 2 ^ 64" and B: "B \<inter> L = {}"
    and "v_file v w' = v_file v w"
    and bytes: "\<forall>i < m. v_mem v w' (pos + of_nat n + of_nat i) = v_file v w fd ! (off + n + i)"
    and len: "0 < m \<longrightarrow> off + n + m \<le> length (v_file v w fd)"
    and keep: "\<forall>a. a \<notin> B \<union> region (pos + of_nat n) m \<longrightarrow> v_mem v w' a = v_mem v w a"
  shows "read_inv v L w0 fd pos off (n + m) w'"
proof -
  have "v_mem v w' (pos + of_nat i) = v_file v w0 fd ! (off + i)" if "i < n + m" for i
  proof (cases "i < n")
    case True
    have "pos + of_nat i \<in> L" using sub region_mem [OF that, of pos] by blast
    with B before_region [OF True bnd, of pos] keep True inv show ?thesis
      by (auto simp: read_inv_def)
  next
    case False
    then obtain k where "i = n + k" "k < m" using \<open>i < n + m\<close> by (metis add_less_cancel_left le_Suc_ex not_less)
    with bytes inv show ?thesis by (simp add: read_inv_def add.assoc)
  qed
  moreover have "v_mem v w' a = v_mem v w0 a" if "a \<in> L" "a \<notin> region pos (n + m)" for a
    using that keep inv B by (auto simp: read_inv_def region_split)
  ultimately show ?thesis
    using inv len assms(5) by (auto simp: read_inv_def)
qed

lemma read_inv_frame:
  assumes "read_inv v L w0 fd pos off n w" and "B \<inter> L = {}" and "v_file v w' = v_file v w"
    and "\<forall>a. a \<notin> B \<longrightarrow> v_mem v w' a = v_mem v w a" and "region pos n \<subseteq> L"
    and "n \<le> 2 ^ 64"
  shows "read_inv v L w0 fd pos off n w'"
  using read_inv_extend [of v L w0 fd pos off n w 0 B w'] assms
  by (auto simp: read_inv_def)

lemma read_round:
  fixes b :: Buffer and bo :: hoff_t
  defines "pos \<equiv> Buffer_getBuffer b + bo"
  assumes pr: "documented_pread x v" and mc: "documented_memcpy x v" and fo: "0 \<le> sint fo"
    and sub: "region pos (unat sz) \<subseteq> L" and B: "region p (unat ch) \<inter> L = {}" and ch: "0 < unat ch"
    and n: "0 \<le> n" "nat n \<le> unat sz"
    and inv: "read_inv v L w0 (File_bufferedFd f) pos (nat (sint fo)) (nat n) (world s)"
    and rnd: "Fallback_round x IoRead f b sz fo bo ch p n s = (Ret q, t)"
  shows "\<exists>m. (q = Inl m \<or>
              q = Inr m \<and> (nat m < unat sz \<longrightarrow>
                length (v_file v w0 (File_bufferedFd f)) \<le> nat (sint fo) + nat m)) \<and>
             0 \<le> m \<and> nat m \<le> unat sz \<and>
             read_inv v L w0 (File_bufferedFd f) pos (nat (sint fo)) (nat m) (world t)"
proof -
  let ?fd = "File_bufferedFd f" and ?off = "fo + of_nat (nat n)" and ?d = "pos + of_nat (nat n)"
  let ?cnt = "min ch (sz - of_nat (nat n))"
  note file_len = file_length_bound [OF pr, of w0 ?fd]
  have cnt: "unat ?cnt = min (unat ch) (unat sz - nat n)" by (rule chunk_count [OF n(2)])
  have "sint ?off = sint fo + int (nat n)"
  proof (cases "nat n = 0")
    case False
    then have "nat (sint fo) + nat n \<le> length (v_file v w0 ?fd)"
      using inv by (simp add: read_inv_def)
    then show ?thesis using file_len fo by (intro sint_add_nat) auto
  qed simp
  then have off: "0 \<le> sint ?off" "nat (sint ?off) = nat (sint fo) + nat n"
    using fo n by (simp_all add: nat_add_distrib)
  have le64: "unat sz \<le> 2 ^ 64" using unat_less_64 [of sz] by simp
  have B': "region p (unat ?cnt) \<inter> L = {}"
    using B region_mono [of "unat ?cnt" "unat ch" p] cnt by auto
  have dL: "region ?d (unat ?cnt) \<subseteq> L"
  proof -
    have "nat n + unat ?cnt \<le> unat sz" unfolding cnt using n(2) by simp
    from region_offset_subset [OF this, of pos] sub show ?thesis by blast
  qed
  then have disj: "region ?d (unat ?cnt) \<inter> region p (unat ?cnt) = {}" using B' by blast
  obtain res u where tr: "Fallback_transfer x IoRead f p ?d ?cnt ?off s = (res, u)" by fastforce
  have test: "(word_of_int m :: size_t) < sz \<longleftrightarrow> nat m < unat sz" if "0 \<le> m" "nat m \<le> unat sz" for m
    using unat_of_int_le [OF that] by (simp add: word_less_nat_alt)
  note rnd' = rnd [unfolded Fallback_round_def Let_def pos_def [symmetric] word_int_nat [OF n(1)] tr]
  show ?thesis
  proof (cases res)
    case (Ret r)
    note tr' = read_transfer [OF pr mc off(1) disj tr [unfolded Ret]]
    let ?m = "n + r"
    have "nat n + nat r \<le> unat sz" using tr'(2) n(2) unfolding cnt by linarith
    then have m: "0 \<le> ?m" "nat ?m = nat n + nat r" "nat ?m \<le> unat sz"
      using tr'(1) n(1) by (simp_all add: nat_add_distrib)
    have "read_inv v L w0 ?fd pos (nat (sint fo)) (nat n + nat r) (world u)"
    proof (rule read_inv_extend [OF inv _ _ B'])
      show "region pos (nat n + nat r) \<subseteq> L" using sub region_mono [of "nat n + nat r" "unat sz" pos] m by auto
      show "nat n + nat r \<le> 2 ^ 64" using m le64 by simp
    qed (use tr' off in \<open>simp_all add: add.assoc\<close>)
    then have inv': "read_inv v L w0 ?fd pos (nat (sint fo)) (nat ?m) (world u)" by (simp add: m(2))
    have eof: "length (v_file v w0 ?fd) \<le> nat (sint fo) + nat ?m" if "r = 0" "nat ?m < unat sz"
    proof -
      have "0 < unat ?cnt" using cnt ch that by simp
      then show ?thesis using tr'(6) that(1) off(2) inv by (simp add: read_inv_def)
    qed
    show ?thesis
      using rnd' Ret m inv' eof test [OF m(1,3)] by (auto split: if_splits)
  next
    case (Exn e)
    with rnd' have e: "e = Std_system_error EINTR" "t = u" "q = Inl n \<or> q = Inr n \<and> \<not> nat n < unat sz"
      using test [OF n] n(1) by (auto split: if_splits)
    have "region pos (nat n) \<subseteq> L" using sub region_mono [of "nat n" "unat sz" pos] n by auto
    from read_inv_frame [OF inv B' _ _ this] n(2) le64
      read_transfer_interrupted [OF pr off(1) tr [unfolded Exn e(1)]]
    have "read_inv v L w0 ?fd pos (nat (sint fo)) (nat n) (world u)" by auto
    with e n show ?thesis by auto
  qed (use rnd' in simp)
qed

lemma Fallback_loop_read:
  fixes b :: Buffer and bo :: hoff_t
  defines "pos \<equiv> Buffer_getBuffer b + bo"
  assumes pr: "documented_pread x v" and mc: "documented_memcpy x v" and fo: "0 \<le> sint fo"
    and sub: "region pos (unat sz) \<subseteq> L" and B: "region p (unat ch) \<inter> L = {}" and ch: "0 < unat ch"
    and loop: "Fallback_loop x IoRead f b sz fo bo ch p 0 s = Some (Ret m, t)"
  shows "0 \<le> m \<and> nat m \<le> unat sz \<and>
    read_inv v L (world s) (File_bufferedFd f) pos (nat (sint fo)) (nat m) (world t) \<and>
    (nat m < unat sz \<longrightarrow>
       length (v_file v (world s) (File_bufferedFd f)) \<le> nat (sint fo) + nat m)"
proof -
  let ?I = "\<lambda>n u. 0 \<le> n \<and> nat n \<le> unat sz \<and>
    read_inv v L (world s) (File_bufferedFd f) pos (nat (sint fo)) (nat n) (world u)"
  let ?Q = "\<lambda>r u. \<forall>n. r = Ret n \<longrightarrow> ?I n u \<and> (nat n < unat sz \<longrightarrow>
       length (v_file v (world s) (File_bufferedFd f)) \<le> nat (sint fo) + nat n)"
  note round = read_round [OF pr mc fo sub [unfolded pos_def] B ch, folded pos_def]
  have "?Q (Ret m) t"
  proof (rule oloop_inv [OF loop [unfolded Fallback_loop_def], where I = ?I])
    show "?I 0 s" by (simp add: read_inv_def)
  next
    fix n u n' u'
    assume "?I n u" "Fallback_round x IoRead f b sz fo bo ch p n u = (Ret (Inl n'), u')"
    with round [of n "world s" f u "Inl n'" u'] show "?I n' u'" by auto
  next
    fix n u n' u'
    assume "?I n u" "Fallback_round x IoRead f b sz fo bo ch p n u = (Ret (Inr n'), u')"
    with round [of n "world s" f u "Inr n'" u'] show "?Q (Ret n') u'" by auto
  qed simp_all
  then show ?thesis by blast
qed

section \<open>The whole call\<close>

text \<open>What a successful call goes through.\<close>

lemma Fallback_io_Ret:
  assumes "Fallback_io x type f b size0 fo bo s = Some (Ret n, t)"
  obtains p w1 u w3 where
    "Configuration_fallback x s" "c_sysconf_pagesize x \<noteq> -1"
    "paramsValid b (min size0 (max_rw_count x)) fo bo"
    "c_mmap x nullptr DefaultChunkSize PROT_READ_WRITE MAP_PRIVATE_ANONYMOUS (-1) 0 (world s) = (p, w1)"
    "p \<noteq> -1"
    "Fallback_loop x type f b (min size0 (max_rw_count x)) fo bo DefaultChunkSize p 0
       (s\<lparr>world := w1\<rparr>) = Some (Ret n, u)"
    "world t = (if p = nullptr then world u else w3)"
    "p \<noteq> nullptr \<longrightarrow> (\<exists>r. c_munmap x p DefaultChunkSize (world u) = (r, w3))"
    "m_stats t = m_stats (snd (Fallback_count_io type n u))" "m_stats u = m_stats s"
proof -
  let ?sz = "min size0 (max_rw_count x)"
  note io = assms [unfolded Fallback_io_def Backend_io_def Fallback_io_chunked_def]
  have c: "Configuration_fallback x s" "c_sysconf_pagesize x \<noteq> -1" and pv: "paramsValid b ?sz fo bo"
    using io by (auto simp: obind_def olift_def getMaxRwCount_eq Let_def cthrow_def split: if_splits)
  obtain p w1 where m: "c_mmap x nullptr DefaultChunkSize PROT_READ_WRITE MAP_PRIVATE_ANONYMOUS (-1) 0
      (world s) = (p, w1)" by fastforce
  have p: "p \<noteq> -1" and body: "Fallback_body x type f b ?sz fo bo DefaultChunkSize p (s\<lparr>world := w1\<rparr>) =
      Some (Ret n, t)"
    using io c pv m
    by (auto simp: obind_def olift_def getMaxRwCount_eq Let_def Sys_mmap_def cbind_def call_ext_def
        throwOn_def split: if_splits)
  obtain n' u where l: "Fallback_loop x type f b ?sz fo bo DefaultChunkSize p 0 (s\<lparr>world := w1\<rparr>) =
      Some (Ret n', u)"
    using body by (auto simp: Fallback_body_def oscope_def obind_def
        split: option.splits outcome.splits prod.splits)
  obtain st where st: "Fallback_count_io type n' u = (Ret (), st)"
    by (simp add: Fallback_count_io_eq stats_add_def cmodify_def)
  have w: "world st = world u"
    using st by (auto simp: Fallback_count_io_eq stats_add_def cmodify_def split: option.splits if_splits)
  have sc: "oscope (\<lambda>_. Some (Ret n', st)) (cwhen (p \<noteq> nullptr) (Sys_munmap x p DefaultChunkSize)) s =
      Some (Ret n, t)"
    using body l st by (simp add: Fallback_body_def oscope_def obind_def olift_def cbind_def cret_def)
  obtain r w3 where mu: "c_munmap x p DefaultChunkSize (world st) = (r, w3)" by fastforce
  have t: "n' = n" "world t = (if p = nullptr then world u else w3)" "m_stats t = m_stats st"
    using sc mu w
    by (auto simp: oscope_def cwhen_def Sys_munmap_def cbind_def call_ext_def throwOn_def cret_def
        split: if_splits)
  have "m_stats u = m_stats s"
    using Fallback_loop_world [OF l] by auto
  with that [OF c pv m p] l t st w mu show thesis by auto
qed

lemma io_region_live:
  assumes pv: "paramsValid b sz fo bo" and live: "region (b_buffer b) (unat (b_length b)) \<subseteq> L"
  shows "region (b_buffer b + bo) (unat sz) \<subseteq> L"
  using region_offset_subset [of "unat bo" "unat sz" "unat (b_length b)" "b_buffer b"] live
    pv [unfolded paramsValid_iff]
  by auto

lemma Fallback_io_read_bytes:
  assumes pr: "documented_pread x v" and mc: "documented_memcpy x v"
    and mm: "documented_mmap x v" and mu: "documented_munmap x v"
    and live: "region (b_buffer b) (unat (b_length b)) \<subseteq> v_live v (world s)"
    and io: "Fallback_io x IoRead f b size0 fo bo s = Some (Ret n, t)"
  shows "0 \<le> n \<and> nat n \<le> unat (min size0 (max_rw_count x)) \<and>
    read_inv v (v_live v (world s)) (world s) (File_bufferedFd f) (b_buffer b + bo)
      (nat (sint fo)) (nat n) (world t) \<and>
    (nat n < unat (min size0 (max_rw_count x)) \<longrightarrow>
       length (v_file v (world s) (File_bufferedFd f)) \<le> nat (sint fo) + nat n)"
proof -
  let ?sz = "min size0 (max_rw_count x)" and ?L = "v_live v (world s)" and ?pos = "b_buffer b + bo"
  obtain p w1 u w3 where pv: "paramsValid b ?sz fo bo"
    and m: "c_mmap x nullptr DefaultChunkSize PROT_READ_WRITE MAP_PRIVATE_ANONYMOUS (-1) 0 (world s) = (p, w1)"
    and p: "p \<noteq> -1"
    and l: "Fallback_loop x IoRead f b ?sz fo bo DefaultChunkSize p 0 (s\<lparr>world := w1\<rparr>) = Some (Ret n, u)"
    and t: "world t = (if p = nullptr then world u else w3)"
    and d: "p \<noteq> nullptr \<longrightarrow> (\<exists>r. c_munmap x p DefaultChunkSize (world u) = (r, w3))"
    by (rule Fallback_io_Ret [OF io])
  note mmap = mm [unfolded documented_mmap_def, rule_format, OF m]
  note valid = pv [unfolded paramsValid_iff]
  have B: "region p (unat DefaultChunkSize) \<inter> ?L = {}" using mmap p by blast
  have sub: "region ?pos (unat ?sz) \<subseteq> ?L" by (rule io_region_live [OF pv live])
  have ch: "0 < unat DefaultChunkSize" by (simp add: DefaultChunkSize_def)
  have L: "0 \<le> n \<and> nat n \<le> unat ?sz \<and>
      read_inv v ?L w1 (File_bufferedFd f) ?pos (nat (sint fo)) (nat n) (world u) \<and>
      (nat n < unat ?sz \<longrightarrow> length (v_file v w1 (File_bufferedFd f)) \<le> nat (sint fo) + nat n)"
    using Fallback_loop_read [OF pr mc _ _ B ch l] valid sub by (simp add: Buffer_getBuffer_def)
  then have i1: "read_inv v ?L (world s) (File_bufferedFd f) ?pos (nat (sint fo)) (nat n) (world u)"
    using mmap by (auto simp: read_inv_def)
  have rp: "region ?pos (nat n) \<subseteq> ?L"
    using sub region_mono [of "nat n" "unat ?sz" ?pos] L by blast
  have "read_inv v ?L (world s) (File_bufferedFd f) ?pos (nat (sint fo)) (nat n) (world t)"
  proof (cases "p = nullptr")
    case False
    with d obtain r where "c_munmap x p DefaultChunkSize (world u) = (r, w3)" by blast
    from mu [unfolded documented_munmap_def, rule_format, OF this] L unat_less_64 [of ?sz]
    show ?thesis using False t by (intro read_inv_frame [OF i1 B _ _ rp]) auto
  qed (use i1 t in simp)
  with L mmap show ?thesis by simp
qed

section \<open>Writing\<close>

lemma length_write_at: "bs \<noteq> [] \<Longrightarrow> length (write_at c off bs) = max (length c) (off + length bs)"
  by (auto simp: write_at_def)

lemma nth_write_at:
  assumes "bs \<noteq> []"
  shows "j < off \<Longrightarrow> j < length c \<Longrightarrow> write_at c off bs ! j = c ! j"
    and "i < length bs \<Longrightarrow> write_at c off bs ! (off + i) = bs ! i"
    and "off + length bs \<le> j \<Longrightarrow> j < length c \<Longrightarrow> write_at c off bs ! j = c ! j"
    and "length c \<le> j \<Longrightarrow> j < off \<Longrightarrow> write_at c off bs ! j = 0"
  using assms by (auto simp: write_at_def nth_append min_def)

text \<open>
  What a file may hold when a write of at most \<open>m\<close> bytes is under way, or was repeated: at each place the
  old byte, the byte that the write has for that place, or a zero in a gap behind the old end.
\<close>

definition byte_written :: "byte list \<Rightarrow> byte list \<Rightarrow> nat \<Rightarrow> nat \<Rightarrow> (nat \<Rightarrow> byte) \<Rightarrow> nat \<Rightarrow> bool" where
  "byte_written old new off m src j \<longleftrightarrow>
     j < length old \<and> new ! j = old ! j \<or>
     off \<le> j \<and> j < off + m \<and> new ! j = src (j - off) \<or>
     length old \<le> j \<and> j < off \<and> new ! j = 0"

text \<open>
  The state of a write after \<open>n\<close> of at most \<open>m\<close> bytes: they are in the file, the file is
  unchanged outside the target range, inside it each byte is the old one or the one to be written, and
  no mapped memory has changed.
\<close>

definition write_inv ::
  "'w view \<Rightarrow> ptr set \<Rightarrow> 'w \<Rightarrow> int \<Rightarrow> ptr \<Rightarrow> nat \<Rightarrow> nat \<Rightarrow> nat \<Rightarrow> 'w \<Rightarrow> bool" where
  "write_inv v L w0 fd pos off m n w \<longleftrightarrow>
     (\<forall>a \<in> L. v_mem v w a = v_mem v w0 a) \<and>
     (\<forall>i < n. off + i < length (v_file v w fd) \<and>
        v_file v w fd ! (off + i) = v_mem v w0 (pos + of_nat i)) \<and>
     (\<forall>j < length (v_file v w0 fd). j < off \<or> off + m \<le> j \<longrightarrow>
        v_file v w fd ! j = v_file v w0 fd ! j) \<and>
     length (v_file v w0 fd) \<le> length (v_file v w fd) \<and>
     length (v_file v w fd) \<le> max (length (v_file v w0 fd)) (off + m) \<and>
     (\<forall>j < length (v_file v w fd).
        byte_written (v_file v w0 fd) (v_file v w fd) off m (\<lambda>i. v_mem v w0 (pos + of_nat i)) j) \<and>
     (0 < n \<longrightarrow> off + n < 2 ^ 63)"

lemma write_inv_refl: "write_inv v L w0 fd pos off m 0 w0"
  by (simp add: write_inv_def byte_written_def)

lemma write_inv_pwrite:
  assumes inv: "write_inv v L w0 fd pos off m n w" and k: "n + k \<le> m"
    and file': "v_file v w' fd = write_at (v_file v w fd) (off + n)
      (map (\<lambda>i. v_mem v w0 (pos + of_nat (n + i))) [0..<k])"
    and mem: "\<forall>a \<in> L. v_mem v w' a = v_mem v w a" and bnd: "off + n + k < 2 ^ 63"
  shows "write_inv v L w0 fd pos off m n w'" and "write_inv v L w0 fd pos off m (n + k) w'"
proof -
  let ?bs = "map (\<lambda>i. v_mem v w0 (pos + of_nat (n + i))) [0..<k]" and ?c = "v_file v w fd"
  have *: "write_inv v L w0 fd pos off m (n + k) w'"
  proof (cases "k = 0")
    case True
    with assms show ?thesis by (simp add: write_inv_def write_at_def)
  next
    case False
    then have ne: "?bs \<noteq> []" by simp
    note len = length_write_at [OF ne, of ?c "off + n"] and nth = nth_write_at [OF ne, where off = "off + n" and c = ?c]
    have "off + i < length (v_file v w' fd) \<and> v_file v w' fd ! (off + i) = v_mem v w0 (pos + of_nat i)"
      if i: "i < n + k" for i
    proof (cases "i < n")
      case True
      with inv nth(1) [of "off + i"] len show ?thesis by (simp add: write_inv_def file')
    next
      case False
      then obtain l where l: "i = n + l" "l < k" using i by (metis add_less_cancel_left le_Suc_ex not_less)
      with nth(2) [of l] len show ?thesis by (simp add: file' add.assoc)
    qed
    moreover have "v_file v w' fd ! j = v_file v w0 fd ! j"
      if "j < length (v_file v w0 fd)" "j < off \<or> off + m \<le> j" for j
      using that inv k nth(1,3) [of j] by (auto simp: write_inv_def file')
    moreover have "byte_written (v_file v w0 fd) (v_file v w' fd) off m (\<lambda>i. v_mem v w0 (pos + of_nat i)) j"
      if j: "j < length (v_file v w' fd)" for j
    proof -
      have old: "byte_written (v_file v w0 fd) ?c off m (\<lambda>i. v_mem v w0 (pos + of_nat i)) j" if "j < length ?c"
        using inv that by (simp add: write_inv_def)
      consider (before) "j < off + n" "j < length ?c" | (gap) "j < off + n" "length ?c \<le> j"
        | (bytes) l where "j = off + n + l" "l < k" | (behind) "off + n + k \<le> j" "j < length ?c"
      proof -
        have jlen: "j < max (length ?c) (off + n + k)" using j len by (simp add: file')
        consider "j < off + n" | "off + n \<le> j" "j < off + n + k" | "off + n + k \<le> j" by linarith
        then show thesis
        proof cases
          case 1
          then show thesis using before gap by (cases "j < length ?c") auto
        next
          case 2
          then show thesis using bytes [of "j - (off + n)"] by auto
        next
          case 3
          then show thesis using behind jlen by auto
        qed
      qed
      then show ?thesis
      proof cases
        case before
        with nth(1) [OF before] old show ?thesis by (simp add: file' byte_written_def)
      next
        case gap
        have "n = 0"
        proof (rule ccontr)
          assume "n \<noteq> 0"
          then have "n - 1 < n" by simp
          with inv have "off + (n - 1) < length ?c" unfolding write_inv_def by blast
          with gap \<open>n \<noteq> 0\<close> show False by simp
        qed
        moreover have "length (v_file v w0 fd) \<le> length ?c" using inv by (simp add: write_inv_def)
        ultimately show ?thesis using gap nth(4) [OF gap(2,1)] by (simp add: file' byte_written_def)
      next
        case bytes
        with nth(2) [of l] k show ?thesis by (simp add: file' byte_written_def add.assoc)
      next
        case behind
        with nth(3) [of j] old show ?thesis by (simp add: file' byte_written_def)
      qed
    qed
    ultimately show ?thesis
      using inv mem bnd k len by (auto simp: write_inv_def file')
  qed
  then show "write_inv v L w0 fd pos off m (n + k) w'" .
  from * inv show "write_inv v L w0 fd pos off m n w'" by (auto simp: write_inv_def)
qed

lemma write_inv_same:
  "write_inv v L w0 fd pos off m n w \<Longrightarrow> v_file v w' fd = v_file v w fd \<Longrightarrow>
     \<forall>a \<in> L. v_mem v w' a = v_mem v w a \<Longrightarrow> write_inv v L w0 fd pos off m n w'"
  by (auto simp: write_inv_def)

text \<open>The start of a write may be moved back over steps that change neither the file nor mapped memory.\<close>

lemma byte_written_cong:
  assumes "byte_written old new off m src j" and "\<And>i. i < m \<Longrightarrow> src i = src' i"
  shows "byte_written old new off m src' j"
proof -
  have "j - off < m" if "off \<le> j" "j < off + m" using that by linarith
  with assms show ?thesis unfolding byte_written_def by metis
qed

lemma write_inv_base:
  assumes inv: "write_inv v L w1 fd pos off m n w" and "n \<le> m" and "region pos m \<subseteq> L"
    and "v_file v w1 fd = v_file v w0 fd" and mem: "\<forall>a \<in> L. v_mem v w1 a = v_mem v w0 a"
  shows "write_inv v L w0 fd pos off m n w"
proof -
  have src: "v_mem v w1 (pos + of_nat i) = v_mem v w0 (pos + of_nat i)" if "i < m" for i
    using mem assms(3) region_mem [OF that, of pos] by blast
  have "byte_written (v_file v w0 fd) (v_file v w fd) off m (\<lambda>i. v_mem v w0 (pos + of_nat i)) j"
    if "j < length (v_file v w fd)" for j
  proof (rule byte_written_cong)
    show "byte_written (v_file v w0 fd) (v_file v w fd) off m (\<lambda>i. v_mem v w1 (pos + of_nat i)) j"
      using inv that assms(4) by (simp add: write_inv_def)
  qed (rule src)
  with inv src assms(2,4) mem show ?thesis by (simp add: write_inv_def)
qed

lemma write_transfer_cases:
  assumes "Fallback_transfer x IoWrite f p d cnt off s = (res, t)"
  obtains (hip) e where "res = Exn (Hip_RuntimeError e)"
  | (ok) w1 e2 w2 r w3 r4 where
      "hip_Memcpy x p d cnt hipMemcpyDeviceToHost (world s) = (hipSuccess, w1)"
      "hip_StreamSynchronize x nullptr w1 = (e2, w2)"
      "c_pwrite x (File_bufferedFd f) p cnt off w2 = (r, w3)"
      "(r = -1 \<and> res = Exn (Std_system_error (c_errno x w3)) \<and> t = s\<lparr>world := w3\<rparr>) \<or>
       (r \<noteq> -1 \<and> c_fdatasync x (File_bufferedFd f) w3 = (r4, world t) \<and> t = s\<lparr>world := world t\<rparr> \<and>
        res = (if r4 = -1 then Exn (Std_system_error (c_errno x (world t))) else Ret r))"
proof -
  obtain e1 w1 where m: "hip_Memcpy x p d cnt hipMemcpyDeviceToHost (world s) = (e1, w1)" by fastforce
  obtain e2 w2 where y: "hip_StreamSynchronize x nullptr w1 = (e2, w2)" by fastforce
  obtain r w3 where pw: "c_pwrite x (File_bufferedFd f) p cnt off w2 = (r, w3)" by fastforce
  obtain r4 w4 where fs: "c_fdatasync x (File_bufferedFd f) w3 = (r4, w4)" by fastforce
  have un: "(res, t) = (if e1 \<noteq> hipSuccess then (Exn (Hip_RuntimeError e1), s\<lparr>world := w1\<rparr>)
    else if e2 \<noteq> hipSuccess then (Exn (Hip_RuntimeError e2), s\<lparr>world := w2\<rparr>)
    else if r = -1 then (Exn (Std_system_error (c_errno x w3)), s\<lparr>world := w3\<rparr>)
    else if r4 = -1 then (Exn (Std_system_error (c_errno x w4)), s\<lparr>world := w4\<rparr>)
    else (Ret r, s\<lparr>world := w4\<rparr>))"
    using assms m y pw fs
    by (auto simp: Fallback_transfer_def Sys_pwrite_def Sys_fdatasync_def hipStreamSynchronize_def
        hipMemcpy_def hip_call0_def throwOnHipError_def cbind_def call_ext_def throwOn_def cret_def
        cthrow_def split: if_splits)
  show thesis
    using un that m y pw fs by (auto split: if_splits)
qed

lemma write_transfer_inv:
  assumes mc: "documented_memcpy x v" and pw: "documented_pwrite x v" and sy: "documented_syncs x v"
    and off: "0 \<le> sint o64" "nat (sint o64) = off + n"
    and B: "region p (unat cnt) \<inter> L = {}" and dL: "region (pos + of_nat n) (unat cnt) \<subseteq> L"
    and cnt: "n + unat cnt \<le> m" and inv: "write_inv v L w0 fd pos off m n (world s)"
    and fd: "fd = File_bufferedFd f"
    and tr: "Fallback_transfer x IoWrite f p (pos + of_nat n) cnt o64 s = (res, t)"
    and res: "\<forall>e. res \<noteq> Exn (Hip_RuntimeError e)"
  shows "case res of
      Ret r \<Rightarrow> 0 \<le> r \<and> nat r \<le> unat cnt \<and> write_inv v L w0 fd pos off m (n + nat r) (world t)
    | Exn e \<Rightarrow> write_inv v L w0 fd pos off m n (world t)
    | Terminate \<Rightarrow> False"
  using tr
proof (cases rule: write_transfer_cases)
  case (hip e)
  with res show ?thesis by blast
next
  case (ok w1 e2 w2 r w3 r4)
  note memcpy = mc [unfolded documented_memcpy_def, rule_format, OF ok(1)]
  have sync: "v_mem v w2 = v_mem v w1" "v_file v w2 = v_file v w1"
    using sy ok(2) unfolding documented_syncs_def by blast+
  have disj: "region p (unat cnt) \<inter> region (pos + of_nat n) (unat cnt) = {}" using B dL by blast
  have mem2: "\<forall>a \<in> L. v_mem v w2 a = v_mem v (world s) a"
    using memcpy B sync by auto
  have bytes: "v_mem v w2 (p + of_nat i) = v_mem v w0 (pos + of_nat (n + i))" if "i < unat cnt" for i
  proof -
    have "v_mem v w2 (p + of_nat i) = v_mem v (world s) (pos + of_nat n + of_nat i)"
      using memcpy disj sync that by simp
    also have "\<dots> = v_mem v w0 (pos + of_nat n + of_nat i)"
      using inv dL that by (auto simp: write_inv_def)
    finally show ?thesis by (simp add: add.assoc)
  qed
  have inv2: "write_inv v L w0 fd pos off m n w2"
    using write_inv_same [OF inv] memcpy sync mem2 by simp
  note pwr = pw [unfolded documented_pwrite_def, rule_format, OF conjI [OF ok(3) off(1)], folded fd,
      unfolded off(2)]
  show ?thesis
  proof (cases "r = -1")
    case True
    with pwr have "write_inv v L w0 fd pos off m n w3"
      using write_inv_same [OF inv2, of w3] by auto
    with True ok(4) show ?thesis by auto
  next
    case False
    with pwr have r: "0 \<le> r" "nat r \<le> unat cnt" "off + n + nat r < 2 ^ 63"
      "v_file v w3 fd = write_at (v_file v w2 fd) (off + n)
         (map (\<lambda>i. v_mem v w2 (p + of_nat i)) [0..<nat r])" "v_mem v w3 = v_mem v w2" by auto
    have "map (\<lambda>i. v_mem v w2 (p + of_nat i)) [0..<nat r] =
        map (\<lambda>i. v_mem v w0 (pos + of_nat (n + i))) [0..<nat r]"
      using bytes r(2) by simp
    note w3 = write_inv_pwrite [OF inv2 _ r(4) [unfolded this] _ r(3)]
    have t: "v_mem v (world t) = v_mem v w3" "v_file v (world t) = v_file v w3"
      using sy ok(4) False unfolding documented_syncs_def by blast+
    have "write_inv v L w0 fd pos off m n (world t)" "write_inv v L w0 fd pos off m (n + nat r) (world t)"
      using write_inv_same [OF w3(1), of "world t"] write_inv_same [OF w3(2), of "world t"] t r cnt
      by auto
    with ok(4) False r show ?thesis by auto
  qed
qed

lemma write_round:
  fixes b :: Buffer and bo :: hoff_t
  defines "pos \<equiv> Buffer_getBuffer b + bo"
  assumes mc: "documented_memcpy x v" and pw: "documented_pwrite x v" and sy: "documented_syncs x v"
    and fo: "0 \<le> sint fo"
    and sub: "region pos (unat sz) \<subseteq> L" and B: "region p (unat ch) \<inter> L = {}"
    and n: "0 \<le> n" "nat n \<le> unat sz"
    and inv: "write_inv v L w0 (File_bufferedFd f) pos (nat (sint fo)) (unat sz) (nat n) (world s)"
    and rnd: "Fallback_round x IoWrite f b sz fo bo ch p n s = (Ret q, t)"
  shows "\<exists>m. (q = Inl m \<or> q = Inr m) \<and> 0 \<le> m \<and> nat m \<le> unat sz \<and>
             write_inv v L w0 (File_bufferedFd f) pos (nat (sint fo)) (unat sz) (nat m) (world t)"
proof -
  let ?fd = "File_bufferedFd f" and ?off = "fo + of_nat (nat n)" and ?d = "pos + of_nat (nat n)"
  let ?cnt = "min ch (sz - of_nat (nat n))"
  have cnt: "unat ?cnt = min (unat ch) (unat sz - nat n)" by (rule chunk_count [OF n(2)])
  have "sint ?off = sint fo + int (nat n)"
  proof (cases "nat n = 0")
    case False
    then have "nat (sint fo) + nat n < 2 ^ 63" using inv by (simp add: write_inv_def)
    then show ?thesis using fo by (intro sint_add_nat) auto
  qed simp
  then have off: "0 \<le> sint ?off" "nat (sint ?off) = nat (sint fo) + nat n"
    using fo n by (simp_all add: nat_add_distrib)
  have le: "nat n + unat ?cnt \<le> unat sz" unfolding cnt using n(2) by simp
  have B': "region p (unat ?cnt) \<inter> L = {}"
    using B region_mono [of "unat ?cnt" "unat ch" p] cnt by auto
  have dL: "region ?d (unat ?cnt) \<subseteq> L" using region_offset_subset [OF le, of pos] sub by blast
  obtain res u where tr: "Fallback_transfer x IoWrite f p ?d ?cnt ?off s = (res, u)" by fastforce
  note rnd' = rnd [unfolded Fallback_round_def Let_def pos_def [symmetric] word_int_nat [OF n(1)] tr]
  then have "\<forall>e. res \<noteq> Exn (Hip_RuntimeError e)" by auto
  note tr' = write_transfer_inv [OF mc pw sy off B' dL le inv refl tr this]
  show ?thesis
  proof (cases res)
    case (Ret r)
    have "nat n + nat r \<le> unat sz" using tr' le Ret by auto
    then have m: "0 \<le> n + r" "nat (n + r) = nat n + nat r" "nat (n + r) \<le> unat sz"
      using tr' n(1) Ret by (simp_all add: nat_add_distrib)
    with rnd' Ret tr' show ?thesis by (auto split: if_splits)
  next
    case (Exn e)
    with rnd' tr' n show ?thesis by (auto split: if_splits)
  qed (use rnd' in simp)
qed

lemma Fallback_loop_write:
  fixes b :: Buffer and bo :: hoff_t
  defines "pos \<equiv> Buffer_getBuffer b + bo"
  assumes mc: "documented_memcpy x v" and pw: "documented_pwrite x v" and sy: "documented_syncs x v"
    and fo: "0 \<le> sint fo"
    and sub: "region pos (unat sz) \<subseteq> L" and B: "region p (unat ch) \<inter> L = {}"
    and loop: "Fallback_loop x IoWrite f b sz fo bo ch p 0 s = Some (Ret m, t)"
  shows "0 \<le> m \<and> nat m \<le> unat sz \<and>
    write_inv v L (world s) (File_bufferedFd f) pos (nat (sint fo)) (unat sz) (nat m) (world t)"
proof -
  let ?I = "\<lambda>n u. 0 \<le> n \<and> nat n \<le> unat sz \<and>
    write_inv v L (world s) (File_bufferedFd f) pos (nat (sint fo)) (unat sz) (nat n) (world u)"
  let ?Q = "\<lambda>r u. \<forall>n. r = Ret n \<longrightarrow> ?I n u"
  note round = write_round [OF mc pw sy fo sub [unfolded pos_def] B, folded pos_def]
  have "?Q (Ret m) t"
  proof (rule oloop_inv [OF loop [unfolded Fallback_loop_def], where I = ?I])
    show "?I 0 s" by (simp add: write_inv_refl)
  next
    fix n u n' u'
    assume "?I n u" "Fallback_round x IoWrite f b sz fo bo ch p n u = (Ret (Inl n'), u')"
    with round [of n "world s" f u "Inl n'" u'] show "?I n' u'" by auto
  next
    fix n u n' u'
    assume "?I n u" "Fallback_round x IoWrite f b sz fo bo ch p n u = (Ret (Inr n'), u')"
    with round [of n "world s" f u "Inr n'" u'] show "?Q (Ret n') u'" by auto
  qed simp_all
  then show ?thesis by blast
qed

lemma Fallback_io_write_bytes:
  assumes mc: "documented_memcpy x v" and pw: "documented_pwrite x v" and sy: "documented_syncs x v"
    and mm: "documented_mmap x v" and mu: "documented_munmap x v"
    and live: "region (b_buffer b) (unat (b_length b)) \<subseteq> v_live v (world s)"
    and io: "Fallback_io x IoWrite f b size0 fo bo s = Some (Ret n, t)"
  shows "0 \<le> n \<and> nat n \<le> unat (min size0 (max_rw_count x)) \<and>
    write_inv v (v_live v (world s)) (world s) (File_bufferedFd f) (b_buffer b + bo)
      (nat (sint fo)) (unat (min size0 (max_rw_count x))) (nat n) (world t)"
proof -
  let ?sz = "min size0 (max_rw_count x)" and ?L = "v_live v (world s)" and ?pos = "b_buffer b + bo"
  obtain p w1 u w3 where pv: "paramsValid b ?sz fo bo"
    and m: "c_mmap x nullptr DefaultChunkSize PROT_READ_WRITE MAP_PRIVATE_ANONYMOUS (-1) 0 (world s) = (p, w1)"
    and p: "p \<noteq> -1"
    and l: "Fallback_loop x IoWrite f b ?sz fo bo DefaultChunkSize p 0 (s\<lparr>world := w1\<rparr>) = Some (Ret n, u)"
    and t: "world t = (if p = nullptr then world u else w3)"
    and d: "p \<noteq> nullptr \<longrightarrow> (\<exists>r. c_munmap x p DefaultChunkSize (world u) = (r, w3))"
    by (rule Fallback_io_Ret [OF io])
  note mmap = mm [unfolded documented_mmap_def, rule_format, OF m]
  have B: "region p (unat DefaultChunkSize) \<inter> ?L = {}" using mmap p by blast
  have sub: "region ?pos (unat ?sz) \<subseteq> ?L" by (rule io_region_live [OF pv live])
  have fo: "0 \<le> sint fo" using pv by (simp add: paramsValid_iff)
  have L: "0 \<le> n \<and> nat n \<le> unat ?sz \<and>
      write_inv v ?L w1 (File_bufferedFd f) ?pos (nat (sint fo)) (unat ?sz) (nat n) (world u)"
    using Fallback_loop_write [OF mc pw sy fo _ B l] sub by (simp add: Buffer_getBuffer_def)
  have i1: "write_inv v ?L (world s) (File_bufferedFd f) ?pos (nat (sint fo)) (unat ?sz) (nat n) (world u)"
  proof (rule write_inv_base [OF _ _ sub])
    show "write_inv v ?L w1 (File_bufferedFd f) ?pos (nat (sint fo)) (unat ?sz) (nat n) (world u)" "nat n \<le> unat ?sz"
      using L by blast+
  qed (use mmap in auto)
  have "v_file v (world t) = v_file v (world u) \<and> (\<forall>a \<in> ?L. v_mem v (world t) a = v_mem v (world u) a)"
  proof (cases "p = nullptr")
    case False
    with d obtain r where "c_munmap x p DefaultChunkSize (world u) = (r, w3)" by blast
    from mu [unfolded documented_munmap_def, rule_format, OF this] False t B show ?thesis by auto
  qed (use t in simp)
  with write_inv_same [OF i1] L show ?thesis by simp
qed

section \<open>Termination\<close>

text \<open>
  A transfer call returns -1 or a count within the request, and there is a budget of
  interruptions that no call increases and every interrupted call decreases.
\<close>

definition transfer_counts :: "'w ext \<Rightarrow> bool" where
  "transfer_counts x \<longleftrightarrow>
     (\<forall>fd p n off w r w'.
        (c_pread x fd p n off w = (r, w') \<or> c_pwrite x fd p n off w = (r, w')) \<longrightarrow>
        r = -1 \<or> 0 \<le> r \<and> nat r \<le> unat n)"

definition interrupts_bounded :: "'w ext \<Rightarrow> ('w \<Rightarrow> nat) \<Rightarrow> bool" where
  "interrupts_bounded x budget \<longleftrightarrow>
     (\<forall>fd p n off w r w'.
        c_pread x fd p n off w = (r, w') \<or> c_pwrite x fd p n off w = (r, w') \<or>
        c_fdatasync x fd w = (r, w') \<longrightarrow>
        budget w' \<le> budget w \<and> (r = -1 \<and> c_errno x w' = EINTR \<longrightarrow> budget w' < budget w)) \<and>
     (\<forall>d s n k w e w'. hip_Memcpy x d s n k w = (e, w') \<longrightarrow> budget w' \<le> budget w) \<and>
     (\<forall>st w e w'. hip_StreamSynchronize x st w = (e, w') \<longrightarrow> budget w' \<le> budget w)"

lemma budget_pread:
  "interrupts_bounded x budget \<Longrightarrow> c_pread x fd p n off w = (r, w') \<Longrightarrow>
     budget w' \<le> budget w \<and> (r = -1 \<and> c_errno x w' = EINTR \<longrightarrow> budget w' < budget w)"
  unfolding interrupts_bounded_def by metis

lemma budget_pwrite:
  "interrupts_bounded x budget \<Longrightarrow> c_pwrite x fd p n off w = (r, w') \<Longrightarrow>
     budget w' \<le> budget w \<and> (r = -1 \<and> c_errno x w' = EINTR \<longrightarrow> budget w' < budget w)"
  unfolding interrupts_bounded_def by metis

lemma budget_fdatasync:
  "interrupts_bounded x budget \<Longrightarrow> c_fdatasync x fd w = (r, w') \<Longrightarrow>
     budget w' \<le> budget w \<and> (r = -1 \<and> c_errno x w' = EINTR \<longrightarrow> budget w' < budget w)"
  unfolding interrupts_bounded_def by metis

lemma budget_hip:
  "interrupts_bounded x budget \<Longrightarrow> hip_Memcpy x d s n k w = (e, w') \<Longrightarrow> budget w' \<le> budget w"
  "interrupts_bounded x budget \<Longrightarrow> hip_StreamSynchronize x st w = (e, w') \<Longrightarrow> budget w' \<le> budget w"
  unfolding interrupts_bounded_def by metis+

lemma transfer_count:
  "transfer_counts x \<Longrightarrow> c_pread x fd p n off w = (r, w') \<Longrightarrow> r = -1 \<or> 0 \<le> r \<and> nat r \<le> unat n"
  "transfer_counts x \<Longrightarrow> c_pwrite x fd p n off w = (r, w') \<Longrightarrow> r = -1 \<or> 0 \<le> r \<and> nat r \<le> unat n"
  unfolding transfer_counts_def by metis+

lemma transfer_progress:
  assumes c: "transfer_counts x" and b: "interrupts_bounded x budget"
    and tr: "Fallback_transfer x type f p d cnt off s = (res, t)"
  shows "(\<forall>r. res = Ret r \<longrightarrow> 0 \<le> r \<and> nat r \<le> unat cnt \<and> budget (world t) \<le> budget (world s)) \<and>
    (res = Exn (Std_system_error EINTR) \<longrightarrow> budget (world t) < budget (world s))"
proof (cases type)
  case IoRead
  obtain r w1 where pr: "c_pread x (File_bufferedFd f) p cnt off (world s) = (r, w1)" by fastforce
  note w1 = budget_pread [OF b pr] transfer_count(1) [OF c pr]
  obtain e w2 where mc: "hip_Memcpy x d p (word_of_int r) hipMemcpyHostToDevice w1 = (e, w2)" by fastforce
  show ?thesis
    using tr [unfolded IoRead read_transfer_unfold [OF pr]] w1 mc budget_hip(1) [OF b mc]
    by (auto split: if_splits)
next
  case IoWrite
  from tr [unfolded IoWrite] show ?thesis
  proof (cases rule: write_transfer_cases)
    case (ok w1 e2 w2 r w3 r4)
    note b12 = budget_hip(1) [OF b ok(1)] budget_hip(2) [OF b ok(2)]
      and b3 = budget_pwrite [OF b ok(3)] and cnt = transfer_count(2) [OF c ok(3)]
    show ?thesis
    proof (cases "r = -1")
      case True
      with b12 b3 ok(4) show ?thesis by auto
    next
      case False
      with ok(4) have fs: "c_fdatasync x (File_bufferedFd f) w3 = (r4, world t)"
        and res: "res = (if r4 = -1 then Exn (Std_system_error (c_errno x (world t))) else Ret r)" by auto
      from budget_fdatasync [OF b fs] b12 b3 cnt False res show ?thesis by auto
    qed
  qed simp
qed

lemma Fallback_loop_returns:
  assumes c: "transfer_counts x" and b: "interrupts_bounded x budget"
  shows "\<exists>r t. Fallback_loop x type f bf sz fo bo ch p 0 s = Some (r, t)"
  unfolding Fallback_loop_def
proof (rule oloop_returns [where I = "\<lambda>n u. 0 \<le> n \<and> nat n \<le> unat sz" and
      R = "inv_image (less_than <*lex*> less_than) (\<lambda>(n, u). (budget (world u), unat sz - nat n))"])
  show "wf (inv_image (less_than <*lex*> less_than)
      (\<lambda>(n :: int, u :: ('a, 'b) stats_state_scheme). (budget (world u), unat sz - nat n)))"
    by (intro wf_inv_image wf_lex_prod wf_less_than)
next
  fix n :: int and u n' t
  assume n: "0 \<le> n \<and> nat n \<le> unat sz"
    and rnd: "Fallback_round x type f bf sz fo bo ch p n u = (Ret (Inl n'), t)"
  let ?cnt = "min ch (sz - of_nat (nat n))"
  have le: "nat n + unat ?cnt \<le> unat sz"
    unfolding chunk_count [OF conjunct2 [OF n]] using conjunct2 [OF n] by simp
  obtain res v where tr: "Fallback_transfer x type f p (Buffer_getBuffer bf + bo + of_nat (nat n)) ?cnt
      (fo + of_nat (nat n)) u = (res, v)" by fastforce
  note pg = transfer_progress [OF c b tr]
  note rnd' = rnd [unfolded Fallback_round_def Let_def word_int_nat [OF conjunct1 [OF n]] tr]
  show "(0 \<le> n' \<and> nat n' \<le> unat sz) \<and>
    ((n', t), (n, u)) \<in> inv_image (less_than <*lex*> less_than)
      (\<lambda>(n, u). (budget (world u), unat sz - nat n))"
  proof (cases res)
    case (Ret r)
    with pg le have r: "0 \<le> r" "nat n + nat r \<le> unat sz" "budget (world v) \<le> budget (world u)" by auto
    have eq: "n' = n + r" "t = v" "r \<noteq> 0" using rnd' Ret by (auto split: if_splits)
    have sum: "nat (n + r) = nat n + nat r" using r n by (simp add: nat_add_distrib)
    have "unat sz - nat (n + r) < unat sz - nat n"
      using sum r eq(3) by (intro diff_less_mono2) auto
    with eq sum show ?thesis using r n by (auto simp: le_less)
  next
    case (Exn e)
    with rnd' pg n show ?thesis by (auto split: if_splits)
  qed (use rnd' in simp)
qed simp

lemma Fallback_io_returns:
  assumes "transfer_counts x" and "interrupts_bounded x budget"
  shows "\<exists>r t. Fallback_io x type f b sz fo bo s = Some (r, t)"
proof -
  have body: "\<exists>r t. Fallback_body x type f b sz fo bo ch p u = Some (r, t)" for sz ch p u
    using Fallback_loop_returns [OF assms, of type f b sz fo bo ch p u]
    by (auto simp: Fallback_body_def oscope_def obind_def olift_def split: outcome.splits prod.splits)
  show ?thesis
    using body
    by (auto simp: Fallback_io_def Backend_io_def Fallback_io_chunked_def obind_def olift_def Let_def
        getMaxRwCount_eq cthrow_def split: outcome.splits prod.splits)
qed

end
