(* ===== verification/Io.thy ===== *)
theory Io
  imports Api Fallback_Bytes
begin

text \<open>
  The synchronous functions of the interface from end to end: what \<^verbatim>\<open>hipFileRead\<close> and
  \<^verbatim>\<open>hipFileWrite\<close> do to files and memory when the fallback backend serves them, and that they
  return.
\<close>

section \<open>Termination\<close>

lemma Fastpath_io_returns:
  assumes "transfer_counts x" and "interrupts_bounded x budget"
  shows "Fastpath_io x (Some (Fallback_backend x)) type f b sz fo bo s \<noteq> None"
proof -
  have "Fastpath_io_impl x type f b sz fo bo s \<noteq> None"
    by (simp add: Fastpath_io_impl_def olift_def split: option.splits)
  then obtain r0 u where u: "Fastpath_io_impl x type f b sz fo bo s = Some (r0, u)" by auto
  have retry: "retry_io el (Some (Fallback_backend x)) e n type f b sz fo bo u \<noteq> None" for el e n
    using Fallback_io_returns [OF assms, of type f b sz fo bo u]
    by (auto simp: retry_io_def Fallback_backend_def)
  with u show ?thesis
    by (auto simp: Fastpath_io_def BackendWithFallback_io_def split: outcome.splits)
qed

lemma hipFileIo_returns:
  assumes "\<And>b f bf u. b \<in> set bs \<Longrightarrow> be_io b type f bf sz fo bo u \<noteq> None"
  shows "hipFileIo x nb type fh buf sz fo bo bs s \<noteq> None"
proof -
  have "hipFileIo_run type sz fo bo bs fb u \<noteq> None" for fb u
  proof (cases "sp_obj (fst fb) (file_heap u)"; cases "sp_obj (snd fb) (buf_heap u)")
    fix f b
    assume o: "sp_obj (fst fb) (file_heap u) = Some f" "sp_obj (snd fb) (buf_heap u) = Some b"
    show ?thesis
    proof (cases "select_backend (\<lambda>be. be_score be f b sz fo bo u) (-1) None bs")
      case (Some be)
      have "be \<in> set bs" using select_backend_inv [OF Some] by simp
      from assms [OF this] Some o show ?thesis by (simp add: hipFileIo_run_def)
    qed (use o in \<open>simp add: hipFileIo_run_def\<close>)
  qed (simp_all add: hipFileIo_run_def)
  then show ?thesis
    unfolding hipFileIo_def
    by (intro ocatch_not_None obind_not_None oscope_not_None olift_not_None) simp
qed

lemma getBackends_return:
  assumes "transfer_counts x" and "interrupts_bounded x budget" and "b \<in> set (DriverState_getBackends x)"
  shows "be_io b type f bf sz fo bo u \<noteq> None"
  using assms Fallback_io_returns [OF assms(1,2), of type f bf sz fo bo u]
    Fastpath_io_returns [OF assms(1,2), of type f bf sz fo bo u]
  by (auto simp: DriverState_getBackends_def Fallback_backend_def [of x] Fastpath_backend_def)

section \<open>IO through the fallback backend\<close>

lemma fallback_selected:
  assumes "\<not> Configuration_fastpath x s"
  shows "select_backend (\<lambda>be. be_score be f b sz fo bo s) (-1) None (DriverState_getBackends x) =
    (if Fallback_score x f b sz fo bo s = 0 then Some (Fallback_backend x) else None)"
  using assms
  by (simp add: DriverState_getBackends_def Fallback_backend_def Fastpath_backend_def
      Fastpath_score_def Fallback_score_def Let_def)

lemma pair_dtor_world:
  assumes inv: "drv_inv EB EF ES s" and b: "0 < EB (snd fb)" and f: "0 < EF (fst fb)"
    and reg: "file_lookup s fh = Some (fst fb)" and d: "file_buffer_pair_dtor x fb s = (r, t)"
  shows "world t = world s"
proof -
  obtain u where u: "Buffer_drop (snd fb) s = (Ret (), u)" "world u = world s"
    by (simp add: Buffer_drop_def cmodify_def)
  have "sp_use_count (fst fb) (file_heap u) = 2 + EF (fst fb)"
    using file_inv_uses [OF drv_inv_parts(2) [OF inv] reg] Buffer_drop_inv [OF inv b u(1)] by simp
  then have "File_drop x (fst fb) u = (Ret (), u\<lparr>file_heap := snd (sp_release (fst fb) (file_heap u))\<rparr>)"
    using f by (intro File_drop_shared) simp
  with d u show ?thesis by (auto simp: file_buffer_pair_dtor_def cbind_def)
qed

text \<open>A positive result on registered objects comes from the fallback backend on those objects.\<close>

lemma io_via_fallback:
  fixes s t :: "('w, 'z) stats_state_scheme"
  assumes inv: "drv_inv EB EF ES s" and fresh: "buf_heap s nb = None"
    and hc: "\<forall>h. 0 \<le> hip_code x h" and n: "0 < n"
    and nofast: "\<not> Configuration_fastpath x s"
    and fl: "file_lookup s fh = Some fp" "sp_obj fp (file_heap s) = Some f"
    and bl: "buf_lookup s buf = Some bp" "sp_obj bp (buf_heap s) = Some b"
    and io: "hipFileIo x nb type fh buf sz fo bo (DriverState_getBackends x) s = Some (Ret n, t)"
  obtains u v :: "('w, 'z) stats_state_scheme" where "world u = world s" "Fallback_io x type f b sz fo bo u = Some (Ret n, v)"
    "world t = world v"
proof -
  obtain fb u f' b' be v where
    g: "DriverState_getFileAndBuffer x nb fh buf s = (Ret fb, u)" and
    o: "sp_obj (fst fb) (file_heap u) = Some f'" "sp_obj (snd fb) (buf_heap u) = Some b'" and
    sel: "select_backend (\<lambda>be. be_score be f' b' sz fo bo u) (-1) None (DriverState_getBackends x) = Some be" and
    be: "be_io be type f' b' sz fo bo u = Some (Ret n, v)" and
    d: "file_buffer_pair_dtor x fb v = (Ret (), t)"
    by (rule hipFileIo_positive [OF hc n io])
  let ?u = "s\<lparr>file_heap := sp_copy fp (file_heap s), buf_heap := sp_copy bp (buf_heap s)\<rparr>"
  have rc: "ref_count s \<noteq> 0"
    using g by (auto simp: DriverState_getFileAndBuffer_def cbind_def cget_def cthrow_def)
  have u: "fb = (fp, bp)" "u = ?u"
    using g fl bl rc by (auto simp: DriverState_getFileAndBuffer_def cbind_def cget_def cunwind_def
        FileMap_getFile_def BufferMap_getBuffer_def file_lookup_def buf_lookup_def cret_def)
  have ob: "f' = f" "b' = b" using o u fl bl by (simp_all add: sp_obj_copy)
  have "\<not> Configuration_fastpath x u" using nofast u by (simp add: Configuration_fastpath_def)
  from fallback_selected [OF this] sel have "be = Fallback_backend x" by (auto split: if_splits)
  with be ob have fio: "Fallback_io x type f b sz fo bo u = Some (Ret n, v)"
    by (simp add: Fallback_backend_def)
  let ?EB = "EB(bp := Suc (EB bp))" and ?EF = "EF(fp := Suc (EF fp))"
  have i1: "drv_inv ?EB ?EF ES u"
    using DriverState_getFileAndBuffer_inv [OF inv fresh g] u(1) bl(1) by simp
  note kp = io_frame_keeps [OF fallback.io_in_frame [OF fio]]
  have reg: "file_lookup v fh = Some (fst fb)"
    using kp u fl by (simp add: file_lookup_def)
  have "world t = world v"
    by (rule pair_dtor_world [OF _ _ _ reg d, of ?EB ?EF ES]) (use kp i1 u in auto)
  with that [OF _ fio] u show thesis by simp
qed

lemma hipFileRead_positive:
  "0 < n \<Longrightarrow> hipFileRead x nb fh buf sz fo bo s = Some (Ret n, t) \<Longrightarrow>
     hipFileIo x nb IoRead fh buf sz fo bo (DriverState_getBackends x) s = Some (Ret n, t)"
  "0 < n \<Longrightarrow> hipFileWrite x nb fh buf sz fo bo s = Some (Ret n, t) \<Longrightarrow>
     hipFileIo x nb IoWrite fh buf sz fo bo (DriverState_getBackends x) s = Some (Ret n, t)"
  by (auto simp: hipFileRead_def hipFileWrite_def obind_eq_Some_Ret_iff olift_def match_cufile_def
      cbind_def set_errno_def cmodify_def cret_def split: if_splits)

lemma hipFileRead_bytes:
  fixes s t :: "('w, 'z) stats_state_scheme"
  assumes inv: "drv_inv EB EF ES s" and fresh: "buf_heap s nb = None"
    and hc: "\<forall>h. 0 \<le> hip_code x h" and nofast: "\<not> Configuration_fastpath x s"
    and env: "documented_pread x v" "documented_memcpy x v" "documented_mmap x v" "documented_munmap x v"
    and fl: "file_lookup s fh = Some fp" "sp_obj fp (file_heap s) = Some f"
    and bl: "buf_lookup s buf = Some bp" "sp_obj bp (buf_heap s) = Some b"
    and live: "region buf (unat (b_length b)) \<subseteq> v_live v (world s)"
    and io: "hipFileRead x nb fh buf sz fo bo s = Some (Ret n, t)" and n: "0 < n"
  shows "nat n \<le> unat (min sz (max_rw_count x)) \<and>
    read_inv v (v_live v (world s)) (world s) (File_bufferedFd f) (buf + bo)
      (nat (sint fo)) (nat n) (world t) \<and>
    (nat n < unat (min sz (max_rw_count x)) \<longrightarrow>
       length (v_file v (world s) (File_bufferedFd f)) \<le> nat (sint fo) + nat n)"
proof -
  have buf: "b_buffer b = buf"
    using buf_inv_entry [OF drv_inv_parts(1) [OF inv] bl(1)] bl(2) by (simp add: device_buffer_for_def)
  obtain u w :: "('w, 'z) stats_state_scheme" where u: "world u = world s" "Fallback_io x IoRead f b sz fo bo u = Some (Ret n, w)"
    "world t = world w"
    by (rule io_via_fallback [OF inv fresh hc n nofast fl bl hipFileRead_positive(1) [OF n io]])
  from Fallback_io_read_bytes [OF env _ u(2)] live u buf show ?thesis by simp
qed

lemma hipFileWrite_bytes:
  fixes s t :: "('w, 'z) stats_state_scheme"
  assumes inv: "drv_inv EB EF ES s" and fresh: "buf_heap s nb = None"
    and hc: "\<forall>h. 0 \<le> hip_code x h" and nofast: "\<not> Configuration_fastpath x s"
    and env: "documented_memcpy x v" "documented_pwrite x v" "documented_syncs x v"
      "documented_mmap x v" "documented_munmap x v"
    and fl: "file_lookup s fh = Some fp" "sp_obj fp (file_heap s) = Some f"
    and bl: "buf_lookup s buf = Some bp" "sp_obj bp (buf_heap s) = Some b"
    and live: "region buf (unat (b_length b)) \<subseteq> v_live v (world s)"
    and io: "hipFileWrite x nb fh buf sz fo bo s = Some (Ret n, t)" and n: "0 < n"
  shows "nat n \<le> unat (min sz (max_rw_count x)) \<and>
    write_inv v (v_live v (world s)) (world s) (File_bufferedFd f) (buf + bo)
      (nat (sint fo)) (unat (min sz (max_rw_count x))) (nat n) (world t)"
proof -
  have buf: "b_buffer b = buf"
    using buf_inv_entry [OF drv_inv_parts(1) [OF inv] bl(1)] bl(2) by (simp add: device_buffer_for_def)
  obtain u w :: "('w, 'z) stats_state_scheme" where u: "world u = world s" "Fallback_io x IoWrite f b sz fo bo u = Some (Ret n, w)"
    "world t = world w"
    by (rule io_via_fallback [OF inv fresh hc n nofast fl bl hipFileRead_positive(2) [OF n io]])
  from Fallback_io_write_bytes [OF env _ u(2)] live u buf show ?thesis by simp
qed

section \<open>Nothing ends the process\<close>

text \<open>The manual page: what \<^verbatim>\<open>mmap\<close> returned can be unmapped.\<close>

definition unmaps :: "'w ext \<Rightarrow> bool" where
  "unmaps x \<longleftrightarrow>
     (\<forall>n prot flags fd off w p w' w''. c_mmap x nullptr n prot flags fd off w = (p, w') \<and> p \<noteq> -1 \<longrightarrow>
        fst (c_munmap x p n w'') \<noteq> -1)"

lemma Fallback_body_not_terminate:
  assumes "\<And>w. fst (c_munmap x p ch w) \<noteq> -1"
    and "Fallback_body x type f b sz fo bo ch p s = Some (r, t)"
  shows "r \<noteq> Terminate"
proof -
  obtain r1 u where u: "Fallback_loop x type f b sz fo bo ch p 0 s = Some (r1, u)"
    using assms(2) by (auto simp: Fallback_body_def oscope_def obind_def split: option.splits)
  have dt: "q = Ret ()" if "cwhen (p \<noteq> nullptr) (Sys_munmap x p ch) v = (q, v')"
    for q and v v' :: "('a, 'b) stats_state_scheme"
    using that assms(1) [of "world v"] by (auto split: if_splits simp: cwhen_def cret_def Sys_munmap_def cbind_def cxx_simps)
  have "r1 \<noteq> Terminate" using Fallback_loop_world [OF u] by simp
  moreover have cnt: "\<exists>v. Fallback_count_io type n u = (Ret (), v)" for n
    by (simp add: Fallback_count_io_eq stats_add_def cmodify_def)
  ultimately show ?thesis
    using assms(2) u
    by (cases r1)
       (auto simp: Fallback_body_def oscope_def obind_def olift_def cbind_def Fallback_count_io_eq
         stats_add_def cmodify_def cret_def split: prod.splits outcome.splits option.splits if_splits dest!: dt)
qed

lemma Fallback_io_not_terminate:
  assumes "unmaps x" and "Fallback_io x type f b sz fo bo s = Some (r, t)"
  shows "r \<noteq> Terminate"
proof -
  obtain p w where m: "c_mmap x nullptr DefaultChunkSize PROT_READ_WRITE MAP_PRIVATE_ANONYMOUS (-1) 0 (world s) = (p, w)"
    by fastforce
  have "fst (c_munmap x p DefaultChunkSize w') \<noteq> -1" if "p \<noteq> -1" for w'
    using assms(1) m that unfolding unmaps_def by blast
  with m assms(2) Fallback_body_not_terminate [of x p DefaultChunkSize type f b "min sz (max_rw_count x)" fo bo] show ?thesis
    by (auto simp: Fallback_io_def Backend_io_def Fallback_io_chunked_def obind_def olift_def
        getMaxRwCount_eq cthrow_def Sys_mmap_def cbind_def cxx_simps Let_def split: if_splits)
qed

lemma Fastpath_io_not_terminate:
  assumes "unmaps x" and "Fastpath_io x (Some (Fallback_backend x)) type f b sz fo bo s = Some (r, t)"
  shows "r \<noteq> Terminate"
proof -
  have tr: "never_ends (Fastpath_transfer x type fd p n off :: (('a, 'b) stats_state_scheme, int) cxx)" for fd p n off
    unfolding Fastpath_transfer_def getMaxRwCount_def getPageMask_def getPageSize_def ensure_hip_init_def
      Let_def cwhen_def stats_add_defs stats_add_def
    by (cases type) (auto intro!: never_ends_cbind world_only_amd [THEN never_ends_world_only])
  have "Fastpath_io_impl x type f b sz fo bo s \<noteq> Some (Terminate, u)" for u
    using tr [THEN never_endsD] by (auto simp: Fastpath_io_impl_def olift_def split: option.splits)
  with assms show ?thesis
    by (auto simp: Fastpath_io_def BackendWithFallback_io_def retry_io_def Fallback_backend_def
        split: option.splits outcome.splits if_splits dest: Fallback_io_not_terminate)
qed

lemma getBackends_not_terminate:
  assumes "unmaps x" and "b \<in> set (DriverState_getBackends x)"
    and "be_io b type f bf sz fo bo s = Some (r, t)"
  shows "r \<noteq> Terminate"
  using assms Fallback_io_not_terminate Fastpath_io_not_terminate
  by (fastforce simp: DriverState_getBackends_def Fallback_backend_def [of x] Fastpath_backend_def)

lemma hipFileIo_Terminate:
  assumes inv: "drv_inv EB EF ES s" and fresh: "buf_heap s nb = None" and bs: "contract_list x bs"
    and io: "hipFileIo x nb type fh buf sz fo bo bs s = Some (Terminate, t)"
  obtains b f bf u v where "b \<in> set bs" "be_io b type f bf sz fo bo u = Some (Terminate, v)"
proof -
  obtain r1 u where u: "DriverState_getFileAndBuffer x nb fh buf s = (r1, u)" by fastforce
  note g = DriverState_getFileAndBuffer_inv [OF inv fresh u]
  have caught: "hipFileIo_catch x ex v \<noteq> (Terminate, w)" for ex v w
    using hipFileIo_catch_Ret [of x ex v] by auto
  note un = io [unfolded hipFileIo_def ocatch_def obind_def olift_def u]
  obtain fb where fb: "r1 = Ret fb" using un g caught by (cases r1) auto
  let ?EB = "EB(snd fb := Suc (EB (snd fb)))" and ?EF = "EF(fst fb := Suc (EF (fst fb)))"
  from g fb have i1: "drv_inv ?EB ?EF ES u" and reg: "file_lookup s fh = Some (fst fb)" by auto
  obtain r2 v where v: "hipFileIo_run type sz fo bo bs fb u = Some (r2, v)"
    using un fb by (auto simp: oscope_def split: option.splits)
  note kp = io_frame_keeps [OF hipFileIo_run_frame [OF bs v]]
  have i2: "drv_inv ?EB ?EF ES v" using kp(1) i1 by blast
  have reg': "file_lookup v fh = Some (fst fb)"
    using kp reg getFileAndBuffer_from_fh [OF u] by (simp add: file_lookup_def)
  obtain w where "file_buffer_pair_dtor x fb v = (Ret (), w)"
    by (rule pair_dtor_registered [OF i2 _ _ reg', where x = x]) simp_all
  with un fb v caught have r2: "r2 = Terminate"
    by (cases r2) (auto simp: oscope_def)
  obtain f b where o: "sp_obj (fst fb) (file_heap u) = Some f" "sp_obj (snd fb) (buf_heap u) = Some b"
    by (rule held_objects [OF i1, of "snd fb" "fst fb"]) simp_all
  obtain be where be: "select_backend (\<lambda>be. be_score be f b sz fo bo u) (-1) None bs = Some be"
    "be_io be type f b sz fo bo u = Some (Terminate, v)"
    using v r2 o by (auto simp: hipFileIo_run_def split: option.splits)
  from that [OF _ be(2)] select_backend_inv [OF be(1)] show thesis by simp
qed

text \<open>
  Synchronous IO always returns a number, and it leaves the driver with the uses it found: no
  reference is leaked and none is dropped twice, whatever fails on the way.
\<close>

lemma hipFileIo_total:
  assumes inv: "drv_inv EB EF ES s" and fresh: "buf_heap s nb = None"
    and "unmaps x" and c: "transfer_counts x" "interrupts_bounded x budget"
  obtains n t where "hipFileIo x nb type fh buf sz fo bo (DriverState_getBackends x) s = Some (Ret n, t)"
    "drv_inv EB EF ES t"
proof -
  obtain r t where io: "hipFileIo x nb type fh buf sz fo bo (DriverState_getBackends x) s = Some (r, t)"
    using hipFileIo_returns [of "DriverState_getBackends x" type sz fo bo x nb fh buf s]
      getBackends_return [OF c] by fastforce
  have "r \<noteq> Terminate"
  proof
    assume "r = Terminate"
    from hipFileIo_Terminate [OF inv fresh getBackends_contract io [unfolded this]] show False
      using getBackends_not_terminate [OF \<open>unmaps x\<close>] by metis
  qed
  with hipFileIo_spec [OF inv fresh getBackends_contract io] that io show thesis by blast
qed

lemma match_cufile_Ret: "\<exists>m w. match_cufile x n s = (Ret m, s\<lparr>world := w\<rparr>)"
  by (auto simp: match_cufile_def set_errno_def cxx_defs world_unchanged)

lemma hipFileRead_total:
  assumes "drv_inv EB EF ES s" and "buf_heap s nb = None"
    and "unmaps x" and "transfer_counts x" "interrupts_bounded x budget"
  shows "\<exists>n t. hipFileRead x nb fh buf sz fo bo s = Some (Ret n, t) \<and> drv_inv EB EF ES t"
    and "\<exists>n t. hipFileWrite x nb fh buf sz fo bo s = Some (Ret n, t) \<and> drv_inv EB EF ES t"
proof -
  have *: "\<exists>n t. obind (hipFileIo x nb type fh buf sz fo bo (DriverState_getBackends x))
      (\<lambda>result. olift (match_cufile x result)) s = Some (Ret n, t) \<and> drv_inv EB EF ES t" for type
  proof -
    obtain n t where t: "hipFileIo x nb type fh buf sz fo bo (DriverState_getBackends x) s = Some (Ret n, t)"
      "drv_inv EB EF ES t" by (rule hipFileIo_total [OF assms])
    obtain m w where "match_cufile x n t = (Ret m, t\<lparr>world := w\<rparr>)" using match_cufile_Ret [of x n t] by blast
    with t show ?thesis by (simp add: obind_def olift_def)
  qed
  from * show "\<exists>n t. hipFileRead x nb fh buf sz fo bo s = Some (Ret n, t) \<and> drv_inv EB EF ES t"
    and "\<exists>n t. hipFileWrite x nb fh buf sz fo bo s = Some (Ret n, t) \<and> drv_inv EB EF ES t"
    by (simp_all add: hipFileRead_def hipFileWrite_def)
qed

end
