(* ===== verification/Process_Safety.thy ===== *)
theory Process_Safety
  imports Api
begin

text \<open>
  A destructor that throws ends the process. The only destructors of the driver that call the
  system are those of file descriptors: when closing a descriptor does not fail, the operations of
  the driver never end the process.
\<close>

definition closes :: "'w ext \<Rightarrow> bool" where
  "closes x \<longleftrightarrow> (\<forall>fd w. fst (c_close x fd w) \<noteq> -1)"

lemma closesD: "closes x \<Longrightarrow> c_close x fd w \<noteq> (-1, w')"
  unfolding closes_def by (metis fst_conv)

lemma never_ends_FileDescriptor_dtor [intro]: "closes x \<Longrightarrow> never_ends (FileDescriptor_dtor x fd)"
  unfolding never_ends_def
  by (cases "m_managed fd \<and> m_fd fd \<noteq> -1") (auto simp: dtor_managed closesD split: prod.split)

lemma never_ends_file_dtors [intro]:
  assumes "closes x"
  shows "never_ends (optional_dtor x ofd)" "never_ends (File_dtor x f)" "never_ends (UnregisteredFile_dtor x uf)"
  using assms
  by (auto simp: optional_dtor_def File_dtor_def UnregisteredFile_dtor_def split: option.split)

lemma never_ends_File_drop [intro]: "closes x \<Longrightarrow> never_ends (File_drop x p)"
  using never_ends_file_dtors(2) by (fastforce simp: never_ends_def File_drop_def split: prod.split option.split)

lemma never_ends_erase [intro]:
  assumes "closes x"
  shows "never_ends (FileMap_erase_fd x fd)" "never_ends (FileMap_erase_fh x fh)"
  using never_ends_File_drop [OF assms]
  by (auto simp: never_ends_def FileMap_erase_fd_def FileMap_erase_fh_def split: option.split)

lemma never_ends_decrRefCount [intro]: "closes x \<Longrightarrow> never_ends (DriverState_decrRefCount x)"
  unfolding DriverState_decrRefCount_def BufferMap_clear_def FileMap_clear_def
  by (intro never_ends_cbind never_ends_cwhen never_ends_cfor never_ends_if never_ends_simps never_ends_File_drop)

lemma deregisterFile_not_terminate:
  assumes "closes x" and inv: "drv_inv EB EF ES s" and op: "DriverState_deregisterFile x fh s = (r, t)"
  shows "r \<noteq> Terminate"
proof
  assume r: "r = Terminate"
  have rc: "ref_count s \<noteq> 0"
    using op r by (auto simp: DriverState_deregisterFile_def cbind_def cget_def cthrow_def)
  with op have d: "FileMap_deregisterFile x fh s = (Terminate, t)"
    by (simp add: DriverState_deregisterFile_def cbind_def cget_def r)
  then obtain p where p: "file_lookup s fh = Some p"
    by (auto simp: FileMap_deregisterFile_def file_lookup_def split: option.splits)
  obtain f where "sp_obj p (file_heap s) = Some f"
    by (rule file_inv_fh [OF drv_inv_parts(2) [OF inv] p])
  moreover have "never_ends (cbind (FileMap_erase_fd x (File_clientFd f)) (\<lambda>_. FileMap_erase_fh x fh))"
    using assms(1) by auto
  ultimately show False
    using d p never_endsD [of "cbind (FileMap_erase_fd x (File_clientFd f)) (\<lambda>_. FileMap_erase_fh x fh)" s t]
    by (auto simp: FileMap_deregisterFile_def file_lookup_def split: if_splits)
qed

lemma hipFileHandleDeregister_not_terminate:
  assumes "closes x" and "drv_inv EB EF ES s" and "hipFileHandleDeregister x fh s = (r, t)"
  shows "r \<noteq> Terminate"
  using assms deregisterFile_not_terminate [OF assms(1,2), of fh]
  by (auto simp: hipFileHandleDeregister_def ccatch_def cret_def
      split: prod.splits outcome.splits if_splits)

lemma register_unregistered_not_terminate:
  assumes "closes x" and op: "register_unregistered x na uf s = (r, t)"
  shows "r \<noteq> Terminate"
proof -
  obtain r1 u where u: "DriverState_registerFile na uf s = (r1, u)" by fastforce
  have r1: "r1 \<noteq> Terminate"
    using u by (auto simp: DriverState_registerFile_def FileMap_registerFile_def cbind_def cmodify_def
        Let_def split: if_splits)
  let ?d = "UnregisteredFile_dtor x (case r1 of Ret _ \<Rightarrow> UnregisteredFile_moved uf | _ \<Rightarrow> uf)"
  from world_dtor_UnregisteredFile show ?thesis
    by (rule world_dtorE [of ?d u])
       (use op u r1 never_ends_file_dtors(3) [OF assms(1), THEN never_endsD] in
         \<open>auto simp: register_unregistered_def cscope_def cret_def cthrow_def split: outcome.splits\<close>)
qed

lemma hipFileHandleRegister_not_terminate:
  assumes "closes x" and op: "hipFileHandleRegister x na fhp descr s = (r, t)"
  shows "\<exists>e h. r = Ret (e, h)"
proof -
  have "UnregisteredFile_ctor x fd s \<noteq> (Terminate, u)" for fd u
    using world_only_apply(2) [OF world_only_UnregisteredFile_ctor, of x fd s Terminate u] by blast
  moreover have "register_unregistered x na uf u \<noteq> (Terminate, v)" for uf and u v :: "('a, 'b) drv_state_scheme"
    using register_unregistered_not_terminate [OF assms(1), of na uf u Terminate v] by blast
  ultimately show ?thesis
    using op by (auto simp: hipFileHandleRegister_def ccatch_def cbind_def cret_def
        split: prod.splits outcome.splits if_splits hipFileFileHandleType.splits)
qed

section \<open>Batches\<close>

lemma never_ends_BatchOperation_dtor [intro]: "closes x \<Longrightarrow> never_ends (BatchOperation_dtor x op)"
  unfolding BatchOperation_dtor_def Buffer_drop_def
  by (intro never_ends_cbind never_ends_File_drop never_ends_simps)

lemma pair_dtor_returns:
  assumes "closes x" and "drv_inv EB EF ES s" and "0 < EB (snd fb)" "0 < EF (fst fb)"
    and "file_buffer_pair_dtor x fb s = (r, t)"
  shows "r = Ret ()"
proof -
  have "never_ends (file_buffer_pair_dtor x fb)"
    unfolding file_buffer_pair_dtor_def Buffer_drop_def
    by (intro never_ends_cbind never_ends_File_drop never_ends_simps assms(1))
  with assms(5) file_buffer_pair_dtor_inv [OF assms(2-5)] show ?thesis by (auto dest: never_endsD)
qed

lemma BatchOperation_ctor_not_terminate:
  assumes "closes x" and inv: "drv_inv EB EF ES s" and b: "0 < EB b" and f: "0 < EF f"
  shows "BatchOperation_ctor x params b f s \<noteq> (Terminate, t)"
proof -
  let ?op = "\<lparr>bop_io_params = params, bop_buffer = b, bop_file = f\<rparr>"
  let ?s1 = "s\<lparr>buf_heap := sp_copy b (buf_heap s), file_heap := sp_copy f (file_heap s)\<rparr>"
  obtain ff bf where bf: "sp_obj b (buf_heap s) = Some bf" by (rule held_objects [OF inv b f])
  obtain r u where u: "BatchOperation_dtor x ?op ?s1 = (r, u)" by fastforce
  moreover have "r \<noteq> Terminate"
    using never_endsD [OF never_ends_BatchOperation_dtor [OF assms(1)]] u by metis
  ultimately have "r = Ret ()"
    using BatchOperation_dtor_inv [OF drv_inv_copy_held [OF inv b f] _ _ u] by simp
  with u bf show ?thesis
    by (auto simp: BatchOperation_ctor_def Let_def cunwind_def cbind_def BatchOperation_checks_eq cret_def)
qed

lemma submit_one_not_terminate:
  assumes "closes x" and inv: "drv_inv EB EF ES s" and fresh: "buf_heap s nb = None"
  shows "submit_one x nb params s \<noteq> (Terminate, t)"
proof
  assume c: "submit_one x nb params s = (Terminate, t)"
  obtain r1 u where u: "DriverState_getFileAndBuffer x nb (iop_fh params) (iop_devPtr_base params) s = (r1, u)"
    by fastforce
  note g = DriverState_getFileAndBuffer_inv [OF inv fresh u]
  obtain fb where fb: "r1 = Ret fb" using c u g by (cases r1) (auto simp: submit_one_def cbind_def)
  let ?f = "fst fb" and ?b = "snd fb"
  let ?EB = "EB(?b := Suc (EB ?b))" and ?EF = "EF(?f := Suc (EF ?f))"
  from g fb have i1: "drv_inv ?EB ?EF ES u" by auto
  have pos: "0 < ?EB ?b" "0 < ?EF ?f" by simp_all
  obtain r2 v where v: "BatchOperation_ctor x params ?b ?f u = (r2, v)" by fastforce
  note ct = BatchOperation_ctor_inv [OF i1 pos v]
  obtain r3 w where w: "file_buffer_pair_dtor x fb v = (r3, w)" by fastforce
  have r2: "r2 \<noteq> Terminate" using BatchOperation_ctor_not_terminate [OF assms(1) i1 pos] v by auto
  then have "r3 = Ret ()"
    using ct pair_dtor_returns [OF assms(1) _ _ _ w] by (cases r2) auto
  with c u fb v w r2 show False
    by (auto simp: submit_one_def cbind_def cscope_def split: outcome.splits)
qed

lemma submit_loop_not_terminate:
  assumes "closes x"
    and "drv_inv (own_sum (ops_buffers pending) EB) (own_sum (ops_files pending) EF) ES s"
    and "distinct (map fst ps)" and "\<forall>p \<in> set ps. buf_heap s (fst p) = None"
  shows "submit_loop x pending ps s \<noteq> (Terminate, t)"
  using assms
proof (induction ps arbitrary: pending s)
  case (Cons p ps)
  obtain r1 u where u: "submit_one x (fst p) (snd p) s = (r1, u)" by fastforce
  have fresh: "buf_heap s (fst p) = None" using Cons.prems(4) by simp
  note one = submit_one_inv [OF Cons.prems(2) fresh u]
  show ?case
  proof (cases r1)
    case (Ret op)
    with one have i1: "drv_inv (own_sum (ops_buffers (pending @ [op])) EB)
        (own_sum (ops_files (pending @ [op])) EF) ES u" unfolding ops_snoc by auto
    have "\<forall>q \<in> set ps. buf_heap u (fst q) = None"
      by (rule submit_one_rest_fresh [OF Cons.prems(2) u [unfolded Ret] Cons.prems(3,4)])
    with Cons.IH [OF assms(1) i1] Cons.prems(3) u Ret show ?thesis by simp
  next
    case (Exn e)
    with one have "drv_inv (own_sum (ops_buffers pending) EB) (own_sum (ops_files pending) EF) ES u" by simp
    note inv = this
    have "r = Ret ()" if d: "cfor pending (BatchOperation_dtor x) u = (r, v)" for r v
    proof -
      have "never_ends (cfor pending (BatchOperation_dtor x))"
        by (intro never_ends_cfor never_ends_BatchOperation_dtor assms(1))
      from never_endsD [OF this] d drop_ops_inv [OF inv d] show ?thesis by metis
    qed
    with u Exn show ?thesis by (auto split: prod.splits outcome.splits)
  qed (use submit_one_not_terminate [OF assms(1) Cons.prems(2) fresh] u in auto)
qed simp

lemma submit_operations_not_terminate:
  assumes "closes x" and "drv_inv EB EF ES s" and ctx: "batch_heap s p = Some (ctx, n)"
    and "distinct (map fst ps)" "\<forall>q \<in> set ps. buf_heap s (fst q) = None"
  shows "BatchContext_submit_operations x p ps s \<noteq> (Terminate, t)"
  using submit_loop_not_terminate [of x "[]" EB EF ES s ps, unfolded ops_Nil, OF assms(1,2,4,5)] ctx
  by (auto simp: BatchContext_submit_operations_def cbind_def cmodify_def split: prod.splits outcome.splits)

end
