(* ===== verification/Sample_Platform.thy ===== *)
theory Sample_Platform
  imports Io Process_Safety
begin

text \<open>
  A small platform on which the definitions run: a world with memory, files behind descriptors,
  an \<^verbatim>\<open>errno\<close>, a number of interruptions still to come and at most one libmount context, and the
  external functions over it.
  The examples of the development evaluate hipFile on this platform; it also shows that the
  documented behaviour that some theorems rely on can be had.
\<close>

section \<open>The world and the external functions\<close>

record sample =
  sm_mem :: "ptr \<Rightarrow> byte"
  sm_file :: "int \<Rightarrow> byte list"
  sm_errno :: int
  sm_interrupts :: nat
  sm_context :: bool

definition sample_max_file :: nat where "sample_max_file = 64"

definition sample_content :: "sample \<Rightarrow> int \<Rightarrow> byte list" where
  "sample_content w fd = take sample_max_file (sm_file w fd)"

text \<open>A transfer is interrupted as long as interruptions are left.\<close>

definition sample_interrupted :: "sample \<Rightarrow> sample" where
  "sample_interrupted w = w\<lparr>sm_interrupts := sm_interrupts w - 1, sm_errno := EINTR\<rparr>"

definition copy_in :: "ptr \<Rightarrow> nat \<Rightarrow> (nat \<Rightarrow> byte) \<Rightarrow> (ptr \<Rightarrow> byte) \<Rightarrow> ptr \<Rightarrow> byte" where
  "copy_in p n src m = (\<lambda>a. if a - p < of_nat n then src (unat (a - p)) else m a)"

definition sample_pread :: "int \<Rightarrow> ptr \<Rightarrow> size_t \<Rightarrow> hoff_t \<Rightarrow> sample \<Rightarrow> int \<times> sample" where
  "sample_pread fd p n off w =
     (if 0 < sm_interrupts w then (-1, sample_interrupted w)
      else let c = sample_content w fd; at = nat (sint off); k = min (unat n) (length c - at)
           in (int k, w\<lparr>sm_mem := copy_in p k (\<lambda>i. c ! (at + i)) (sm_mem w)\<rparr>))"

definition sample_pwrite :: "int \<Rightarrow> ptr \<Rightarrow> size_t \<Rightarrow> hoff_t \<Rightarrow> sample \<Rightarrow> int \<times> sample" where
  "sample_pwrite fd p n off w =
     (if 0 < sm_interrupts w then (-1, sample_interrupted w)
      else let c = sample_content w fd; at = nat (sint off); k = min (unat n) (sample_max_file - at)
           in (int k, w\<lparr>sm_file := (sm_file w)(fd :=
                  write_at c at (map (\<lambda>i. sm_mem w (p + of_nat i)) [0..<k]))\<rparr>))"

definition sample_memcpy :: "ptr \<Rightarrow> ptr \<Rightarrow> size_t \<Rightarrow> hipMemcpyKind \<Rightarrow> sample \<Rightarrow> hipError_t \<times> sample" where
  "sample_memcpy dst src n kind w =
     (hipSuccess, w\<lparr>sm_mem := copy_in dst (unat n) (\<lambda>i. sm_mem w (src + of_nat i)) (sm_mem w)\<rparr>)"

text \<open>Device memory starts at \<^term>\<open>2 ^ 32 :: nat\<close>; host mappings lie below.\<close>

definition sample_device_base :: ptr where "sample_device_base = 0x100000000"

definition sample_mmap :: "size_t \<Rightarrow> sample \<Rightarrow> ptr \<times> sample" where
  "sample_mmap n w = (if n \<le> 0x10000000 then 0x1000 else -1, w)"

text \<open>The device sees the pinned memory of the host at other addresses than the host.\<close>

definition sample_pinned_shift :: ptr where "sample_pinned_shift = 0x40000000"

definition sample_dev :: "ptr \<Rightarrow> ptr" where
  "sample_dev a = (if sample_pinned_shift \<le> a \<and> a < 0x80000000 then a - sample_pinned_shift else a)"

text \<open>The direct transfer functions of the runtime, by the addresses of their symbols.\<close>

definition sample_file_fn ::
  "ptr \<Rightarrow> int \<Rightarrow> ptr \<Rightarrow> 64 word \<Rightarrow> 64 word \<Rightarrow> sample \<Rightarrow> (hipError_t \<times> 64 word \<times> int) \<times> sample" where
  "sample_file_fn fn fd p n off w =
     (case (if fn = 0x10 then sample_pread fd p n off w else sample_pwrite fd p n off w) of
        (r, w') \<Rightarrow> if r < 0 then ((hipErrorInvalidValue, 0, EINTR), w')
                  else ((hipSuccess, word_of_int r, 0), w'))"

definition sample_ext :: "(string \<Rightarrow> string option) \<Rightarrow> sample ext" where
  "sample_ext env =
     \<lparr>c_errno = sm_errno, c_set_errno = (\<lambda>e w. w\<lparr>sm_errno := e\<rparr>),
      c_open = (\<lambda>path flags mode w. (if flags AND O_DIRECT \<noteq> 0 then 11 else 10, w)),
      c_close = (\<lambda>fd w. (0, w)),
      c_fdatasync = (\<lambda>fd w. (0, w)),
      c_mmap = (\<lambda>addr n prot flags fd off w. sample_mmap n w),
      c_munmap = (\<lambda>p n w. (0, w)),
      c_pread = sample_pread, c_pwrite = sample_pwrite,
      c_statx = (\<lambda>fd path flags m w.
        ((0, \<lparr>stx_mask = m, stx_mode = S_IFREG, stx_dev_major = 8, stx_dev_minor = 1,
              stx_dio_mem_align = 4, stx_dio_offset_align = 4\<rparr>), w)),
      c_fcntl = (\<lambda>fd op arg w. (2, w)),
      c_syslog = (\<lambda>prio msg w. w),
      c_makedev = (\<lambda>ma mi. ucast ma * 256 + ucast mi),
      c_getenv = env,
      c_sysconf_pagesize = 4096,
      hip_code = (\<lambda>e. case e of hipSuccess \<Rightarrow> 0 | hipErrorInvalidValue \<Rightarrow> 1 | hipErrorOutOfMemory \<Rightarrow> 2
                      | hipErrorNotFound \<Rightarrow> 500 | hipError_enum n \<Rightarrow> 1000 + int n),
      hip_RuntimeGetVersion = (hipSuccess, 70000000),
      hip_GetProcAddress = (\<lambda>symbol version flags.
        (hipSuccess, if symbol = ''hipAmdFileRead'' then 0x10 else 0x20)),
      hip_PointerGetAttributes = (\<lambda>p w.
        ((hipSuccess, \<lparr>attr_type = (if sample_device_base \<le> p then hipMemoryTypeDevice else hipMemoryType_enum 1),
                       attr_device = 0\<rparr>), w)),
      hip_MemGetAddressRange = (\<lambda>p w. ((hipSuccess, sample_device_base, 0x1000000), w)),
      hip_Memcpy = sample_memcpy,
      hip_StreamSynchronize = (\<lambda>st w. (hipSuccess, w)),
      hip_StreamGetDevice = (\<lambda>st w. ((hipSuccess, 0), w)),
      hip_DeviceGetAttribute = (\<lambda>d w. ((hipSuccess, 1024), w)),
      hip_HostMalloc = (\<lambda>n flags w. ((hipSuccess, if n = 192 then 0x20000000 else 0x30000000), w)),
      hip_HostFree = (\<lambda>p w. (hipSuccess, w)),
      hip_HostGetDevicePointer = (\<lambda>p flags w. ((hipSuccess, p + sample_pinned_shift), w)),
      hip_LaunchHostFunc = (\<lambda>st fn arg w. (hipSuccess, w)),
      hip_LaunchKernel = (\<lambda>n m arg shared st w. (hipSuccess, w)),
      sizeof_AsyncOpFallback = 192,
      mem_load = (\<lambda>a w. sm_mem w (sample_dev a)),
      mem_store = (\<lambda>a b w. w\<lparr>sm_mem := (sm_mem w)(sample_dev a := b)\<rparr>),
      hip_Init = (\<lambda>flags w. (hipSuccess, w)),
      call_file_fn = sample_file_fn,
      mnt_new_context = (\<lambda>w. if sm_context w then (0, w) else (0x30, w\<lparr>sm_context := True\<rparr>)),
      mnt_free_context = (\<lambda>c w. if c = 0x30 then w\<lparr>sm_context := False\<rparr> else w),
      mnt_context_get_mtab = (\<lambda>c w. ((0, 0x40), w)),
      mnt_table_find_devno = (\<lambda>t dev w. (0x50, w)),
      mnt_fs_get_fstype = (\<lambda>fs w. (''ext4'', w)),
      mnt_fs_get_option = (\<lambda>fs name w. ((0, ''ordered''), w))\<rparr>"

text \<open>Two configurations: the defaults, and compatibility mode forced.\<close>

definition sample_fast :: "sample ext" where "sample_fast = sample_ext (\<lambda>_. None)"

definition sample_compat :: "sample ext" where
  "sample_compat = sample_ext [''HIPFILE_FORCE_COMPAT_MODE'' \<mapsto> ''true'']"

lemmas sample_defs = sample_fast_def sample_compat_def sample_ext_def

section \<open>The platform behaves as documented\<close>

definition sample_view :: "sample view" where
  "sample_view = \<lparr>v_mem = sm_mem, v_file = sample_content, v_live = (\<lambda>w. {a. sample_device_base \<le> a}),
     v_dev = sample_dev\<rparr>"

lemma region_iff: "a \<in> region p n \<longleftrightarrow> unat (a - p) < n"
proof
  assume "a \<in> region p n"
  then obtain i where i: "i < n" "a = p + of_nat i" by (auto simp: region_def)
  have "unat (of_nat i :: ptr) \<le> i" by (simp add: unat_of_nat)
  with i show "unat (a - p) < n" by simp
next
  assume "unat (a - p) < n"
  from region_mem [OF this, of p] show "a \<in> region p n" by simp
qed

lemma copy_in_outside: "a \<notin> region p n \<Longrightarrow> copy_in p n f m a = m a"
proof -
  assume a: "a \<notin> region p n"
  have "unat (of_nat n :: ptr) \<le> n" by (simp add: unat_of_nat)
  with a show ?thesis by (auto simp: copy_in_def region_iff word_less_nat_alt)
qed

lemma copy_in_inside: "i < n \<Longrightarrow> n < 2 ^ 64 \<Longrightarrow> copy_in p n f m (p + of_nat i) = f i"
  by (simp add: copy_in_def word_less_nat_alt unat_of_nat)

lemma sample_content_length: "length (sample_content w fd) \<le> 64"
  by (simp add: sample_content_def sample_max_file_def)

lemma copy_in_count:
  "a \<notin> region p (unat (n :: size_t)) \<Longrightarrow> copy_in p (min (unat n) k) f m a = m a"
  using region_mono [of "min (unat n) k" "unat n" p] by (intro copy_in_outside) auto

lemma unat_min_lt: "min (unat (n :: size_t)) k < 2 ^ 64"
  using unsigned_less [where 'a = nat, of n] by (simp add: min_def)

lemma copy_in_word:
  "i < unat (n :: size_t) \<Longrightarrow> copy_in p (unat n) f m (p + of_nat i) = f i"
  using unsigned_less [where 'a = nat, of n] by (intro copy_in_inside) simp_all

lemma sample_pread_documented: "documented_pread (sample_ext env) sample_view"
  unfolding documented_pread_def
proof (intro allI impI, elim conjE)
  fix fd p n off w r w'
  assume pr: "c_pread (sample_ext env) fd p n off w = (r, w')" and off: "0 \<le> sint off"
  have len: "length (sample_content w fd) < 2 ^ 63"
    using sample_content_length [of w fd] by simp
  show "v_file sample_view w' = v_file sample_view w \<and> length (v_file sample_view w fd) < 2 ^ 63 \<and>
    (\<forall>a. a \<notin> region p (unat n) \<longrightarrow> v_mem sample_view w' a = v_mem sample_view w a) \<and>
    (r = -1 \<or> 0 \<le> r \<and> nat r \<le> unat n \<and>
      (\<forall>i < nat r. v_mem sample_view w' (p + of_nat i) = v_file sample_view w fd ! (nat (sint off) + i)) \<and>
      (0 < r \<longrightarrow> nat (sint off) + nat r \<le> length (v_file sample_view w fd)) \<and>
      (r = 0 \<and> 0 < unat n \<longrightarrow> length (v_file sample_view w fd) \<le> nat (sint off)))"
  proof (cases "0 < sm_interrupts w")
    case True
    with pr len show ?thesis
      by (auto simp: sample_ext_def sample_pread_def sample_view_def sample_interrupted_def
          sample_content_def fun_eq_iff)
  next
    case False
    let ?k = "min (unat n) (length (sample_content w fd) - nat (sint off))"
    have r: "r = int ?k" "w' = w\<lparr>sm_mem := copy_in p ?k (\<lambda>i. sample_content w fd ! (nat (sint off) + i)) (sm_mem w)\<rparr>"
      using pr False by (auto simp: sample_ext_def sample_pread_def Let_def)
    have "v_file sample_view w' = v_file sample_view w"
      by (simp add: sample_view_def r(2) sample_content_def fun_eq_iff)
    moreover have "\<forall>i < ?k. v_mem sample_view w' (p + of_nat i) = v_file sample_view w fd ! (nat (sint off) + i)"
      using copy_in_inside [OF _ unat_min_lt] by (simp add: sample_view_def r(2))
    moreover have "\<forall>a. a \<notin> region p (unat n) \<longrightarrow> v_mem sample_view w' a = v_mem sample_view w a"
      using copy_in_count by (simp add: sample_view_def r(2))
    moreover have "v_file sample_view w fd = sample_content w fd" by (simp add: sample_view_def)
    ultimately show ?thesis using len r(1) by auto
  qed
qed

lemma sample_pwrite_documented: "documented_pwrite (sample_ext env) sample_view"
  unfolding documented_pwrite_def
proof (intro allI impI, elim conjE)
  fix fd p n off w r w'
  assume pw: "c_pwrite (sample_ext env) fd p n off w = (r, w')" and off: "0 \<le> sint off"
  let ?at = "nat (sint off)"
  let ?k = "min (unat n) (sample_max_file - ?at)"
  let ?new = "write_at (sample_content w fd) ?at (map (\<lambda>i. sm_mem w (p + of_nat i)) [0..<?k])"
  have at: "?at < 2 ^ 63" using sint_lt [of off] by simp
  have "length ?new \<le> sample_max_file"
    using sample_content_length [of w fd]
    by (auto simp: write_at_def sample_max_file_def min_def)
  then have new: "take sample_max_file ?new = ?new" by simp
  show "v_mem sample_view w' = v_mem sample_view w \<and>
    (r = -1 \<and> v_file sample_view w' fd = v_file sample_view w fd \<or>
     0 \<le> r \<and> nat r \<le> unat n \<and> ?at + nat r < 2 ^ 63 \<and>
     v_file sample_view w' fd = write_at (v_file sample_view w fd) ?at
       (map (\<lambda>i. v_mem sample_view w (p + of_nat i)) [0..<nat r]))"
  proof (cases "0 < sm_interrupts w")
    case True
    with pw show ?thesis
      by (auto simp: sample_ext_def sample_pwrite_def sample_view_def sample_interrupted_def
          sample_content_def)
  next
    case False
    have r: "r = int ?k" "w' = w\<lparr>sm_file := (sm_file w)(fd := ?new)\<rparr>"
      using pw False by (auto simp: sample_ext_def sample_pwrite_def Let_def)
    have "?at + ?k < 2 ^ 63" using at by (auto simp: min_def sample_max_file_def)
    moreover have "sample_content w' fd = take sample_max_file (sm_file w' fd)" "sm_file w' fd = ?new"
      by (simp_all only: sample_content_def r(2)) simp
    ultimately show ?thesis using new by (simp add: sample_view_def r(1)) (simp add: r(2))
  qed
qed

lemma sample_memcpy_documented: "documented_memcpy (sample_ext env) sample_view"
  by (auto simp: documented_memcpy_def sample_ext_def sample_memcpy_def sample_view_def copy_in_outside copy_in_word
      sample_content_def fun_eq_iff)

lemma sample_mmap_documented: "documented_mmap (sample_ext env) sample_view"
proof -
  have "a < sample_device_base" if "a \<in> region 0x1000 (unat n)" "n \<le> (0x10000000 :: size_t)" for a n
  proof -
    from that obtain i where i: "i < unat n" "a = 0x1000 + of_nat i" by (auto simp: region_def)
    have "unat n \<le> 0x10000000" using that(2) by (simp add: word_le_nat_alt)
    with i have "unat a = 0x1000 + i" by (simp add: unat_word_ariths unat_of_nat)
    with i \<open>unat n \<le> 0x10000000\<close> show ?thesis
      by (simp add: word_less_nat_alt sample_device_base_def)
  qed
  then show ?thesis
    by (force simp: documented_mmap_def sample_ext_def sample_mmap_def sample_view_def)
qed

lemma sample_munmap_documented: "documented_munmap (sample_ext env) sample_view"
  by (simp add: documented_munmap_def sample_ext_def)

lemma sample_syncs_documented: "documented_syncs (sample_ext env) sample_view"
  by (simp add: documented_syncs_def sample_ext_def)

lemma sample_transfer_counts: "transfer_counts (sample_ext env)"
  by (auto simp: transfer_counts_def sample_ext_def sample_pread_def sample_pwrite_def Let_def
      split: if_splits)

lemma sample_interrupts_bounded: "interrupts_bounded (sample_ext env) sm_interrupts"
  by (auto simp: interrupts_bounded_def sample_ext_def sample_pread_def sample_pwrite_def Let_def
      sample_interrupted_def sample_memcpy_def split: if_splits)

lemma sample_hip_code: "\<forall>h. 0 \<le> hip_code (sample_ext env) h"
  by (simp add: sample_ext_def split: hipError_t.split)

definition sample_contexts :: "sample \<Rightarrow> ptr set" where
  "sample_contexts w = (if sm_context w then {0x30} else {})"

lemma sample_mnt_ledger: "mnt_ledger (sample_ext env) sample_contexts"
  by (simp add: mnt_ledger_def sample_ext_def sample_contexts_def)

lemma sample_closes: "closes (sample_ext env)"
  by (simp add: closes_def sample_ext_def)

lemmas sample_documented =
  sample_pread_documented sample_pwrite_documented sample_memcpy_documented sample_mmap_documented
  sample_munmap_documented sample_syncs_documented sample_transfer_counts sample_interrupts_bounded
  sample_hip_code

section \<open>A driver in use\<close>

text \<open>
  The library before its first call, and after a client opened the driver and registered the file
  behind descriptor 3 and a device buffer of 64 bytes, through the functions of the interface.
\<close>

definition sample_world :: "nat \<Rightarrow> sample" where
  "sample_world n =
     \<lparr>sm_mem = (\<lambda>a. ucast a), sm_file = (\<lambda>fd. if fd = 3 then [72, 73, 80, 70, 73, 76, 69] else []),
      sm_errno = 0, sm_interrupts = n, sm_context = False\<rparr>"

definition sample_init :: "nat \<Rightarrow> sample batch_state" where
  "sample_init n =
     \<lparr>world = sample_world n, m_fastpath_override = None, m_fallback_override = None,
      buf_heap = Map.empty, from_ptr = [],
      file_heap = Map.empty, from_fd = [], from_fh = [],
      stream_heap = Map.empty, from_stream = [],
      ref_count = 0, m_stats = Some (Stats_init\<lparr>st_level := 1\<rparr>), hip_inited = False,
      batch_heap = Map.empty, active_contexts = []\<rparr>"

definition sample_descr :: hipFileDescr_t where
  "sample_descr = \<lparr>descr_type = hipFileHandleTypeOpaqueFD, descr_fd = 3, descr_hFile = 0, descr_fs_ops = 0\<rparr>"

definition sample_fh :: ptr where "sample_fh = 0x5000"
definition sample_buf :: ptr where "sample_buf = 0x100000000"
definition sample_bufobj :: ptr where "sample_bufobj = 0x6000"

definition sample_open :: "sample ext \<Rightarrow> nat \<Rightarrow> sample batch_state" where
  "sample_open x n = snd (hipFileHandleRegister x sample_fh 0x7000 (Some sample_descr) (sample_init n))"

definition sample_ready :: "sample ext \<Rightarrow> nat \<Rightarrow> sample batch_state" where
  "sample_ready x n = snd (hipFileBufRegister x sample_bufobj sample_buf 64 0 (sample_open x n))"

lemmas sample_consts = sample_fh_def sample_buf_def sample_bufobj_def sample_descr_def

lemma sample_init_inv: "drv_inv (\<lambda>_. 0) (\<lambda>_. 0) (\<lambda>_. 0) (sample_init n)"
  by (simp add: drv_inv_def buf_inv_def file_inv_def stream_inv_def sample_init_def tbl_inv_def
      sp_owned_def own_sum_def table_uses_def file_entries_ok_def entry_ok_def)

lemma sample_open_inv:
  assumes "fst (hipFileHandleRegister x sample_fh 0x7000 (Some sample_descr) (sample_init n)) = Ret r"
  shows "drv_inv (\<lambda>_. 0) (\<lambda>_. 0) (\<lambda>_. 0) (sample_open x n)"
proof -
  obtain e h where r: "r = (e, h)" by (cases r)
  have "hipFileHandleRegister x sample_fh 0x7000 (Some sample_descr) (sample_init n) =
      (Ret (e, h), sample_open x n)"
    using assms r by (simp add: sample_open_def prod_eq_iff)
  from hipFileHandleRegister_spec [OF sample_init_inv _ _ this] show ?thesis
    by (simp add: sample_init_def sample_fh_def)
qed

lemma sample_ready_inv:
  assumes "fst (hipFileHandleRegister x sample_fh 0x7000 (Some sample_descr) (sample_init n)) = Ret r"
    and "buf_heap (sample_open x n) sample_bufobj = None"
  shows "drv_inv (\<lambda>_. 0) (\<lambda>_. 0) (\<lambda>_. 0) (sample_ready x n)"
proof -
  obtain r1 t where t: "DriverState_registerBuffer x sample_bufobj sample_buf 64 0 (sample_open x n) = (r1, t)"
    by fastforce
  have "drv_inv (\<lambda>_. 0) (\<lambda>_. 0) (\<lambda>_. 0) t" "r1 \<noteq> Terminate"
    using DriverState_registerBuffer_inv [OF sample_open_inv [OF assms(1)] assms(2) t] by simp_all
  with t show ?thesis
    by (cases r1) (auto simp: sample_ready_def hipFileBufRegister_def cxx_defs split: exn.splits if_splits)
qed

text \<open>
  A client in compatibility mode, with one interruption to come or with none, and one on the
  fast path.
\<close>

definition compat_client :: "sample batch_state" where "compat_client = sample_ready sample_compat 1"
definition calm_client :: "sample batch_state" where "calm_client = sample_ready sample_compat 0"
definition fast_client :: "sample batch_state" where "fast_client = sample_ready sample_fast 0"

lemma client_inv:
  "drv_inv (\<lambda>_. 0) (\<lambda>_. 0) (\<lambda>_. 0) compat_client" "drv_inv (\<lambda>_. 0) (\<lambda>_. 0) (\<lambda>_. 0) fast_client"
  "drv_inv (\<lambda>_. 0) (\<lambda>_. 0) (\<lambda>_. 0) calm_client"
  unfolding compat_client_def fast_client_def calm_client_def by (rule sample_ready_inv; code_simp)+

end
