(* ===== verification/Io_Properties.thy ===== *)
theory Io_Properties
  imports Sample_Platform
begin

text \<open>
  Properties of synchronous IO: what a read and a write do to memory and files, that they return,
  that they leave no use of a registered object behind, and how the backend that serves a request
  is chosen. Each is followed by an example on the sample platform.
\<close>

section \<open>The example client\<close>

lemma compat_objects:
  "file_lookup compat_client sample_fh = Some sample_fh"
  "map_option File_bufferedFd (sp_obj sample_fh (file_heap compat_client)) = Some 3"
  "buf_lookup compat_client sample_buf = Some sample_bufobj"
  "map_option b_length (sp_obj sample_bufobj (buf_heap compat_client)) = Some 64"
  "buf_heap compat_client 0x8000 = None"
  "\<not> Configuration_fastpath sample_compat compat_client"
  "sample_content (world compat_client) 3 = [72, 73, 80, 70, 73, 76, 69]"
  by code_simp+

lemma calm_objects:
  "file_lookup calm_client sample_fh = Some sample_fh"
  "map_option File_bufferedFd (sp_obj sample_fh (file_heap calm_client)) = Some 3"
  "buf_lookup calm_client sample_buf = Some sample_bufobj"
  "map_option b_length (sp_obj sample_bufobj (buf_heap calm_client)) = Some 64"
  "buf_heap calm_client 0x8000 = None"
  "\<not> Configuration_fastpath sample_compat calm_client"
  "sample_content (world calm_client) 3 = [72, 73, 80, 70, 73, 76, 69]"
  by code_simp+

lemma compat_live: "region sample_buf 64 \<subseteq> v_live sample_view w"
proof
  fix a
  assume "a \<in> region sample_buf 64"
  then obtain i where i: "i < 64" "a = sample_buf + of_nat i" by (auto simp: region_def)
  then have "unat a = 0x100000000 + i" by (simp add: sample_buf_def unat_word_ariths unat_of_nat)
  then show "a \<in> v_live sample_view w"
    by (simp add: sample_view_def sample_device_base_def word_le_nat_alt)
qed

lemmas sample_world_facts = sample_documented
  [of "[''HIPFILE_FORCE_COMPAT_MODE'' \<mapsto> ''true'']", folded sample_compat_def]

section \<open>Reads and writes\<close>

text \<open>
  C1: when \<^verbatim>\<open>hipFileRead\<close> on a registered file and a registered buffer returns a positive count
  from the fallback backend, the count is at most the requested size (capped at the kernel's
  limit), exactly those bytes of the file, from the given offset on, are in the buffer at the
  given offset, nothing else of the mapped memory and nothing of any file has changed, and a
  short count means that the end of the file was reached.
\<close>

theorem hipFileRead_reads_the_file:
  fixes s t :: "('w, 'z) stats_state_scheme"
  assumes "drv_inv EB EF ES s" and "buf_heap s nb = None"
    and "\<forall>h. 0 \<le> hip_code x h" and "\<not> Configuration_fastpath x s"
    and "documented_pread x v" "documented_memcpy x v" "documented_mmap x v" "documented_munmap x v"
    and "file_lookup s fh = Some fp" "sp_obj fp (file_heap s) = Some f"
    and "buf_lookup s buf = Some bp" "sp_obj bp (buf_heap s) = Some b"
    and "region buf (unat (b_length b)) \<subseteq> v_live v (world s)"
    and "hipFileRead x nb fh buf sz fo bo s = Some (Ret n, t)" and "0 < n"
  shows "nat n \<le> unat (min sz (max_rw_count x)) \<and>
    nat (sint fo) + nat n \<le> length (v_file v (world s) (File_bufferedFd f)) \<and>
    (\<forall>i < nat n. v_mem v (world t) (buf + bo + of_nat i) =
       v_file v (world s) (File_bufferedFd f) ! (nat (sint fo) + i)) \<and>
    (\<forall>a \<in> v_live v (world s) - region (buf + bo) (nat n). v_mem v (world t) a = v_mem v (world s) a) \<and>
    v_file v (world t) = v_file v (world s) \<and>
    (nat n < unat (min sz (max_rw_count x)) \<longrightarrow>
       length (v_file v (world s) (File_bufferedFd f)) = nat (sint fo) + nat n)"
  using hipFileRead_bytes [OF assms] assms(15) by (auto simp: read_inv_def)

theorem hipFileRead_reads_the_file_witness:
  "\<exists>t. hipFileRead sample_compat 0x8000 sample_fh sample_buf 10 1 8 compat_client = Some (Ret 6, t) \<and>
     (\<forall>i < 6. sm_mem (world t) (sample_buf + 8 + of_nat i) =
        [72, 73, 80, 70, 73, 76, 69] ! (1 + i))"
proof -
  have "map_option fst (hipFileRead sample_compat 0x8000 sample_fh sample_buf 10 1 8 compat_client) =
      Some (Ret 6)" by code_simp
  then obtain t where t:
    "hipFileRead sample_compat 0x8000 sample_fh sample_buf 10 1 8 compat_client = Some (Ret 6, t)"
    by auto
  obtain f b where f: "sp_obj sample_fh (file_heap compat_client) = Some f" "File_bufferedFd f = 3"
    and b: "sp_obj sample_bufobj (buf_heap compat_client) = Some b" "b_length b = 64"
    using compat_objects(2,4) by auto
  note r = hipFileRead_reads_the_file [where v = sample_view, OF client_inv(1) compat_objects(5)
      sample_world_facts(9) compat_objects(6) sample_world_facts(1,3,4,5) compat_objects(1) f(1)
      compat_objects(3) b(1) _ t]
  have "\<forall>i < 6. sm_mem (world t) (sample_buf + 8 + of_nat i) = sample_content (world compat_client) 3 ! (1 + i)"
    using r compat_live [of "world compat_client"] f b by (simp add: sample_view_def)
  with t show ?thesis unfolding compat_objects(7) by blast
qed

text \<open>
  C2: when \<^verbatim>\<open>hipFileWrite\<close> returns a positive count from the fallback backend, that many
  bytes of the buffer are in the file from the given offset on; the file is unchanged outside the
  requested range and no longer than the range requires, and no mapped memory has changed. Behind the reported
  count, but inside the requested range, a byte may be old or already written: when a system call is interrupted
  after its data reached the file, the transfer is repeated and may then be shorter. Each byte of
  the file is the old one, the byte that the request has for that place, or a zero in a gap between the
  old end and the offset.
\<close>

theorem hipFileWrite_writes_the_file:
  fixes s t :: "('w, 'z) stats_state_scheme"
  assumes "drv_inv EB EF ES s" and "buf_heap s nb = None"
    and "\<forall>h. 0 \<le> hip_code x h" and "\<not> Configuration_fastpath x s"
    and "documented_memcpy x v" "documented_pwrite x v" "documented_syncs x v"
      "documented_mmap x v" "documented_munmap x v"
    and "file_lookup s fh = Some fp" "sp_obj fp (file_heap s) = Some f"
    and "buf_lookup s buf = Some bp" "sp_obj bp (buf_heap s) = Some b"
    and "region buf (unat (b_length b)) \<subseteq> v_live v (world s)"
    and "hipFileWrite x nb fh buf sz fo bo s = Some (Ret n, t)" and "0 < n"
  shows "nat n \<le> unat (min sz (max_rw_count x)) \<and>
    (\<forall>i < nat n. nat (sint fo) + i < length (v_file v (world t) (File_bufferedFd f)) \<and>
       v_file v (world t) (File_bufferedFd f) ! (nat (sint fo) + i) = v_mem v (world s) (buf + bo + of_nat i)) \<and>
    (\<forall>j < length (v_file v (world s) (File_bufferedFd f)).
       j < nat (sint fo) \<or> nat (sint fo) + unat (min sz (max_rw_count x)) \<le> j \<longrightarrow>
       v_file v (world t) (File_bufferedFd f) ! j = v_file v (world s) (File_bufferedFd f) ! j) \<and>
    length (v_file v (world s) (File_bufferedFd f)) \<le> length (v_file v (world t) (File_bufferedFd f)) \<and>
    length (v_file v (world t) (File_bufferedFd f)) \<le>
      max (length (v_file v (world s) (File_bufferedFd f))) (nat (sint fo) + unat (min sz (max_rw_count x))) \<and>
    (\<forall>j < length (v_file v (world t) (File_bufferedFd f)).
       j < length (v_file v (world s) (File_bufferedFd f)) \<and>
         v_file v (world t) (File_bufferedFd f) ! j = v_file v (world s) (File_bufferedFd f) ! j \<or>
       nat (sint fo) \<le> j \<and> j < nat (sint fo) + unat (min sz (max_rw_count x)) \<and>
         v_file v (world t) (File_bufferedFd f) ! j = v_mem v (world s) (buf + bo + of_nat (j - nat (sint fo))) \<or>
       length (v_file v (world s) (File_bufferedFd f)) \<le> j \<and> j < nat (sint fo) \<and>
         v_file v (world t) (File_bufferedFd f) ! j = 0) \<and>
    (\<forall>a \<in> v_live v (world s). v_mem v (world t) a = v_mem v (world s) a)"
  using hipFileWrite_bytes [OF assms] unfolding write_inv_def byte_written_def by blast

theorem hipFileWrite_writes_the_file_witness:
  "\<exists>t. hipFileWrite sample_compat 0x8000 sample_fh sample_buf 4 5 8 calm_client = Some (Ret 4, t) \<and>
     (\<forall>i < 4. sample_content (world t) 3 ! (5 + i) = [8, 9, 10, 11] ! i) \<and>
     length (sample_content (world t) 3) \<le> 9"
proof -
  have "map_option fst (hipFileWrite sample_compat 0x8000 sample_fh sample_buf 4 5 8 calm_client) =
      Some (Ret 4)" by code_simp
  then obtain t where t:
    "hipFileWrite sample_compat 0x8000 sample_fh sample_buf 4 5 8 calm_client = Some (Ret 4, t)"
    by auto
  obtain f b where f: "sp_obj sample_fh (file_heap calm_client) = Some f" "File_bufferedFd f = 3"
    and b: "sp_obj sample_bufobj (buf_heap calm_client) = Some b" "b_length b = 64"
    using calm_objects(2,4) by auto
  note r = hipFileWrite_writes_the_file [where v = sample_view, OF client_inv(3) calm_objects(5)
      sample_world_facts(9) calm_objects(6) sample_world_facts(3,2,6,4,5) calm_objects(1) f(1)
      calm_objects(3) b(1) _ t]
  let ?m = "\<lambda>i. sm_mem (world calm_client) (sample_buf + 8 + of_nat i)"
  have m: "map ?m [0..<4] = [8, 9, 10, 11]" by code_simp
  have src: "?m i = [8, 9, 10, 11] ! i" if "i < 4" for i
    using that nth_map_upt [of i 4 0 ?m] by (simp only: m diff_zero add_0)
  have lim: "unat (min 4 (max_rw_count sample_compat)) = 4" by code_simp
  have "\<forall>i < 4. sample_content (world t) 3 ! (5 + i) = sm_mem (world calm_client) (sample_buf + 8 + of_nat i)"
    and "length (sample_content (world t) 3) \<le> 9"
    using r compat_live [of "world calm_client"] f b
    by (simp_all add: sample_view_def lim calm_objects(7))
  with t src show ?thesis by auto
qed

text \<open>
  C3: on a platform where transfers return counts within the request, are interrupted finitely
  often and mappings can be unmapped, \<^verbatim>\<open>hipFileRead\<close> and \<^verbatim>\<open>hipFileWrite\<close> always return a number
  (they do not loop forever, let no exception escape and do not end the process), and the driver
  keeps its invariant with the same outside uses: no file or buffer reference is leaked or
  dropped twice, on any path.
\<close>

theorem sync_io_returns_and_leaks_nothing:
  assumes "drv_inv EB EF ES s" and "buf_heap s nb = None"
    and "unmaps x" and "transfer_counts x" and "interrupts_bounded x budget"
  shows "(\<exists>n t. hipFileRead x nb fh buf sz fo bo s = Some (Ret n, t) \<and> drv_inv EB EF ES t) \<and>
    (\<exists>n t. hipFileWrite x nb fh buf sz fo bo s = Some (Ret n, t) \<and> drv_inv EB EF ES t)"
  using hipFileRead_total [OF assms] by blast

theorem sync_io_returns_and_leaks_nothing_witness:
  "\<exists>n t. hipFileRead sample_compat 0x8000 sample_fh sample_buf 4 0 8 compat_client = Some (Ret n, t) \<and>
     drv_inv (\<lambda>_. 0) (\<lambda>_. 0) (\<lambda>_. 0) t"
  using sync_io_returns_and_leaks_nothing [OF client_inv(1) compat_objects(5) _ sample_world_facts(7,8)]
  by (simp add: unmaps_def sample_defs)

section \<open>The choice of the backend\<close>

lemma select_backend_find:
  "select_backend sc m best bs =
     (case find (\<lambda>b. m < sc b \<and> (\<forall>c \<in> set bs. sc c \<le> sc b)) bs of None \<Rightarrow> best | Some b \<Rightarrow> Some b)"
proof (induction sc m best bs rule: select_backend.induct)
  case (2 sc m best c bs)
  show ?case
  proof (cases "m < sc c")
    case True
    have "(\<lambda>b. m < sc b \<and> (\<forall>d \<in> set (c # bs). sc d \<le> sc b)) b =
        (\<lambda>b. sc c < sc b \<and> (\<forall>d \<in> set bs. sc d \<le> sc b)) b"
      if "b \<in> set bs" "\<not> (\<forall>d \<in> set bs. sc d \<le> sc c)" for b
      using that True by force
    then have "find (\<lambda>b. m < sc b \<and> (\<forall>d \<in> set (c # bs). sc d \<le> sc b)) bs =
        find (\<lambda>b. sc c < sc b \<and> (\<forall>d \<in> set bs. sc d \<le> sc b)) bs"
      if "\<not> (\<forall>d \<in> set bs. sc d \<le> sc c)"
      using that by (intro find_cong) auto
    moreover have "find (\<lambda>b. sc c < sc b \<and> (\<forall>d \<in> set bs. sc d \<le> sc b)) bs = None"
      if "\<forall>d \<in> set bs. sc d \<le> sc c"
      using that by (force simp: find_None_iff)
    moreover have "find (\<lambda>b. sc c < sc b \<and> (\<forall>d \<in> set bs. sc d \<le> sc b)) bs \<noteq> None"
      if "\<not> (\<forall>d \<in> set bs. sc d \<le> sc c)"
    proof -
      from that obtain d where d: "d \<in> set bs" "sc c < sc d" by force
      then have "Max (sc ` set bs) \<in> sc ` set bs" by (intro Max_in) auto
      then obtain b where b: "b \<in> set bs" "sc b = Max (sc ` set bs)" by auto
      then have "\<forall>d \<in> set bs. sc d \<le> sc b" by simp
      moreover from this d have "sc c < sc b" by force
      ultimately show ?thesis using b(1) by (auto simp: find_None_iff)
    qed
    ultimately show ?thesis using 2(1) [OF True] True by (auto split: option.splits)
  next
    case False
    have "find (\<lambda>b. m < sc b \<and> (\<forall>d \<in> set (c # bs). sc d \<le> sc b)) bs =
        find (\<lambda>b. m < sc b \<and> (\<forall>d \<in> set bs. sc d \<le> sc b)) bs"
      using False by (intro find_cong) auto
    then show ?thesis using 2(2) [OF False] False by simp
  qed
qed simp

text \<open>
  C5: the loop that picks the backend finds the first backend whose score is not negative and not
  exceeded by another one, and none when every score is negative.
\<close>

theorem select_backend_is_first_best:
  "select_backend sc (-1) None bs = find (\<lambda>b. 0 \<le> sc b \<and> (\<forall>c \<in> set bs. sc c \<le> sc b)) bs"
proof -
  have eq: "(\<lambda>b. 0 \<le> sc b \<and> (\<forall>c \<in> set bs. sc c \<le> sc b)) = (\<lambda>b. -1 < sc b \<and> (\<forall>c \<in> set bs. sc c \<le> sc b))"
    by auto
  show ?thesis
    unfolding eq using select_backend_find [of sc "-1" None bs] by (simp split: option.splits)
qed

theorem select_backend_is_first_best_witness:
  "select_backend (\<lambda>b. if b = ''slow'' then 0 else if b = ''off'' then -1 else 100) (-1) None
     [''slow'', ''off'', ''fast'', ''fast2''] = Some ''fast''"
  unfolding select_backend_is_first_best by simp

text \<open>
  C6: a request goes to the fast path exactly when the fast path accepts it, otherwise to the
  fallback backend exactly when that one accepts it, and otherwise to none.
\<close>

theorem backend_for_request:
  "select_backend (\<lambda>be. be_score be f b sz fo bo s) (-1) None (DriverState_getBackends x) =
     (if Fastpath_score x f b sz fo bo s = 100 then Some (Fastpath_backend x (Some (Fallback_backend x)))
      else if Fallback_score x f b sz fo bo s = 0 then Some (Fallback_backend x) else None)"
  by (simp add: DriverState_getBackends_def Fallback_backend_def Fastpath_backend_def
      Fastpath_score_def Fallback_score_def Let_def)

text \<open>
  C7: the fast path accepts a request exactly when it is enabled, the file could be opened with
  \<^verbatim>\<open>O_DIRECT\<close>, the buffer is device memory, the offsets are not negative, the file is a block
  device or a regular file on a supported file system, and file offset, size and buffer address
  are multiples of the alignments (powers of two) of the file. The code tests the address of the buffer plus the
  offset in it, where the comment at the head of the file speaks of the offset alone; it tests a descriptor
  of its own with \<^verbatim>\<open>O_DIRECT\<close>, where the comment speaks of the flags of the client's open.
\<close>

theorem Fastpath_accepts_iff:
  assumes "unat (f_dio_offset_align f) = 2 ^ j" and "unat (f_dio_mem_align f) = 2 ^ k"
  shows "Fastpath_score x f b sz fo bo s = 100 \<longleftrightarrow>
    Configuration_fastpath x s \<and> f_unbuffered_fd f \<noteq> None \<and> b_type b = hipMemoryTypeDevice \<and>
    0 \<le> sint fo \<and> 0 \<le> sint bo \<and>
    (f_is_block_device f \<or> f_is_regular_file f \<and>
       (Configuration_unsupportedFileSystems x \<or> f_on_ext4_ordered f \<or> f_on_xfs f)) \<and>
    2 ^ j dvd unat fo \<and> 2 ^ j dvd unat sz \<and> 2 ^ k dvd unat (b_buffer b + bo)"
  by (rule Fastpath_score_iff [OF assms])

theorem Fastpath_accepts_iff_witness:
  "\<exists>f b. sp_obj sample_fh (file_heap fast_client) = Some f \<and>
     sp_obj sample_bufobj (buf_heap fast_client) = Some b \<and>
     Fastpath_score sample_fast f b 8 4 16 fast_client = 100 \<and>
     Fastpath_score sample_fast f b 6 4 16 fast_client \<noteq> 100"
proof -
  let ?ok = "\<lambda>f. f_dio_offset_align f = 4 \<and> f_dio_mem_align f = 4 \<and> f_unbuffered_fd f \<noteq> None \<and>
    f_is_regular_file f \<and> f_on_ext4_ordered f"
  have "map_option ?ok (sp_obj sample_fh (file_heap fast_client)) = Some True" by code_simp
  then obtain f where f: "sp_obj sample_fh (file_heap fast_client) = Some f" "?ok f" by auto
  have "map_option (\<lambda>b. b_type b = hipMemoryTypeDevice \<and> b_buffer b = sample_buf)
      (sp_obj sample_bufobj (buf_heap fast_client)) = Some True" by code_simp
  then obtain b where b: "sp_obj sample_bufobj (buf_heap fast_client) = Some b"
    "b_type b = hipMemoryTypeDevice" "b_buffer b = sample_buf" by auto
  have "Configuration_fastpath sample_fast fast_client" by code_simp
  with f b Fastpath_accepts_iff [of f 2 2 sample_fast b _ _ _ fast_client] show ?thesis
    by (simp add: sample_buf_def)
qed

text \<open>
  C8: an IO that the fast path could not serve is repeated by the fallback backend exactly when
  the transfer failed with \<^verbatim>\<open>ENODEV\<close> or \<^verbatim>\<open>EREMOTEIO\<close> and the fallback backend accepts the request;
  any other exception and any byte count reach the caller as they are.
\<close>

theorem Fastpath_falls_back:
  assumes "Fastpath_io_impl x type f b sz fo bo s = Some (r, t)"
  shows "Fastpath_io x (Some (Fallback_backend x)) type f b sz fo bo s =
    (case r of
       Exn (Std_system_error c) \<Rightarrow>
         if c \<in> {ENODEV, EREMOTEIO} \<and> Configuration_fallback x t \<and> b_type b = hipMemoryTypeDevice
         then Fallback_io x type f b sz fo bo t else Some (r, t)
     | Ret n \<Rightarrow>
         if 0 \<le> n then Some (r, t)
         else if - to_int32 n \<in> {ENODEV, EREMOTEIO} \<and> Configuration_fallback x t \<and>
                 b_type b = hipMemoryTypeDevice
         then Fallback_io x type f b sz fo bo t
         else Some (Exn (Std_system_error (- to_int32 n)), t)
     | _ \<Rightarrow> Some (r, t))"
  using assms
  by (auto simp: Fastpath_io_def BackendWithFallback_io_def retry_io_def Fallback_backend_def
      Fallback_score_def Fastpath_is_fallback_eligible_def Buffer_getType_def
      split: outcome.splits exn.splits if_splits)

theorem Fastpath_falls_back_witness:
  "\<exists>f b. Fastpath_io sample_compat (Some (Fallback_backend sample_compat)) IoRead f b 4 0 0 compat_client =
     Some (Exn BackendDisabled, compat_client)"
proof -
  have "Fastpath_io_impl sample_compat IoRead f b 4 0 0 compat_client =
      Some (Exn BackendDisabled, compat_client)" for f b
    using compat_objects(6) by (simp add: Fastpath_io_impl_def)
  from Fastpath_falls_back [OF this] show ?thesis by auto
qed

text \<open>
  C9: the parameter check, carried out in 64-bit signed and unsigned arithmetic, accepts exactly
  the requests whose offsets are not negative and whose bytes lie inside the buffer.
\<close>

theorem paramsValid_exact:
  "paramsValid b sz fo bo \<longleftrightarrow>
     0 \<le> sint fo \<and> 0 \<le> sint bo \<and> unat bo < unat (b_length b) \<and>
     unat bo + unat sz \<le> unat (b_length b)"
  by (rule paramsValid_iff)

end
