(* ===== verification/Driver_Properties.thy ===== *)
theory Driver_Properties
  imports Sample_Platform
begin

text \<open>
  Properties of the driver: registration and deregistration of buffers and files through the
  public functions, the protection of objects that an operation uses, opening and closing.
\<close>

section \<open>Buffers\<close>

lemma Buffer_ctor_not_status: "Buffer_ctor x buf len flags s \<noteq> (Exn (Thrown_hipFileError e), t)"
  by (auto simp: Buffer_ctor_def isValidBufferRegion_def hipPointerGetAttributes_def
      hipMemGetAddressRange_def hip_call1_def throwOnHipError_def cbind_def ccatch_def cret_def
      cthrow_def cxx_simps split: if_splits prod.splits outcome.splits)

lemma registerBuffer_not_status:
  "DriverState_registerBuffer x na buf len flags s \<noteq> (Exn (Thrown_hipFileError e), t)"
  by (auto simp: DriverState_registerBuffer_def BufferMap_registerBuffer_def cbind_def cmodify_def
      Buffer_ctor_not_status cget_def cthrow_def split: prod.splits outcome.splits if_splits)

text \<open>
  C10: \<^verbatim>\<open>hipFileBufRegister\<close> keeps the invariant of the driver and leaves it open, also when the registration
  fails (the guide to the driver says that a call that fails does not count); on success the buffer
  was not registered and is now bound to the new object, and no other binding changes; on failure
  no binding changes, and a buffer that was registered gives
  \<^verbatim>\<open>hipFileMemoryAlreadyRegistered\<close>.
\<close>

theorem hipFileBufRegister_outcome:
  assumes "drv_inv EB EF ES s" and "buf_heap s na = None"
    and "hipFileBufRegister x na buf len flags s = (r, t)"
  shows "\<exists>e. r = Ret e \<and> drv_inv EB EF ES t \<and> 0 < ref_count t \<and>
    (if err e = hipFileSuccess
     then buf_lookup s buf = None \<and> buf_lookup t = (buf_lookup s)(buf \<mapsto> na)
     else buf_lookup t = buf_lookup s) \<and>
    (buf_lookup s buf \<noteq> None \<longrightarrow> e = hipFile_status hipFileMemoryAlreadyRegistered)"
proof -
  obtain r1 u where u: "DriverState_registerBuffer x na buf len flags s = (r1, u)" by fastforce
  note spec = DriverState_registerBuffer_inv [OF assms(1,2) u]
  have twice: "r1 = Exn BufferAlreadyRegistered" if "buf_lookup s buf \<noteq> None"
    using u registerBuffer_present [of "implicit_init s" buf x na len flags] that
    by (simp add: DriverState_registerBuffer_def cbind_def cmodify_def implicit_init_def split: if_splits)
  show ?thesis
  proof (cases r1)
    case (Ret a)
    then have "r = Ret (hipFile_status hipFileSuccess)" "t = u"
      using assms(3) u by (simp_all add: hipFileBufRegister_def ccatch_def cbind_def cret_def)
    moreover have "buf_lookup s buf = None" using twice Ret by (cases "buf_lookup s buf") auto
    ultimately show ?thesis using spec Ret by simp
  next
    case (Exn ex)
    moreover from this u have "ex \<noteq> Thrown_hipFileError e" for e
      using registerBuffer_not_status by metis
    ultimately obtain e where e: "r = Ret e" "t = u" "err e \<noteq> hipFileSuccess"
      "ex = BufferAlreadyRegistered \<Longrightarrow> e = hipFile_status hipFileMemoryAlreadyRegistered"
      using assms(3) u
      by (cases ex) (auto simp: hipFileBufRegister_def ccatch_def cbind_def cret_def
          handle_exception_def split: if_splits)
    show ?thesis
      by (rule exI [of _ e]) (use e spec twice Exn in auto)
  qed (use spec in simp)
qed

theorem hipFileBufRegister_outcome_witness:
  "\<exists>t. hipFileBufRegister sample_fast 0x9000 sample_buf 64 0 fast_client =
     (Ret (hipFile_status hipFileMemoryAlreadyRegistered), t) \<and> drv_inv (\<lambda>_. 0) (\<lambda>_. 0) (\<lambda>_. 0) t"
proof -
  have fresh: "buf_heap fast_client 0x9000 = None" "buf_lookup fast_client sample_buf \<noteq> None" by code_simp+
  obtain r t where t: "hipFileBufRegister sample_fast 0x9000 sample_buf 64 0 fast_client = (r, t)"
    by fastforce
  from hipFileBufRegister_outcome [OF client_inv(2) fresh(1) t] fresh(2) t show ?thesis by auto
qed

text \<open>
  C11: \<^verbatim>\<open>hipFileBufDeregister\<close> removes exactly the given binding, and only when the driver is open,
  the buffer is registered and no operation uses it; then nothing but the table of buffers and the store of
  buffer objects changes. Every other case has its error code and leaves the state as it is.
\<close>

theorem hipFileBufDeregister_outcome:
  assumes "drv_inv EB EF ES s" and "hipFileBufDeregister buf s = (r, t)"
  shows "drv_inv EB EF ES t \<and>
    r = Ret (hipFile_status
          (if ref_count s = 0 then hipFileDriverClosing
           else case buf_lookup s buf of
                  None \<Rightarrow> hipFileMemoryNotRegistered
                | Some p \<Rightarrow> if 0 < EB p then hipFileInternalError else hipFileSuccess)) \<and>
    buf_lookup t =
      (if r = Ret (hipFile_status hipFileSuccess) then (buf_lookup s)(buf := None) else buf_lookup s) \<and>
    (if r = Ret (hipFile_status hipFileSuccess) then t = s\<lparr>buf_heap := buf_heap t, from_ptr := from_ptr t\<rparr> else t = s)"
proof -
  obtain r1 u where u: "DriverState_deregisterBuffer buf s = (r1, u)" by fastforce
  from DriverState_deregisterBuffer_inv [OF assms(1) u] assms(2) u show ?thesis
    by (auto simp: hipFileBufDeregister_def ccatch_def cbind_def cret_def split: option.splits if_splits)
qed

theorem hipFileBufDeregister_outcome_witness:
  "\<exists>t. hipFileBufDeregister sample_buf fast_client = (Ret (hipFile_status hipFileSuccess), t) \<and>
     buf_lookup t sample_buf = None"
proof -
  have open_client: "ref_count fast_client \<noteq> 0" "buf_lookup fast_client sample_buf = Some sample_bufobj" by code_simp+
  obtain r t where t: "hipFileBufDeregister sample_buf fast_client = (r, t)" by fastforce
  from hipFileBufDeregister_outcome [OF client_inv(2) t] open_client t show ?thesis by auto
qed

section \<open>Files\<close>

lemma fresh_no_uses: "drv_inv EB EF ES s \<Longrightarrow> file_heap s p = None \<Longrightarrow> EF p = 0"
  by (auto simp: drv_inv_def file_inv_def sp_owned_def own_sum_def dest!: spec [of _ p])

text \<open>
  C12: a file handle that \<^verbatim>\<open>hipFileHandleRegister\<close> returned is not null, was not in use and is
  bound afterwards, and \<^verbatim>\<open>hipFileHandleDeregister\<close> takes the table of handles back to what it was;
  both keep the invariant of the driver and neither ends the process as long as descriptors can
  be closed.
\<close>

theorem handle_register_deregister:
  assumes "drv_inv EB EF ES s" and "file_heap s na = None" "na \<noteq> nullptr" and "closes x"
    and "hipFileHandleRegister x na fhp descr s = (Ret (e, Some h), t)"
  shows "h \<noteq> nullptr \<and> err e = hipFileSuccess \<and> file_lookup s h = None \<and> drv_inv EB EF ES t \<and>
    file_lookup t = (file_lookup s)(h \<mapsto> h) \<and>
    (\<exists>u. hipFileHandleDeregister x h t = (Ret (), u) \<and> drv_inv EB EF ES u \<and>
       file_lookup u = file_lookup s)"
proof -
  note reg = hipFileHandleRegister_spec [OF assms(1-3,5)]
  then have h: "h = na" "drv_inv EB EF ES t" "0 < ref_count t" "file_lookup s na = None"
    "file_lookup t = (file_lookup s)(na \<mapsto> na)" "err e = hipFileSuccess" by auto
  obtain r u where u: "hipFileHandleDeregister x na t = (r, u)" by fastforce
  from hipFileHandleDeregister_spec [OF h(2) u hipFileHandleDeregister_not_terminate [OF assms(4) h(2) u]]
    u h assms(3) fresh_no_uses [OF assms(1,2)]
  show ?thesis by (auto simp: fun_upd_idem)
qed

theorem handle_register_deregister_witness:
  "\<exists>t u. hipFileHandleRegister sample_fast 0xA000 0x7000 (Some (sample_descr\<lparr>descr_fd := 5\<rparr>)) fast_client =
       (Ret (hipFile_status hipFileSuccess, Some 0xA000), t) \<and>
     hipFileHandleDeregister sample_fast 0xA000 t = (Ret (), u) \<and>
     file_lookup u = file_lookup fast_client"
proof -
  have fresh: "file_heap fast_client 0xA000 = None" by code_simp
  have "fst (hipFileHandleRegister sample_fast 0xA000 0x7000 (Some (sample_descr\<lparr>descr_fd := 5\<rparr>)) fast_client) =
      Ret (hipFile_status hipFileSuccess, Some 0xA000)" by code_simp
  then obtain t where t: "hipFileHandleRegister sample_fast 0xA000 0x7000 (Some (sample_descr\<lparr>descr_fd := 5\<rparr>)) fast_client =
      (Ret (hipFile_status hipFileSuccess, Some 0xA000), t)" by (metis prod.collapse)
  with handle_register_deregister [OF client_inv(2) fresh _ _ t] show ?thesis
    by (auto simp: sample_closes sample_fast_def)
qed

section \<open>Objects in use\<close>

text \<open>
  C13: what \<^verbatim>\<open>getFileAndBuffer\<close> hands out stays registered while it is in use: until the pair is
  destroyed, deregistering the file and deregistering the buffer are refused as busy; destroying
  the pair gives both uses back.
\<close>

theorem file_and_buffer_in_use:
  assumes "drv_inv EB EF ES s" and "buf_heap s nb = None" and "closes x"
    and "DriverState_getFileAndBuffer x nb fh buf s = (Ret fb, t)"
    and "buf_lookup s buf \<noteq> None"
  shows "fst (DriverState_deregisterFile x fh t) = Exn FileOperationsOutstanding \<and>
    fst (DriverState_deregisterBuffer buf t) = Exn BufferOperationsOutstanding \<and>
    (\<exists>u. file_buffer_pair_dtor x fb t = (Ret (), u) \<and> drv_inv EB EF ES u)"
proof -
  let ?EB = "EB(snd fb := Suc (EB (snd fb)))" and ?EF = "EF(fst fb := Suc (EF (fst fb)))"
  from DriverState_getFileAndBuffer_inv [OF assms(1,2,4)] assms(5)
  have inv: "drv_inv ?EB ?EF ES t" and f: "file_lookup s fh = Some (fst fb)" "0 < ref_count s"
    and b: "buf_lookup s buf = Some (snd fb)" by auto
  have keep: "file_lookup t = file_lookup s" "ref_count t = ref_count s" "buf_lookup t = buf_lookup s"
    using getFileAndBuffer_from_fh [OF assms(4)] getFileAndBuffer_rest [OF assms(4)]
    by (simp_all add: file_lookup_def buf_lookup_def drv_rest_def)
  obtain r1 u1 where df: "DriverState_deregisterFile x fh t = (r1, u1)" by fastforce
  obtain r2 u2 where db: "DriverState_deregisterBuffer buf t = (r2, u2)" by fastforce
  have r1: "r1 = Exn FileOperationsOutstanding"
    using DriverState_deregisterFile_inv [OF inv df deregisterFile_not_terminate [OF assms(3) inv df]] f keep by simp
  have r2: "r2 = Exn BufferOperationsOutstanding"
    using DriverState_deregisterBuffer_inv [OF inv db] b f keep by simp
  have reg: "file_lookup t fh = Some (fst fb)" using f keep by simp
  have eq: "?EB(snd fb := ?EB (snd fb) - 1) = EB" "?EF(fst fb := ?EF (fst fb) - 1) = EF" by auto
  obtain u where "file_buffer_pair_dtor x fb t = (Ret (), u)"
    "drv_inv (?EB(snd fb := ?EB (snd fb) - 1)) (?EF(fst fb := ?EF (fst fb) - 1)) ES u"
    by (rule pair_dtor_registered [OF inv _ _ reg, where x = x]) simp_all
  with r1 r2 df db show ?thesis unfolding eq by simp
qed

theorem file_and_buffer_in_use_witness:
  "\<exists>fb t. DriverState_getFileAndBuffer sample_fast 0x9000 sample_fh sample_buf fast_client = (Ret fb, t) \<and>
     fst (DriverState_deregisterFile sample_fast sample_fh t) = Exn FileOperationsOutstanding"
proof -
  have fresh: "buf_heap fast_client 0x9000 = None" "buf_lookup fast_client sample_buf \<noteq> None" by code_simp+
  have "fst (DriverState_getFileAndBuffer sample_fast 0x9000 sample_fh sample_buf fast_client) =
      Ret (sample_fh, sample_bufobj)" by code_simp
  then obtain t where t: "DriverState_getFileAndBuffer sample_fast 0x9000 sample_fh sample_buf fast_client =
      (Ret (sample_fh, sample_bufobj), t)" by (metis prod.collapse)
  with file_and_buffer_in_use [OF client_inv(2) fresh(1) _ t fresh(2)] show ?thesis
    by (auto simp: sample_closes sample_fast_def)
qed

section \<open>Opening and closing\<close>

text \<open>
  C14: \<^verbatim>\<open>hipFileDriverClose\<close> on an open driver lowers the count by one; the close that reaches zero
  empties the tables of buffers and files, the others leave them alone; an object that an
  operation still uses stays alive and unchanged. On a closed driver it reports
  \<^verbatim>\<open>hipFileDriverNotInitialized\<close> and changes nothing.
\<close>

theorem hipFileDriverClose_outcome:
  assumes "drv_inv EB EF ES s" and "closes x"
  shows "if ref_count s = 0
    then hipFileDriverClose x s = (Ret (hipFile_status hipFileDriverNotInitialized), s)
    else \<exists>t. hipFileDriverClose x s = (Ret (hipFile_status hipFileSuccess), t) \<and>
      drv_inv EB EF ES t \<and> ref_count t = ref_count s - 1 \<and>
      (if ref_count s = 1 then buf_lookup t = Map.empty \<and> file_lookup t = Map.empty
       else buf_lookup t = buf_lookup s \<and> file_lookup t = file_lookup s) \<and>
      (\<forall>p. 0 < EB p \<longrightarrow> sp_obj p (buf_heap t) = sp_obj p (buf_heap s)) \<and>
      (\<forall>p. 0 < EF p \<longrightarrow> sp_obj p (file_heap t) = sp_obj p (file_heap s))"
proof (cases "ref_count s = 0")
  case True
  then show ?thesis
    by (simp add: hipFileDriverClose_def DriverState_getRefCount_def cxx_defs)
next
  case False
  then have pos: "0 < ref_count s" using drv_inv_parts(4) [OF assms(1)] by simp
  obtain r t where d: "DriverState_decrRefCount x s = (r, t)" by fastforce
  have "r \<noteq> Terminate" using never_endsD [OF never_ends_decrRefCount [OF assms(2)]] d by metis
  note spec = DriverState_decrRefCount_inv [OF assms(1) d this]
  then have "hipFileDriverClose x s = (Ret (hipFile_status hipFileSuccess), t)"
    using d pos by (simp add: hipFileDriverClose_def DriverState_getRefCount_def cxx_defs)
  moreover have "ref_count t = ref_count s - 1" using spec pos by simp
  ultimately show ?thesis using spec False by (auto split: if_splits)
qed

theorem hipFileDriverClose_outcome_witness:
  "\<exists>t. hipFileDriverClose sample_fast fast_client = (Ret (hipFile_status hipFileSuccess), t) \<and>
     ref_count t = 0 \<and> buf_lookup t = Map.empty \<and> file_lookup t = Map.empty"
proof -
  have "ref_count fast_client = 1" by code_simp
  with hipFileDriverClose_outcome [OF client_inv(2), of sample_fast] show ?thesis
    by (auto simp: sample_closes sample_fast_def)
qed

text \<open>
  On a closed driver \<^verbatim>\<open>hipFileRead\<close> and \<^verbatim>\<open>hipFileWrite\<close> return -1 with \<^verbatim>\<open>errno\<close> set to
  \<^verbatim>\<open>EINVAL\<close>, whatever the arguments, and do nothing else.
\<close>

theorem sync_io_on_closed_driver:
  assumes "ref_count s = 0"
  shows "hipFileRead x nb fh buf sz fo bo s = Some (Ret (-1), s\<lparr>world := c_set_errno x EINVAL (world s)\<rparr>) \<and>
    hipFileWrite x nb fh buf sz fo bo s = Some (Ret (-1), s\<lparr>world := c_set_errno x EINVAL (world s)\<rparr>)"
  using hipFileRead_closed [OF assms] by blast

theorem sync_io_on_closed_driver_witness:
  "map_option (\<lambda>(r, t). (r, sm_errno (world t)))
     (hipFileRead sample_fast 0x9000 sample_fh sample_buf 4 0 0 (sample_init 0)) = Some (Ret (-1), 22)"
proof -
  have "ref_count (sample_init 0) = 0" by (simp add: sample_init_def)
  from sync_io_on_closed_driver [OF this] show ?thesis
    by (simp add: sample_fast_def sample_ext_def EINVAL_def)
qed

end
