(* ===== verification/Component_Properties.thy ===== *)
theory Component_Properties
  imports Sample_Platform
begin

text \<open>
  Properties of the components around the driver: batches, streams, statistics, the query of the
  mount table, the limits and the parsing of the environment.
\<close>

section \<open>Batches\<close>

text \<open>
  C16: submitting operations to a batch context is all or nothing and never ends the process: it
  returns only when all of them fit into the free capacity, and then each of them is outstanding
  and holds one use of its buffer and one of its file; when it throws, the context is unchanged and
  no use is left behind.
\<close>

theorem batch_submission_all_or_nothing:
  assumes "drv_inv EB EF ES s" and "batch_inv s" and "batch_heap s p = Some (ctx, n)"
    and "distinct (map fst ps)" and "\<forall>q \<in> set ps. buf_heap s (fst q) = None"
    and "length ps < 2 ^ 64" and "closes x"
    and "BatchContext_submit_operations x p ps s = (r, t)"
  shows "r = Ret () \<and> length (bc_outstanding_ops ctx) + length ps \<le> unat (bc_capacity ctx) \<and> batch_inv t \<and>
      (\<exists>ops. map bop_io_params ops = map snd ps \<and>
         batch_heap t = (batch_heap s)(p \<mapsto>
           (ctx\<lparr>bc_outstanding_ops := bc_outstanding_ops ctx @ ops\<rparr>, n)) \<and>
         drv_inv (own_sum (ops_buffers ops) EB) (own_sum (ops_files ops) EF) ES t) \<or>
    (\<exists>e. r = Exn e) \<and> drv_inv EB EF ES t \<and> batch_heap t = batch_heap s"
  using submit_operations_spec [OF assms(1-6,8)]
    submit_operations_not_terminate [OF assms(7,1,3-5), of t] assms(8)
  by (cases r) auto

text \<open>A client with a batch context for two operations.\<close>

definition batch_client :: "sample batch_state" where
  "batch_client = fast_client
     \<lparr>batch_heap := [0xB000 \<mapsto> (\<lparr>bc_capacity = 2, bc_outstanding_ops = []\<rparr>, 1)],
      active_contexts := [(0xB000, 0xB000)]\<rparr>"

definition sample_request :: "int \<Rightarrow> hipFileIOParams_t" where
  "sample_request opcode =
     \<lparr>iop_mode = hipFileBatch, iop_devPtr_base = sample_buf, iop_file_offset = 0, iop_devPtr_offset = 4,
      iop_size = 8, iop_fh = sample_fh, iop_opcode = opcode, iop_cookie = 0\<rparr>"

lemma batch_client_inv:
  "drv_inv (\<lambda>_. 0) (\<lambda>_. 0) (\<lambda>_. 0) batch_client" "batch_inv batch_client"
  using client_inv(2) by (simp_all add: batch_client_def batch_inv_def context_ok_def)

theorem batch_submission_all_or_nothing_witness:
  "\<exists>t. BatchContext_submit_operations sample_fast 0xB000
       [(0xC000, sample_request hipFileBatchRead), (0xC100, sample_request hipFileBatchWrite)] batch_client =
       (Ret (), t) \<and> batch_inv t"
proof -
  let ?ps = "[(0xC000, sample_request hipFileBatchRead), (0xC100, sample_request hipFileBatchWrite)]"
  have "fst (BatchContext_submit_operations sample_fast 0xB000 ?ps batch_client) = Ret ()" by code_simp
  then obtain t where t: "BatchContext_submit_operations sample_fast 0xB000 ?ps batch_client = (Ret (), t)"
    by (metis prod.collapse)
  have fresh: "buf_heap batch_client 0xC000 = None" "buf_heap batch_client 0xC100 = None" by code_simp+
  from batch_submission_all_or_nothing [OF batch_client_inv _ _ _ _ _ t] fresh t show ?thesis
    by (auto simp: batch_client_def sample_closes sample_fast_def)
qed

text \<open>
  C17: \<^verbatim>\<open>hipFileBatchIOSetUp\<close> makes a context exactly for the sizes 1 to 128 and a result pointer
  that is not null, reports \<^verbatim>\<open>hipFileInvalidValue\<close> otherwise, and keeps every context within its
  capacity. (The guide to the batch calls says that all of them fail and return error codes; this one does not.)
\<close>

theorem hipFileBatchIOSetUp_outcome:
  "hipFileBatchIOSetUp na idp max_nr s =
     (if idp \<noteq> nullptr \<and> unat max_nr \<in> {1..128}
      then (Ret (hipFile_status hipFileSuccess, Some na),
            s\<lparr>batch_heap := (batch_heap s)(na \<mapsto> (\<lparr>bc_capacity = max_nr, bc_outstanding_ops = []\<rparr>, 1)),
              active_contexts := AList.update na na (active_contexts s)\<rparr>)
      else (Ret (hipFile_status hipFileInvalidValue, None), s)) \<and>
   (batch_inv s \<longrightarrow> batch_inv (snd (hipFileBatchIOSetUp na idp max_nr s)))"
proof -
  have eq: "max_nr = 0 \<longleftrightarrow> unat max_nr = 0" "BatchContext_MAX_SIZE < max_nr \<longleftrightarrow> 128 < unat max_nr"
    by (simp_all add: unat_eq_zero word_less_nat_alt BatchContext_MAX_SIZE_def)
  have "hipFileBatchIOSetUp na idp max_nr s =
     (if idp \<noteq> nullptr \<and> unat max_nr \<in> {1..128}
      then (Ret (hipFile_status hipFileSuccess, Some na),
            s\<lparr>batch_heap := (batch_heap s)(na \<mapsto> (\<lparr>bc_capacity = max_nr, bc_outstanding_ops = []\<rparr>, 1)),
              active_contexts := AList.update na na (active_contexts s)\<rparr>)
      else (Ret (hipFile_status hipFileInvalidValue, None), s))"
    unfolding hipFileBatchIOSetUp_def DriverState_createBatchContext_def
      BatchContextMap_createContext_def BatchContext_ctor_def eq
    by (auto simp: cxx_defs sp_make_def)
  then show ?thesis by (auto simp: batch_inv_def context_ok_def)
qed

theorem hipFileBatchIOSetUp_outcome_witness:
  "fst (hipFileBatchIOSetUp 0xB000 0x7000 128 fast_client) = Ret (hipFile_status hipFileSuccess, Some 0xB000) \<and>
   fst (hipFileBatchIOSetUp 0xB000 0x7000 129 fast_client) = Ret (hipFile_status hipFileInvalidValue, None)"
  using hipFileBatchIOSetUp_outcome [of "0xB000" "0x7000" 128 fast_client]
    hipFileBatchIOSetUp_outcome [of "0xB000" "0x7000" 129 fast_client] by simp

section \<open>Streams\<close>

text \<open>
  C18: a stream is registered only with known flags, and a later lookup of the stream finds the
  registered object, whose options are exactly the bits of the flags.
\<close>

theorem stream_register_lookup:
  assumes "drv_inv EB EF ES s" and "stream_heap s na = None"
    and "DriverState_registerStream x na hs flags s = (Ret (), t)"
  shows "unat flags < 16 \<and>
    (\<exists>st u. DriverState_getStream x nb hs t = (Ret na, u) \<and> drv_inv EB EF (ES(na := Suc (ES na))) u \<and>
       sp_obj na (stream_heap u) = Some st \<and> st_hip_stream st = hs \<and>
       (st_fixed_buf_offset st \<longleftrightarrow> bit flags 0) \<and> (st_fixed_file_offset st \<longleftrightarrow> bit flags 1) \<and>
       (st_fixed_io_size st \<longleftrightarrow> bit flags 2) \<and> (st_page_aligned st \<longleftrightarrow> bit flags 3))"
proof -
  have op: "StreamMap_registerStream x na hs flags s = (Ret (), t)"
    using assms(3) by (simp add: DriverState_registerStream_def)
  then obtain st w where none: "map_of (from_stream s) hs = None"
    and c: "Stream_ctor x hs flags s = (Ret st, w)"
    and t: "t = w\<lparr>stream_heap := sp_make na st (stream_heap w),
                 from_stream := AList.update hs na (from_stream w)\<rparr>"
    by (auto simp: StreamMap_registerStream_def cbind_eq_Ret_iff cget_def cthrow_def cmodify_def
        split: if_splits)
  have ob: "sp_obj na (stream_heap t) = Some st" by (simp add: t sp_simps)
  note spec = registerStream_spec [OF drv_inv_parts(3) [OF assms(1)] assms(2) op]
  then have lk: "map_of (from_stream t) hs = Some na" by (simp add: stream_lookup_def)
  let ?u = "t\<lparr>stream_heap := sp_copy na (stream_heap t)\<rparr>"
  have get: "DriverState_getStream x nb hs t = (Ret na, ?u)"
    using lk by (simp add: DriverState_getStream_def StreamMap_getStream_def)
  have inv1: "drv_inv EB EF ES t"
    using drv_inv_stream [OF assms(1) _ conjunct1 [OF spec]] registerStream_frame [of s x na hs flags] op by simp
  have "stream_inv (ES(na := Suc (ES na))) ?u"
    using tbl_copy [of stream_for ES "from_stream t" "stream_heap t" hs na] spec lk by (simp add: stream_inv_def)
  then have "drv_inv EB EF (ES(na := Suc (ES na))) ?u"
    using drv_inv_stream [OF inv1] by simp
  moreover have "sp_obj na (stream_heap ?u) = Some st" using ob by (simp add: sp_simps)
  ultimately show ?thesis using get Stream_ctor_Ret [OF c] by blast
qed

theorem stream_register_lookup_witness:
  "\<exists>t st u. DriverState_registerStream sample_fast 0xD000 0xE000 5 fast_client = (Ret (), t) \<and>
     DriverState_getStream sample_fast 0xD100 0xE000 t = (Ret 0xD000, u) \<and>
     sp_obj 0xD000 (stream_heap u) = Some st \<and> st_fixed_buf_offset st \<and> \<not> st_fixed_file_offset st \<and>
     st_fixed_io_size st"
proof -
  have fresh: "stream_heap fast_client 0xD000 = None" by code_simp
  have "fst (DriverState_registerStream sample_fast 0xD000 0xE000 5 fast_client) = Ret ()" by code_simp
  then obtain t where t: "DriverState_registerStream sample_fast 0xD000 0xE000 5 fast_client = (Ret (), t)"
    by (metis prod.collapse)
  have "bit (5 :: uint32_t) 0" "\<not> bit (5 :: uint32_t) 1" "bit (5 :: uint32_t) 2" by simp_all
  with stream_register_lookup [OF client_inv(2) fresh t, of "0xD100"] t show ?thesis by blast
qed

section \<open>Statistics\<close>

text \<open>
  C19: an IO that the fallback backend completes adds exactly the number of bytes it returns to
  the counter of its direction, modulo \<open>2 ^ 64\<close> and only when statistics are enabled; every other
  counter keeps its value.
\<close>

theorem fallback_io_is_counted:
  fixes s t :: "('w, 'z) stats_state_scheme"
  assumes "stats_wf s" and "Fallback_io x type f b sz fo bo s = Some (Ret n, t)"
  shows "stats_counter c t = stats_counter c s +
    (if stats_enabled s \<and>
        c = (case type of IoRead \<Rightarrow> TotalFallbackPathReadBytes | IoWrite \<Rightarrow> TotalFallbackPathWriteBytes)
     then word_of_int n else 0)"
proof -
  obtain u :: "('w, 'z) stats_state_scheme"
    where u: "m_stats t = m_stats (snd (Fallback_count_io type n u))" "m_stats u = m_stats s"
    by (rule Fallback_io_Ret [OF assms(2)])
  have wf: "stats_wf u" and same: "stats_enabled u = stats_enabled s" "stats_counter c u = stats_counter c s"
    using assms(1) u(2) by (simp_all add: stats_wf_def stats_enabled_def stats_counter_def)
  obtain v where v: "Fallback_count_io type n u = (Ret (), v)"
    "stats_counter c v = stats_counter c u + (if c = (case type of IoRead \<Rightarrow> TotalFallbackPathReadBytes
        | IoWrite \<Rightarrow> TotalFallbackPathWriteBytes) \<and> stats_enabled u then word_of_int n else 0)"
    using stats_add_spec [OF wf] unfolding Fallback_count_io_eq by blast
  have "stats_counter c t = stats_counter c v" using u(1) v(1) by (simp add: stats_counter_def)
  with v(2) same show ?thesis by auto
qed

theorem fallback_io_is_counted_witness:
  "\<exists>f b t. Fallback_io sample_compat IoRead f b 4 1 8 calm_client = Some (Ret 4, t) \<and>
     stats_counter TotalFallbackPathReadBytes t = 4"
proof -
  have "(case (sp_obj sample_fh (file_heap calm_client), sp_obj sample_bufobj (buf_heap calm_client)) of
      (Some f, Some b) \<Rightarrow> map_option fst (Fallback_io sample_compat IoRead f b 4 1 8 calm_client) = Some (Ret 4)
    | _ \<Rightarrow> False)" by code_simp
  then obtain f b t where t: "Fallback_io sample_compat IoRead f b 4 1 8 calm_client = Some (Ret 4, t)"
    by (auto split: option.splits)
  have wf: "stats_wf calm_client" "stats_enabled calm_client"
    "stats_counter TotalFallbackPathReadBytes calm_client = 0" by code_simp+
  from fallback_io_is_counted [OF wf(1) t, of TotalFallbackPathReadBytes] wf t show ?thesis by auto
qed

section \<open>The mount table\<close>

text \<open>
  C20: \<^verbatim>\<open>getMountInfo\<close> frees the libmount context it made, on the way to every result and to every
  exception: the set of live contexts is the same afterwards.
\<close>

theorem getMountInfo_frees_its_context:
  assumes "mnt_ledger x live"
  shows "live (world (snd (getMountInfo x dev s))) = live (world s)"
  by (rule getMountInfo_frees [OF assms])

theorem getMountInfo_frees_its_context_witness:
  "sample_contexts (world (snd (getMountInfo sample_fast 0x801 (sample_init 0)))) = {}"
  using getMountInfo_frees_its_context [OF sample_mnt_ledger, of "\<lambda>_. None" "0x801" "sample_init 0"]
  by (simp add: sample_fast_def sample_contexts_def sample_init_def sample_world_def)

section \<open>Buffers and limits\<close>

text \<open>
  C21: the check of a buffer region, in 64-bit address arithmetic with its test for wrap-around,
  accepts exactly the regions that end inside the allocation that HIP reports.
\<close>

theorem isValidBufferRegion_exact:
  assumes "fst (hip_MemGetAddressRange x p (world s)) = (hipSuccess, base, range_size)"
    and "unat base + unat range_size < 2 ^ 64"
  shows "fst (isValidBufferRegion x p len s) = Ret (unat p + unat len \<le> unat base + unat range_size)"
proof -
  have "len > (-1) - p \<longleftrightarrow> 2 ^ 64 \<le> unat p + unat len"
  proof -
    have "unat ((-1) - p) = 2 ^ 64 - 1 - unat p"
      by (simp add: unat_sub unsigned_minus_1_eq_mask mask_eq_exp_minus_1)
    then show ?thesis using unsigned_less [where 'a = nat, of p] by (auto simp: word_less_nat_alt)
  qed
  moreover have "unat (p + len) = unat p + unat len" if "unat p + unat len < 2 ^ 64"
    using that by (simp add: unat_word_ariths)
  moreover have "unat (base + range_size) = unat base + unat range_size"
    using assms(2) by (simp add: unat_word_ariths)
  ultimately show ?thesis
    using assms
    by (auto simp: isValidBufferRegion_def ccatch_def hipMemGetAddressRange_def hip_call1_def
        throwOnHipError_def cbind_def cxx_simps cret_def word_less_nat_alt split: prod.splits)
qed

theorem isValidBufferRegion_exact_witness:
  "fst (isValidBufferRegion sample_fast 0x100000010 0xfffff0 (sample_init 0)) = Ret True \<and>
   fst (isValidBufferRegion sample_fast 0x100000010 (-1) (sample_init 0)) = Ret False"
proof -
  have h: "fst (hip_MemGetAddressRange sample_fast p w) = (hipSuccess, sample_device_base, 0x1000000)" for p w
    by (simp add: sample_defs)
  from isValidBufferRegion_exact [OF h, where p = "0x100000010" and s = "sample_init 0"] show ?thesis
    by (simp add: sample_device_base_def unsigned_minus_1_eq_mask mask_eq_exp_minus_1)
qed

text \<open>
  For a page size that is a power of two below \<open>2 ^ 31\<close>, the largest transfer of one call is
  the largest multiple of the page size that an \<^verbatim>\<open>int\<close> can hold.
\<close>

theorem getMaxRwCount_bounds:
  assumes "c_sysconf_pagesize x = 2 ^ k" and "k < 31"
  shows "\<exists>n. getMaxRwCount x s = (Ret n, s) \<and> unat n = (2 ^ 31 - 1) div 2 ^ k * 2 ^ k"
proof -
  have pg: "(word_of_int (2 ^ k) :: size_t) - 1 = mask k"
    by (simp add: mask_eq_exp_minus_1 of_int_power)
  have int: "C_INT_MAX = mask 31" by (simp add: C_INT_MAX_def mask_eq_exp_minus_1)
  have "bit (C_INT_MAX AND NOT (mask k)) i = bit (push_bit k (drop_bit k C_INT_MAX)) i" for i
    by (auto simp: bit_simps int)
  then have "C_INT_MAX AND NOT (mask k) = push_bit k (drop_bit k C_INT_MAX)" by (intro bit_eqI) simp
  then have n: "max_rw_count x = push_bit k (drop_bit k C_INT_MAX)"
    by (simp only: max_rw_count_def assms(1) pg)
  have "unat (drop_bit k C_INT_MAX) = (2 ^ 31 - 1) div 2 ^ k"
    unfolding unsigned_drop_bit_eq by (simp add: C_INT_MAX_def drop_bit_eq_div take_bit_eq_mod)
  moreover have "(2 ^ 31 - 1) div 2 ^ k * 2 ^ k < (2 :: nat) ^ 64"
    by (rule le_less_trans [OF div_times_less_eq_dividend]) simp
  moreover have "unat (2 ^ k :: size_t) = 2 ^ k"
  proof -
    have "(2 :: nat) ^ k < 2 ^ 64" using assms(2) by (intro power_strict_increasing) simp_all
    moreover have "unat (of_nat (2 ^ k) :: size_t) = 2 ^ k mod 2 ^ 64" by (simp only: unat_of_nat) simp
    ultimately show ?thesis by simp
  qed
  ultimately have "unat (max_rw_count x) = (2 ^ 31 - 1) div 2 ^ k * 2 ^ k"
    by (simp add: n push_bit_eq_mult unat_word_ariths)
  moreover have "c_sysconf_pagesize x \<noteq> -1"
    using assms(1) zero_le_power [of "2 :: int" k] by linarith
  ultimately show ?thesis by (simp add: getMaxRwCount_eq)
qed

theorem getMaxRwCount_bounds_witness:
  "\<exists>n. getMaxRwCount sample_fast () = (Ret n, ()) \<and> unat n = 0x7ffff000"
  using getMaxRwCount_bounds [of sample_fast 12 "()"] by (simp add: sample_defs)

section \<open>The environment\<close>

lemma dec_digit:
  assumes "n < 10"
  shows "is_digit (char_of (48 + n))" "digit_val (char_of (48 + n)) = n" "\<not> is_space (char_of (48 + n))"
    "char_of (48 + n) \<noteq> CHR ''-''" "char_of (48 + n) \<noteq> CHR ''+''"
proof -
  have "n \<in> set [0..<10]" using assms by simp
  moreover have "\<forall>n \<in> set [0..<10]. is_digit (char_of (48 + n)) \<and> digit_val (char_of (48 + n)) = n \<and>
      \<not> is_space (char_of (48 + n)) \<and> char_of (48 + n) \<noteq> CHR ''-'' \<and> char_of (48 + n) \<noteq> CHR ''+''"
    by code_simp
  ultimately show "is_digit (char_of (48 + n))" "digit_val (char_of (48 + n)) = n" "\<not> is_space (char_of (48 + n))"
    "char_of (48 + n) \<noteq> CHR ''-''" "char_of (48 + n) \<noteq> CHR ''+''" by blast+
qed

lemma digits_val_append: "digits_val acc (as @ bs) = digits_val (digits_val acc as) bs"
  by (induction acc as rule: digits_val.induct) simp_all

lemma digits_val_dec: "digits_val 0 (dec_nat n) = n"
proof (induction n rule: dec_nat.induct)
  case (1 n)
  show ?case
  proof (cases "n < 10")
    case True
    then show ?thesis by (subst dec_nat.simps) (simp add: dec_digit)
  next
    case False
    with 1 show ?thesis by (subst dec_nat.simps) (simp add: digits_val_append dec_digit)
  qed
qed

lemma dec_nat_digits: "\<forall>c \<in> set (dec_nat n). \<exists>d < 10 :: nat. c = char_of (48 + d)"
proof (induction n rule: dec_nat.induct)
  case (1 n)
  show ?case
  proof (cases "n < 10")
    case True
    then show ?thesis by (subst dec_nat.simps) auto
  next
    case False
    have eq: "dec_nat n = dec_nat (n div 10) @ [char_of (48 + n mod 10)]"
      using False by (subst dec_nat.simps) simp
    have "n mod 10 < 10" by simp
    with 1 [OF False] show ?thesis unfolding eq set_append list.set by blast
  qed
qed

lemma dec_nat_ne: "dec_nat n \<noteq> []"
  by (subst dec_nat.simps) simp

lemma strtoul10_dec:
  "strtoul10 (dec_nat n) = (if n > ULONG_MAX then (ULONG_MAX, [], True) else (n, [], False))"
proof -
  let ?s = "dec_nat n"
  have all: "is_digit c \<and> \<not> is_space c \<and> c \<noteq> CHR ''-'' \<and> c \<noteq> CHR ''+''" if "c \<in> set ?s" for c
  proof -
    from that dec_nat_digits [of n] obtain d :: nat where "d < 10" "c = char_of (48 + d)" by blast
    with dec_digit [of d] show ?thesis by simp
  qed
  obtain c cs where s: "?s = c # cs" using dec_nat_ne [of n] by (meson neq_Nil_conv)
  have "\<not> is_space c" "c \<noteq> CHR ''-''" "c \<noteq> CHR ''+''" using all [of c] unfolding s by simp_all
  then have f1: "dropWhile is_space ?s = ?s" "hd ?s \<noteq> CHR ''-''" "hd ?s \<noteq> CHR ''+''"
    unfolding s by simp_all
  have f2: "takeWhile is_digit ?s = ?s" "dropWhile is_digit ?s = []" using all by auto
  from f1 show ?thesis
    unfolding strtoul10_def Let_def f1(1) by (simp add: f2 digits_val_dec dec_nat_ne)
qed

text \<open>
  C22: a number written in decimal in an environment variable is read back: a value beyond
  \<^verbatim>\<open>unsigned int\<close> is capped, and one beyond \<^verbatim>\<open>unsigned long\<close> counts as not set.
\<close>

theorem Environment_reads_decimal:
  assumes "c_getenv x key = Some (dec_nat n)"
  shows "Environment_get_uint x key = (if n \<ge> 2 ^ 64 then None else Some (min n (2 ^ 32 - 1)))"
proof -
  have "n > ULONG_MAX \<longleftrightarrow> n \<ge> 2 ^ 64" by (simp add: ULONG_MAX_def) linarith
  then show ?thesis
    using assms dec_nat_ne [of n]
    by (simp add: Environment_get_uint_def Sys_getenv_def strtoul10_dec UINT_MAX_def min_def)
qed

theorem Environment_reads_decimal_witness:
  "stats_level (sample_ext [''HIPFILE_STATS_LEVEL'' \<mapsto> ''2'']) = Some 2"
proof -
  have "dec_nat 2 = ''2''" by code_simp
  then have "c_getenv (sample_ext [''HIPFILE_STATS_LEVEL'' \<mapsto> ''2'']) ''HIPFILE_STATS_LEVEL'' = Some (dec_nat 2)"
    by (simp add: sample_ext_def)
  from Environment_reads_decimal [OF this] show ?thesis by (simp add: stats_level_def)
qed

end
