(* ===== verification/Common.thy ===== *)
theory Common
  imports Prelude
begin

text \<open>
  The functions that both platforms share (\<^verbatim>\<open>src/common/hipfile-common.cpp\<close>) and the error macros of
  \<^verbatim>\<open>include/hipfile.h\<close>: texts of error values and the version of the library.
\<close>

section \<open>Values of enumeration types\<close>

text \<open>
  A C enumeration may hold a value that none of its enumerators names; such a value reaches the
  \<^verbatim>\<open>default\<close> branch of a \<^verbatim>\<open>switch\<close>.
\<close>

datatype 'e c_enum = Named 'e | Unnamed int

type_synonym hipFileOpError_t = "hipFileOpError c_enum"

definition hipFileOpError_enumerators :: "hipFileOpError list" where
  "hipFileOpError_enumerators =
     [hipFileSuccess, hipFileDriverNotInitialized, hipFileDriverInvalidProps,
      hipFileDriverUnsupportedLimit, hipFileDriverVersionMismatch,
      hipFileDriverVersionReadError, hipFileDriverClosing, hipFilePlatformNotSupported,
      hipFileIONotSupported, hipFileDeviceNotSupported, hipFileDriverError,
      hipFileHipDriverError, hipFileHipPointerInvalid, hipFileHipMemoryTypeInvalid,
      hipFileHipPointerRangeError, hipFileHipContextMismatch, hipFileInvalidMappingSize,
      hipFileInvalidMappingRange, hipFileInvalidFileType, hipFileInvalidFileOpenFlag,
      hipFileDIONotSet, hipFileInvalidValue, hipFileMemoryAlreadyRegistered,
      hipFileMemoryNotRegistered, hipFilePermissionDenied, hipFileDriverAlreadyOpen,
      hipFileHandleNotRegistered, hipFileHandleAlreadyRegistered, hipFileDeviceNotFound,
      hipFileInternalError, hipFileGetNewFDFailed, hipFileDriverSetupError, hipFileIODisabled,
      hipFileBatchSubmitFailed, hipFileGPUMemoryPinningFailed, hipFileBatchFull,
      hipFileAsyncNotSupported, hipFileIOMaxError]"

text \<open>
  The cast of a number to the enumeration. No enumerator is negative, so the type is held in 32 unsigned bits and
  the cast of a wider number keeps the lower ones.
\<close>

definition to_hipFileOpError_t :: "int \<Rightarrow> hipFileOpError_t" where
  "to_hipFileOpError_t n =
     (let v = uint (word_of_int n :: 32 word) in
      case find (\<lambda>e. op_error_code e = v) hipFileOpError_enumerators of
        Some e \<Rightarrow> Named e
      | None \<Rightarrow> Unnamed v)"

section \<open>Texts of errors\<close>

definition hipFileGetOpErrorString ::
  "hipFileOpError_t \<Rightarrow> string" where
  "hipFileGetOpErrorString status =
     (case status of
        Named e \<Rightarrow>
          (case e of
             hipFileSuccess \<Rightarrow> ''hipFile success''
           | hipFileDriverNotInitialized \<Rightarrow> ''GPU IO driver is not loaded''
           | hipFileDriverInvalidProps \<Rightarrow> ''Invalid GPU IO driver property provided''
           | hipFileDriverUnsupportedLimit \<Rightarrow> ''GPU IO Driver property value is unsupported''
           | hipFileDriverVersionMismatch \<Rightarrow> ''hipFile version does not match GPU IO driver version''
           | hipFileDriverVersionReadError \<Rightarrow> ''Unable to read the GPU IO driver version''
           | hipFileDriverClosing \<Rightarrow> ''GPU IO driver is closing and not accepting new requests''
           | hipFilePlatformNotSupported \<Rightarrow> ''hipFile is not supported on the current platform''
           | hipFileIONotSupported \<Rightarrow> ''hipFile is not supported on the selected file''
           | hipFileDeviceNotSupported \<Rightarrow> ''The selected GPU does not support hipFile''
           | hipFileDriverError \<Rightarrow> ''GPU IO driver error''
           | hipFileHipDriverError \<Rightarrow> ''GPU driver error: Inspect hip_drv_err for additional information''
           | hipFileHipPointerInvalid \<Rightarrow> ''Invalid GPU pointer''
           | hipFileHipMemoryTypeInvalid \<Rightarrow> ''Memory type backing pointer is incompatible with hipFile''
           | hipFileHipPointerRangeError \<Rightarrow> ''Pointer range exceeds allocated memory region''
           | hipFileHipContextMismatch \<Rightarrow> ''GPU driver context mismatch''
           | hipFileInvalidMappingSize \<Rightarrow> ''Accessing memory beyond pinned memory buffer''
           | hipFileInvalidMappingRange \<Rightarrow> ''Accessing memory beyond mapped memory region''
           | hipFileInvalidFileType \<Rightarrow> ''Unsupported file type''
           | hipFileInvalidFileOpenFlag \<Rightarrow> ''Unsupported file open flags''
           | hipFileDIONotSet \<Rightarrow> ''O_DIRECT flag not set''
           | hipFileInvalidValue \<Rightarrow> ''One or more arguments have an invalid value''
           | hipFileMemoryAlreadyRegistered \<Rightarrow> ''Device pointer is already registered''
           | hipFileMemoryNotRegistered \<Rightarrow> ''Device pointer is not registered''
           | hipFilePermissionDenied \<Rightarrow> ''Permission error on device or file access''
           | hipFileDriverAlreadyOpen \<Rightarrow> ''GPU IO driver is already open''
           | hipFileHandleNotRegistered \<Rightarrow> ''File handle for GPU IO is not registered''
           | hipFileHandleAlreadyRegistered \<Rightarrow> ''File handle for GPU IO is already registered''
           | hipFileDeviceNotFound \<Rightarrow> ''Selected device not found''
           | hipFileInternalError \<Rightarrow> ''Internal GPU IO library error''
           | hipFileGetNewFDFailed \<Rightarrow> ''Unable to obtain a new file descriptor''
           | hipFileDriverSetupError \<Rightarrow> ''GPU IO Driver initialization error''
           | hipFileIODisabled \<Rightarrow> ''GPU IO config file prohibits GPU IO on specified file''
           | hipFileBatchSubmitFailed \<Rightarrow> ''Failed to submit request for batch operation''
           | hipFileGPUMemoryPinningFailed \<Rightarrow> ''Failed to allocated pinned device memory''
           | hipFileBatchFull \<Rightarrow> ''Batch operation queue is full''
           | hipFileAsyncNotSupported \<Rightarrow> ''hipFile async IO is not supported''
           | hipFileIOMaxError \<Rightarrow> ''Internal flag to mark largest hipFile error code'')
      | Unnamed _ \<Rightarrow> ''Unknown hipFile error'')"

definition IS_HIPFILE_ERR :: "int \<Rightarrow> bool" where
  "IS_HIPFILE_ERR hip_op_err \<longleftrightarrow> \<bar>hip_op_err\<bar> > HIPFILE_BASE_ERR"

text \<open>
  The macros take a number of any integer type; \<^verbatim>\<open>abs\<close> is the overload for that type (C++), so it loses nothing
  (it is not defined for the smallest value of the type), and only the cast of the second one does.
\<close>

definition HIPFILE_ERRSTR :: "int \<Rightarrow> string" where
  "HIPFILE_ERRSTR hip_op_err = hipFileGetOpErrorString (to_hipFileOpError_t \<bar>hip_op_err\<bar>)"

definition IS_HIP_DRV_ERR :: "hipFileError_t \<Rightarrow> bool" where
  "IS_HIP_DRV_ERR hip_err \<longleftrightarrow> err hip_err = hipFileHipDriverError"

section \<open>Version\<close>

definition HIPFILE_VERSION_MAJOR :: uint32_t where "HIPFILE_VERSION_MAJOR = 0"
definition HIPFILE_VERSION_MINOR :: uint32_t where "HIPFILE_VERSION_MINOR = 2"
definition HIPFILE_VERSION_PATCH :: uint32_t where "HIPFILE_VERSION_PATCH = 0"

text \<open>The client's three variables, each \<^const>\<open>None\<close> when its pointer is null.\<close>

definition hipFileGetVersion ::
  "uint32_t option \<Rightarrow> uint32_t option \<Rightarrow> uint32_t option \<Rightarrow>
     hipFileError_t \<times> uint32_t option \<times> uint32_t option \<times> uint32_t option" where
  "hipFileGetVersion major minor patch =
     (hipFile_status hipFileSuccess,
      if major \<noteq> None then Some HIPFILE_VERSION_MAJOR else major,
      if minor \<noteq> None then Some HIPFILE_VERSION_MINOR else minor,
      if patch \<noteq> None then Some HIPFILE_VERSION_PATCH else patch)"

section \<open>Facts\<close>

lemma enumerators_all: "e \<in> set hipFileOpError_enumerators"
  by (cases e) (simp_all add: hipFileOpError_enumerators_def)

lemma distinct_codes: "distinct (map op_error_code hipFileOpError_enumerators)"
  by (simp add: hipFileOpError_enumerators_def HIPFILE_BASE_ERR_def)

lemma distinct_texts:
  "distinct (map (\<lambda>e. hipFileGetOpErrorString (Named e)) hipFileOpError_enumerators)"
  by (code_simp)

lemma inj_from_enumerators:
  "distinct (map f hipFileOpError_enumerators) \<Longrightarrow> f a = f b \<longleftrightarrow> a = b"
  using enumerators_all by (auto simp: distinct_map inj_on_def)

lemmas op_error_code_eq [simp] = inj_from_enumerators [OF distinct_codes]
lemmas error_text_eq [simp] = inj_from_enumerators [OF distinct_texts]

lemma op_error_code_ge_0 [simp]: "0 \<le> op_error_code e"
  by (cases e) (simp_all add: HIPFILE_BASE_ERR_def)

lemma op_error_code_32: "op_error_code e mod 2 ^ 32 = op_error_code e"
  by (cases e) (simp_all add: HIPFILE_BASE_ERR_def)

lemma to_hipFileOpError_t_eq:
  "to_hipFileOpError_t n =
     (case find (\<lambda>e. op_error_code e = n mod 2 ^ 32) hipFileOpError_enumerators of
        Some e \<Rightarrow> Named e
      | None \<Rightarrow> Unnamed (n mod 2 ^ 32))"
  by (simp add: to_hipFileOpError_t_def uint_word_of_int Let_def cong: option.case_cong)

lemma to_hipFileOpError_t_code: "n mod 2 ^ 32 = op_error_code e \<Longrightarrow> to_hipFileOpError_t n = Named e"
  using enumerators_all [of e] by (simp only: to_hipFileOpError_t_eq) (simp add: find_member)

lemma to_hipFileOpError_t_other:
  "(\<And>e. op_error_code e \<noteq> n mod 2 ^ 32) \<Longrightarrow> to_hipFileOpError_t n = Unnamed (n mod 2 ^ 32)"
  by (simp only: to_hipFileOpError_t_eq) (simp add: find_None_iff [THEN iffD2])

lemma text_not_unknown: "hipFileGetOpErrorString (Named e) \<noteq> ''Unknown hipFile error''"
  by (cases e) (simp_all add: hipFileGetOpErrorString_def)

lemma IS_HIPFILE_ERR_code: "IS_HIPFILE_ERR (op_error_code e) \<longleftrightarrow> e \<noteq> hipFileSuccess"
  by (cases e) (simp_all add: IS_HIPFILE_ERR_def HIPFILE_BASE_ERR_def)

end
