(* ===== verification/Cufile_Conversion.thy ===== *)
theory Cufile_Conversion
  imports Api Common
begin

text \<open>
  Conversions between the types of hipFile and those of cuFile
  (\<^verbatim>\<open>src/nvidia_detail/hipfile-cufile.cpp\<close>), with which the library runs on NVIDIA platforms. The
  types of cuFile and CUDA belong to their headers: an enumeration has the enumerators that the
  sources name and further values without a name, and two functions of the HIP headers that
  translate driver errors, with the macro that recognises them, are a parameter.
\<close>

section \<open>Types of cuFile and CUDA\<close>

datatype CUfileOpError =
    CU_FILE_SUCCESS | CU_FILE_DRIVER_NOT_INITIALIZED | CU_FILE_DRIVER_INVALID_PROPS
    | CU_FILE_DRIVER_UNSUPPORTED_LIMIT | CU_FILE_DRIVER_VERSION_MISMATCH
    | CU_FILE_DRIVER_VERSION_READ_ERROR | CU_FILE_DRIVER_CLOSING
    | CU_FILE_PLATFORM_NOT_SUPPORTED | CU_FILE_IO_NOT_SUPPORTED | CU_FILE_DEVICE_NOT_SUPPORTED
    | CU_FILE_NVFS_DRIVER_ERROR | CU_FILE_CUDA_DRIVER_ERROR | CU_FILE_CUDA_POINTER_INVALID
    | CU_FILE_CUDA_MEMORY_TYPE_INVALID | CU_FILE_CUDA_POINTER_RANGE_ERROR
    | CU_FILE_CUDA_CONTEXT_MISMATCH | CU_FILE_INVALID_MAPPING_SIZE
    | CU_FILE_INVALID_MAPPING_RANGE | CU_FILE_INVALID_FILE_TYPE | CU_FILE_INVALID_FILE_OPEN_FLAG
    | CU_FILE_DIO_NOT_SET | CU_FILE_INVALID_VALUE | CU_FILE_MEMORY_ALREADY_REGISTERED
    | CU_FILE_MEMORY_NOT_REGISTERED | CU_FILE_PERMISSION_DENIED | CU_FILE_DRIVER_ALREADY_OPEN
    | CU_FILE_HANDLE_NOT_REGISTERED | CU_FILE_HANDLE_ALREADY_REGISTERED
    | CU_FILE_DEVICE_NOT_FOUND | CU_FILE_INTERNAL_ERROR | CU_FILE_GETNEWFD_FAILED
    | CU_FILE_NVFS_SETUP_ERROR | CU_FILE_IO_DISABLED | CU_FILE_BATCH_SUBMIT_FAILED
    | CU_FILE_GPU_MEMORY_PINNING_FAILED | CU_FILE_BATCH_FULL | CU_FILE_ASYNC_NOT_SUPPORTED
    | CU_FILE_IO_MAX_ERROR

datatype CUfileDriverStatusFlags_t =
    CU_FILE_LUSTRE_SUPPORTED | CU_FILE_WEKAFS_SUPPORTED | CU_FILE_NFS_SUPPORTED
    | CU_FILE_GPFS_SUPPORTED | CU_FILE_NVME_SUPPORTED | CU_FILE_NVMEOF_SUPPORTED
    | CU_FILE_SCSI_SUPPORTED | CU_FILE_SCALEFLUX_CSD_SUPPORTED | CU_FILE_NVMESH_SUPPORTED
    | CU_FILE_BEEGFS_SUPPORTED | CU_FILE_NVME_P2P_SUPPORTED | CU_FILE_SCATEFS_SUPPORTED

datatype CUfileDriverControlFlags_t =
    CU_FILE_USE_POLL_MODE | CU_FILE_ALLOW_COMPAT_MODE

datatype CUfileFeatureFlags_t =
    CU_FILE_DYN_ROUTING_SUPPORTED | CU_FILE_BATCH_IO_SUPPORTED | CU_FILE_STREAMS_SUPPORTED
    | CU_FILE_PARALLEL_IO_SUPPORTED

datatype CUfileFileHandleType =
    CU_FILE_HANDLE_TYPE_OPAQUE_FD | CU_FILE_HANDLE_TYPE_OPAQUE_WIN32
    | CU_FILE_HANDLE_TYPE_USERSPACE_FS

datatype CUfileOpcode_t =
    CUFILE_READ | CUFILE_WRITE

datatype CUfileStatus_t =
    CUFILE_WAITING | CUFILE_PENDING | CUFILE_INVALID | CUFILE_CANCELED | CUFILE_COMPLETE
    | CUFILE_TIMEOUT | CUFILE_FAILED

datatype CUfileBatchMode_t =
    CUFILE_BATCH

datatype CUFileSizeTConfigParameter_t =
    CUFILE_PARAM_PROFILE_STATS | CUFILE_PARAM_EXECUTION_MAX_IO_QUEUE_DEPTH
    | CUFILE_PARAM_EXECUTION_MAX_IO_THREADS | CUFILE_PARAM_EXECUTION_MIN_IO_THRESHOLD_SIZE_KB
    | CUFILE_PARAM_EXECUTION_MAX_REQUEST_PARALLELISM
    | CUFILE_PARAM_PROPERTIES_MAX_DIRECT_IO_SIZE_KB
    | CUFILE_PARAM_PROPERTIES_MAX_DEVICE_CACHE_SIZE_KB
    | CUFILE_PARAM_PROPERTIES_PER_BUFFER_CACHE_SIZE_KB
    | CUFILE_PARAM_PROPERTIES_MAX_DEVICE_PINNED_MEM_SIZE_KB
    | CUFILE_PARAM_PROPERTIES_IO_BATCHSIZE | CUFILE_PARAM_POLLTHRESHOLD_SIZE_KB
    | CUFILE_PARAM_PROPERTIES_BATCH_IO_TIMEOUT_MS

datatype CUFileBoolConfigParameter_t =
    CUFILE_PARAM_PROPERTIES_USE_POLL_MODE | CUFILE_PARAM_PROPERTIES_ALLOW_COMPAT_MODE
    | CUFILE_PARAM_FORCE_COMPAT_MODE | CUFILE_PARAM_FS_MISC_API_CHECK_AGGRESSIVE
    | CUFILE_PARAM_EXECUTION_PARALLEL_IO | CUFILE_PARAM_PROFILE_NVTX
    | CUFILE_PARAM_PROPERTIES_ALLOW_SYSTEM_MEMORY | CUFILE_PARAM_USE_PCIP2PDMA
    | CUFILE_PARAM_PREFER_IO_URING | CUFILE_PARAM_FORCE_ODIRECT_MODE
    | CUFILE_PARAM_SKIP_TOPOLOGY_DETECTION | CUFILE_PARAM_STREAM_MEMOPS_BYPASS

datatype CUFileStringConfigParameter_t =
    CUFILE_PARAM_LOGGING_LEVEL | CUFILE_PARAM_ENV_LOGFILE_PATH | CUFILE_PARAM_LOG_DIR

datatype CUresult = CUDA_SUCCESS | CUresult_enum nat

record CUfileError_t =
  cuerr :: "CUfileOpError c_enum"
  cu_err :: CUresult

record cuda_ext =
  IS_CUDA_ERR :: "CUfileError_t \<Rightarrow> bool"
  hipCUResultTohipError :: "CUresult \<Rightarrow> hipError_t"
  hipErrorToCUResult :: "hipError_t \<Rightarrow> CUresult"

record CUfileDrvProps_t =
  cu_major_version :: uint32_t
  cu_minor_version :: uint32_t
  cu_poll_thresh_size :: "64 word"
  cu_max_direct_io_size :: "64 word"
  cu_dstatusflags :: uint32_t
  cu_dcontrolflags :: uint32_t
  cu_fflags :: uint32_t
  cu_max_device_cache_size :: uint32_t
  cu_per_buffer_cache_size :: uint32_t
  cu_max_device_pinned_mem_size :: uint32_t
  cu_max_batch_io_size :: uint32_t
  cu_max_batch_io_timeout_msecs :: uint32_t

record cufileRDMAInfo_t =
  cu_version :: int
  cu_desc_len :: int
  cu_desc_str :: ptr

record CUfileDescr_t =
  cud_type :: "CUfileFileHandleType c_enum"
  cud_fd :: int
  cud_handle :: ptr
  cud_fs_ops :: ptr

record CUfileIOParams_t =
  cup_mode :: "CUfileBatchMode_t c_enum"
  cup_devPtr_base :: ptr
  cup_file_offset :: hoff_t
  cup_devPtr_offset :: hoff_t
  cup_size :: size_t
  cup_fh :: ptr
  cup_opcode :: "CUfileOpcode_t c_enum"
  cup_cookie :: ptr

record CUfileIOEvents_t =
  cue_cookie :: ptr
  cue_status :: "CUfileStatus_t c_enum"
  cue_ret :: size_t

section \<open>Types of hipFile\<close>

datatype hipFileDriverStatusFlags =
    hipFileLustreSupported | hipFileWekaFSSupported | hipFileNFSSupported | hipFileGPFSSupported
    | hipFileNVMeSupported | hipFileNVMeoFSupported | hipFileSCSISupported
    | hipFileScaleFluxCSDSupported | hipFileNVMeshSupported | hipFileBeeGFSSupported
    | hipFileNVMeP2PSupported | hipFileScatefsSupported

datatype hipFileDriverControlFlags =
    hipFileUsePollMode | hipFileAllowCompatMode

datatype hipFileFeatureFlags =
    hipFileDynRoutingSupported | hipFileBatchIOSupported | hipFileStreamsSupported
    | hipFileParallelIOSupported

datatype hipFileStatus =
    hipFileWaiting | hipFilePending | hipFileInvalid | hipFileCanceled | hipFileComplete
    | hipFileTimeout | hipFileFailed

datatype hipFileSizeTConfigParameter =
    hipFileParamProfileStats | hipFileParamExecutionMaxIOQueueDepth
    | hipFileParamExecutionMaxIOThreads | hipFileParamExecutionMinIOThresholdSizeKB
    | hipFileParamExecutionMaxRequestParallelism | hipFileParamPropertiesMaxDirectIOSizeKB
    | hipFileParamPropertiesMaxDeviceCacheSizeKB | hipFileParamPropertiesPerBufferCacheSizeKB
    | hipFileParamPropertiesMaxDevicePinnedMemSizeKB | hipFileParamPropertiesIOBatchsize
    | hipFileParamPollthresholdSizeKB | hipFileParamPropertiesBatchIOTimeoutMs

datatype hipFileBoolConfigParameter =
    hipFileParamPropertiesUsePollMode | hipFileParamPropertiesAllowCompatMode
    | hipFileParamForceCompatMode | hipFileParamFsMiscApiCheckAggressive
    | hipFileParamExecutionParallelIO | hipFileParamProfileNvtx
    | hipFileParamPropertiesAllowSystemMemory | hipFileParamUsePcip2pdma
    | hipFileParamPreferIOUring | hipFileParamForceOdirectMode
    | hipFileParamSkipTopologyDetection | hipFileParamStreamMemopsBypass

datatype hipFileStringConfigParameter =
    hipFileParamLoggingLevel | hipFileParamEnvLogfilePath | hipFileParamLogDir

record hipFileDriverProps_t =
  major_version :: uint32_t
  minor_version :: uint32_t
  poll_thresh_size :: "64 word"
  max_direct_io_size :: "64 word"
  driver_status_flags :: uint32_t
  driver_control_flags :: uint32_t
  feature_flags :: uint32_t
  max_device_cache_size :: "64 word"
  per_buffer_cache_size :: "64 word"
  max_device_pinned_mem_size :: "64 word"
  max_batch_io_count :: uint32_t
  max_batch_io_timeout_msecs :: uint32_t

record hipFileRDMAInfo_t =
  rdma_version :: int
  rdma_desc_len :: int
  rdma_desc_str :: ptr

record hipFileIOEvents_t =
  ioe_cookie :: ptr
  ioe_status :: "hipFileStatus c_enum"
  ioe_ret :: size_t

section \<open>Errors\<close>

definition toHipFileOpError ::
  "CUfileOpError c_enum \<Rightarrow> exn + hipFileOpError" where
  "toHipFileOpError cu_status =
     (case cu_status of
        Named e \<Rightarrow>
          (case e of
             CU_FILE_SUCCESS \<Rightarrow> Inr hipFileSuccess
           | CU_FILE_DRIVER_NOT_INITIALIZED \<Rightarrow> Inr hipFileDriverNotInitialized
           | CU_FILE_DRIVER_INVALID_PROPS \<Rightarrow> Inr hipFileDriverInvalidProps
           | CU_FILE_DRIVER_UNSUPPORTED_LIMIT \<Rightarrow> Inr hipFileDriverUnsupportedLimit
           | CU_FILE_DRIVER_VERSION_MISMATCH \<Rightarrow> Inr hipFileDriverVersionMismatch
           | CU_FILE_DRIVER_VERSION_READ_ERROR \<Rightarrow> Inr hipFileDriverVersionReadError
           | CU_FILE_DRIVER_CLOSING \<Rightarrow> Inr hipFileDriverClosing
           | CU_FILE_PLATFORM_NOT_SUPPORTED \<Rightarrow> Inr hipFilePlatformNotSupported
           | CU_FILE_IO_NOT_SUPPORTED \<Rightarrow> Inr hipFileIONotSupported
           | CU_FILE_DEVICE_NOT_SUPPORTED \<Rightarrow> Inr hipFileDeviceNotSupported
           | CU_FILE_NVFS_DRIVER_ERROR \<Rightarrow> Inr hipFileDriverError
           | CU_FILE_CUDA_DRIVER_ERROR \<Rightarrow> Inr hipFileHipDriverError
           | CU_FILE_CUDA_POINTER_INVALID \<Rightarrow> Inr hipFileHipPointerInvalid
           | CU_FILE_CUDA_MEMORY_TYPE_INVALID \<Rightarrow> Inr hipFileHipMemoryTypeInvalid
           | CU_FILE_CUDA_POINTER_RANGE_ERROR \<Rightarrow> Inr hipFileHipPointerRangeError
           | CU_FILE_CUDA_CONTEXT_MISMATCH \<Rightarrow> Inr hipFileHipContextMismatch
           | CU_FILE_INVALID_MAPPING_SIZE \<Rightarrow> Inr hipFileInvalidMappingSize
           | CU_FILE_INVALID_MAPPING_RANGE \<Rightarrow> Inr hipFileInvalidMappingRange
           | CU_FILE_INVALID_FILE_TYPE \<Rightarrow> Inr hipFileInvalidFileType
           | CU_FILE_INVALID_FILE_OPEN_FLAG \<Rightarrow> Inr hipFileInvalidFileOpenFlag
           | CU_FILE_DIO_NOT_SET \<Rightarrow> Inr hipFileDIONotSet
           | CU_FILE_INVALID_VALUE \<Rightarrow> Inr hipFileInvalidValue
           | CU_FILE_MEMORY_ALREADY_REGISTERED \<Rightarrow> Inr hipFileMemoryAlreadyRegistered
           | CU_FILE_MEMORY_NOT_REGISTERED \<Rightarrow> Inr hipFileMemoryNotRegistered
           | CU_FILE_PERMISSION_DENIED \<Rightarrow> Inr hipFilePermissionDenied
           | CU_FILE_DRIVER_ALREADY_OPEN \<Rightarrow> Inr hipFileDriverAlreadyOpen
           | CU_FILE_HANDLE_NOT_REGISTERED \<Rightarrow> Inr hipFileHandleNotRegistered
           | CU_FILE_HANDLE_ALREADY_REGISTERED \<Rightarrow> Inr hipFileHandleAlreadyRegistered
           | CU_FILE_DEVICE_NOT_FOUND \<Rightarrow> Inr hipFileDeviceNotFound
           | CU_FILE_INTERNAL_ERROR \<Rightarrow> Inr hipFileInternalError
           | CU_FILE_GETNEWFD_FAILED \<Rightarrow> Inr hipFileGetNewFDFailed
           | CU_FILE_NVFS_SETUP_ERROR \<Rightarrow> Inr hipFileDriverSetupError
           | CU_FILE_IO_DISABLED \<Rightarrow> Inr hipFileIODisabled
           | CU_FILE_BATCH_SUBMIT_FAILED \<Rightarrow> Inr hipFileBatchSubmitFailed
           | CU_FILE_GPU_MEMORY_PINNING_FAILED \<Rightarrow> Inr hipFileGPUMemoryPinningFailed
           | CU_FILE_BATCH_FULL \<Rightarrow> Inr hipFileBatchFull
           | CU_FILE_ASYNC_NOT_SUPPORTED \<Rightarrow> Inr hipFileAsyncNotSupported
           | CU_FILE_IO_MAX_ERROR \<Rightarrow> Inr hipFileIOMaxError)
      | Unnamed _ \<Rightarrow> Inl Std_invalid_argument)"

definition toCUfileOpError ::
  "hipFileOpError_t \<Rightarrow> CUfileOpError" where
  "toCUfileOpError hip_status =
     (case hip_status of
        Named e \<Rightarrow>
          (case e of
             hipFileSuccess \<Rightarrow> CU_FILE_SUCCESS
           | hipFileDriverNotInitialized \<Rightarrow> CU_FILE_DRIVER_NOT_INITIALIZED
           | hipFileDriverInvalidProps \<Rightarrow> CU_FILE_DRIVER_INVALID_PROPS
           | hipFileDriverUnsupportedLimit \<Rightarrow> CU_FILE_DRIVER_UNSUPPORTED_LIMIT
           | hipFileDriverVersionMismatch \<Rightarrow> CU_FILE_DRIVER_VERSION_MISMATCH
           | hipFileDriverVersionReadError \<Rightarrow> CU_FILE_DRIVER_VERSION_READ_ERROR
           | hipFileDriverClosing \<Rightarrow> CU_FILE_DRIVER_CLOSING
           | hipFilePlatformNotSupported \<Rightarrow> CU_FILE_PLATFORM_NOT_SUPPORTED
           | hipFileIONotSupported \<Rightarrow> CU_FILE_IO_NOT_SUPPORTED
           | hipFileDeviceNotSupported \<Rightarrow> CU_FILE_DEVICE_NOT_SUPPORTED
           | hipFileDriverError \<Rightarrow> CU_FILE_NVFS_DRIVER_ERROR
           | hipFileHipDriverError \<Rightarrow> CU_FILE_CUDA_DRIVER_ERROR
           | hipFileHipPointerInvalid \<Rightarrow> CU_FILE_CUDA_POINTER_INVALID
           | hipFileHipMemoryTypeInvalid \<Rightarrow> CU_FILE_CUDA_MEMORY_TYPE_INVALID
           | hipFileHipPointerRangeError \<Rightarrow> CU_FILE_CUDA_POINTER_RANGE_ERROR
           | hipFileHipContextMismatch \<Rightarrow> CU_FILE_CUDA_CONTEXT_MISMATCH
           | hipFileInvalidMappingSize \<Rightarrow> CU_FILE_INVALID_MAPPING_SIZE
           | hipFileInvalidMappingRange \<Rightarrow> CU_FILE_INVALID_MAPPING_RANGE
           | hipFileInvalidFileType \<Rightarrow> CU_FILE_INVALID_FILE_TYPE
           | hipFileInvalidFileOpenFlag \<Rightarrow> CU_FILE_INVALID_FILE_OPEN_FLAG
           | hipFileDIONotSet \<Rightarrow> CU_FILE_DIO_NOT_SET
           | hipFileInvalidValue \<Rightarrow> CU_FILE_INVALID_VALUE
           | hipFileMemoryAlreadyRegistered \<Rightarrow> CU_FILE_MEMORY_ALREADY_REGISTERED
           | hipFileMemoryNotRegistered \<Rightarrow> CU_FILE_MEMORY_NOT_REGISTERED
           | hipFilePermissionDenied \<Rightarrow> CU_FILE_PERMISSION_DENIED
           | hipFileDriverAlreadyOpen \<Rightarrow> CU_FILE_DRIVER_ALREADY_OPEN
           | hipFileHandleNotRegistered \<Rightarrow> CU_FILE_HANDLE_NOT_REGISTERED
           | hipFileHandleAlreadyRegistered \<Rightarrow> CU_FILE_HANDLE_ALREADY_REGISTERED
           | hipFileDeviceNotFound \<Rightarrow> CU_FILE_DEVICE_NOT_FOUND
           | hipFileInternalError \<Rightarrow> CU_FILE_INTERNAL_ERROR
           | hipFileGetNewFDFailed \<Rightarrow> CU_FILE_GETNEWFD_FAILED
           | hipFileDriverSetupError \<Rightarrow> CU_FILE_NVFS_SETUP_ERROR
           | hipFileIODisabled \<Rightarrow> CU_FILE_IO_DISABLED
           | hipFileBatchSubmitFailed \<Rightarrow> CU_FILE_BATCH_SUBMIT_FAILED
           | hipFileGPUMemoryPinningFailed \<Rightarrow> CU_FILE_GPU_MEMORY_PINNING_FAILED
           | hipFileBatchFull \<Rightarrow> CU_FILE_BATCH_FULL
           | hipFileAsyncNotSupported \<Rightarrow> CU_FILE_ASYNC_NOT_SUPPORTED
           | hipFileIOMaxError \<Rightarrow> CU_FILE_IO_MAX_ERROR)
      | Unnamed _ \<Rightarrow> CU_FILE_INVALID_VALUE)"

definition toHipFileError :: "'z cuda_ext_scheme \<Rightarrow> CUfileError_t \<Rightarrow> exn + hipFileError_t" where
  "toHipFileError c cu_status =
     (case toHipFileOpError (cuerr cu_status) of
        Inl ex \<Rightarrow> Inl ex
      | Inr e \<Rightarrow>
          Inr \<lparr>err = e,
               hip_drv_err =
                 (if IS_CUDA_ERR c cu_status then hipCUResultTohipError c (cu_err cu_status)
                  else hipSuccess)\<rparr>)"

definition toCUfileError :: "'z cuda_ext_scheme \<Rightarrow> hipFileError_t \<Rightarrow> CUfileError_t" where
  "toCUfileError c hip_status =
     \<lparr>cuerr = Named (toCUfileOpError (Named (err hip_status))),
      cu_err = (if IS_HIP_DRV_ERR hip_status then hipErrorToCUResult c (hip_drv_err hip_status)
                else CUDA_SUCCESS)\<rparr>"

section \<open>Flags and enumerations\<close>

text \<open>
  A conversion with an out parameter returns the status and the value that it wrote, if any.
\<close>

definition toHipFileDriverStatusFlags ::
  "CUfileDriverStatusFlags_t c_enum \<Rightarrow>
     hipFileOpError \<times> hipFileDriverStatusFlags option" where
  "toHipFileDriverStatusFlags cu_flags =
     (case cu_flags of
        Named e \<Rightarrow>
          (case e of
             CU_FILE_LUSTRE_SUPPORTED \<Rightarrow> (hipFileSuccess, Some hipFileLustreSupported)
           | CU_FILE_WEKAFS_SUPPORTED \<Rightarrow> (hipFileSuccess, Some hipFileWekaFSSupported)
           | CU_FILE_NFS_SUPPORTED \<Rightarrow> (hipFileSuccess, Some hipFileNFSSupported)
           | CU_FILE_GPFS_SUPPORTED \<Rightarrow> (hipFileSuccess, Some hipFileGPFSSupported)
           | CU_FILE_NVME_SUPPORTED \<Rightarrow> (hipFileSuccess, Some hipFileNVMeSupported)
           | CU_FILE_NVMEOF_SUPPORTED \<Rightarrow> (hipFileSuccess, Some hipFileNVMeoFSupported)
           | CU_FILE_SCSI_SUPPORTED \<Rightarrow> (hipFileSuccess, Some hipFileSCSISupported)
           | CU_FILE_SCALEFLUX_CSD_SUPPORTED \<Rightarrow> (hipFileSuccess, Some hipFileScaleFluxCSDSupported)
           | CU_FILE_NVMESH_SUPPORTED \<Rightarrow> (hipFileSuccess, Some hipFileNVMeshSupported)
           | CU_FILE_BEEGFS_SUPPORTED \<Rightarrow> (hipFileSuccess, Some hipFileBeeGFSSupported)
           | CU_FILE_NVME_P2P_SUPPORTED \<Rightarrow> (hipFileSuccess, Some hipFileNVMeP2PSupported)
           | CU_FILE_SCATEFS_SUPPORTED \<Rightarrow> (hipFileSuccess, Some hipFileScatefsSupported))
      | Unnamed _ \<Rightarrow> (hipFileInternalError, None))"

definition toCUfileDriverStatusFlags ::
  "hipFileDriverStatusFlags c_enum \<Rightarrow>
     hipFileOpError \<times> CUfileDriverStatusFlags_t option" where
  "toCUfileDriverStatusFlags hip_flags =
     (case hip_flags of
        Named e \<Rightarrow>
          (case e of
             hipFileLustreSupported \<Rightarrow> (hipFileSuccess, Some CU_FILE_LUSTRE_SUPPORTED)
           | hipFileWekaFSSupported \<Rightarrow> (hipFileSuccess, Some CU_FILE_WEKAFS_SUPPORTED)
           | hipFileNFSSupported \<Rightarrow> (hipFileSuccess, Some CU_FILE_NFS_SUPPORTED)
           | hipFileGPFSSupported \<Rightarrow> (hipFileSuccess, Some CU_FILE_GPFS_SUPPORTED)
           | hipFileNVMeSupported \<Rightarrow> (hipFileSuccess, Some CU_FILE_NVME_SUPPORTED)
           | hipFileNVMeoFSupported \<Rightarrow> (hipFileSuccess, Some CU_FILE_NVMEOF_SUPPORTED)
           | hipFileSCSISupported \<Rightarrow> (hipFileSuccess, Some CU_FILE_SCSI_SUPPORTED)
           | hipFileScaleFluxCSDSupported \<Rightarrow> (hipFileSuccess, Some CU_FILE_SCALEFLUX_CSD_SUPPORTED)
           | hipFileNVMeshSupported \<Rightarrow> (hipFileSuccess, Some CU_FILE_NVMESH_SUPPORTED)
           | hipFileBeeGFSSupported \<Rightarrow> (hipFileSuccess, Some CU_FILE_BEEGFS_SUPPORTED)
           | hipFileNVMeP2PSupported \<Rightarrow> (hipFileSuccess, Some CU_FILE_NVME_P2P_SUPPORTED)
           | hipFileScatefsSupported \<Rightarrow> (hipFileSuccess, Some CU_FILE_SCATEFS_SUPPORTED))
      | Unnamed _ \<Rightarrow> (hipFileInternalError, None))"

definition toHipFileDriverControlFlags ::
  "CUfileDriverControlFlags_t c_enum \<Rightarrow>
     hipFileOpError \<times> hipFileDriverControlFlags option" where
  "toHipFileDriverControlFlags cu_flags =
     (case cu_flags of
        Named e \<Rightarrow>
          (case e of
             CU_FILE_USE_POLL_MODE \<Rightarrow> (hipFileSuccess, Some hipFileUsePollMode)
           | CU_FILE_ALLOW_COMPAT_MODE \<Rightarrow> (hipFileSuccess, Some hipFileAllowCompatMode))
      | Unnamed _ \<Rightarrow> (hipFileInternalError, None))"

definition toCUfileDriverControlFlags ::
  "hipFileDriverControlFlags c_enum \<Rightarrow>
     hipFileOpError \<times> CUfileDriverControlFlags_t option" where
  "toCUfileDriverControlFlags hip_flags =
     (case hip_flags of
        Named e \<Rightarrow>
          (case e of
             hipFileUsePollMode \<Rightarrow> (hipFileSuccess, Some CU_FILE_USE_POLL_MODE)
           | hipFileAllowCompatMode \<Rightarrow> (hipFileSuccess, Some CU_FILE_ALLOW_COMPAT_MODE))
      | Unnamed _ \<Rightarrow> (hipFileInternalError, None))"

definition toHipFileFeatureFlags ::
  "CUfileFeatureFlags_t c_enum \<Rightarrow>
     hipFileOpError \<times> hipFileFeatureFlags option" where
  "toHipFileFeatureFlags cu_flags =
     (case cu_flags of
        Named e \<Rightarrow>
          (case e of
             CU_FILE_DYN_ROUTING_SUPPORTED \<Rightarrow> (hipFileSuccess, Some hipFileDynRoutingSupported)
           | CU_FILE_BATCH_IO_SUPPORTED \<Rightarrow> (hipFileSuccess, Some hipFileBatchIOSupported)
           | CU_FILE_STREAMS_SUPPORTED \<Rightarrow> (hipFileSuccess, Some hipFileStreamsSupported)
           | CU_FILE_PARALLEL_IO_SUPPORTED \<Rightarrow> (hipFileSuccess, Some hipFileParallelIOSupported))
      | Unnamed _ \<Rightarrow> (hipFileInternalError, None))"

definition toCUfileFeatureFlags ::
  "hipFileFeatureFlags c_enum \<Rightarrow>
     hipFileOpError \<times> CUfileFeatureFlags_t option" where
  "toCUfileFeatureFlags hip_flags =
     (case hip_flags of
        Named e \<Rightarrow>
          (case e of
             hipFileDynRoutingSupported \<Rightarrow> (hipFileSuccess, Some CU_FILE_DYN_ROUTING_SUPPORTED)
           | hipFileBatchIOSupported \<Rightarrow> (hipFileSuccess, Some CU_FILE_BATCH_IO_SUPPORTED)
           | hipFileStreamsSupported \<Rightarrow> (hipFileSuccess, Some CU_FILE_STREAMS_SUPPORTED)
           | hipFileParallelIOSupported \<Rightarrow> (hipFileSuccess, Some CU_FILE_PARALLEL_IO_SUPPORTED))
      | Unnamed _ \<Rightarrow> (hipFileInternalError, None))"

definition toHipFileFileHandleType ::
  "CUfileFileHandleType c_enum \<Rightarrow>
     hipFileOpError \<times> hipFileFileHandleType option" where
  "toHipFileFileHandleType cu_type =
     (case cu_type of
        Named e \<Rightarrow>
          (case e of
             CU_FILE_HANDLE_TYPE_OPAQUE_FD \<Rightarrow> (hipFileSuccess, Some hipFileHandleTypeOpaqueFD)
           | CU_FILE_HANDLE_TYPE_OPAQUE_WIN32 \<Rightarrow> (hipFileSuccess, Some hipFileHandleTypeOpaqueWin32)
           | CU_FILE_HANDLE_TYPE_USERSPACE_FS \<Rightarrow> (hipFileSuccess, Some hipFileHandleTypeUserspaceFS))
      | Unnamed _ \<Rightarrow> (hipFileInternalError, None))"

definition toCUfileFileHandleType :: "hipFileFileHandleType \<Rightarrow> exn + CUfileFileHandleType" where
  "toCUfileFileHandleType hip_type =
     (case hip_type of
        hipFileHandleTypeOpaqueFD \<Rightarrow> Inr CU_FILE_HANDLE_TYPE_OPAQUE_FD
      | hipFileHandleTypeOpaqueWin32 \<Rightarrow> Inr CU_FILE_HANDLE_TYPE_OPAQUE_WIN32
      | hipFileHandleTypeUserspaceFS \<Rightarrow> Inr CU_FILE_HANDLE_TYPE_USERSPACE_FS
      | hipFileHandleType_other _ \<Rightarrow> Inl Std_invalid_argument)"

definition toHipFileOpcode ::
  "CUfileOpcode_t c_enum \<Rightarrow>
     hipFileOpError \<times> int option" where
  "toHipFileOpcode cu_opcode =
     (case cu_opcode of
        Named e \<Rightarrow>
          (case e of
             CUFILE_READ \<Rightarrow> (hipFileSuccess, Some hipFileBatchRead)
           | CUFILE_WRITE \<Rightarrow> (hipFileSuccess, Some hipFileBatchWrite))
      | Unnamed _ \<Rightarrow> (hipFileInternalError, None))"

definition toCUfileOpcode :: "int \<Rightarrow> exn + CUfileOpcode_t" where
  "toCUfileOpcode hip_opcode =
     (if hip_opcode = hipFileBatchRead then Inr CUFILE_READ
      else if hip_opcode = hipFileBatchWrite then Inr CUFILE_WRITE
      else Inl Std_invalid_argument)"

definition toHipFileStatus ::
  "CUfileStatus_t c_enum \<Rightarrow> exn + hipFileStatus" where
  "toHipFileStatus cu_status =
     (case cu_status of
        Named e \<Rightarrow>
          (case e of
             CUFILE_WAITING \<Rightarrow> Inr hipFileWaiting
           | CUFILE_PENDING \<Rightarrow> Inr hipFilePending
           | CUFILE_INVALID \<Rightarrow> Inr hipFileInvalid
           | CUFILE_CANCELED \<Rightarrow> Inr hipFileCanceled
           | CUFILE_COMPLETE \<Rightarrow> Inr hipFileComplete
           | CUFILE_TIMEOUT \<Rightarrow> Inr hipFileTimeout
           | CUFILE_FAILED \<Rightarrow> Inr hipFileFailed)
      | Unnamed _ \<Rightarrow> Inl Std_invalid_argument)"

definition toCUfileStatus ::
  "hipFileStatus c_enum \<Rightarrow>
     hipFileOpError \<times> CUfileStatus_t option" where
  "toCUfileStatus hip_status =
     (case hip_status of
        Named e \<Rightarrow>
          (case e of
             hipFileWaiting \<Rightarrow> (hipFileSuccess, Some CUFILE_WAITING)
           | hipFilePending \<Rightarrow> (hipFileSuccess, Some CUFILE_PENDING)
           | hipFileInvalid \<Rightarrow> (hipFileSuccess, Some CUFILE_INVALID)
           | hipFileCanceled \<Rightarrow> (hipFileSuccess, Some CUFILE_CANCELED)
           | hipFileComplete \<Rightarrow> (hipFileSuccess, Some CUFILE_COMPLETE)
           | hipFileTimeout \<Rightarrow> (hipFileSuccess, Some CUFILE_TIMEOUT)
           | hipFileFailed \<Rightarrow> (hipFileSuccess, Some CUFILE_FAILED))
      | Unnamed _ \<Rightarrow> (hipFileInternalError, None))"

definition toHipFileBatchMode ::
  "CUfileBatchMode_t c_enum \<Rightarrow>
     hipFileOpError \<times> int option" where
  "toHipFileBatchMode cu_mode =
     (case cu_mode of
        Named e \<Rightarrow>
          (case e of
             CUFILE_BATCH \<Rightarrow> (hipFileSuccess, Some hipFileBatch))
      | Unnamed _ \<Rightarrow> (hipFileInternalError, None))"

definition toCUfileBatchMode :: "int \<Rightarrow> exn + CUfileBatchMode_t" where
  "toCUfileBatchMode hip_mode =
     (if hip_mode = hipFileBatch then Inr CUFILE_BATCH else Inl Std_invalid_argument)"

definition toCUFileSizeTConfigParameter ::
  "hipFileSizeTConfigParameter c_enum \<Rightarrow> exn + CUFileSizeTConfigParameter_t" where
  "toCUFileSizeTConfigParameter param =
     (case param of
        Named e \<Rightarrow>
          (case e of
             hipFileParamProfileStats \<Rightarrow> Inr CUFILE_PARAM_PROFILE_STATS
           | hipFileParamExecutionMaxIOQueueDepth \<Rightarrow> Inr CUFILE_PARAM_EXECUTION_MAX_IO_QUEUE_DEPTH
           | hipFileParamExecutionMaxIOThreads \<Rightarrow> Inr CUFILE_PARAM_EXECUTION_MAX_IO_THREADS
           | hipFileParamExecutionMinIOThresholdSizeKB \<Rightarrow> Inr CUFILE_PARAM_EXECUTION_MIN_IO_THRESHOLD_SIZE_KB
           | hipFileParamExecutionMaxRequestParallelism \<Rightarrow> Inr CUFILE_PARAM_EXECUTION_MAX_REQUEST_PARALLELISM
           | hipFileParamPropertiesMaxDirectIOSizeKB \<Rightarrow> Inr CUFILE_PARAM_PROPERTIES_MAX_DIRECT_IO_SIZE_KB
           | hipFileParamPropertiesMaxDeviceCacheSizeKB \<Rightarrow> Inr CUFILE_PARAM_PROPERTIES_MAX_DEVICE_CACHE_SIZE_KB
           | hipFileParamPropertiesPerBufferCacheSizeKB \<Rightarrow> Inr CUFILE_PARAM_PROPERTIES_PER_BUFFER_CACHE_SIZE_KB
           | hipFileParamPropertiesMaxDevicePinnedMemSizeKB \<Rightarrow> Inr CUFILE_PARAM_PROPERTIES_MAX_DEVICE_PINNED_MEM_SIZE_KB
           | hipFileParamPropertiesIOBatchsize \<Rightarrow> Inr CUFILE_PARAM_PROPERTIES_IO_BATCHSIZE
           | hipFileParamPollthresholdSizeKB \<Rightarrow> Inr CUFILE_PARAM_POLLTHRESHOLD_SIZE_KB
           | hipFileParamPropertiesBatchIOTimeoutMs \<Rightarrow> Inr CUFILE_PARAM_PROPERTIES_BATCH_IO_TIMEOUT_MS)
      | Unnamed _ \<Rightarrow> Inl Std_invalid_argument)"

definition toCUFileBoolConfigParameter ::
  "hipFileBoolConfigParameter c_enum \<Rightarrow> exn + CUFileBoolConfigParameter_t" where
  "toCUFileBoolConfigParameter param =
     (case param of
        Named e \<Rightarrow>
          (case e of
             hipFileParamPropertiesUsePollMode \<Rightarrow> Inr CUFILE_PARAM_PROPERTIES_USE_POLL_MODE
           | hipFileParamPropertiesAllowCompatMode \<Rightarrow> Inr CUFILE_PARAM_PROPERTIES_ALLOW_COMPAT_MODE
           | hipFileParamForceCompatMode \<Rightarrow> Inr CUFILE_PARAM_FORCE_COMPAT_MODE
           | hipFileParamFsMiscApiCheckAggressive \<Rightarrow> Inr CUFILE_PARAM_FS_MISC_API_CHECK_AGGRESSIVE
           | hipFileParamExecutionParallelIO \<Rightarrow> Inr CUFILE_PARAM_EXECUTION_PARALLEL_IO
           | hipFileParamProfileNvtx \<Rightarrow> Inr CUFILE_PARAM_PROFILE_NVTX
           | hipFileParamPropertiesAllowSystemMemory \<Rightarrow> Inr CUFILE_PARAM_PROPERTIES_ALLOW_SYSTEM_MEMORY
           | hipFileParamUsePcip2pdma \<Rightarrow> Inr CUFILE_PARAM_USE_PCIP2PDMA
           | hipFileParamPreferIOUring \<Rightarrow> Inr CUFILE_PARAM_PREFER_IO_URING
           | hipFileParamForceOdirectMode \<Rightarrow> Inr CUFILE_PARAM_FORCE_ODIRECT_MODE
           | hipFileParamSkipTopologyDetection \<Rightarrow> Inr CUFILE_PARAM_SKIP_TOPOLOGY_DETECTION
           | hipFileParamStreamMemopsBypass \<Rightarrow> Inr CUFILE_PARAM_STREAM_MEMOPS_BYPASS)
      | Unnamed _ \<Rightarrow> Inl Std_invalid_argument)"

definition toCUFileStringConfigParameter ::
  "hipFileStringConfigParameter c_enum \<Rightarrow> exn + CUFileStringConfigParameter_t" where
  "toCUFileStringConfigParameter param =
     (case param of
        Named e \<Rightarrow>
          (case e of
             hipFileParamLoggingLevel \<Rightarrow> Inr CUFILE_PARAM_LOGGING_LEVEL
           | hipFileParamEnvLogfilePath \<Rightarrow> Inr CUFILE_PARAM_ENV_LOGFILE_PATH
           | hipFileParamLogDir \<Rightarrow> Inr CUFILE_PARAM_LOG_DIR)
      | Unnamed _ \<Rightarrow> Inl Std_invalid_argument)"

section \<open>Structures\<close>

definition toHipFileDriverProps :: "CUfileDrvProps_t \<Rightarrow> hipFileDriverProps_t" where
  "toHipFileDriverProps cu_props =
     \<lparr>major_version = cu_major_version cu_props,
      minor_version = cu_minor_version cu_props,
      poll_thresh_size = cu_poll_thresh_size cu_props,
      max_direct_io_size = cu_max_direct_io_size cu_props,
      driver_status_flags = cu_dstatusflags cu_props,
      driver_control_flags = cu_dcontrolflags cu_props,
      feature_flags = cu_fflags cu_props,
      max_device_cache_size = ucast (cu_max_device_cache_size cu_props),
      per_buffer_cache_size = ucast (cu_per_buffer_cache_size cu_props),
      max_device_pinned_mem_size = ucast (cu_max_device_pinned_mem_size cu_props),
      max_batch_io_count = cu_max_batch_io_size cu_props,
      max_batch_io_timeout_msecs = cu_max_batch_io_timeout_msecs cu_props\<rparr>"

definition UINT_MAX_u64 :: "64 word" where "UINT_MAX_u64 = 0xFFFFFFFF"

text \<open>The second argument is what the out parameter held before.\<close>

definition toCUfileDrvProps ::
  "hipFileDriverProps_t \<Rightarrow> CUfileDrvProps_t \<Rightarrow> hipFileOpError \<times> CUfileDrvProps_t" where
  "toCUfileDrvProps hip_props cu_props =
     (if max_device_cache_size hip_props > UINT_MAX_u64 then (hipFileDriverInvalidProps, cu_props)
      else if per_buffer_cache_size hip_props > UINT_MAX_u64 then (hipFileDriverInvalidProps, cu_props)
      else if max_device_pinned_mem_size hip_props > UINT_MAX_u64
        then (hipFileDriverInvalidProps, cu_props)
      else (hipFileSuccess,
        cu_props\<lparr>cu_major_version := major_version hip_props,
          cu_minor_version := minor_version hip_props,
          cu_poll_thresh_size := poll_thresh_size hip_props,
          cu_max_direct_io_size := max_direct_io_size hip_props,
          cu_dstatusflags := driver_status_flags hip_props,
          cu_dcontrolflags := driver_control_flags hip_props,
          cu_fflags := feature_flags hip_props,
          cu_max_device_cache_size := ucast (max_device_cache_size hip_props),
          cu_per_buffer_cache_size := ucast (per_buffer_cache_size hip_props),
          cu_max_device_pinned_mem_size := ucast (max_device_pinned_mem_size hip_props),
          cu_max_batch_io_size := max_batch_io_count hip_props,
          cu_max_batch_io_timeout_msecs := max_batch_io_timeout_msecs hip_props\<rparr>))"

definition toHipFileRDMAInfo ::
  "cufileRDMAInfo_t \<Rightarrow> hipFileRDMAInfo_t \<Rightarrow> hipFileOpError \<times> hipFileRDMAInfo_t" where
  "toHipFileRDMAInfo cu_info hip_info =
     (hipFileSuccess,
      hip_info\<lparr>rdma_version := cu_version cu_info, rdma_desc_len := cu_desc_len cu_info,
        rdma_desc_str := cu_desc_str cu_info\<rparr>)"

definition toCufileRDMAInfo ::
  "hipFileRDMAInfo_t \<Rightarrow> cufileRDMAInfo_t \<Rightarrow> hipFileOpError \<times> cufileRDMAInfo_t" where
  "toCufileRDMAInfo hip_info cu_info =
     (hipFileSuccess,
      cu_info\<lparr>cu_version := rdma_version hip_info, cu_desc_len := rdma_desc_len hip_info,
        cu_desc_str := rdma_desc_str hip_info\<rparr>)"

definition toHipFileDescr ::
  "CUfileDescr_t \<Rightarrow> hipFileDescr_t \<Rightarrow> hipFileOpError \<times> hipFileDescr_t" where
  "toHipFileDescr cufd hip_fd =
     (case toHipFileFileHandleType (cud_type cufd) of
        (_, None) \<Rightarrow> (hipFileInternalError, hip_fd)
      | (_, Some type) \<Rightarrow>
          let hip_fd = hip_fd\<lparr>descr_type := type\<rparr> in
          (case cud_type cufd of
             Named CU_FILE_HANDLE_TYPE_OPAQUE_FD \<Rightarrow>
               (hipFileSuccess, hip_fd\<lparr>descr_fd := cud_fd cufd, descr_fs_ops := cud_fs_ops cufd\<rparr>)
           | Named CU_FILE_HANDLE_TYPE_OPAQUE_WIN32 \<Rightarrow>
               (hipFileSuccess, hip_fd\<lparr>descr_hFile := cud_handle cufd, descr_fs_ops := cud_fs_ops cufd\<rparr>)
           | Named CU_FILE_HANDLE_TYPE_USERSPACE_FS \<Rightarrow>
               (hipFileSuccess, hip_fd\<lparr>descr_fd := cud_fd cufd, descr_fs_ops := cud_fs_ops cufd\<rparr>)
           | Unnamed _ \<Rightarrow> (hipFileInternalError, hip_fd)))"

text \<open>
  The function fills a local variable that is not initialised; the first argument is what it
  holds, of which the member of the union that is not selected remains.
\<close>

definition toCUfileDescr :: "CUfileDescr_t \<Rightarrow> hipFileDescr_t \<Rightarrow> exn + CUfileDescr_t" where
  "toCUfileDescr uninit hip_fd =
     (let cufd = uninit\<lparr>cud_fs_ops := descr_fs_ops hip_fd\<rparr> in
      case descr_type hip_fd of
        hipFileHandleTypeOpaqueFD \<Rightarrow>
          Inr (cufd\<lparr>cud_type := Named CU_FILE_HANDLE_TYPE_OPAQUE_FD, cud_fd := descr_fd hip_fd\<rparr>)
      | hipFileHandleTypeOpaqueWin32 \<Rightarrow>
          Inr (cufd\<lparr>cud_type := Named CU_FILE_HANDLE_TYPE_OPAQUE_WIN32, cud_handle := descr_hFile hip_fd\<rparr>)
      | hipFileHandleTypeUserspaceFS \<Rightarrow>
          Inr (cufd\<lparr>cud_type := Named CU_FILE_HANDLE_TYPE_USERSPACE_FS, cud_fd := descr_fd hip_fd\<rparr>)
      | hipFileHandleType_other _ \<Rightarrow> Inl Std_invalid_argument)"

definition toHipFileIOParams ::
  "CUfileIOParams_t \<Rightarrow> hipFileIOParams_t \<Rightarrow> hipFileOpError \<times> hipFileIOParams_t" where
  "toHipFileIOParams cu_params hip_params =
     (case toHipFileBatchMode (cup_mode cu_params) of
        (_, None) \<Rightarrow> (hipFileInternalError, hip_params)
      | (_, Some batch_mode) \<Rightarrow>
          (case toHipFileOpcode (cup_opcode cu_params) of
             (_, None) \<Rightarrow> (hipFileInternalError, hip_params)
           | (_, Some opcode) \<Rightarrow>
               (hipFileSuccess,
                hip_params\<lparr>iop_mode := batch_mode, iop_devPtr_base := cup_devPtr_base cu_params,
                  iop_file_offset := cup_file_offset cu_params,
                  iop_devPtr_offset := cup_devPtr_offset cu_params, iop_size := cup_size cu_params,
                  iop_fh := cup_fh cu_params, iop_opcode := opcode,
                  iop_cookie := cup_cookie cu_params\<rparr>)))"

definition toCUfileIOParams :: "hipFileIOParams_t \<Rightarrow> exn + CUfileIOParams_t" where
  "toCUfileIOParams hip_params =
     (case toCUfileBatchMode (iop_mode hip_params) of
        Inl ex \<Rightarrow> Inl ex
      | Inr mode \<Rightarrow>
          (case toCUfileOpcode (iop_opcode hip_params) of
             Inl ex \<Rightarrow> Inl ex
           | Inr opcode \<Rightarrow>
               Inr \<lparr>cup_mode = Named mode, cup_devPtr_base = iop_devPtr_base hip_params,
                 cup_file_offset = iop_file_offset hip_params,
                 cup_devPtr_offset = iop_devPtr_offset hip_params, cup_size = iop_size hip_params,
                 cup_fh = iop_fh hip_params, cup_opcode = Named opcode,
                 cup_cookie = iop_cookie hip_params\<rparr>))"

definition toHipFileIOEvents :: "CUfileIOEvents_t \<Rightarrow> exn + hipFileIOEvents_t" where
  "toHipFileIOEvents cu_events =
     (case toHipFileStatus (cue_status cu_events) of
        Inl ex \<Rightarrow> Inl ex
      | Inr status \<Rightarrow>
          Inr \<lparr>ioe_cookie = cue_cookie cu_events, ioe_status = Named status,
               ioe_ret = cue_ret cu_events\<rparr>)"

definition toCUfileIOEvents ::
  "hipFileIOEvents_t \<Rightarrow> CUfileIOEvents_t \<Rightarrow> hipFileOpError \<times> CUfileIOEvents_t" where
  "toCUfileIOEvents hip_events cu_events =
     (case toCUfileStatus (ioe_status hip_events) of
        (_, None) \<Rightarrow> (hipFileInternalError, cu_events)
      | (_, Some status) \<Rightarrow>
          (hipFileSuccess,
           cu_events\<lparr>cue_cookie := ioe_cookie hip_events, cue_status := Named status,
             cue_ret := ioe_ret hip_events\<rparr>))"

section \<open>Round trips\<close>

lemma OpError_hip_cu: "toHipFileOpError (Named (toCUfileOpError (Named e))) = Inr e"
  by (cases e) (simp_all add: toHipFileOpError_def toCUfileOpError_def)

lemma OpError_cu_hip: "toHipFileOpError (Named c) = Inr e \<Longrightarrow> toCUfileOpError (Named e) = c"
  by (cases c) (auto simp: toHipFileOpError_def toCUfileOpError_def)

lemma OpError_named_iff:
  "toHipFileOpError (Named c) = Inr e \<longleftrightarrow> c = toCUfileOpError (Named e)"
  using OpError_hip_cu OpError_cu_hip by metis

lemma OpError_throws_iff: "toHipFileOpError v = Inl ex \<longleftrightarrow> (\<exists>n. v = Unnamed n) \<and> ex = Std_invalid_argument"
proof (cases v)
  case (Named c)
  then show ?thesis by (cases c) (simp_all add: toHipFileOpError_def)
qed (auto simp: toHipFileOpError_def)

lemma OpError_driver_error:
  "toHipFileOpError (Named c) = Inr hipFileHipDriverError \<longleftrightarrow> c = CU_FILE_CUDA_DRIVER_ERROR"
  by (cases c) (simp_all add: toHipFileOpError_def)

lemma status_flags_round_trip:
  "toHipFileDriverStatusFlags (Named c) = (hipFileSuccess, Some f) \<longleftrightarrow>
     toCUfileDriverStatusFlags (Named f) = (hipFileSuccess, Some c)"
  by (cases c; cases f) (simp_all add: toHipFileDriverStatusFlags_def toCUfileDriverStatusFlags_def)

lemma control_flags_round_trip:
  "toHipFileDriverControlFlags (Named c) = (hipFileSuccess, Some f) \<longleftrightarrow>
     toCUfileDriverControlFlags (Named f) = (hipFileSuccess, Some c)"
  by (cases c; cases f) (simp_all add: toHipFileDriverControlFlags_def toCUfileDriverControlFlags_def)

lemma feature_flags_round_trip:
  "toHipFileFeatureFlags (Named c) = (hipFileSuccess, Some f) \<longleftrightarrow>
     toCUfileFeatureFlags (Named f) = (hipFileSuccess, Some c)"
  by (cases c; cases f) (simp_all add: toHipFileFeatureFlags_def toCUfileFeatureFlags_def)

lemma handle_type_round_trip:
  "toHipFileFileHandleType (Named c) = (hipFileSuccess, Some t) \<longleftrightarrow> toCUfileFileHandleType t = Inr c"
  by (cases c; cases t) (simp_all add: toHipFileFileHandleType_def toCUfileFileHandleType_def)

lemma status_round_trip:
  "toHipFileStatus (Named c) = Inr f \<longleftrightarrow> toCUfileStatus (Named f) = (hipFileSuccess, Some c)"
  by (cases c; cases f) (simp_all add: toHipFileStatus_def toCUfileStatus_def)

lemma batch_codes: "hipFileBatchRead \<noteq> hipFileBatchWrite"
  by (simp add: hipFileBatchRead_def hipFileBatchWrite_def)

lemma opcode_round_trip:
  "toHipFileOpcode (Named c) = (hipFileSuccess, Some n) \<longleftrightarrow> toCUfileOpcode n = Inr c"
  using batch_codes by (cases c) (auto simp: toHipFileOpcode_def toCUfileOpcode_def split: if_splits)

lemma batch_mode_round_trip:
  "toHipFileBatchMode (Named c) = (hipFileSuccess, Some n) \<longleftrightarrow> toCUfileBatchMode n = Inr c"
  by (cases c) (auto simp: toHipFileBatchMode_def toCUfileBatchMode_def split: if_splits)

lemma config_parameters_injective:
  "toCUFileSizeTConfigParameter p = Inr a \<Longrightarrow> toCUFileSizeTConfigParameter q = Inr a \<Longrightarrow> p = q"
proof (cases p; cases q)
  fix d e
  assume "p = Named d" "q = Named e"
    and "toCUFileSizeTConfigParameter p = Inr a" "toCUFileSizeTConfigParameter q = Inr a"
  then show "p = q" by (cases d; cases e) (simp_all add: toCUFileSizeTConfigParameter_def)
qed (simp_all add: toCUFileSizeTConfigParameter_def)

text \<open>A request that \<^verbatim>\<open>toCUfileIOParams\<close> accepts has the mode and an operation that hipFile defines.\<close>

lemma toCUfileIOParams_accepts_iff:
  "(\<exists>c. toCUfileIOParams p = Inr c) \<longleftrightarrow>
     iop_mode p = hipFileBatch \<and> iop_opcode p \<in> {hipFileBatchRead, hipFileBatchWrite}"
  by (auto simp: toCUfileIOParams_def toCUfileBatchMode_def toCUfileOpcode_def split: sum.splits)

lemma toCUfileIOParams_throws:
  "toCUfileIOParams p = Inl ex \<Longrightarrow> ex = Std_invalid_argument"
  by (auto simp: toCUfileIOParams_def toCUfileBatchMode_def toCUfileOpcode_def
      split: sum.splits if_splits)

lemma IOParams_round_trip:
  "toCUfileIOParams p = Inr c \<Longrightarrow> toHipFileIOParams c q = (hipFileSuccess, p)"
  by (auto simp: toCUfileIOParams_def toHipFileIOParams_def toCUfileBatchMode_def toCUfileOpcode_def
      toHipFileBatchMode_def toHipFileOpcode_def split: sum.splits if_splits)

lemma ucast_below_UINT_MAX: "n \<le> UINT_MAX_u64 \<Longrightarrow> ucast (ucast n :: 32 word) = (n :: 64 word)"
proof -
  assume "n \<le> UINT_MAX_u64"
  then have "uint (take_bit 32 n) = uint n"
    by (simp add: UINT_MAX_u64_def word_le_def unsigned_take_bit_eq take_bit_int_eq_self)
  then have "take_bit 32 n = n" by (rule iffD2 [OF word_eq_iff_unsigned])
  then show ?thesis by (simp add: unsigned_ucast_eq)
qed

end
