(* ===== verification/Nvidia_Api.thy ===== *)
theory Nvidia_Api
  imports Cufile_Conversion
begin

text \<open>
  The public interface on NVIDIA platforms (\<^verbatim>\<open>src/nvidia_detail/hipfile.cpp\<close>): every function
  converts its arguments, calls the cuFile function of the same name and converts the status
  back. The functions of cuFile are a parameter over an arbitrary type of worlds, which holds the
  client's memory: a pointer that hipFile only passes on stays a pointer, and memory of the client
  that hipFile itself reads or writes is an argument and a result.
\<close>

section \<open>The cuFile library\<close>

record 'w cufile = cuda_ext +
  cuFileHandleRegister ::
    "ptr \<Rightarrow> CUfileDescr_t option \<Rightarrow> 'w \<Rightarrow> (CUfileError_t \<times> CUfileDescr_t option) \<times> 'w"
  cuFileHandleDeregister :: "ptr \<Rightarrow> 'w \<Rightarrow> 'w"
  cuFileRead :: "ptr \<Rightarrow> ptr \<Rightarrow> size_t \<Rightarrow> hoff_t \<Rightarrow> hoff_t \<Rightarrow> 'w \<Rightarrow> int \<times> 'w"
  cuFileWrite :: "ptr \<Rightarrow> ptr \<Rightarrow> size_t \<Rightarrow> hoff_t \<Rightarrow> hoff_t \<Rightarrow> 'w \<Rightarrow> int \<times> 'w"
  cuFileUseCount :: "'w \<Rightarrow> int \<times> 'w"
  cuFileDriverGetProperties ::
    "CUfileDrvProps_t option \<Rightarrow> 'w \<Rightarrow> (CUfileError_t \<times> CUfileDrvProps_t option) \<times> 'w"
  cuFileBatchIOSubmit ::
    "ptr \<Rightarrow> uint32_t \<Rightarrow> CUfileIOParams_t list option \<Rightarrow> uint32_t \<Rightarrow> 'w \<Rightarrow> CUfileError_t \<times> 'w"
  cuFileBatchIOGetStatus ::
    "ptr \<Rightarrow> uint32_t \<Rightarrow> uint32_t \<Rightarrow> CUfileIOEvents_t list option \<Rightarrow> ptr \<Rightarrow> 'w \<Rightarrow>
       (CUfileError_t \<times> uint32_t \<times> CUfileIOEvents_t list) \<times> 'w"
  cuFileBatchIODestroy :: "ptr \<Rightarrow> 'w \<Rightarrow> 'w"
  cuFileBufRegister ::
    "ptr \<Rightarrow> size_t \<Rightarrow> int \<Rightarrow> 'w \<Rightarrow> CUfileError_t \<times> 'w"
  cuFileBufDeregister ::
    "ptr \<Rightarrow> 'w \<Rightarrow> CUfileError_t \<times> 'w"
  cuFileDriverOpen ::
    "'w \<Rightarrow> CUfileError_t \<times> 'w"
  cuFileDriverClose ::
    "'w \<Rightarrow> CUfileError_t \<times> 'w"
  cuFileDriverSetPollMode ::
    "bool \<Rightarrow> size_t \<Rightarrow> 'w \<Rightarrow> CUfileError_t \<times> 'w"
  cuFileDriverSetMaxDirectIOSize ::
    "size_t \<Rightarrow> 'w \<Rightarrow> CUfileError_t \<times> 'w"
  cuFileDriverSetMaxCacheSize ::
    "size_t \<Rightarrow> 'w \<Rightarrow> CUfileError_t \<times> 'w"
  cuFileDriverSetMaxPinnedMemSize ::
    "size_t \<Rightarrow> 'w \<Rightarrow> CUfileError_t \<times> 'w"
  cuFileBatchIOSetUp ::
    "ptr \<Rightarrow> uint32_t \<Rightarrow> 'w \<Rightarrow> CUfileError_t \<times> 'w"
  cuFileBatchIOCancel ::
    "ptr \<Rightarrow> 'w \<Rightarrow> CUfileError_t \<times> 'w"
  cuFileReadAsync ::
    "ptr \<Rightarrow> ptr \<Rightarrow> ptr \<Rightarrow> ptr \<Rightarrow> ptr \<Rightarrow> ptr \<Rightarrow> ptr \<Rightarrow> 'w \<Rightarrow> CUfileError_t \<times> 'w"
  cuFileWriteAsync ::
    "ptr \<Rightarrow> ptr \<Rightarrow> ptr \<Rightarrow> ptr \<Rightarrow> ptr \<Rightarrow> ptr \<Rightarrow> ptr \<Rightarrow> 'w \<Rightarrow> CUfileError_t \<times> 'w"
  cuFileStreamRegister ::
    "ptr \<Rightarrow> uint32_t \<Rightarrow> 'w \<Rightarrow> CUfileError_t \<times> 'w"
  cuFileStreamDeregister ::
    "ptr \<Rightarrow> 'w \<Rightarrow> CUfileError_t \<times> 'w"
  cuFileGetParameterSizeT ::
    "CUFileSizeTConfigParameter_t \<Rightarrow> ptr \<Rightarrow> 'w \<Rightarrow> CUfileError_t \<times> 'w"
  cuFileGetParameterBool ::
    "CUFileBoolConfigParameter_t \<Rightarrow> ptr \<Rightarrow> 'w \<Rightarrow> CUfileError_t \<times> 'w"
  cuFileGetParameterString ::
    "CUFileStringConfigParameter_t \<Rightarrow> ptr \<Rightarrow> int \<Rightarrow> 'w \<Rightarrow> CUfileError_t \<times> 'w"
  cuFileSetParameterSizeT ::
    "CUFileSizeTConfigParameter_t \<Rightarrow> size_t \<Rightarrow> 'w \<Rightarrow> CUfileError_t \<times> 'w"
  cuFileSetParameterBool ::
    "CUFileBoolConfigParameter_t \<Rightarrow> bool \<Rightarrow> 'w \<Rightarrow> CUfileError_t \<times> 'w"
  cuFileSetParameterString ::
    "CUFileStringConfigParameter_t \<Rightarrow> ptr \<Rightarrow> 'w \<Rightarrow> CUfileError_t \<times> 'w"

section \<open>Functions that pass a status on\<close>

text \<open>
  \<^verbatim>\<open>return toHipFileError(...)\<close> inside a function whose handler turns every exception into
  \<^const>\<open>hipFileInternalError\<close>.
\<close>

definition nv_return :: "'z cuda_ext_scheme \<Rightarrow> CUfileError_t \<times> 'w \<Rightarrow> hipFileError_t \<times> 'w" where
  "nv_return c r =
     (case toHipFileError c (fst r) of
        Inl ex \<Rightarrow> (hipFile_status hipFileInternalError, snd r)
      | Inr e \<Rightarrow> (e, snd r))"

definition nv_hipFileBufRegister ::
  "'w cufile \<Rightarrow> ptr \<Rightarrow> size_t \<Rightarrow> int \<Rightarrow> 'w \<Rightarrow> hipFileError_t \<times> 'w" where
  "nv_hipFileBufRegister c buffer_base len flags w = nv_return c (cuFileBufRegister c buffer_base len flags w)"

definition nv_hipFileBufDeregister ::
  "'w cufile \<Rightarrow> ptr \<Rightarrow> 'w \<Rightarrow> hipFileError_t \<times> 'w" where
  "nv_hipFileBufDeregister c buffer_base w = nv_return c (cuFileBufDeregister c buffer_base w)"

definition nv_hipFileDriverOpen ::
  "'w cufile \<Rightarrow> 'w \<Rightarrow> hipFileError_t \<times> 'w" where
  "nv_hipFileDriverOpen c w = nv_return c (cuFileDriverOpen c w)"

definition nv_hipFileDriverClose ::
  "'w cufile \<Rightarrow> 'w \<Rightarrow> hipFileError_t \<times> 'w" where
  "nv_hipFileDriverClose c w = nv_return c (cuFileDriverClose c w)"

definition nv_hipFileDriverSetPollMode ::
  "'w cufile \<Rightarrow> bool \<Rightarrow> size_t \<Rightarrow> 'w \<Rightarrow> hipFileError_t \<times> 'w" where
  "nv_hipFileDriverSetPollMode c poll poll_threshold_size w = nv_return c (cuFileDriverSetPollMode c poll poll_threshold_size w)"

definition nv_hipFileDriverSetMaxDirectIOSize ::
  "'w cufile \<Rightarrow> size_t \<Rightarrow> 'w \<Rightarrow> hipFileError_t \<times> 'w" where
  "nv_hipFileDriverSetMaxDirectIOSize c max_io_size w = nv_return c (cuFileDriverSetMaxDirectIOSize c max_io_size w)"

definition nv_hipFileDriverSetMaxCacheSize ::
  "'w cufile \<Rightarrow> size_t \<Rightarrow> 'w \<Rightarrow> hipFileError_t \<times> 'w" where
  "nv_hipFileDriverSetMaxCacheSize c max_cache_size w = nv_return c (cuFileDriverSetMaxCacheSize c max_cache_size w)"

definition nv_hipFileDriverSetMaxPinnedMemSize ::
  "'w cufile \<Rightarrow> size_t \<Rightarrow> 'w \<Rightarrow> hipFileError_t \<times> 'w" where
  "nv_hipFileDriverSetMaxPinnedMemSize c max_pinned_size w = nv_return c (cuFileDriverSetMaxPinnedMemSize c max_pinned_size w)"

definition nv_hipFileBatchIOSetUp ::
  "'w cufile \<Rightarrow> ptr \<Rightarrow> uint32_t \<Rightarrow> 'w \<Rightarrow> hipFileError_t \<times> 'w" where
  "nv_hipFileBatchIOSetUp c batch_idp max_nr w = nv_return c (cuFileBatchIOSetUp c batch_idp max_nr w)"

definition nv_hipFileBatchIOCancel ::
  "'w cufile \<Rightarrow> ptr \<Rightarrow> 'w \<Rightarrow> hipFileError_t \<times> 'w" where
  "nv_hipFileBatchIOCancel c batch_idp w = nv_return c (cuFileBatchIOCancel c batch_idp w)"

definition nv_hipFileReadAsync ::
  "'w cufile \<Rightarrow> ptr \<Rightarrow> ptr \<Rightarrow> ptr \<Rightarrow> ptr \<Rightarrow> ptr \<Rightarrow> ptr \<Rightarrow> ptr \<Rightarrow> 'w \<Rightarrow> hipFileError_t \<times> 'w" where
  "nv_hipFileReadAsync c fh buffer_base size_p file_offset_p buffer_offset_p bytes_read_p stream w = nv_return c (cuFileReadAsync c fh buffer_base size_p file_offset_p buffer_offset_p bytes_read_p stream w)"

definition nv_hipFileWriteAsync ::
  "'w cufile \<Rightarrow> ptr \<Rightarrow> ptr \<Rightarrow> ptr \<Rightarrow> ptr \<Rightarrow> ptr \<Rightarrow> ptr \<Rightarrow> ptr \<Rightarrow> 'w \<Rightarrow> hipFileError_t \<times> 'w" where
  "nv_hipFileWriteAsync c fh buffer_base size_p file_offset_p buffer_offset_p bytes_written_p stream w = nv_return c (cuFileWriteAsync c fh buffer_base size_p file_offset_p buffer_offset_p bytes_written_p stream w)"

definition nv_hipFileStreamRegister ::
  "'w cufile \<Rightarrow> ptr \<Rightarrow> uint32_t \<Rightarrow> 'w \<Rightarrow> hipFileError_t \<times> 'w" where
  "nv_hipFileStreamRegister c stream flags w = nv_return c (cuFileStreamRegister c stream flags w)"

definition nv_hipFileStreamDeregister ::
  "'w cufile \<Rightarrow> ptr \<Rightarrow> 'w \<Rightarrow> hipFileError_t \<times> 'w" where
  "nv_hipFileStreamDeregister c stream w = nv_return c (cuFileStreamDeregister c stream w)"

text \<open>
  The configuration parameters: a parameter that hipFile does not define is refused before cuFile
  is called.
\<close>

definition nv_hipFileGetParameterSizeT ::
  "'w cufile \<Rightarrow> hipFileSizeTConfigParameter c_enum \<Rightarrow> ptr \<Rightarrow> 'w \<Rightarrow> hipFileError_t \<times> 'w" where
  "nv_hipFileGetParameterSizeT c param value w =
     (case toCUFileSizeTConfigParameter param of
        Inl ex \<Rightarrow> (hipFile_status hipFileInternalError, w)
      | Inr p \<Rightarrow> nv_return c (cuFileGetParameterSizeT c p value w))"

definition nv_hipFileGetParameterBool ::
  "'w cufile \<Rightarrow> hipFileBoolConfigParameter c_enum \<Rightarrow> ptr \<Rightarrow> 'w \<Rightarrow> hipFileError_t \<times> 'w" where
  "nv_hipFileGetParameterBool c param value w =
     (case toCUFileBoolConfigParameter param of
        Inl ex \<Rightarrow> (hipFile_status hipFileInternalError, w)
      | Inr p \<Rightarrow> nv_return c (cuFileGetParameterBool c p value w))"

definition nv_hipFileGetParameterString ::
  "'w cufile \<Rightarrow> hipFileStringConfigParameter c_enum \<Rightarrow> ptr \<Rightarrow> int \<Rightarrow> 'w \<Rightarrow> hipFileError_t \<times> 'w" where
  "nv_hipFileGetParameterString c param desc_str len w =
     (case toCUFileStringConfigParameter param of
        Inl ex \<Rightarrow> (hipFile_status hipFileInternalError, w)
      | Inr p \<Rightarrow> nv_return c (cuFileGetParameterString c p desc_str len w))"

definition nv_hipFileSetParameterSizeT ::
  "'w cufile \<Rightarrow> hipFileSizeTConfigParameter c_enum \<Rightarrow> size_t \<Rightarrow> 'w \<Rightarrow> hipFileError_t \<times> 'w" where
  "nv_hipFileSetParameterSizeT c param value w =
     (case toCUFileSizeTConfigParameter param of
        Inl ex \<Rightarrow> (hipFile_status hipFileInternalError, w)
      | Inr p \<Rightarrow> nv_return c (cuFileSetParameterSizeT c p value w))"

definition nv_hipFileSetParameterBool ::
  "'w cufile \<Rightarrow> hipFileBoolConfigParameter c_enum \<Rightarrow> bool \<Rightarrow> 'w \<Rightarrow> hipFileError_t \<times> 'w" where
  "nv_hipFileSetParameterBool c param value w =
     (case toCUFileBoolConfigParameter param of
        Inl ex \<Rightarrow> (hipFile_status hipFileInternalError, w)
      | Inr p \<Rightarrow> nv_return c (cuFileSetParameterBool c p value w))"

definition nv_hipFileSetParameterString ::
  "'w cufile \<Rightarrow> hipFileStringConfigParameter c_enum \<Rightarrow> ptr \<Rightarrow> 'w \<Rightarrow> hipFileError_t \<times> 'w" where
  "nv_hipFileSetParameterString c param desc_str w =
     (case toCUFileStringConfigParameter param of
        Inl ex \<Rightarrow> (hipFile_status hipFileInternalError, w)
      | Inr p \<Rightarrow> nv_return c (cuFileSetParameterString c p desc_str w))"

section \<open>Functions without a status\<close>

definition nv_hipFileHandleDeregister :: "'w cufile \<Rightarrow> ptr \<Rightarrow> 'w \<Rightarrow> 'w" where
  "nv_hipFileHandleDeregister c fh w = cuFileHandleDeregister c fh w"

definition nv_hipFileRead ::
  "'w cufile \<Rightarrow> ptr \<Rightarrow> ptr \<Rightarrow> size_t \<Rightarrow> hoff_t \<Rightarrow> hoff_t \<Rightarrow> 'w \<Rightarrow> int \<times> 'w" where
  "nv_hipFileRead c fh buffer_base sz file_offset buffer_offset w =
     cuFileRead c fh buffer_base sz file_offset buffer_offset w"

definition nv_hipFileWrite ::
  "'w cufile \<Rightarrow> ptr \<Rightarrow> ptr \<Rightarrow> size_t \<Rightarrow> hoff_t \<Rightarrow> hoff_t \<Rightarrow> 'w \<Rightarrow> int \<times> 'w" where
  "nv_hipFileWrite c fh buffer_base sz file_offset buffer_offset w =
     cuFileWrite c fh buffer_base sz file_offset buffer_offset w"

definition nv_hipFileUseCount :: "'w cufile \<Rightarrow> 'w \<Rightarrow> int \<times> 'w" where
  "nv_hipFileUseCount c w = cuFileUseCount c w"

definition nv_hipFileBatchIODestroy :: "'w cufile \<Rightarrow> ptr \<Rightarrow> 'w \<Rightarrow> 'w" where
  "nv_hipFileBatchIODestroy c batch_idp w = cuFileBatchIODestroy c batch_idp w"

section \<open>Functions that convert structures\<close>

text \<open>
  \<^verbatim>\<open>hipFileHandleRegister\<close> also returns the descriptor of the client, whose \<open>fs_ops\<close> it overwrites
  with what cuFile left in its own descriptor. The argument \<open>uninit\<close> is the uninitialised local
  of \<^verbatim>\<open>toCUfileDescr\<close>.
\<close>

definition nv_hipFileHandleRegister ::
  "'w cufile \<Rightarrow> CUfileDescr_t \<Rightarrow> ptr \<Rightarrow> hipFileDescr_t option \<Rightarrow> 'w \<Rightarrow>
     (hipFileError_t \<times> hipFileDescr_t option) \<times> 'w" where
  "nv_hipFileHandleRegister c uninit fh descr w =
     (case descr of
        Some d \<Rightarrow>
          (case toCUfileDescr uninit d of
             Inl ex \<Rightarrow> ((hipFile_status hipFileInternalError, descr), w)
           | Inr cu_descr \<Rightarrow>
               let ((status, cu_descr'), w') = cuFileHandleRegister c fh (Some cu_descr) w;
                   fs_ops = (case cu_descr' of Some d' \<Rightarrow> cud_fs_ops d' | None \<Rightarrow> cud_fs_ops cu_descr);
                   (e, w'') = nv_return c (status, w')
               in ((e, Some (d\<lparr>descr_fs_ops := fs_ops\<rparr>)), w''))
      | None \<Rightarrow>
          let ((status, _), w') = cuFileHandleRegister c fh None w;
              (e, w'') = nv_return c (status, w')
          in ((e, None), w''))"

definition nv_hipFileDriverGetProperties ::
  "'w cufile \<Rightarrow> CUfileDrvProps_t \<Rightarrow> hipFileDriverProps_t option \<Rightarrow> 'w \<Rightarrow>
     (hipFileError_t \<times> hipFileDriverProps_t option) \<times> 'w" where
  "nv_hipFileDriverGetProperties c uninit props w =
     (case props of
        Some p \<Rightarrow>
          let ((status, cu_props), w') = cuFileDriverGetProperties c (Some uninit) w;
              p' = (if cuerr status = Named CU_FILE_SUCCESS
                    then toHipFileDriverProps (case cu_props of Some q \<Rightarrow> q | None \<Rightarrow> uninit) else p);
              (e, w'') = nv_return c (status, w')
          in ((e, Some p'), w'')
      | None \<Rightarrow>
          let ((status, _), w') = cuFileDriverGetProperties c None w;
              (e, w'') = nv_return c (status, w')
          in ((e, None), w''))"

text \<open>The loop that converts the operations of a batch; the first that is invalid throws.\<close>

fun convert_params :: "hipFileIOParams_t list \<Rightarrow> exn + CUfileIOParams_t list" where
  "convert_params [] = Inr []"
| "convert_params (p # ps) =
     (case toCUfileIOParams p of
        Inl ex \<Rightarrow> Inl ex
      | Inr c \<Rightarrow> (case convert_params ps of Inl ex \<Rightarrow> Inl ex | Inr cs \<Rightarrow> Inr (c # cs)))"

definition nv_hipFileBatchIOSubmit ::
  "'w cufile \<Rightarrow> ptr \<Rightarrow> uint32_t \<Rightarrow> hipFileIOParams_t list option \<Rightarrow> uint32_t \<Rightarrow> 'w \<Rightarrow>
     hipFileError_t \<times> 'w" where
  "nv_hipFileBatchIOSubmit c batch_idp nr iocbp flags w =
     (case iocbp of
        Some ps \<Rightarrow>
          (case convert_params (take (unat nr) ps) of
             Inl ex \<Rightarrow> (hipFile_status hipFileInternalError, w)
           | Inr io_params \<Rightarrow> nv_return c (cuFileBatchIOSubmit c batch_idp nr (Some io_params) flags w))
      | None \<Rightarrow> nv_return c (cuFileBatchIOSubmit c batch_idp nr None flags w))"

text \<open>
  The loop that converts the events of a batch into the client's array, from index \<open>i\<close> on: whether
  it ended, and the array.
\<close>

fun convert_events ::
  "nat \<Rightarrow> CUfileIOEvents_t list \<Rightarrow> hipFileIOEvents_t list \<Rightarrow> bool \<times> hipFileIOEvents_t list" where
  "convert_events i [] iocbp = (True, iocbp)"
| "convert_events i (c # cs) iocbp =
     (case toHipFileIOEvents c of
        Inl ex \<Rightarrow> (False, iocbp)
      | Inr e \<Rightarrow> convert_events (Suc i) cs (iocbp[i := e]))"

text \<open>
  \<open>blank\<close> is the event of which \<^verbatim>\<open>vector<CUfileIOEvents>(n)\<close> makes \<open>n\<close> copies. The results are the
  status, the variable behind \<open>nr\<close> and the client's array.
\<close>

definition nv_hipFileBatchIOGetStatus ::
  "'w cufile \<Rightarrow> CUfileIOEvents_t \<Rightarrow> ptr \<Rightarrow> uint32_t \<Rightarrow> uint32_t \<Rightarrow> hipFileIOEvents_t list option \<Rightarrow>
     ptr \<Rightarrow> 'w \<Rightarrow> (hipFileError_t \<times> uint32_t \<times> hipFileIOEvents_t list option) \<times> 'w" where
  "nv_hipFileBatchIOGetStatus c blank batch_idp min_nr nr iocbp timeout w =
     (case iocbp of
        Some es \<Rightarrow>
          let ((status, nr', io_events), w') =
                cuFileBatchIOGetStatus c batch_idp min_nr nr (Some (replicate (unat nr) blank)) timeout w
          in if cuerr status = Named CU_FILE_SUCCESS
             then (case convert_events 0 (take (unat nr') io_events) es of
                     (False, es') \<Rightarrow> ((hipFile_status hipFileInternalError, nr', Some es'), w')
                   | (True, es') \<Rightarrow>
                       let (e, w'') = nv_return c (status, w') in ((e, nr', Some es'), w''))
             else let (e, w'') = nv_return c (status, w') in ((e, nr', Some es), w'')
      | None \<Rightarrow>
          let ((status, nr', _), w') = cuFileBatchIOGetStatus c batch_idp min_nr nr None timeout w;
              (e, w'') = nv_return c (status, w')
          in ((e, nr', None), w''))"

section \<open>Facts\<close>

lemma nv_return_world [simp]: "snd (nv_return c r) = snd r"
  by (simp add: nv_return_def split: sum.splits)

text \<open>The macro recognises the one error value that carries an error of the driver.\<close>

definition cuda_err_documented :: "'z cuda_ext_scheme \<Rightarrow> bool" where
  "cuda_err_documented c \<longleftrightarrow>
     (\<forall>st. IS_CUDA_ERR c st \<longleftrightarrow> cuerr st = Named CU_FILE_CUDA_DRIVER_ERROR)"

lemma nv_return_error:
  assumes "cuda_err_documented c"
  shows "fst (nv_return c (st, w)) =
    (case cuerr st of
       Unnamed _ \<Rightarrow> hipFile_status hipFileInternalError
     | Named e \<Rightarrow>
         \<lparr>err = projr (toHipFileOpError (Named e)),
          hip_drv_err = (if e = CU_FILE_CUDA_DRIVER_ERROR then hipCUResultTohipError c (cu_err st)
                         else hipSuccess)\<rparr>)"
proof (cases "cuerr st")
  case (Named e)
  have "\<not> isl (toHipFileOpError (Named e))"
    using OpError_throws_iff [of "Named e"] by (cases "toHipFileOpError (Named e)") auto
  with Named assms show ?thesis
    by (cases "toHipFileOpError (Named e)") (auto simp: nv_return_def toHipFileError_def cuda_err_documented_def)
next
  case (Unnamed n)
  then show ?thesis by (simp add: nv_return_def toHipFileError_def toHipFileOpError_def)
qed

lemma convert_params_iff:
  "convert_params ps = Inr cs \<longleftrightarrow> list_all2 (\<lambda>p c. toCUfileIOParams p = Inr c) ps cs"
proof (induction ps arbitrary: cs)
  case (Cons p ps)
  show ?case
    by (cases "toCUfileIOParams p"; cases "convert_params ps")
      (auto simp: list_all2_Cons1 simp flip: Cons.IH)
qed auto

lemma convert_params_throws:
  "(\<exists>ex. convert_params ps = Inl ex) \<longleftrightarrow> (\<exists>p \<in> set ps. \<nexists>c. toCUfileIOParams p = Inr c)"
proof (induction ps)
  case (Cons p ps)
  then show ?case by (cases "toCUfileIOParams p"; cases "convert_params ps") auto
qed simp

lemma convert_events_ok:
  assumes "list_all2 (\<lambda>c e. toHipFileIOEvents c = Inr e) cs es" and "i + length cs \<le> length bs"
  shows "convert_events i cs bs = (True, take i bs @ es @ drop (i + length cs) bs)"
  using assms
proof (induction cs arbitrary: i es bs)
  case (Cons c cs)
  then obtain e es' where es: "es = e # es'" "toHipFileIOEvents c = Inr e"
    "list_all2 (\<lambda>c e. toHipFileIOEvents c = Inr e) cs es'"
    by (auto simp: list_all2_Cons1)
  with Cons.prems Cons.IH [of es' "Suc i" "bs[i := e]"]
  have "convert_events i (c # cs) bs =
    (True, take (Suc i) (bs[i := e]) @ es' @ drop (Suc i + length cs) (bs[i := e]))" by simp
  with Cons.prems es(1) show ?case by (simp add: take_Suc_conv_app_nth)
qed simp

end
