(* ===== verification/Platform_Properties.thy ===== *)
theory Platform_Properties
  imports Nvidia_Api
begin

text \<open>
  Properties of what the two platforms share and of the layer over cuFile: the texts of errors, the
  conversion of errors, properties, batch operations and batch events, and the refusal of values
  that hipFile does not define.
\<close>

section \<open>An example of a cuFile library\<close>

definition sample_ok :: CUfileError_t where
  "sample_ok = \<lparr>cuerr = Named CU_FILE_SUCCESS, cu_err = CUDA_SUCCESS\<rparr>"

definition sample_event :: CUfileIOEvents_t where
  "sample_event = \<lparr>cue_cookie = 7, cue_status = Named CUFILE_COMPLETE, cue_ret = 512\<rparr>"

definition sample_cufile :: "unit cufile" where
  "sample_cufile =
     \<lparr>IS_CUDA_ERR = (\<lambda>st. cuerr st = Named CU_FILE_CUDA_DRIVER_ERROR),
      hipCUResultTohipError = (\<lambda>r. case r of CUDA_SUCCESS \<Rightarrow> hipSuccess | CUresult_enum n \<Rightarrow> hipError_enum n),
      hipErrorToCUResult = (\<lambda>h. case h of hipError_enum n \<Rightarrow> CUresult_enum n | _ \<Rightarrow> CUDA_SUCCESS),
      cuFileHandleRegister = (\<lambda>_ d w. ((sample_ok, d), w)),
      cuFileHandleDeregister = (\<lambda>_ w. w),
      cuFileRead = (\<lambda>_ _ n _ _ w. (uint n, w)),
      cuFileWrite = (\<lambda>_ _ n _ _ w. (uint n, w)),
      cuFileUseCount = (\<lambda>w. (1, w)),
      cuFileDriverGetProperties = (\<lambda>p w. ((sample_ok, p), w)),
      cuFileBatchIOSubmit = (\<lambda>_ _ _ _ w. (sample_ok, w)),
      cuFileBatchIOGetStatus = (\<lambda>_ _ _ _ _ w. ((sample_ok, 1, [sample_event]), w)),
      cuFileBatchIODestroy = (\<lambda>_ w. w),
      cuFileBufRegister = (\<lambda>_ _ _ w. (sample_ok, w)),
      cuFileBufDeregister = (\<lambda>_ w. (sample_ok, w)),
      cuFileDriverOpen = (\<lambda>w. (sample_ok, w)),
      cuFileDriverClose = (\<lambda>w. (sample_ok, w)),
      cuFileDriverSetPollMode = (\<lambda>_ _ w. (sample_ok, w)),
      cuFileDriverSetMaxDirectIOSize = (\<lambda>_ w. (sample_ok, w)),
      cuFileDriverSetMaxCacheSize = (\<lambda>_ w. (sample_ok, w)),
      cuFileDriverSetMaxPinnedMemSize = (\<lambda>_ w. (sample_ok, w)),
      cuFileBatchIOSetUp = (\<lambda>_ _ w. (sample_ok, w)),
      cuFileBatchIOCancel = (\<lambda>_ w. (sample_ok, w)),
      cuFileReadAsync = (\<lambda>_ _ _ _ _ _ _ w. (sample_ok, w)),
      cuFileWriteAsync = (\<lambda>_ _ _ _ _ _ _ w. (sample_ok, w)),
      cuFileStreamRegister = (\<lambda>_ _ w. (sample_ok, w)),
      cuFileStreamDeregister = (\<lambda>_ w. (sample_ok, w)),
      cuFileGetParameterSizeT = (\<lambda>_ _ w. (sample_ok, w)),
      cuFileGetParameterBool = (\<lambda>_ _ w. (sample_ok, w)),
      cuFileGetParameterString = (\<lambda>_ _ _ w. (sample_ok, w)),
      cuFileSetParameterSizeT = (\<lambda>_ _ w. (sample_ok, w)),
      cuFileSetParameterBool = (\<lambda>_ _ w. (sample_ok, w)),
      cuFileSetParameterString = (\<lambda>_ _ w. (sample_ok, w))\<rparr>"

section \<open>Errors\<close>

text \<open>
  C23: the text of an error identifies it: a client that passes a negative result of an IO
  function, minus the code of an error, to \<^verbatim>\<open>HIPFILE_ERRSTR\<close> receives the text of that error. A number has
  the text of an error exactly when its magnitude, cut to the 32 bits of the enumeration, is the code; up to a
  magnitude of 32 bits, which covers every value of type \<^verbatim>\<open>int\<close>, it is
  then the code itself up to its sign. Every code of an error but
  success is recognised by \<^verbatim>\<open>IS_HIPFILE_ERR\<close>, with either sign.
\<close>

theorem error_texts_identify_errors:
  "HIPFILE_ERRSTR (- op_error_code e) = hipFileGetOpErrorString (Named e) \<and>
   (HIPFILE_ERRSTR n = hipFileGetOpErrorString (Named e) \<longleftrightarrow> \<bar>n\<bar> mod 2 ^ 32 = op_error_code e) \<and>
   (\<bar>n\<bar> < 2 ^ 32 \<longrightarrow> HIPFILE_ERRSTR n = hipFileGetOpErrorString (Named e) \<longrightarrow> \<bar>n\<bar> = op_error_code e) \<and>
   (IS_HIPFILE_ERR (op_error_code e) \<longleftrightarrow> e \<noteq> hipFileSuccess) \<and>
   (IS_HIPFILE_ERR (- op_error_code e) \<longleftrightarrow> e \<noteq> hipFileSuccess)"
proof (intro conjI impI)
  show "HIPFILE_ERRSTR (- op_error_code e) = hipFileGetOpErrorString (Named e)"
    using op_error_code_32 [of e] by (simp add: HIPFILE_ERRSTR_def to_hipFileOpError_t_code)
  show same: "HIPFILE_ERRSTR n = hipFileGetOpErrorString (Named e) \<longleftrightarrow> \<bar>n\<bar> mod 2 ^ 32 = op_error_code e"
  proof (cases "\<exists>d. op_error_code d = \<bar>n\<bar> mod 2 ^ 32")
    case True
    then obtain d where d: "\<bar>n\<bar> mod 2 ^ 32 = op_error_code d" by metis
    show ?thesis unfolding HIPFILE_ERRSTR_def to_hipFileOpError_t_code [OF d] d by auto
  next
    case False
    then have "to_hipFileOpError_t \<bar>n\<bar> = Unnamed (\<bar>n\<bar> mod 2 ^ 32)" by (intro to_hipFileOpError_t_other) metis
    moreover from False have "\<bar>n\<bar> mod 2 ^ 32 \<noteq> op_error_code e" by metis
    ultimately show ?thesis
      using text_not_unknown [of e] by (simp add: HIPFILE_ERRSTR_def hipFileGetOpErrorString_def)
  qed
  show "\<bar>n\<bar> = op_error_code e" if "\<bar>n\<bar> < 2 ^ 32" "HIPFILE_ERRSTR n = hipFileGetOpErrorString (Named e)"
    using same that by (simp add: mod_pos_pos_trivial)
  show "IS_HIPFILE_ERR (op_error_code e) \<longleftrightarrow> e \<noteq> hipFileSuccess" by (rule IS_HIPFILE_ERR_code)
  then show "IS_HIPFILE_ERR (- op_error_code e) \<longleftrightarrow> e \<noteq> hipFileSuccess"
    by (simp add: IS_HIPFILE_ERR_def)
qed

theorem error_texts_identify_errors_witness:
  "HIPFILE_ERRSTR (-5022) = hipFileGetOpErrorString (Named hipFileInvalidValue) \<and>
   HIPFILE_ERRSTR (-(2 ^ 32 + 5001)) = hipFileGetOpErrorString (Named hipFileDriverNotInitialized) \<and>
   op_error_code hipFileInvalidValue = 5022"
  using error_texts_identify_errors [of hipFileInvalidValue "-5022"]
    error_texts_identify_errors [of hipFileDriverNotInitialized "-(2 ^ 32 + 5001)"]
  by (simp add: HIPFILE_BASE_ERR_def)

text \<open>
  C24: the errors of hipFile and the errors of cuFile that hipFile names correspond one to one, so
  no error is lost or confused on the way through the library; the conversion throws exactly for a
  value without a name.
\<close>

theorem error_codes_correspond:
  "(toHipFileOpError v = Inr e \<longleftrightarrow> v = Named (toCUfileOpError (Named e))) \<and>
   (toHipFileOpError v = Inl ex \<longleftrightarrow> (\<exists>n. v = Unnamed n) \<and> ex = Std_invalid_argument)"
proof (intro conjI)
  show "toHipFileOpError v = Inr e \<longleftrightarrow> v = Named (toCUfileOpError (Named e))"
    by (cases v) (auto simp: OpError_named_iff toHipFileOpError_def [of "Unnamed _"])
qed (rule OpError_throws_iff)

text \<open>
  C25: a status survives the way to cuFile and back when its driver error is only set for the
  error that carries one, the macro of cuFile recognises that error, and the functions of the HIP
  headers translate the driver error there and back.
\<close>

theorem status_survives_round_trip:
  assumes "cuda_err_documented c"
    and "hipCUResultTohipError c (hipErrorToCUResult c (hip_drv_err h)) = hip_drv_err h"
    and "IS_HIP_DRV_ERR h \<or> hip_drv_err h = hipSuccess"
  shows "toHipFileError c (toCUfileError c h) = Inr h"
proof -
  have "toCUfileOpError (Named (err h)) = CU_FILE_CUDA_DRIVER_ERROR \<longleftrightarrow> err h = hipFileHipDriverError"
    using OpError_driver_error OpError_hip_cu [of "err h"] by (metis sum.inject(2))
  with assms show ?thesis
    by (auto simp: toHipFileError_def toCUfileError_def OpError_hip_cu cuda_err_documented_def
        IS_HIP_DRV_ERR_def)
qed

theorem status_survives_round_trip_witness:
  "toHipFileError sample_cufile (toCUfileError sample_cufile
     \<lparr>err = hipFileHipDriverError, hip_drv_err = hipError_enum 719\<rparr>) =
   Inr \<lparr>err = hipFileHipDriverError, hip_drv_err = hipError_enum 719\<rparr>"
  by (rule status_survives_round_trip)
    (simp_all add: cuda_err_documented_def sample_cufile_def IS_HIP_DRV_ERR_def)

section \<open>Properties of the driver\<close>

lemma ucast_le_UINT_MAX: "ucast n \<le> UINT_MAX_u64" for n :: uint32_t
  using unsigned_less [where 'a = int, of n]
  by (simp add: UINT_MAX_u64_def word_le_def unsigned_ucast_eq take_bit_int_eq_self)

lemma narrow_widen: "ucast (ucast n :: 64 word) = n" for n :: uint32_t
  by (simp add: unsigned_ucast_eq take_bit_word_eq_self)

text \<open>
  C26: the properties of the driver convert without loss: the properties of cuFile always, and
  those of hipFile exactly when the three sizes fit into 32 bits; otherwise the conversion reports
  \<^verbatim>\<open>hipFileDriverInvalidProps\<close> and leaves the destination alone.
\<close>

theorem driver_props_convert:
  "toCUfileDrvProps (toHipFileDriverProps cp) q = (hipFileSuccess, cp) \<and>
   (if max_device_cache_size p \<le> UINT_MAX_u64 \<and> per_buffer_cache_size p \<le> UINT_MAX_u64 \<and>
       max_device_pinned_mem_size p \<le> UINT_MAX_u64
    then \<exists>r. toCUfileDrvProps p q = (hipFileSuccess, r) \<and> toHipFileDriverProps r = p
    else toCUfileDrvProps p q = (hipFileDriverInvalidProps, q))"
proof
  show "toCUfileDrvProps (toHipFileDriverProps cp) q = (hipFileSuccess, cp)"
    by (simp add: toCUfileDrvProps_def toHipFileDriverProps_def ucast_le_UINT_MAX leD narrow_widen)
  show "if max_device_cache_size p \<le> UINT_MAX_u64 \<and> per_buffer_cache_size p \<le> UINT_MAX_u64 \<and>
      max_device_pinned_mem_size p \<le> UINT_MAX_u64
    then \<exists>r. toCUfileDrvProps p q = (hipFileSuccess, r) \<and> toHipFileDriverProps r = p
    else toCUfileDrvProps p q = (hipFileDriverInvalidProps, q)"
    by (auto simp: toCUfileDrvProps_def toHipFileDriverProps_def not_less ucast_below_UINT_MAX)
qed

section \<open>Batches\<close>

text \<open>
  C27: a batch submission reaches cuFile only as a whole: when each of its operations has the batch
  mode and reads or writes, cuFile is called once with the converted operations in their order, of
  which each converts back to the operation of the client; when one of them is invalid, cuFile is
  not called and the client receives \<^verbatim>\<open>hipFileInternalError\<close>.
\<close>

theorem nv_batch_submission:
  "if list_all (\<lambda>p. iop_mode p = hipFileBatch \<and> iop_opcode p \<in> {hipFileBatchRead, hipFileBatchWrite})
        (take (unat nr) ps)
   then \<exists>cs. list_all2 (\<lambda>p k. toHipFileIOParams k q = (hipFileSuccess, p)) (take (unat nr) ps) cs \<and>
          nv_hipFileBatchIOSubmit c b nr (Some ps) flags w =
            nv_return c (cuFileBatchIOSubmit c b nr (Some cs) flags w)
   else nv_hipFileBatchIOSubmit c b nr (Some ps) flags w = (hipFile_status hipFileInternalError, w)"
proof (cases "convert_params (take (unat nr) ps)")
  case (Inl ex)
  then have "\<not> list_all (\<lambda>p. \<exists>k. toCUfileIOParams p = Inr k) (take (unat nr) ps)"
    using convert_params_throws [of "take (unat nr) ps"] by (auto simp: list_all_iff)
  with Inl show ?thesis
    unfolding toCUfileIOParams_accepts_iff nv_hipFileBatchIOSubmit_def by simp
next
  case (Inr cs)
  then have cs: "list_all2 (\<lambda>p k. toCUfileIOParams p = Inr k) (take (unat nr) ps) cs"
    by (simp add: convert_params_iff)
  have "list_all (\<lambda>p. \<exists>k. toCUfileIOParams p = Inr k) (take (unat nr) ps)"
    using convert_params_throws [of "take (unat nr) ps"] Inr by (auto simp: list_all_iff)
  moreover have "list_all2 (\<lambda>p k. toHipFileIOParams k q = (hipFileSuccess, p)) (take (unat nr) ps) cs"
    using cs by (rule list_all2_mono) (rule IOParams_round_trip)
  ultimately show ?thesis
    using Inr unfolding toCUfileIOParams_accepts_iff nv_hipFileBatchIOSubmit_def by auto
qed

text \<open>
  C28: when cuFile reports events of a batch, with a number of events that fits into the client's
  array and with states that hipFile knows, the array starts with the converted events in their
  order and keeps its other entries, and the number of events is handed on.
\<close>

theorem nv_batch_status:
  assumes "cuFileBatchIOGetStatus c b min_nr nr (Some (replicate (unat nr) blank)) timeout w =
      ((status, nr', evs), w')"
    and "cuerr status = Named CU_FILE_SUCCESS"
    and "unat nr' \<le> length evs" and "unat nr' \<le> length array"
    and "list_all2 (\<lambda>k e. toHipFileIOEvents k = Inr e) (take (unat nr') evs) es"
  shows "nv_hipFileBatchIOGetStatus c blank b min_nr nr (Some array) timeout w =
    ((fst (nv_return c (status, w')), nr', Some (es @ drop (unat nr') array)), w')"
proof -
  have "convert_events 0 (take (unat nr') evs) array = (True, es @ drop (unat nr') array)"
    using convert_events_ok [OF assms(5), of 0 array] assms(3,4) by simp
  with assms(1,2) show ?thesis
    by (simp add: nv_hipFileBatchIOGetStatus_def split_beta)
qed

theorem nv_batch_status_witness:
  "nv_hipFileBatchIOGetStatus sample_cufile sample_event 5 1 2
     (Some [\<lparr>ioe_cookie = 0, ioe_status = Unnamed 0, ioe_ret = 0\<rparr>,
            \<lparr>ioe_cookie = 1, ioe_status = Unnamed 0, ioe_ret = 0\<rparr>]) 0 () =
     ((hipFile_status hipFileSuccess, 1,
       Some [\<lparr>ioe_cookie = 7, ioe_status = Named hipFileComplete, ioe_ret = 512\<rparr>,
             \<lparr>ioe_cookie = 1, ioe_status = Unnamed 0, ioe_ret = 0\<rparr>]), ())"
proof -
  have "toHipFileIOEvents sample_event =
    Inr \<lparr>ioe_cookie = 7, ioe_status = Named hipFileComplete, ioe_ret = 512\<rparr>"
    by (simp add: sample_event_def toHipFileIOEvents_def toHipFileStatus_def)
  moreover have "fst (nv_return sample_cufile (sample_ok, ())) = hipFile_status hipFileSuccess"
    by (simp add: nv_return_def toHipFileError_def toHipFileOpError_def sample_ok_def sample_cufile_def)
  ultimately show ?thesis
    using nv_batch_status [where c = sample_cufile and b = 5 and min_nr = 1 and nr = 2 and w = "()"
        and timeout = 0 and blank = sample_event and status = sample_ok and nr' = 1 and w' = "()"
        and evs = "[sample_event]"
        and es = "[\<lparr>ioe_cookie = 7, ioe_status = Named hipFileComplete, ioe_ret = 512\<rparr>]"
        and array = "[\<lparr>ioe_cookie = 0, ioe_status = Unnamed 0, ioe_ret = 0\<rparr>,
            \<lparr>ioe_cookie = 1, ioe_status = Unnamed 0, ioe_ret = 0\<rparr>]"]
    by (simp add: sample_cufile_def sample_ok_def)
qed

end
