(* ===== verification/Async.thy ===== *)
theory Async
  imports Api
begin

text \<open>
  Asynchronous IO on streams: operations (\<^verbatim>\<open>async.cpp\<close>, \<^verbatim>\<open>backend/asyncop-fallback.cpp\<close>), the monitor
  that owns them until they are complete, the submission \<^verbatim>\<open>Fallback::async_io\<close> and the host
  functions that the HIP runtime calls (\<^verbatim>\<open>backend/fallback.cpp\<close>), the copy kernel
  (\<^verbatim>\<open>backend/memcpy-kernel.hip\<close>) and the public functions. A launch that succeeds appends a task to the
  queue of its stream; the runtime runs the tasks of a stream in order.
\<close>

section \<open>Operations\<close>

text \<open>A \<^verbatim>\<open>std::variant\<close> of a value and a pointer to the client's variable.\<close>

datatype 'a bindable = Bound 'a | Unbound ptr

record AsyncOpFallback =
  ao_io_type :: IoType
  ao_file :: "ptr option"
  ao_buffer :: "ptr option"
  ao_stream :: "ptr option"
  ao_size :: "size_t bindable"
  ao_file_offset :: "hoff_t bindable"
  ao_buffer_offset :: "hoff_t bindable"
  ao_bytes_transferred :: ptr
  ao_submitted_size :: size_t
  ao_bytes_transferred_internal :: int
  ao_gpu_buffer :: ptr
  ao_bounce_buffer_dev_ptr :: ptr
  ao_bounce_buffer :: ptr

datatype async_task =
    HostFunc host_fn (task_op: ptr)
  | MemcpyKernel uint32_t (task_op: ptr)

text \<open>
  The monitor, the queues of the streams, and the variables of the client that it passed
  pointers to. The monitor maps the address of an operation to a shared pointer to it.
\<close>

record 'w async_state = "'w batch_state" +
  op_heap :: "AsyncOpFallback store"
  submitted_ops :: "(ptr \<times> ptr) list"
  completed_ops :: "ptr list"
  is_finished :: bool
  stream_tasks :: "ptr \<Rightarrow> async_task list"
  client_vars :: "ptr \<Rightarrow> 64 word"

definition client_store :: "ptr \<Rightarrow> 64 word \<Rightarrow> (('w, 'z) async_state_scheme, unit) cxx" where
  "client_store p v = cmodify (\<lambda>s. s\<lparr>client_vars := (client_vars s)(p := v)\<rparr>)"

definition hipHostDeleter :: "'w ext \<Rightarrow> ptr \<Rightarrow> (('w, 'z) sys_state_scheme, unit) cxx" where
  "hipHostDeleter x buffer =
     ccatch (hipHostFree x buffer)
       (\<lambda>_. Sys_syslog x LOG_CRIT ''Error freeing pinned host memory.'')"

definition AsyncOpFallback_new :: "'w ext \<Rightarrow> (('w, 'z) sys_state_scheme, ptr) cxx" where
  "AsyncOpFallback_new x =
     ccatch (hipHostMalloc x (sizeof_AsyncOpFallback x) 0) (\<lambda>_. cthrow Std_bad_alloc)"

definition AsyncOpFallback_delete :: "'w ext \<Rightarrow> ptr \<Rightarrow> (('w, 'z) sys_state_scheme, unit) cxx" where
  "AsyncOpFallback_delete x p =
     cnoexcept (ccatch (hipHostFree x p)
       (\<lambda>_. Sys_syslog x LOG_CRIT ''Freeing AsyncOpFallback failed.''))"

text \<open>The shared pointers of an operation: taken by its constructor, dropped member by member.\<close>

definition opt_do :: "('a \<Rightarrow> ('s, unit) cxx) \<Rightarrow> 'a option \<Rightarrow> ('s, unit) cxx" where
  "opt_do f v = (case v of None \<Rightarrow> cret () | Some a \<Rightarrow> f a)"

definition AsyncOp_take :: "ptr \<Rightarrow> ptr \<Rightarrow> ptr \<Rightarrow> (('w, 'z) drv_state_scheme, unit) cxx" where
  "AsyncOp_take file buffer stream =
     cmodify (\<lambda>s. s\<lparr>buf_heap := sp_copy buffer (buf_heap s), file_heap := sp_copy file (file_heap s),
                    stream_heap := sp_copy stream (stream_heap s)\<rparr>)"

definition AsyncOp_dtor :: "'w ext \<Rightarrow> AsyncOpFallback \<Rightarrow> (('w, 'z) drv_state_scheme, unit) cxx" where
  "AsyncOp_dtor x op =
     cbind (opt_do Stream_drop (ao_stream op)) (\<lambda>_.
     cbind (opt_do Buffer_drop (ao_buffer op)) (\<lambda>_.
     opt_do (File_drop x) (ao_file op)))"

definition AsyncOpFallback_dtor ::
  "'w ext \<Rightarrow> AsyncOpFallback \<Rightarrow> (('w, 'z) drv_state_scheme, unit) cxx" where
  "AsyncOpFallback_dtor x op = cbind (hipHostDeleter x (ao_bounce_buffer op)) (\<lambda>_. AsyncOp_dtor x op)"

text \<open>The constructor of the base class binds the parameters that the stream fixes at submission.\<close>

definition AsyncOp_ctor ::
  "IoType \<Rightarrow> ptr \<Rightarrow> ptr \<Rightarrow> ptr \<Rightarrow> Stream \<Rightarrow> ptr \<Rightarrow> ptr \<Rightarrow> ptr \<Rightarrow> ptr \<Rightarrow> (ptr \<Rightarrow> 64 word) \<Rightarrow> AsyncOpFallback" where
  "AsyncOp_ctor type file buffer stream st size_p file_offset_p buffer_offset_p bytes_p vars =
     \<lparr>ao_io_type = type, ao_file = Some file, ao_buffer = Some buffer, ao_stream = Some stream,
      ao_size = (if Stream_fixedIOSize st then Bound (vars size_p) else Unbound size_p),
      ao_file_offset = (if Stream_fixedFileOffset st then Bound (vars file_offset_p) else Unbound file_offset_p),
      ao_buffer_offset = (if Stream_fixedBufferOffset st then Bound (vars buffer_offset_p) else Unbound buffer_offset_p),
      ao_bytes_transferred = bytes_p, ao_submitted_size = 0, ao_bytes_transferred_internal = 0,
      ao_gpu_buffer = nullptr, ao_bounce_buffer_dev_ptr = nullptr, ao_bounce_buffer = nullptr\<rparr>"

text \<open>
  The constructor: when it throws, the bounce buffer is freed if it was allocated, and the shared
  pointers are dropped.
\<close>

definition AsyncOpFallback_ctor ::
  "'w ext \<Rightarrow> IoType \<Rightarrow> ptr \<Rightarrow> ptr \<Rightarrow> ptr \<Rightarrow> Buffer \<Rightarrow> Stream \<Rightarrow> ptr \<Rightarrow> ptr \<Rightarrow> ptr \<Rightarrow> ptr \<Rightarrow>
     (('w, 'z) async_state_scheme, AsyncOpFallback) cxx" where
  "AsyncOpFallback_ctor x type file buffer stream b st size_p file_offset_p buffer_offset_p bytes_p =
     cbind (AsyncOp_take file buffer stream) (\<lambda>_.
     cbind (cget client_vars) (\<lambda>vars.
     let base = AsyncOp_ctor type file buffer stream st size_p file_offset_p buffer_offset_p bytes_p vars
     in cunwind
          (cbind (getMaxRwCount x) (\<lambda>limit.
           let submitted_size = min (vars size_p) limit in
           cbind (hipHostMalloc x submitted_size 0) (\<lambda>host_ptr.
           cunwind
             (cbind (hipHostGetDevicePointer x host_ptr 0) (\<lambda>dev_ptr.
                cret (base\<lparr>ao_submitted_size := submitted_size, ao_gpu_buffer := Buffer_getBuffer b,
                           ao_bounce_buffer := host_ptr, ao_bounce_buffer_dev_ptr := dev_ptr\<rparr>)))
             (hipHostDeleter x host_ptr))))
          (AsyncOp_dtor x base)))"

text \<open>\<^verbatim>\<open>std::shared_ptr<AsyncOpFallback>(new AsyncOpFallback(...))\<close>.\<close>

definition AsyncOpFallback_make ::
  "'w ext \<Rightarrow> IoType \<Rightarrow> ptr \<Rightarrow> ptr \<Rightarrow> ptr \<Rightarrow> Buffer \<Rightarrow> Stream \<Rightarrow> ptr \<Rightarrow> ptr \<Rightarrow> ptr \<Rightarrow> ptr \<Rightarrow>
     (('w, 'z) async_state_scheme, ptr) cxx" where
  "AsyncOpFallback_make x type file buffer stream b st size_p file_offset_p buffer_offset_p bytes_p =
     cbind (AsyncOpFallback_new x) (\<lambda>this.
     cbind (cunwind
              (AsyncOpFallback_ctor x type file buffer stream b st size_p file_offset_p buffer_offset_p bytes_p)
              (AsyncOpFallback_delete x this)) (\<lambda>op.
     cbind (cmodify (\<lambda>s. s\<lparr>op_heap := sp_make this op (op_heap s)\<rparr>)) (\<lambda>_.
     cret this)))"

definition AsyncOp_drop :: "'w ext \<Rightarrow> ptr \<Rightarrow> (('w, 'z) async_state_scheme, unit) cxx" where
  "AsyncOp_drop x p s =
     (case sp_release p (op_heap s) of
        (None, h) \<Rightarrow> (Ret (), s\<lparr>op_heap := h\<rparr>)
      | (Some op, h) \<Rightarrow>
          cbind (AsyncOpFallback_dtor x op) (\<lambda>_. AsyncOpFallback_delete x p) (s\<lparr>op_heap := h\<rparr>))"

definition AsyncOpFallback_devPtr :: "'w ext \<Rightarrow> ptr \<Rightarrow> (('w, 'z) sys_state_scheme, ptr) cxx" where
  "AsyncOpFallback_devPtr x this = hipHostGetDevicePointer x this 0"

definition bounceBufferHostPtr :: "AsyncOpFallback \<Rightarrow> ptr" where
  "bounceBufferHostPtr op = ao_bounce_buffer op"

text \<open>An assignment to the members of a live operation.\<close>

definition op_update :: "ptr \<Rightarrow> (AsyncOpFallback \<Rightarrow> AsyncOpFallback) \<Rightarrow> (('w, 'z) async_state_scheme, unit) cxx" where
  "op_update p f s =
     (case op_heap s p of
        None \<Rightarrow> (Terminate, s)
      | Some (op, n) \<Rightarrow> (Ret (), s\<lparr>op_heap := (op_heap s)(p \<mapsto> (f op, n))\<rparr>))"

section \<open>The monitor\<close>

text \<open>\<^verbatim>\<open>std::unordered_map::insert\<close> does nothing when the key is present; the argument is then dropped.\<close>

definition AsyncMonitor_addOp :: "'w ext \<Rightarrow> ptr \<Rightarrow> (('w, 'z) async_state_scheme, unit) cxx" where
  "AsyncMonitor_addOp x op =
     cbind (cmodify (\<lambda>s. s\<lparr>op_heap := sp_copy op (op_heap s)\<rparr>)) (\<lambda>_.
     cbind (cget submitted_ops) (\<lambda>m.
       if map_of m op = None then cmodify (\<lambda>s. s\<lparr>submitted_ops := AList.update op op (submitted_ops s)\<rparr>)
       else AsyncOp_drop x op))"

definition AsyncMonitor_completeOp :: "'w ext \<Rightarrow> ptr \<Rightarrow> (('w, 'z) async_state_scheme, unit) cxx" where
  "AsyncMonitor_completeOp x op =
     cbind (cget submitted_ops) (\<lambda>m.
       if map_of m op = None then cthrow Std_invalid_argument
       else cbind (cget (\<lambda>s. sp_obj op (op_heap s))) (\<lambda>v.
         case v of
           None \<Rightarrow> (\<lambda>s. (Terminate, s))
         | Some a \<Rightarrow>
             cbind (op_update op (\<lambda>a. a\<lparr>ao_file := None\<rparr>)) (\<lambda>_.
             cbind (opt_do (File_drop x) (ao_file a)) (\<lambda>_.
             cbind (op_update op (\<lambda>a. a\<lparr>ao_buffer := None\<rparr>)) (\<lambda>_.
             cbind (opt_do Buffer_drop (ao_buffer a)) (\<lambda>_.
             cbind (op_update op (\<lambda>a. a\<lparr>ao_stream := None\<rparr>)) (\<lambda>_.
             cbind (opt_do Stream_drop (ao_stream a)) (\<lambda>_.
             cmodify (\<lambda>s. s\<lparr>completed_ops := completed_ops s @ [op]\<rparr>)))))))))"

text \<open>
  One round of the loop of \<^verbatim>\<open>completion_thread\<close>: whether the loop goes on. A round that finds nothing
  to do waits for a notification.
\<close>

definition AsyncMonitor_completion_round :: "'w ext \<Rightarrow> (('w, 'z) async_state_scheme, bool) cxx" where
  "AsyncMonitor_completion_round x =
     cbind (cget completed_ops) (\<lambda>c.
       if c \<noteq> [] then
         cbind (cmodify (\<lambda>s. s\<lparr>completed_ops := butlast c\<rparr>)) (\<lambda>_.
         cbind (cget submitted_ops) (\<lambda>m.
         cbind (cmodify (\<lambda>s. s\<lparr>submitted_ops := AList.delete (last c) m\<rparr>)) (\<lambda>_.
         cbind (opt_do (AsyncOp_drop x) (map_of m (last c))) (\<lambda>_.
         cret True))))
       else cbind (cget is_finished) (\<lambda>f. cret (\<not> f)))"

text \<open>
  The thread runs rounds until one says stop. The destructor asks it to finish, waits for it, and then
  destroys the map: what is still submitted loses its owner.
\<close>

definition AsyncMonitor_completion_thread :: "'w ext \<Rightarrow> (('w, 'z) async_state_scheme, unit) ocxx" where
  "AsyncMonitor_completion_thread x =
     oloop (\<lambda>_. cbind (AsyncMonitor_completion_round x) (\<lambda>go. cret (if go then Inl () else Inr ()))) ()"

definition AsyncMonitor_dtor :: "'w ext \<Rightarrow> (('w, 'z) async_state_scheme, unit) ocxx" where
  "AsyncMonitor_dtor x =
     obind (olift (cmodify (\<lambda>s. s\<lparr>is_finished := True\<rparr>))) (\<lambda>_.
     obind (AsyncMonitor_completion_thread x) (\<lambda>_.
     olift (cbind (cget submitted_ops) (\<lambda>m.
       cbind (cwhen (length m > 0)
                (Sys_syslog x LOG_CRIT ''Async state is being destructed while operations are outstanding.'')) (\<lambda>_.
       cbind (cfor (map snd m) (AsyncOp_drop x)) (\<lambda>_.
       cmodify (\<lambda>s. s\<lparr>submitted_ops := []\<rparr>)))))))"

section \<open>Submission\<close>

definition enqueue_task :: "ptr \<Rightarrow> async_task \<Rightarrow> (('w, 'z) async_state_scheme, unit) cxx" where
  "enqueue_task stream task =
     cmodify (\<lambda>s. s\<lparr>stream_tasks := (stream_tasks s)(stream := stream_tasks s stream @ [task])\<rparr>)"

definition launch_host_func ::
  "'w ext \<Rightarrow> ptr \<Rightarrow> host_fn \<Rightarrow> ptr \<Rightarrow> (('w, 'z) async_state_scheme, unit) cxx" where
  "launch_host_func x stream fn op =
     cbind (hipLaunchHostFunc x stream fn op) (\<lambda>_. enqueue_task stream (HostFunc fn op))"

text \<open>The kernel finds the operation \<open>op\<close> behind its device address \<open>op_dev_ptr\<close>.\<close>

definition launch_memcpy_kernel ::
  "'w ext \<Rightarrow> ptr \<Rightarrow> int \<Rightarrow> ptr \<Rightarrow> ptr \<Rightarrow> (('w, 'z) async_state_scheme, unit) cxx" where
  "launch_memcpy_kernel x stream max_threads op_dev_ptr op =
     cbind (hipLaunchKernel x 1 (word_of_int max_threads) op_dev_ptr 0 stream) (\<lambda>_.
       enqueue_task stream (MemcpyKernel (word_of_int max_threads) op))"

definition Fallback_async_enqueue ::
  "'w ext \<Rightarrow> IoType \<Rightarrow> Buffer \<Rightarrow> Stream \<Rightarrow> ptr \<Rightarrow> ptr \<Rightarrow> (('w, 'z) async_state_scheme, unit) cxx" where
  "Fallback_async_enqueue x type b st op op_dev_ptr =
     (let stream = Stream_getHipStream st in
      ccatch
        (cbind (hipDeviceGetAttribute x (Buffer_getGpuId b)) (\<lambda>max_threads.
         cbind (cwhen (\<not> Stream_fixedBufferOffset st \<or> \<not> Stream_fixedFileOffset st \<or> \<not> Stream_fixedIOSize st)
                  (launch_host_func x stream fn_async_io_bind_params op)) (\<lambda>_.
         cbind (case type of
                  IoRead \<Rightarrow>
                    cbind (launch_host_func x stream fn_async_io_cpu_copy op) (\<lambda>_.
                      launch_memcpy_kernel x stream max_threads op_dev_ptr op)
                | IoWrite \<Rightarrow>
                    cbind (launch_memcpy_kernel x stream max_threads op_dev_ptr op) (\<lambda>_.
                      launch_host_func x stream fn_async_io_cpu_copy op)) (\<lambda>_.
         launch_host_func x stream fn_async_io_cleanup op))))
        (\<lambda>ex. cbind (ccatch (launch_host_func x stream fn_async_io_cleanup op)
                 (\<lambda>_. Sys_syslog x LOG_CRIT
                    ''Unable to enqueue async cleanup function. This will leak memory.'')) (\<lambda>_.
               cthrow ex)))"

text \<open>
  \<^verbatim>\<open>Fallback::async_io\<close>. The caller holds a use of the three objects; the local pointer to the
  operation is dropped at the end.
\<close>

definition Fallback_async_io ::
  "'w ext \<Rightarrow> IoType \<Rightarrow> ptr \<Rightarrow> ptr \<Rightarrow> ptr \<Rightarrow> ptr \<Rightarrow> ptr \<Rightarrow> ptr \<Rightarrow> ptr \<Rightarrow>
     (('w, 'z) async_state_scheme, unit) cxx" where
  "Fallback_async_io x type file buffer size_p file_offset_p buffer_offset_p bytes_p stream s =
     (case (sp_obj buffer (buf_heap s), sp_obj stream (stream_heap s)) of
        (Some b, Some st) \<Rightarrow>
          cbind (getMaxRwCount x) (\<lambda>limit.
          cbind (cget client_vars) (\<lambda>vars.
            if \<not> paramsValid b (min (vars size_p) limit) (vars file_offset_p) (vars buffer_offset_p)
            then cthrow Std_invalid_argument
            else if Buffer_getGpuId b \<noteq> Stream_getHipDevice st then cthrow Std_invalid_argument
            else cbind (client_store bytes_p 0) (\<lambda>_.
                 cbind (cget client_vars) (\<lambda>vars'.
                   if vars' size_p = 0 then cret ()
                   else cbind (AsyncOpFallback_make x type file buffer stream b st size_p file_offset_p
                                 buffer_offset_p bytes_p) (\<lambda>op.
                        cscope
                          (cbind (AsyncMonitor_addOp x op) (\<lambda>_.
                           cbind (AsyncOpFallback_devPtr x op) (\<lambda>op_dev_ptr.
                           Fallback_async_enqueue x type b st op op_dev_ptr)))
                          (AsyncOp_drop x op)))))) s
      | _ \<Rightarrow> (Terminate, s))"

section \<open>The public functions\<close>

fun checkNull :: "ptr list \<Rightarrow> ('s, unit) cxx" where
  "checkNull [] = cret ()"
| "checkNull (p # ps) =
     (if p = nullptr then cthrow (Thrown_hipFileError (hipFile_status hipFileInvalidValue))
      else checkNull ps)"

definition ensureDriverInit :: "(('w, 'z) drv_state_scheme, unit) cxx" where
  "ensureDriverInit = DriverState_ensureInitialized"

text \<open>The destructor of the tuple of the three pointers.\<close>

definition file_buffer_stream_dtor :: "'w ext \<Rightarrow> ptr \<times> ptr \<times> ptr \<Rightarrow> (('w, 'z) drv_state_scheme, unit) cxx" where
  "file_buffer_stream_dtor x fbs =
     (case fbs of (file, buffer, stream) \<Rightarrow>
        cbind (Stream_drop stream) (\<lambda>_. cbind (Buffer_drop buffer) (\<lambda>_. File_drop x file)))"

definition hipFileIOAsync ::
  "'w ext \<Rightarrow> ptr \<Rightarrow> ptr \<Rightarrow> IoType \<Rightarrow> ptr \<Rightarrow> ptr \<Rightarrow> ptr \<Rightarrow> ptr \<Rightarrow> ptr \<Rightarrow> ptr \<Rightarrow> ptr \<Rightarrow>
     (('w, 'z) async_state_scheme, hipFileError_t) cxx" where
  "hipFileIOAsync x nb ns io_type fh buffer_base size_p file_offset_p buffer_offset_p bytes_p hipStream =
     ccatch
       (cbind DriverState_getRefCount (\<lambda>rc.
          if rc = 0 then cbind ensureDriverInit (\<lambda>_. cret (hipFile_status hipFileInvalidValue))
          else cbind (checkNull [buffer_base, size_p, file_offset_p, buffer_offset_p, bytes_p]) (\<lambda>_.
               cbind (DriverState_getFileBufferAndStream x nb ns fh buffer_base hipStream) (\<lambda>fbs.
               cscope
                 (cbind (Fallback_async_io x io_type (fst fbs) (fst (snd fbs)) size_p file_offset_p
                           buffer_offset_p bytes_p (snd (snd fbs))) (\<lambda>_.
                  cret (hipFile_status hipFileSuccess)))
                 (file_buffer_stream_dtor x fbs)))))
       (\<lambda>ex. cret (case ex of
                     Thrown_hipFileError e \<Rightarrow> e
                   | Std_bad_alloc \<Rightarrow> \<lparr>err = hipFileHipDriverError, hip_drv_err = hipErrorOutOfMemory\<rparr>
                   | FileNotRegistered \<Rightarrow> hipFile_status hipFileHandleNotRegistered
                   | _ \<Rightarrow> if is_invalid_argument ex then hipFile_status hipFileInvalidValue
                          else handle_exception ex))"

definition hipFileReadAsync ::
  "'w ext \<Rightarrow> ptr \<Rightarrow> ptr \<Rightarrow> ptr \<Rightarrow> ptr \<Rightarrow> ptr \<Rightarrow> ptr \<Rightarrow> ptr \<Rightarrow> ptr \<Rightarrow> ptr \<Rightarrow>
     (('w, 'z) async_state_scheme, hipFileError_t) cxx" where
  "hipFileReadAsync x nb ns = hipFileIOAsync x nb ns IoRead"

definition hipFileWriteAsync ::
  "'w ext \<Rightarrow> ptr \<Rightarrow> ptr \<Rightarrow> ptr \<Rightarrow> ptr \<Rightarrow> ptr \<Rightarrow> ptr \<Rightarrow> ptr \<Rightarrow> ptr \<Rightarrow> ptr \<Rightarrow>
     (('w, 'z) async_state_scheme, hipFileError_t) cxx" where
  "hipFileWriteAsync x nb ns = hipFileIOAsync x nb ns IoWrite"

section \<open>The host functions\<close>

text \<open>
  The runtime calls them with a plain pointer to the operation: an access to an operation that is no
  longer alive ends the process, and so does an exception that leaves them.
\<close>

definition bind_value :: "(ptr \<Rightarrow> 64 word) \<Rightarrow> 64 word bindable \<Rightarrow> 64 word" where
  "bind_value vars v = (case v of Bound a \<Rightarrow> a | Unbound p \<Rightarrow> vars p)"

definition async_io_bind_params :: "'w ext \<Rightarrow> ptr \<Rightarrow> (('w, 'z) async_state_scheme, unit) cxx" where
  "async_io_bind_params x p s =
     (case sp_obj p (op_heap s) of
        None \<Rightarrow> (Terminate, s)
      | Some op \<Rightarrow>
          cnoexcept (cbind (getMaxRwCount x) (\<lambda>limit.
            let bo = bind_value (client_vars s) (ao_buffer_offset op);
                fo = bind_value (client_vars s) (ao_file_offset op);
                sz = min (bind_value (client_vars s) (ao_size op)) limit;
                bound = (\<lambda>op. op\<lparr>ao_buffer_offset := Bound bo, ao_file_offset := Bound fo, ao_size := Bound sz\<rparr>);
                failed = (\<lambda>op. (bound op)\<lparr>ao_bytes_transferred_internal := - op_error_code hipFileInvalidValue\<rparr>)
            in if sz > ao_submitted_size op then op_update p failed
               else (\<lambda>s. case Option.bind (ao_buffer op) (\<lambda>q. sp_obj q (buf_heap s)) of
                           None \<Rightarrow> (Terminate, s)
                         | Some b \<Rightarrow> if \<not> paramsValid b sz fo bo then op_update p failed s
                                    else op_update p bound s))) s)"

text \<open>
  The cleanup announces the operation under the lock of the monitor and reads its count afterwards, without a lock:
  the completion thread may run in between. The first half gives the address of the client's variable
  and whether the monitor knew the operation; the second half is all that follows.
\<close>

definition cleanup_announce :: "'w ext \<Rightarrow> ptr \<Rightarrow> (('w, 'z) async_state_scheme, ptr \<times> bool) cxx" where
  "cleanup_announce x p s =
     (case sp_obj p (op_heap s) of
        None \<Rightarrow> (Terminate, s)
      | Some op \<Rightarrow>
          (case AsyncMonitor_completeOp x p s of
             (Ret _, t) \<Rightarrow> (Ret (ao_bytes_transferred op, True), t)
           | (Exn ex, t) \<Rightarrow>
               if is_invalid_argument ex then (Ret (ao_bytes_transferred op, False), t) else (Terminate, t)
           | (Terminate, t) \<Rightarrow> (Terminate, t)))"

definition cleanup_report :: "ptr \<Rightarrow> ptr \<times> bool \<Rightarrow> (('w, 'z) async_state_scheme, unit) cxx" where
  "cleanup_report p = (\<lambda>(bytes_transferred, announced) s.
     if announced
     then (case sp_obj p (op_heap s) of
             None \<Rightarrow> (Terminate, s)
           | Some op \<Rightarrow> client_store bytes_transferred (word_of_int (ao_bytes_transferred_internal op)) s)
     else client_store bytes_transferred (word_of_int (- op_error_code hipFileInternalError)) s)"

definition async_io_cleanup :: "'w ext \<Rightarrow> ptr \<Rightarrow> (('w, 'z) async_state_scheme, unit) cxx" where
  "async_io_cleanup x p = cbind (cleanup_announce x p) (cleanup_report p)"

text \<open>
  One round of the loop of \<^verbatim>\<open>async_io_cpu_copy\<close> with \<open>n\<close> bytes done: the next count, or the value of
  \<open>bytes_transferred_internal\<close> at the end.
\<close>

definition cpu_copy_round ::
  "'w ext \<Rightarrow> IoType \<Rightarrow> File \<Rightarrow> ptr \<Rightarrow> size_t \<Rightarrow> hoff_t \<Rightarrow> size_t \<Rightarrow>
     (('w, 'z) sys_state_scheme, size_t + int) cxx" where
  "cpu_copy_round x type f bounce sz fo n s =
     (if \<not> n < sz then (Ret (Inr (sint n)), s)
      else case (case type of
                   IoRead \<Rightarrow> Sys_pread x (File_bufferedFd f) (bounce + n) (sz - n) (fo + n)
                 | IoWrite \<Rightarrow> Sys_pwrite x (File_bufferedFd f) (bounce + n) (sz - n) (fo + n)) s of
             (Ret r, t) \<Rightarrow>
               if r = 0 then (Ret (Inr (sint n)), t) else (Ret (Inl (n + word_of_int r)), t)
           | (Exn (Std_system_error c), t) \<Rightarrow>
               if c = EINTR then (Ret (Inl n), t) else (Ret (Inr (-1)), t)
           | (Exn e, t) \<Rightarrow> (Terminate, t)
           | (Terminate, t) \<Rightarrow> (Terminate, t))"

definition async_io_cpu_copy :: "'w ext \<Rightarrow> ptr \<Rightarrow> (('w, 'z) async_state_scheme, unit) ocxx" where
  "async_io_cpu_copy x p s =
     (case sp_obj p (op_heap s) of
        None \<Rightarrow> Some (Terminate, s)
      | Some op \<Rightarrow>
          (case (ao_size op, ao_file_offset op) of
             (Bound sz, Bound fo) \<Rightarrow>
               if ao_bytes_transferred_internal op < 0 then Some (Ret (), s)
               else (case Option.bind (ao_file op) (\<lambda>q. sp_obj q (file_heap s)) of
                       None \<Rightarrow> Some (Terminate, s)
                     | Some f \<Rightarrow>
                         obind (oloop (cpu_copy_round x (ao_io_type op) f (bounceBufferHostPtr op) sz fo) 0)
                           (\<lambda>r. olift (op_update p (\<lambda>op. op\<lparr>ao_bytes_transferred_internal := r\<rparr>))) s)
           | _ \<Rightarrow> Some (Terminate, s)))"

end
