(* ===== verification/Memcpy_Kernel.thy ===== *)
theory Memcpy_Kernel
  imports Async "HOL-Library.Multiset"
begin

text \<open>
  The copy kernel (\<^verbatim>\<open>backend/memcpy-kernel.hip\<close>). Each GPU thread of the single block copies every
  \<open>blockDim\<close>-th word of eight bytes, and the first thread also the bytes that do not fill a word.
  The threads run in no particular order: the kernel executes the copies of all threads in the order
  that a schedule gives.
\<close>

section \<open>Definitions\<close>

datatype copy_step = CopyChunk nat | CopyByte nat

text \<open>The indices of \<^verbatim>\<open>for (idx = start_idx; idx < num_chunks; idx += blockDim.x)\<close>.\<close>

function stride :: "nat \<Rightarrow> nat \<Rightarrow> nat \<Rightarrow> nat list" where
  "stride dim num_chunks idx =
     (if idx < num_chunks \<and> 0 < dim then idx # stride dim num_chunks (idx + dim) else [])"
  by pat_completeness auto
termination
  by (relation "measure (\<lambda>(dim, num_chunks, idx). num_chunks - idx)") auto

declare stride.simps [simp del]

definition kernel_thread :: "nat \<Rightarrow> nat \<Rightarrow> nat \<Rightarrow> copy_step list" where
  "kernel_thread dim sz start_idx =
     map CopyChunk (stride dim (sz div 8) start_idx) @
     (if start_idx = 0 then map CopyByte [sz div 8 * 8 ..< sz] else [])"

definition kernel_steps :: "nat \<Rightarrow> nat \<Rightarrow> copy_step list" where
  "kernel_steps dim sz = concat (map (kernel_thread dim sz) [0..<dim])"

fun do_copy :: "'w ext \<Rightarrow> ptr \<Rightarrow> ptr \<Rightarrow> copy_step \<Rightarrow> 'w \<Rightarrow> 'w" where
  "do_copy x dst src (CopyByte i) w =
     mem_store x (dst + of_nat i) (mem_load x (src + of_nat i) w) w"
| "do_copy x dst src (CopyChunk i) w =
     (let word = map (\<lambda>j. mem_load x (src + of_nat (8 * i + j)) w) [0..<8]
      in fold (\<lambda>j. mem_store x (dst + of_nat (8 * i + j)) (word ! j)) [0..<8] w)"

definition hipFileMemcpyKernel ::
  "'w ext \<Rightarrow> (nat \<Rightarrow> nat \<Rightarrow> copy_step list) \<Rightarrow> uint32_t \<Rightarrow> ptr \<Rightarrow> (('w, 'z) async_state_scheme, unit) cxx" where
  "hipFileMemcpyKernel x schedule blockDim p s =
     (case sp_obj p (op_heap s) of
        None \<Rightarrow> (Terminate, s)
      | Some op \<Rightarrow>
          let fail = op_update p (\<lambda>op. op\<lparr>ao_bytes_transferred_internal := - op_error_code hipFileInvalidValue\<rparr>)
          in if ao_bytes_transferred_internal op < 0 then (Ret (), s)
             else (case ao_size op of
                Unbound _ \<Rightarrow> fail s
              | Bound size_v \<Rightarrow>
                  let sz = (case ao_io_type op of
                              IoRead \<Rightarrow> word_of_int (ao_bytes_transferred_internal op) | IoWrite \<Rightarrow> size_v)
                  in (case ao_buffer_offset op of
                        Unbound _ \<Rightarrow> fail s
                      | Bound buffer_offset \<Rightarrow>
                          if ao_bounce_buffer_dev_ptr op = nullptr then fail s
                          else if ao_gpu_buffer op = nullptr then fail s
                          else let cpu_buffer = ao_bounce_buffer_dev_ptr op;
                                   gpu_buffer_region = ao_gpu_buffer op + buffer_offset;
                                   (dst, src) = (case ao_io_type op of
                                                   IoRead \<Rightarrow> (gpu_buffer_region, cpu_buffer)
                                                 | IoWrite \<Rightarrow> (cpu_buffer, gpu_buffer_region))
                               in (Ret (), s\<lparr>world := fold (do_copy x dst src)
                                               (schedule (unat blockDim) (unat sz)) (world s)\<rparr>))))"

text \<open>Any order in which the threads of the kernel may run.\<close>

definition any_order :: "(nat \<Rightarrow> nat \<Rightarrow> copy_step list) \<Rightarrow> bool" where
  "any_order schedule \<longleftrightarrow> (\<forall>dim n. mset (schedule dim n) = mset (kernel_steps dim n))"

section \<open>What the threads cover\<close>

fun covered :: "copy_step \<Rightarrow> nat set" where
  "covered (CopyByte i) = {i}"
| "covered (CopyChunk i) = {8 * i..<8 * i + 8}"

lemma set_stride: "0 < dim \<Longrightarrow> i \<in> set (stride dim n a) \<longleftrightarrow> a \<le> i \<and> i < n \<and> i mod dim = a mod dim"
proof (induction dim n a rule: stride.induct)
  case (1 dim n a)
  show ?case
  proof (cases "a < n")
    case True
    have "a \<le> i \<and> i mod dim = a mod dim \<longleftrightarrow> i = a \<or> a + dim \<le> i \<and> i mod dim = (a + dim) mod dim"
    proof -
      have "a + dim \<le> i" if "a \<le> i" "i mod dim = a mod dim" "i \<noteq> a"
      proof -
        from mod_eq_nat1E [OF that(2,1)] obtain k where k: "i = a + dim * k" by blast
        with that(3) have "1 \<le> k" by (cases k) auto
        then have "dim * 1 \<le> dim * k" by (rule mult_le_mono2)
        with k show ?thesis by simp
      qed
      then show ?thesis by auto
    qed
    with 1 True show ?thesis by (subst stride.simps) auto
  next
    case False
    then show ?thesis by (subst stride.simps) auto
  qed
qed

lemma threads_union:
  fixes n dim :: nat
  assumes "0 < dim"
  shows "(\<Union>t \<in> {0..<dim}. (\<Union>i \<in> {i. i < n \<and> t \<le> i \<and> i mod dim = t mod dim}. C i) \<union>
      (if t = 0 then R else {})) = (\<Union>i \<in> {0..<n}. C i) \<union> R" (is "?l = ?r")
proof
  show "?l \<subseteq> ?r" by (auto split: if_splits)
  have "C i \<subseteq> ?l" if "i < n" for i
    by (rule order_trans [OF _ UN_upper [of "i mod dim"]]) (use assms that in auto)
  moreover have "R \<subseteq> ?l"
    by (rule order_trans [OF _ UN_upper [of 0]]) (use assms in auto)
  ultimately show "?r \<subseteq> ?l" by (meson UN_least Un_least atLeastLessThan_iff)
qed

lemma covered_steps:
  assumes "0 < dim"
  shows "(\<Union>st \<in> set (kernel_steps dim sz). covered st) = {0..<sz}"
proof -
  have thread: "(\<Union>st \<in> set (kernel_thread dim sz t). covered st) =
      (\<Union>i \<in> {i. i < sz div 8 \<and> t \<le> i \<and> i mod dim = t mod dim}. {8 * i..<8 * i + 8}) \<union>
      (if t = 0 then {sz div 8 * 8..<sz} else {})" for t
  proof -
    have "set (stride dim (sz div 8) t) = {i. i < sz div 8 \<and> t \<le> i \<and> i mod dim = t mod dim}"
      using set_stride [OF assms] by auto
    then show ?thesis by (simp add: kernel_thread_def)
  qed
  have "(\<Union>st \<in> set (kernel_steps dim sz). covered st) =
      (\<Union>t \<in> {0..<dim}. \<Union>st \<in> set (kernel_thread dim sz t). covered st)"
    by (auto simp: kernel_steps_def)
  also have "\<dots> = (\<Union>i \<in> {0..<sz div 8}. {8 * i..<8 * i + 8}) \<union> {sz div 8 * 8..<sz}"
    unfolding thread by (rule threads_union [OF assms])
  also have "(\<Union>i \<in> {0..<sz div 8}. {8 * i..<8 * i + 8}) = {0..<sz div 8 * 8}"
  proof -
    have "k \<in> (\<Union>i \<in> {0..<n}. {8 * i..<8 * i + 8}) \<longleftrightarrow> k < n * 8" for k n :: nat
    proof
      assume "k < n * 8"
      then have "k div 8 < n" "8 * (k div 8) \<le> k" "k < 8 * (k div 8) + 8" by auto
      then show "k \<in> (\<Union>i \<in> {0..<n}. {8 * i..<8 * i + 8})" by (intro UN_I [of "k div 8"]) auto
    qed auto
    then show ?thesis by auto
  qed
  finally show ?thesis by auto
qed

section \<open>What a copy does\<close>

text \<open>
  The memory \<open>mem\<close> that the host and the device share, and the translation \<open>dev\<close> of the addresses of the
  device: a load finds the byte at the translated address, a store changes it and nothing else.
\<close>

definition mem_documented :: "'w ext \<Rightarrow> ('w \<Rightarrow> ptr \<Rightarrow> byte) \<Rightarrow> (ptr \<Rightarrow> ptr) \<Rightarrow> bool" where
  "mem_documented x mem dev \<longleftrightarrow>
     (\<forall>a w. mem_load x a w = mem w (dev a)) \<and> (\<forall>a b w. mem (mem_store x a b w) = (mem w)(dev a := b))"

definition copied :: "('w \<Rightarrow> ptr \<Rightarrow> byte) \<Rightarrow> (nat \<Rightarrow> ptr) \<Rightarrow> (nat \<Rightarrow> ptr) \<Rightarrow> nat set \<Rightarrow> 'w \<Rightarrow> 'w \<Rightarrow> bool" where
  "copied mem dst src I w w' \<longleftrightarrow>
     (\<forall>i \<in> I. mem w' (dst i) = mem w (src i)) \<and> (\<forall>a. a \<notin> dst ` I \<longrightarrow> mem w' a = mem w a)"

lemma of_nat_inj_ptr: "i < 2 ^ 64 \<Longrightarrow> j < 2 ^ 64 \<Longrightarrow> (of_nat i :: ptr) = of_nat j \<longleftrightarrow> i = j"
  by (auto simp: word_unat_eq_iff unat_of_nat)

lemma store_fold:
  assumes "mem_documented x mem dev" and "distinct (map (\<lambda>i. dev (f i)) is)"
  shows "mem (fold (\<lambda>i. mem_store x (f i) (g i)) is w) a =
    (case find (\<lambda>i. dev (f i) = a) is of Some i \<Rightarrow> g i | None \<Rightarrow> mem w a)"
  using assms(2)
proof (induction "is" arbitrary: w)
  case (Cons i "is")
  have none: "find (\<lambda>i. dev (f i) = a) is = None" if "dev (f i) = a"
    using Cons.prems that by (simp add: find_None_iff) (metis imageI)
  with Cons assms(1) show ?case by (auto simp: mem_documented_def split: option.splits)
qed simp

abbreviation dev_at :: "(ptr \<Rightarrow> ptr) \<Rightarrow> ptr \<Rightarrow> nat \<Rightarrow> ptr" where
  "dev_at dev p i \<equiv> dev (p + of_nat i)"

lemma do_copy_copied:
  assumes "mem_documented x mem dev" and inj: "inj_on (dev_at dev dst) (covered st)"
  shows "copied mem (dev_at dev dst) (dev_at dev src) (covered st) w (do_copy x dst src st w)"
proof (cases st)
  case (CopyByte i)
  with assms(1) show ?thesis by (simp add: copied_def mem_documented_def)
next
  case (CopyChunk i)
  let ?f = "\<lambda>j. dst + of_nat (8 * i + j) :: ptr"
  let ?word = "map (\<lambda>j. mem_load x (src + of_nat (8 * i + j)) w) [0..<8]"
  have eq: "dev (?f j) = dev (?f k) \<longleftrightarrow> j = k" if "j < 8" "k < 8" for j k
    using inj_on_eq_iff [OF inj, of "8 * i + j" "8 * i + k"] that by (simp add: CopyChunk)
  have dist: "distinct (map (\<lambda>j. dev (?f j)) [0..<8])"
    unfolding distinct_map inj_on_def using eq by simp
  note load = store_fold [OF assms(1) dist, of "\<lambda>j. ?word ! j" w]
  have "find (\<lambda>j. dev (?f j) = dev (?f k)) [0..<8] = Some k" if "k < 8" for k
  proof -
    have "find (\<lambda>j. dev (?f j) = dev (?f k)) [0..<8] = find (\<lambda>j. j = k) [0..<8]"
      by (rule find_cong) (use that eq in auto)
    with that show ?thesis by (simp add: find_member)
  qed
  then have "mem (do_copy x dst src st w) (dev (?f k)) = mem w (dev (src + of_nat (8 * i + k)))"
    if "k < 8" for k
    using load [of "dev (?f k)"] that assms(1) by (simp add: CopyChunk Let_def mem_documented_def)
  moreover have "mem (do_copy x dst src st w) a = mem w a"
    if "a \<notin> dev_at dev dst ` covered st" for a
  proof -
    have "dev (?f j) \<in> dev_at dev dst ` covered st" if "j < 8" for j
      by (rule image_eqI [of _ _ "8 * i + j"]) (use that in \<open>simp_all only: CopyChunk covered.simps\<close>, simp)
    with that have "find (\<lambda>j. dev (?f j) = a) [0..<8] = None"
      unfolding find_None_iff by (metis atLeastLessThan_iff set_upt)
    then show ?thesis using load [of a] by (simp add: CopyChunk Let_def)
  qed
  moreover have "\<exists>k < 8. n = 8 * i + k" if "n \<in> covered st" for n
    using that by (auto simp: CopyChunk intro!: exI [of _ "n - 8 * i"])
  ultimately show ?thesis unfolding copied_def by blast
qed

lemma copied_Un:
  assumes c: "copied mem dst src I w w1" "copied mem dst src J w1 w2"
    and inj: "inj_on dst (I \<union> J)" and disj: "dst ` (I \<union> J) \<inter> src ` (I \<union> J) = {}"
  shows "copied mem dst src (I \<union> J) w w2"
proof -
  have src: "mem w1 (src j) = mem w (src j)" if "j \<in> I \<union> J" for j
  proof -
    have "src j \<notin> dst ` I" using disj that by blast
    with c(1) show ?thesis by (simp add: copied_def)
  qed
  have "mem w2 (dst i) = mem w (src i)" if "i \<in> I \<union> J" for i
  proof (cases "i \<in> J")
    case True
    with c(2) src [OF that] show ?thesis by (simp add: copied_def)
  next
    case False
    then have "dst i \<notin> dst ` J" using inj that by (auto dest: inj_onD)
    with c that False show ?thesis by (simp add: copied_def)
  qed
  moreover have "mem w2 a = mem w a" if "a \<notin> dst ` (I \<union> J)" for a
    using c that unfolding copied_def by (metis UnCI image_Un)
  ultimately show ?thesis unfolding copied_def by blast
qed

lemma copied_all:
  assumes mem: "mem_documented x mem dev" and inj: "inj_on (dev_at dev dst) {..<n}"
    and disj: "dev_at dev dst ` {..<n} \<inter> dev_at dev src ` {..<n} = {}"
    and "\<And>st. st \<in> set steps \<Longrightarrow> covered st \<subseteq> {..<n}"
  shows "copied mem (dev_at dev dst) (dev_at dev src) (\<Union>st \<in> set steps. covered st) w (fold (do_copy x dst src) steps w)"
  using assms(4)
proof (induction steps rule: rev_induct)
  case Nil
  then show ?case by (simp add: copied_def)
next
  case (snoc st steps)
  have cov: "covered st \<subseteq> {..<n}" "(\<Union>st \<in> set steps. covered st) \<subseteq> {..<n}"
    using snoc.prems by auto
  then have sub: "(\<Union>st \<in> set steps. covered st) \<union> covered st \<subseteq> {..<n}" by blast
  have "copied mem (dev_at dev dst) (dev_at dev src) (covered st) (fold (do_copy x dst src) steps w)
      (do_copy x dst src st (fold (do_copy x dst src) steps w))"
    by (rule do_copy_copied [OF mem inj_on_subset [OF inj cov(1)]])
  moreover have "copied mem (dev_at dev dst) (dev_at dev src) (\<Union>st \<in> set steps. covered st) w (fold (do_copy x dst src) steps w)"
    by (rule snoc.IH) (use snoc.prems in auto)
  moreover have "dev_at dev dst ` ((\<Union>st \<in> set steps. covered st) \<union> covered st) \<inter>
      dev_at dev src ` ((\<Union>st \<in> set steps. covered st) \<union> covered st) = {}"
    using disj image_mono [OF sub, of "dev_at dev dst"] image_mono [OF sub, of "dev_at dev src"] by blast
  ultimately have "copied mem (dev_at dev dst) (dev_at dev src) ((\<Union>st \<in> set steps. covered st) \<union> covered st) w
      (do_copy x dst src st (fold (do_copy x dst src) steps w))"
    by (intro copied_Un [OF _ _ inj_on_subset [OF inj sub]])
  then show ?case by (simp add: Un_commute)
qed

text \<open>Whatever the order of the threads, the kernel copies the region and nothing else.\<close>

lemma kernel_copied:
  assumes "mem_documented x mem dev" and "0 < dim"
    and "set steps = set (kernel_steps dim n)"
    and "inj_on (dev_at dev dst) {..<n}" and "dev_at dev dst ` {..<n} \<inter> dev_at dev src ` {..<n} = {}"
  shows "copied mem (dev_at dev dst) (dev_at dev src) {..<n} w (fold (do_copy x dst src) steps w)"
proof -
  have "(\<Union>st \<in> set steps. covered st) = {..<n}"
    using covered_steps [OF assms(2)] assms(3) by auto
  moreover from this have "covered st \<subseteq> {..<n}" if "st \<in> set steps" for st
    using that by auto
  ultimately show ?thesis using copied_all [OF assms(1,4,5), of steps w] by simp
qed

end
