(* ===== verification/Async_Invariant.thy ===== *)
theory Async_Invariant
  imports Process_Safety Fallback_Bytes Memcpy_Kernel
begin

text \<open>
  The invariant of asynchronous IO. The monitor holds the only use of every operation; a pending
  operation holds a use of its file, its buffer and its stream; and the tasks in the queues of the
  streams are in an order in which each finds what it needs. The uses of the tables are counted as
  in theory \<^verbatim>\<open>Driver\<close>, with the uses of the operations added to those of the client.
\<close>

section \<open>The driver below the operations\<close>

lemma Stream_drop_drv_inv:
  assumes inv: "drv_inv EB EF ES s" and "0 < ES p"
  shows "\<exists>t. Stream_drop p s = (Ret (), t) \<and> drv_inv EB EF (ES(p := ES p - 1)) t \<and>
    drv_rest t = drv_rest s"
proof -
  let ?t = "s\<lparr>stream_heap := snd (sp_release p (stream_heap s))\<rparr>"
  have "stream_inv (ES(p := ES p - 1)) ?t"
    using tbl_drop [OF drv_inv_parts(3) [OF inv, unfolded stream_inv_def] assms(2)]
    by (simp add: stream_inv_def)
  then have "drv_inv EB EF (ES(p := ES p - 1)) ?t"
    by (rule drv_inv_stream [OF inv stream_frame_upds(2)])
  then show ?thesis by (simp add: Stream_drop_def cmodify_def drv_rest_def)
qed

lemma getFileBufferAndStream_eq:
  "DriverState_getFileBufferAndStream x nb ns fh buf hs =
     cbind (DriverState_getFileAndBuffer x nb fh buf) (\<lambda>fb.
       cunwind (cbind (StreamMap_getStream x ns hs) (\<lambda>st. cret (fst fb, snd fb, st)))
         (file_buffer_pair_dtor x fb))"
  by (rule ext) (auto simp: DriverState_getFileBufferAndStream_def DriverState_getFileAndBuffer_def
      file_buffer_pair_dtor_def cxx_defs Buffer_drop_def split: prod.splits outcome.splits)

lemma getStream_rest:
  "StreamMap_getStream x ns hs s = (r, t) \<Longrightarrow> drv_rest t = drv_rest s"
  using world_only_Stream_ctor [of x hs 0]
  by (rule world_onlyE [where s = s])
     (auto simp: StreamMap_getStream_def cbind_def cmodify_def cret_def drv_rest_def split: option.splits)

lemma File_drop_streams: "File_drop x p s = (r, t) \<Longrightarrow> stream_heap t = stream_heap s"
  using File_drop_frame [of s x p] by (cases s; cases t) (simp add: file_frame_def)

lemma getBuffer_streams: "BufferMap_getBuffer x nb buf s = (r, t) \<Longrightarrow> stream_heap t = stream_heap s"
  using getBuffer_frame [of s x nb buf] by (cases s; cases t) (simp add: buf_frame_def)

lemma getFileAndBuffer_streams:
  "DriverState_getFileAndBuffer x nb fh buf s = (r, t) \<Longrightarrow> stream_heap t = stream_heap s"
  by (auto simp: DriverState_getFileAndBuffer_def cbind_def cget_def cthrow_def cunwind_def
      FileMap_getFile_def cret_def split: option.splits prod.splits outcome.splits if_splits
      dest!: File_drop_streams getBuffer_streams)

lemma getFileBufferAndStream_inv:
  assumes inv: "drv_inv EB EF ES s" and fresh: "buf_heap s nb = None" "stream_heap s ns = None"
    and op: "DriverState_getFileBufferAndStream x nb ns fh buf hs s = (r, t)" and x: "closes x"
  shows "drv_rest t = drv_rest s \<and>
    (case r of
       Ret fbs \<Rightarrow> (case fbs of (f, b, st) \<Rightarrow>
          drv_inv (EB(b := Suc (EB b))) (EF(f := Suc (EF f))) (ES(st := Suc (ES st))) t \<and>
          (\<exists>so. sp_obj st (stream_heap t) = Some so \<and> st_hip_stream so = hs))
     | Exn e \<Rightarrow> drv_inv EB EF ES t
     | Terminate \<Rightarrow> False)"
proof -
  obtain r1 u where u: "DriverState_getFileAndBuffer x nb fh buf s = (r1, u)" by fastforce
  note i1 = DriverState_getFileAndBuffer_inv [OF inv fresh(1) u]
  note rest1 = getFileAndBuffer_rest [OF u]
  show ?thesis
  proof (cases r1)
    case (Exn e)
    with op u i1 rest1 show ?thesis by (auto simp: getFileBufferAndStream_eq cbind_def)
  next
    case Terminate
    with i1 show ?thesis by simp
  next
    case (Ret fb)
    obtain f b where fb: "fb = (f, b)" by fastforce
    let ?EB = "EB(b := Suc (EB b))" and ?EF = "EF(f := Suc (EF f))"
    from i1 [unfolded Ret fb outcome.case fst_conv snd_conv] have inv1: "drv_inv ?EB ?EF ES u"
      by (rule conjunct1)
    have fresh_u: "stream_heap u ns = None"
      using getFileAndBuffer_streams [OF u] fresh(2) by simp
    obtain r2 v where v: "StreamMap_getStream x ns hs u = (r2, v)" by fastforce
    note g = getStream_spec [OF drv_inv_parts(3) [OF inv1] fresh_u v]
    have fr: "stream_frame u v" using getStream_frame [of u x ns hs] v by simp
    note rest2 = getStream_rest [OF v]
    show ?thesis
    proof (cases r2)
      case (Ret st)
      with g have "stream_inv (ES(st := Suc (ES st))) v" by simp
      from drv_inv_stream [OF inv1 fr this] Ret g op u v fb \<open>r1 = Ret fb\<close> rest1 rest2 show ?thesis
        by (auto simp: getFileBufferAndStream_eq cbind_def cunwind_def cret_def)
    next
      case (Exn e)
      with g have "stream_inv ES v" by simp
      from drv_inv_stream [OF inv1 fr this] have inv2: "drv_inv ?EB ?EF ES v" .
      obtain r3 y where y: "file_buffer_pair_dtor x fb v = (r3, y)" by fastforce
      have "r3 = Ret ()" by (rule pair_dtor_returns [OF x inv2 _ _ y]) (simp_all add: fb)
      with op u v y Exn \<open>r1 = Ret fb\<close> have "t = y" "r = Exn e"
        by (auto simp: getFileBufferAndStream_eq cbind_def cunwind_def split: outcome.splits)
      with \<open>r3 = Ret ()\<close> file_buffer_pair_dtor_inv [OF inv2 _ _ y] file_buffer_pair_dtor_rest [OF y] fb rest1 rest2
      show ?thesis by simp
    next
      case Terminate
      with g show ?thesis by simp
    qed
  qed
qed

text \<open>The three uses of an operation.\<close>

lemma AsyncOp_take_inv:
  assumes inv: "drv_inv EB EF ES s" and "0 < EB b" "0 < EF f" "0 < ES st"
  shows "\<exists>t. AsyncOp_take f b st s = (Ret (), t) \<and>
    drv_inv (EB(b := Suc (EB b))) (EF(f := Suc (EF f))) (ES(st := Suc (ES st))) t \<and>
    drv_rest t = drv_rest s \<and> (\<forall>q. sp_obj q (stream_heap t) = sp_obj q (stream_heap s))"
proof -
  let ?u = "s\<lparr>buf_heap := sp_copy b (buf_heap s), file_heap := sp_copy f (file_heap s)\<rparr>"
  let ?t = "?u\<lparr>stream_heap := sp_copy st (stream_heap ?u)\<rparr>"
  have i1: "drv_inv (EB(b := Suc (EB b))) (EF(f := Suc (EF f))) ES ?u"
    by (rule drv_inv_copy_held [OF assms(1-3)])
  have "stream_inv (ES(st := Suc (ES st))) ?t"
    using tbl_copy_held [OF drv_inv_parts(3) [OF i1, unfolded stream_inv_def] assms(4)]
    by (simp add: stream_inv_def)
  then have "drv_inv (EB(b := Suc (EB b))) (EF(f := Suc (EF f))) (ES(st := Suc (ES st))) ?t"
    by (rule drv_inv_stream [OF i1 stream_frame_upds(2)])
  then show ?thesis by (simp add: AsyncOp_take_def cmodify_def drv_rest_def sp_simps)
qed

lemma three_drops_inv:
  assumes inv: "drv_inv EB EF ES s" and "0 < EB b" "0 < EF f" "0 < ES st"
    and op: "cbind (Stream_drop st) (\<lambda>_. cbind (Buffer_drop b) (\<lambda>_. File_drop x f)) s = (r, t)"
  shows "drv_inv (EB(b := EB b - 1)) (EF(f := EF f - 1)) (ES(st := ES st - 1)) t \<and>
    (r = Ret () \<or> r = Terminate) \<and> drv_rest t = drv_rest s"
proof -
  obtain u where u: "Stream_drop st s = (Ret (), u)" "drv_inv EB EF (ES(st := ES st - 1)) u"
    "drv_rest u = drv_rest s"
    using Stream_drop_drv_inv [OF inv assms(4)] by blast
  from op u(1) have "file_buffer_pair_dtor x (f, b) u = (r, t)"
    by (simp add: file_buffer_pair_dtor_def cbind_def)
  with file_buffer_pair_dtor_inv [OF u(2), of "(f, b)" x r t] assms(2,3) u(3)
    file_buffer_pair_dtor_rest show ?thesis by fastforce
qed

section \<open>Queues\<close>

text \<open>
  What may stand in a queue: every task works on an operation that is pending, a task that reads the
  parameters comes after they were bound, and nothing for an operation comes after its cleanup.
  \<open>B\<close> are the operations with bound parameters, \<open>L\<close> the pending operations.
\<close>

fun tasks_ok :: "ptr set \<Rightarrow> ptr set \<Rightarrow> async_task list \<Rightarrow> bool" where
  "tasks_ok B L [] \<longleftrightarrow> True"
| "tasks_ok B L (HostFunc fn_async_io_bind_params p # ts) \<longleftrightarrow> p \<in> L \<and> tasks_ok (insert p B) L ts"
| "tasks_ok B L (HostFunc fn_async_io_cpu_copy p # ts) \<longleftrightarrow> p \<in> L \<and> p \<in> B \<and> tasks_ok B L ts"
| "tasks_ok B L (MemcpyKernel n p # ts) \<longleftrightarrow> p \<in> L \<and> p \<in> B \<and> tasks_ok B L ts"
| "tasks_ok B L (HostFunc fn_async_io_cleanup p # ts) \<longleftrightarrow> p \<in> L \<and> tasks_ok B (L - {p}) ts"

lemma tasks_ok_mono:
  "tasks_ok B L ts \<Longrightarrow> L \<subseteq> L' \<Longrightarrow> B \<inter> L \<subseteq> B' \<Longrightarrow> tasks_ok B' L' ts"
proof (induction B L ts arbitrary: B' L' rule: tasks_ok.induct)
  case (2 B L p ts)
  have "tasks_ok (insert p B') L' ts"
    by (rule "2.IH") (use "2.prems" in \<open>simp_all, blast+\<close>)
  with "2.prems" show ?case by (simp, blast)
next
  case (3 B L p ts)
  have "tasks_ok B' L' ts" by (rule "3.IH") (use "3.prems" in simp_all)
  with "3.prems" show ?case by (simp, blast)
next
  case (4 B L n p ts)
  have "tasks_ok B' L' ts" by (rule "4.IH") (use "4.prems" in simp_all)
  with "4.prems" show ?case by (simp, blast)
next
  case (5 B L p ts)
  have "tasks_ok B' (L' - {p}) ts"
    by (rule "5.IH") (use "5.prems" in \<open>simp_all, blast+\<close>)
  with "5.prems" show ?case by (simp, blast)
qed simp

lemma tasks_ok_remove:
  "tasks_ok B L ts \<Longrightarrow> p \<notin> task_op ` set ts \<Longrightarrow> tasks_ok B (L - {p}) ts"
proof (induction B L ts rule: tasks_ok.induct)
  case (5 B L q ts)
  moreover have "L - {p} - {q} = L - {q} - {p}" by auto
  ultimately show ?case by auto
qed auto

lemma tasks_ok_append:
  "tasks_ok B L us \<Longrightarrow> p \<notin> task_op ` set us \<Longrightarrow> tasks_ok C {p} ts \<Longrightarrow>
     tasks_ok (B \<union> C) (insert p L) (us @ ts)"
proof (induction B L us rule: tasks_ok.induct)
  case (1 B L)
  then show ?case by (auto elim: tasks_ok_mono)
next
  case (5 B L q us)
  then have "insert p L - {q} = insert p (L - {q})" by auto
  with 5 show ?case by simp
qed auto

lemma tasks_ok_ops: "tasks_ok B L ts \<Longrightarrow> task_op ` set ts \<subseteq> L"
  by (induction B L ts rule: tasks_ok.induct) auto

section \<open>Uses held by operations\<close>

definition held :: "(AsyncOpFallback \<Rightarrow> ptr option) \<Rightarrow> AsyncOpFallback store \<Rightarrow> ptr list \<Rightarrow> owners" where
  "held get h ps q = length (filter (\<lambda>p. Option.bind (sp_obj p h) get = Some q) ps)"

lemma held_Nil [simp]: "held get h [] = (\<lambda>_. 0)"
  by (simp add: held_def fun_eq_iff)

lemma held_snoc:
  "held get h (ps @ [p]) q =
     held get h ps q + (if Option.bind (sp_obj p h) get = Some q then 1 else 0)"
  by (simp add: held_def)

lemma held_cong:
  "(\<And>p. p \<in> set ps \<Longrightarrow> Option.bind (sp_obj p h) get = Option.bind (sp_obj p h') get) \<Longrightarrow>
     held get h ps = held get h' ps"
  unfolding held_def by (rule ext) (metis (mono_tags, lifting) filter_cong)

lemma held_remove1:
  "p \<in> set ps \<Longrightarrow> held get h ps q =
     held get h (remove1 p ps) q + (if Option.bind (sp_obj p h) get = Some q then 1 else 0)"
  by (induction ps) (auto simp: held_def)

definition own_add :: "owners \<Rightarrow> owners \<Rightarrow> owners" where
  "own_add E F = (\<lambda>p. E p + F p)"

lemma own_add_apply [simp]: "own_add E F p = E p + F p"
  by (simp add: own_add_def)

section \<open>The invariant\<close>

definition ops :: "('w, 'z) async_state_scheme \<Rightarrow> ptr list" where
  "ops s = map fst (submitted_ops s)"

definition op_owns :: "bool \<Rightarrow> AsyncOpFallback \<Rightarrow> bool" where
  "op_owns b op \<longleftrightarrow> (ao_file op \<noteq> None \<longleftrightarrow> b) \<and> (ao_buffer op \<noteq> None \<longleftrightarrow> b) \<and> (ao_stream op \<noteq> None \<longleftrightarrow> b)"

definition op_bound :: "AsyncOpFallback \<Rightarrow> bool" where
  "op_bound op \<longleftrightarrow> (\<exists>sz fo bo. ao_size op = Bound sz \<and> ao_file_offset op = Bound fo \<and> ao_buffer_offset op = Bound bo)"

text \<open>
  The monitor holds the only use of every operation, and an operation holds its file, buffer and
  stream until it is complete.
\<close>

definition monitor_inv :: "('w, 'z) async_state_scheme \<Rightarrow> bool" where
  "monitor_inv s \<longleftrightarrow>
     (\<forall>e \<in> set (submitted_ops s). fst e = snd e) \<and> distinct (ops s) \<and>
     sp_owned (count_list (ops s)) (op_heap s) \<and>
     distinct (completed_ops s) \<and> set (completed_ops s) \<subseteq> set (ops s) \<and>
     (\<forall>p op n. op_heap s p = Some (op, n) \<longrightarrow> op_owns (p \<notin> set (completed_ops s)) op)"

definition pending :: "('w, 'z) async_state_scheme \<Rightarrow> ptr set" where
  "pending s = set (ops s) - set (completed_ops s)"

definition bound_ops :: "('w, 'z) async_state_scheme \<Rightarrow> ptr set" where
  "bound_ops s = {p. \<exists>op. sp_obj p (op_heap s) = Some op \<and> op_bound op}"

definition queues_inv :: "('w, 'z) async_state_scheme \<Rightarrow> bool" where
  "queues_inv s \<longleftrightarrow>
     (\<forall>q. tasks_ok (bound_ops s) (pending s) (stream_tasks s q)) \<and>
     (\<forall>q q'. q \<noteq> q' \<longrightarrow> task_op ` set (stream_tasks s q) \<inter> task_op ` set (stream_tasks s q') = {})"

definition buf_uses where "buf_uses s = held ao_buffer (op_heap s) (ops s)"
definition file_uses where "file_uses s = held ao_file (op_heap s) (ops s)"
definition stream_uses where "stream_uses s = held ao_stream (op_heap s) (ops s)"

text \<open>\<open>EB\<close>, \<open>EF\<close> and \<open>ES\<close> count the uses that others hold.\<close>

definition async_inv ::
  "owners \<Rightarrow> owners \<Rightarrow> owners \<Rightarrow> ('w, 'z) async_state_scheme \<Rightarrow> bool" where
  "async_inv EB EF ES s \<longleftrightarrow>
     drv_inv (own_add EB (buf_uses s)) (own_add EF (file_uses s)) (own_add ES (stream_uses s)) s \<and>
     monitor_inv s \<and> queues_inv s"

lemma rest_async:
  fixes s t :: "('w, 'z) async_state_scheme"
  assumes "drv_rest t = drv_rest s"
  shows "op_heap t = op_heap s" "submitted_ops t = submitted_ops s"
    "completed_ops t = completed_ops s" "stream_tasks t = stream_tasks s" "client_vars t = client_vars s"
    "is_finished t = is_finished s" "ops t = ops s"
    "buf_uses t = buf_uses s" "file_uses t = file_uses s" "stream_uses t = stream_uses s"
    "monitor_inv t = monitor_inv s" "queues_inv t = queues_inv s"
    "pending t = pending s" "bound_ops t = bound_ops s"
proof -
  have f: "op_heap t = op_heap s" "submitted_ops t = submitted_ops s"
    "completed_ops t = completed_ops s" "stream_tasks t = stream_tasks s" "client_vars t = client_vars s"
    "is_finished t = is_finished s"
    using assms by (cases s; cases t; simp add: drv_rest_def)+
  then show "op_heap t = op_heap s" "submitted_ops t = submitted_ops s"
    "completed_ops t = completed_ops s" "stream_tasks t = stream_tasks s" "client_vars t = client_vars s"
    "is_finished t = is_finished s" "ops t = ops s" "buf_uses t = buf_uses s"
    "file_uses t = file_uses s" "stream_uses t = stream_uses s" "monitor_inv t = monitor_inv s"
    "queues_inv t = queues_inv s" "pending t = pending s" "bound_ops t = bound_ops s"
    by (simp_all add: ops_def buf_uses_def file_uses_def stream_uses_def monitor_inv_def queues_inv_def
        pending_def bound_ops_def)
qed

text \<open>A pending operation is alive and owns live objects.\<close>

lemma monitor_op:
  assumes "monitor_inv s" and "p \<in> set (ops s)"
  shows "\<exists>op. op_heap s p = Some (op, 1) \<and> op_owns (p \<notin> set (completed_ops s)) op"
proof -
  from assms have "count_list (ops s) p = 1" and own: "sp_owned (count_list (ops s)) (op_heap s)"
    by (simp_all add: monitor_inv_def distinct_count_list)
  then obtain op where "op_heap s p = Some (op, 1)"
    by (cases rule: sp_owned_cases [OF own, of p]) auto
  with assms(1) show ?thesis by (auto simp: monitor_inv_def)
qed

lemma pending_op:
  assumes "monitor_inv s" and "p \<in> pending s"
  obtains op f b st where "op_heap s p = Some (op, 1)" "ao_file op = Some f" "ao_buffer op = Some b"
    "ao_stream op = Some st"
  using monitor_op [OF assms(1), of p] assms(2) by (auto simp: pending_def op_owns_def)

lemma held_pos:
  "p \<in> set ps \<Longrightarrow> Option.bind (sp_obj p h) get = Some q \<Longrightarrow> 0 < held get h ps q"
  by (auto simp: held_def filter_empty_conv)

lemma drv_live:
  assumes "drv_inv EB EF ES s"
  shows "0 < EB b \<Longrightarrow> \<exists>o1. sp_obj b (buf_heap s) = Some o1"
    and "0 < EF f \<Longrightarrow> \<exists>o2. sp_obj f (file_heap s) = Some o2"
    and "0 < ES st \<Longrightarrow> \<exists>o3. sp_obj st (stream_heap s) = Some o3"
proof -
  show "0 < EB b \<Longrightarrow> \<exists>o1. sp_obj b (buf_heap s) = Some o1"
    using assms sp_owned_live [of "own_sum (val_count (from_ptr s)) EB" "buf_heap s" b]
    by (auto simp: drv_inv_def buf_inv_def tbl_inv_def own_sum_def)
  show "0 < EF f \<Longrightarrow> \<exists>o2. sp_obj f (file_heap s) = Some o2"
    using sp_owned_live [OF file_inv_owned_vals [OF drv_inv_parts(2) [OF assms]], of f]
    by (auto simp: own_sum_def)
  show "0 < ES st \<Longrightarrow> \<exists>o3. sp_obj st (stream_heap s) = Some o3"
    using assms sp_owned_live [of "own_sum (val_count (from_stream s)) ES" "stream_heap s" st]
    by (auto simp: drv_inv_def stream_inv_def tbl_inv_def own_sum_def)
qed

end
