(* ===== verification/Async_Tasks.thy ===== *)
theory Async_Tasks
  imports Async_Invariant
begin

text \<open>
  What one task of a queue does to a state in which the invariant holds: the parameters are bound, the
  host copies, the device copies, the operation completes. The completion thread then removes it.
\<close>

section \<open>Running tasks\<close>

definition run_task ::
  "'w ext \<Rightarrow> (nat \<Rightarrow> nat \<Rightarrow> copy_step list) \<Rightarrow> async_task \<Rightarrow> (('w, 'z) async_state_scheme, unit) ocxx" where
  "run_task x schedule task =
     (case task of
        HostFunc fn p \<Rightarrow>
          (case fn of
             fn_async_io_bind_params \<Rightarrow> olift (async_io_bind_params x p)
           | fn_async_io_cpu_copy \<Rightarrow> async_io_cpu_copy x p
           | fn_async_io_cleanup \<Rightarrow> olift (async_io_cleanup x p))
      | MemcpyKernel n p \<Rightarrow> olift (hipFileMemcpyKernel x schedule n p))"

definition base_inv ::
  "owners \<Rightarrow> owners \<Rightarrow> owners \<Rightarrow> ('w, 'z) async_state_scheme \<Rightarrow> bool" where
  "base_inv EB EF ES s \<longleftrightarrow>
     drv_inv (own_add EB (buf_uses s)) (own_add EF (file_uses s)) (own_add ES (stream_uses s)) s \<and>
     monitor_inv s"

lemma async_inv_base: "async_inv EB EF ES s \<longleftrightarrow> base_inv EB EF ES s \<and> queues_inv s"
  by (simp add: async_inv_def base_inv_def)

text \<open>Changes that the invariant does not see.\<close>

lemma drv_inv_async_upds [simp]:
  "drv_inv EB EF ES (s\<lparr>op_heap := h\<rparr>) = drv_inv EB EF ES s"
  "drv_inv EB EF ES (s\<lparr>submitted_ops := m\<rparr>) = drv_inv EB EF ES s"
  "drv_inv EB EF ES (s\<lparr>completed_ops := c\<rparr>) = drv_inv EB EF ES s"
  "drv_inv EB EF ES (s\<lparr>stream_tasks := q\<rparr>) = drv_inv EB EF ES s"
  "drv_inv EB EF ES (s\<lparr>client_vars := v\<rparr>) = drv_inv EB EF ES s"
  "drv_inv EB EF ES (s\<lparr>is_finished := b\<rparr>) = drv_inv EB EF ES s"
  by (simp_all add: drv_inv_def buf_inv_def file_inv_def file_entries_ok_def table_uses_def stream_inv_def)

lemmas async_state_defs = ops_def buf_uses_def file_uses_def stream_uses_def monitor_inv_def pending_def
  bound_ops_def

lemma base_inv_upds [simp]:
  "base_inv EB EF ES (s\<lparr>world := w\<rparr>) = base_inv EB EF ES s"
  "base_inv EB EF ES (s\<lparr>stream_tasks := q\<rparr>) = base_inv EB EF ES s"
  "base_inv EB EF ES (s\<lparr>client_vars := v\<rparr>) = base_inv EB EF ES s"
  by (simp_all add: base_inv_def async_state_defs drv_inv_world)

lemma sets_upds [simp]:
  "pending (s\<lparr>world := w\<rparr>) = pending s" "bound_ops (s\<lparr>world := w\<rparr>) = bound_ops s"
  "pending (s\<lparr>stream_tasks := q\<rparr>) = pending s" "bound_ops (s\<lparr>stream_tasks := q\<rparr>) = bound_ops s"
  "pending (s\<lparr>client_vars := v\<rparr>) = pending s" "bound_ops (s\<lparr>client_vars := v\<rparr>) = bound_ops s"
  "pending (s\<lparr>op_heap := h\<rparr>) = pending s"
  by (simp_all add: pending_def bound_ops_def ops_def)

text \<open>A task that changes members of its operation other than the shared pointers.\<close>

definition op_step :: "ptr \<Rightarrow> ('w, 'z) async_state_scheme \<Rightarrow> ('w, 'z) async_state_scheme \<Rightarrow> bool" where
  "op_step p s t \<longleftrightarrow>
     (\<exists>w op op'. op_heap s p = Some (op, 1) \<and>
        ao_file op' = ao_file op \<and> ao_buffer op' = ao_buffer op \<and> ao_stream op' = ao_stream op \<and>
        (op_bound op \<longrightarrow> op_bound op') \<and>
        t = s\<lparr>world := w, op_heap := (op_heap s)(p \<mapsto> (op', 1))\<rparr>)"

lemma op_update_step:
  assumes "op_heap s p = Some (op, 1)" and "ao_file (f op) = ao_file op"
    and "ao_buffer (f op) = ao_buffer op" and "ao_stream (f op) = ao_stream op"
    and "op_bound op \<Longrightarrow> op_bound (f op)"
  shows "\<exists>t. op_update p f s = (Ret (), t) \<and> op_step p s t \<and> sp_obj p (op_heap t) = Some (f op)"
proof -
  let ?t = "s\<lparr>world := world s, op_heap := (op_heap s)(p \<mapsto> (f op, 1))\<rparr>"
  have "op_step p s ?t" unfolding op_step_def using assms by blast
  moreover have "op_update p f s = (Ret (), ?t)" using assms(1) by (simp add: op_update_def)
  ultimately show ?thesis by (auto simp: sp_obj_def)
qed

lemma op_step_keeps:
  assumes "op_step p s t"
  shows "base_inv EB EF ES s \<Longrightarrow> base_inv EB EF ES t"
    and "pending t = pending s" and "bound_ops s \<subseteq> bound_ops t" and "stream_tasks t = stream_tasks s"
    and "client_vars t = client_vars s"
proof -
  from assms obtain w op op' where o: "op_heap s p = Some (op, 1)"
    "ao_file op' = ao_file op" "ao_buffer op' = ao_buffer op" "ao_stream op' = ao_stream op"
    "op_bound op \<longrightarrow> op_bound op'" "t = s\<lparr>world := w, op_heap := (op_heap s)(p \<mapsto> (op', 1))\<rparr>"
    unfolding op_step_def by blast
  let ?h = "(op_heap s)(p \<mapsto> (op', 1))"
  have get: "Option.bind (sp_obj q ?h) get = Option.bind (sp_obj q (op_heap s)) get"
    if "get op' = get op" for q get
    using o(1) that by (simp add: sp_obj_def)
  show "base_inv EB EF ES t" if inv: "base_inv EB EF ES s"
  proof -
    have "sp_owned (count_list (ops s)) ?h"
      using sp_owned_upd [where own = "count_list (ops s)" and h = "op_heap s" and p = p and n = 1
          and v = "Some (op', 1)"] inv o(1)
        sp_owned_use_count [of "count_list (ops s)" "op_heap s" p]
      by (simp add: base_inv_def monitor_inv_def sp_use_count_def fun_upd_idem)
    moreover have "op_owns b op' = op_owns b op" for b using o by (simp add: op_owns_def)
    ultimately have "monitor_inv t"
      using inv o(1) by (auto simp: o(6) base_inv_def monitor_inv_def ops_def)
    moreover have "buf_uses t = buf_uses s" "file_uses t = file_uses s" "stream_uses t = stream_uses s"
      using get o(2-4) by (auto simp: o(6) buf_uses_def file_uses_def stream_uses_def ops_def intro!: held_cong)
    ultimately show ?thesis using inv by (simp add: base_inv_def o(6) drv_inv_world)
  qed
  show "pending t = pending s" "stream_tasks t = stream_tasks s" "client_vars t = client_vars s"
    by (simp_all add: o(6) pending_def ops_def)
  show "bound_ops s \<subseteq> bound_ops t" using o(1,5) by (auto simp: o(6) bound_ops_def sp_obj_def)
qed

lemma bind_params_step:
  assumes "base_inv EB EF ES s" and "p \<in> pending s" and "c_sysconf_pagesize x \<noteq> -1"
  shows "\<exists>t. async_io_bind_params x p s = (Ret (), t) \<and> op_step p s t \<and> p \<in> bound_ops t"
proof -
  from assms obtain op f b st where op: "op_heap s p = Some (op, 1)" "ao_file op = Some f"
    "ao_buffer op = Some b" "ao_stream op = Some st"
    unfolding base_inv_def by (elim conjE pending_op)
  have "0 < own_add EB (buf_uses s) b"
    using held_pos [of p "ops s" "op_heap s" ao_buffer b] op assms(2)
    by (simp add: buf_uses_def sp_obj_def pending_def)
  with assms(1) obtain bo where bo: "sp_obj b (buf_heap s) = Some bo"
    unfolding base_inv_def by (meson drv_live(1))
  have obj: "sp_obj p (op_heap s) = Some op" using op(1) by (simp add: sp_obj_def)
  have "\<exists>f. async_io_bind_params x p s = op_update p f s \<and> ao_file (f op) = ao_file op \<and>
      ao_buffer (f op) = ao_buffer op \<and> ao_stream (f op) = ao_stream op \<and> op_bound (f op)"
  proof (rule exI, intro conjI)
    let ?lim = "max_rw_count x"
    let ?bo = "bind_value (client_vars s) (ao_buffer_offset op)"
    let ?fo = "bind_value (client_vars s) (ao_file_offset op)"
    let ?sz = "min (bind_value (client_vars s) (ao_size op)) ?lim"
    let ?bad = "?sz > ao_submitted_size op \<or> \<not> paramsValid bo ?sz ?fo ?bo"
    let ?f = "\<lambda>op. op\<lparr>ao_buffer_offset := Bound ?bo, ao_file_offset := Bound ?fo, ao_size := Bound ?sz,
      ao_bytes_transferred_internal := (if ?bad then - op_error_code hipFileInvalidValue
         else ao_bytes_transferred_internal op)\<rparr>"
    show "async_io_bind_params x p s = op_update p ?f s"
      using obj op bo assms(3)
      by (simp add: async_io_bind_params_def getMaxRwCount_eq cxx_defs Let_def op_update_def)
  qed (simp_all add: op_bound_def)
  then obtain f where f: "async_io_bind_params x p s = op_update p f s" "ao_file (f op) = ao_file op"
    "ao_buffer (f op) = ao_buffer op" "ao_stream (f op) = ao_stream op" "op_bound (f op)" by blast
  with op_update_step [OF op(1), of f] show ?thesis by (auto simp: bound_ops_def)
qed

section \<open>The copy on the host\<close>

lemma pread_throws: "Sys_pread x fd p n o' s = (Exn e, t) \<Longrightarrow> \<exists>c. e = Std_system_error c"
  by (auto simp: Sys_pread_def cbind_def call_ext_def throwOn_def split: prod.splits if_splits)

lemma pwrite_throws: "Sys_pwrite x fd p n o' s = (Exn e, t) \<Longrightarrow> \<exists>c. e = Std_system_error c"
  by (auto simp: Sys_pwrite_def cbind_def call_ext_def throwOn_def split: prod.splits if_splits)

definition cpu_transfer ::
  "'w ext \<Rightarrow> IoType \<Rightarrow> File \<Rightarrow> ptr \<Rightarrow> size_t \<Rightarrow> hoff_t \<Rightarrow> (('w, 'z) sys_state_scheme, int) cxx" where
  "cpu_transfer x type f p n fo =
     (case type of IoRead \<Rightarrow> Sys_pread x (File_bufferedFd f) p n fo
                 | IoWrite \<Rightarrow> Sys_pwrite x (File_bufferedFd f) p n fo)"

lemma cpu_copy_round_transfer:
  "cpu_copy_round x type f bounce sz fo n s =
     (if \<not> n < sz then (Ret (Inr (sint n)), s)
      else case cpu_transfer x type f (bounce + n) (sz - n) (fo + n) s of
             (Ret r, t) \<Rightarrow>
               if r = 0 then (Ret (Inr (sint n)), t) else (Ret (Inl (n + word_of_int r)), t)
           | (Exn (Std_system_error c), t) \<Rightarrow>
               if c = EINTR then (Ret (Inl n), t) else (Ret (Inr (-1)), t)
           | (Exn e, t) \<Rightarrow> (Terminate, t)
           | (Terminate, t) \<Rightarrow> (Terminate, t))"
  by (cases type) (simp_all add: cpu_copy_round_def cpu_transfer_def)

lemma world_only_cpu_transfer: "world_only (cpu_transfer x type f p n fo)"
  by (cases type) (simp_all add: cpu_transfer_def world_only_sys_calls)

lemma cpu_transfer_throws: "cpu_transfer x type f p n fo s = (Exn e, t) \<Longrightarrow> \<exists>c. e = Std_system_error c"
  by (cases type) (auto simp: cpu_transfer_def dest: pread_throws pwrite_throws)

lemma world_only_cpu_copy_round: "world_only (cpu_copy_round x type f bounce sz fo n)"
  unfolding world_only_def
proof
  fix s :: "('a, 'b) sys_state_scheme"
  show "fst (cpu_copy_round x type f bounce sz fo n s) \<noteq> Terminate \<and>
      (\<exists>w. snd (cpu_copy_round x type f bounce sz fo n s) = s\<lparr>world := w\<rparr>)"
    using world_only_cpu_transfer [of x type f "bounce + n" "sz - n" "fo + n"]
  proof (cases rule: world_onlyE [where s = s])
    case (ret a w)
    then show ?thesis using world_unchanged [of s] by (auto simp: cpu_copy_round_transfer)
  next
    case (exn e w)
    moreover obtain c where "e = Std_system_error c" using cpu_transfer_throws [OF exn] by blast
    ultimately show ?thesis using world_unchanged [of s] by (auto simp: cpu_copy_round_transfer)
  qed
qed

lemma cpu_copy_round_not_throws: "cpu_copy_round x type f bounce sz fo n s \<noteq> (Exn e, t)"
  by (auto simp: cpu_copy_round_transfer split: prod.splits outcome.splits exn.splits)

lemma cpu_copy_loop:
  assumes "oloop (cpu_copy_round x type f bounce sz fo) n s = Some (r, t)"
  shows "\<exists>k w. r = Ret k \<and> t = s\<lparr>world := w\<rparr>"
proof -
  have "\<exists>k. r = Ret k"
    by (rule oloop_inv [OF assms, where I = "\<lambda>_ _. True" and Q = "\<lambda>r t. \<exists>k. r = Ret k"])
      (auto simp: cpu_copy_round_not_throws
        dest: world_only_apply(2) [OF world_only_cpu_copy_round])
  with oloop_world(1) [OF world_only_cpu_copy_round assms] show ?thesis by blast
qed

lemma cpu_transfer_progress:
  assumes "transfer_counts x" and "interrupts_bounded x budget"
    and "cpu_transfer x type f p n fo s = (q, t)"
  shows "budget (world t) \<le> budget (world s)"
    and "q = Exn (Std_system_error EINTR) \<Longrightarrow> budget (world t) < budget (world s)"
    and "q = Ret r \<Longrightarrow> 0 \<le> r \<and> nat r \<le> unat n"
proof -
  obtain r' w where c: "(case type of IoRead \<Rightarrow> c_pread x | IoWrite \<Rightarrow> c_pwrite x) (File_bufferedFd f) p n fo (world s) = (r', w)"
    by fastforce
  have bud: "budget w \<le> budget (world s) \<and> (r' = -1 \<and> c_errno x w = EINTR \<longrightarrow> budget w < budget (world s))"
    using c assms(2) by (cases type) (auto dest: budget_pread budget_pwrite)
  have cnt: "r' = -1 \<or> 0 \<le> r' \<and> nat r' \<le> unat n"
  proof (cases type)
    case IoRead
    with c assms(1) show ?thesis unfolding transfer_counts_def by (metis IoType.simps(3))
  next
    case IoWrite
    with c assms(1) show ?thesis unfolding transfer_counts_def by (metis IoType.simps(4))
  qed
  have t: "t = s\<lparr>world := w\<rparr>"
    "q = (if r' = -1 then Exn (Std_system_error (c_errno x w)) else Ret r')"
    using assms(3) c
    by (cases type; simp add: cpu_transfer_def Sys_pread_def Sys_pwrite_def cbind_def call_ext_def throwOn_def
        split: if_splits)+
  show "budget (world t) \<le> budget (world s)" using t bud by simp
  show "budget (world t) < budget (world s)" if "q = Exn (Std_system_error EINTR)"
    using t bud that by (auto split: if_splits)
  show "0 \<le> r \<and> nat r \<le> unat n" if "q = Ret r" using t cnt that by (auto split: if_splits)
qed

text \<open>The loop ends: every round transfers bytes, or one interruption less is left.\<close>

lemma cpu_copy_returns:
  assumes "transfer_counts x" and "interrupts_bounded x budget"
  shows "\<exists>r t. oloop (cpu_copy_round x type f bounce sz fo) n s = Some (r, t)"
proof (rule oloop_returns [where I = "\<lambda>_ _. True" and
      R = "measures [\<lambda>(n, s). unat (sz - n), \<lambda>(n, s). budget (world s)]"])
  fix n s n' t
  assume step: "cpu_copy_round x type f bounce sz fo n s = (Ret (Inl n'), t)"
  then have lt: "n < sz" by (auto simp: cpu_copy_round_def split: if_splits)
  obtain q u where q: "cpu_transfer x type f (bounce + n) (sz - n) (fo + n) s = (q, u)" by fastforce
  note pr = cpu_transfer_progress [OF assms q]
  show "True \<and> ((n', t), n, s) \<in> measures [\<lambda>(n, s). unat (sz - n), \<lambda>(n, s). budget (world s)]"
  proof (cases q)
    case (Exn e)
    then obtain c where "e = Std_system_error c" using cpu_transfer_throws q by blast
    with step q Exn lt pr(2) show ?thesis by (auto simp: cpu_copy_round_transfer split: if_splits)
  next
    case (Ret r)
    with step q lt have n': "n' = n + word_of_int r" "r \<noteq> 0" "u = t"
      by (auto simp: cpu_copy_round_transfer split: if_splits)
    from pr(3) [OF Ret] have r: "0 < r" "nat r \<le> unat (sz - n)" using n'(2) by auto
    have "unat (word_of_int r :: 64 word) = nat r"
      using unat_of_int_le [of r "sz - n"] r by simp
    moreover from this r have "unat (sz - n - word_of_int r) = unat (sz - n) - nat r"
      by (simp add: unat_sub word_le_nat_alt)
    ultimately have "unat (sz - n') < unat (sz - n)" using r n' by (simp add: algebra_simps)
    then show ?thesis by simp
  next
    case Terminate
    with world_only_apply(2) [OF world_only_cpu_transfer q] show ?thesis by simp
  qed
qed simp_all

lemma op_step_world: "op_step p (s\<lparr>world := w\<rparr>) t \<Longrightarrow> op_step p s t"
  unfolding op_step_def by fastforce

lemma op_step_refl: "op_heap s p = Some (op, 1) \<Longrightarrow> op_step p s s"
  unfolding op_step_def by (intro exI [of _ "world s"] exI [of _ op]) (simp add: fun_upd_idem)

lemma op_step_only_world: "op_heap s p = Some (op, 1) \<Longrightarrow> op_step p s (s\<lparr>world := w\<rparr>)"
  unfolding op_step_def by (intro exI [of _ w] exI [of _ op]) (simp add: fun_upd_idem)

text \<open>The objects that a pending operation works on.\<close>

lemma pending_objects:
  assumes "base_inv EB EF ES s" and "p \<in> pending s"
  obtains op f b st fo bo so where "op_heap s p = Some (op, 1)" "sp_obj p (op_heap s) = Some op"
    "ao_file op = Some f" "ao_buffer op = Some b" "ao_stream op = Some st"
    "sp_obj f (file_heap s) = Some fo" "sp_obj b (buf_heap s) = Some bo" "sp_obj st (stream_heap s) = Some so"
proof -
  from assms obtain op f b st where op: "op_heap s p = Some (op, 1)" "ao_file op = Some f"
    "ao_buffer op = Some b" "ao_stream op = Some st"
    unfolding base_inv_def by (elim conjE pending_op)
  then have obj: "sp_obj p (op_heap s) = Some op" by (simp add: sp_obj_def)
  have mem: "p \<in> set (ops s)" using assms(2) by (simp add: pending_def)
  have "0 < file_uses s f" "0 < buf_uses s b" "0 < stream_uses s st"
    using held_pos [OF mem] obj op by (simp_all add: file_uses_def buf_uses_def stream_uses_def)
  then have pos: "0 < own_add EF (file_uses s) f" "0 < own_add EB (buf_uses s) b"
    "0 < own_add ES (stream_uses s) st" by simp_all
  have "drv_inv (own_add EB (buf_uses s)) (own_add EF (file_uses s)) (own_add ES (stream_uses s)) s"
    using assms(1) by (simp add: base_inv_def)
  note live = drv_live [OF this]
  from live(2) [OF pos(1)] live(1) [OF pos(2)] live(3) [OF pos(3)] op obj show thesis
    using that by blast
qed

lemma cpu_copy_step:
  assumes "base_inv EB EF ES s" and "p \<in> pending s" "p \<in> bound_ops s"
    and "async_io_cpu_copy x p s = Some (r, t)"
  shows "r = Ret () \<and> op_step p s t"
proof -
  from assms(1,2) obtain op f b st fo bo so where op: "op_heap s p = Some (op, 1)"
    "sp_obj p (op_heap s) = Some op" "ao_file op = Some f" "ao_buffer op = Some b"
    "ao_stream op = Some st" "sp_obj f (file_heap s) = Some fo" "sp_obj b (buf_heap s) = Some bo"
    "sp_obj st (stream_heap s) = Some so"
    by (rule pending_objects)
  from assms(3) op(2) obtain sz off where b: "ao_size op = Bound sz" "ao_file_offset op = Bound off"
    by (auto simp: bound_ops_def op_bound_def)
  show ?thesis
  proof (cases "ao_bytes_transferred_internal op < 0")
    case True
    with assms(4) op b have "r = Ret () \<and> t = s" by (simp add: async_io_cpu_copy_def)
    with op_step_refl [OF op(1)] show ?thesis by simp
  next
    case False
    let ?loop = "oloop (cpu_copy_round x (ao_io_type op) fo (bounceBufferHostPtr op) sz off) 0 s"
    from False assms(4) op b have run: "obind (oloop (cpu_copy_round x (ao_io_type op) fo (bounceBufferHostPtr op) sz off) 0)
        (\<lambda>r. olift (op_update p (\<lambda>op. op\<lparr>ao_bytes_transferred_internal := r\<rparr>))) s = Some (r, t)"
      by (simp add: async_io_cpu_copy_def)
    then obtain q u where q: "?loop = Some (q, u)" by (auto simp: obind_def split: option.splits)
    from cpu_copy_loop [OF q] obtain k w where k: "q = Ret k" "u = s\<lparr>world := w\<rparr>" by blast
    have "op_heap u p = Some (op, 1)" using op(1) k by simp
    from op_update_step [OF this, of "\<lambda>op. op\<lparr>ao_bytes_transferred_internal := k\<rparr>"]
    obtain v where "op_update p (\<lambda>op. op\<lparr>ao_bytes_transferred_internal := k\<rparr>) u = (Ret (), v)" "op_step p u v"
      by (auto simp: op_bound_def)
    with run q k op_step_world show ?thesis by (auto simp: obind_def olift_def)
  qed
qed

lemma kernel_step:
  assumes "base_inv EB EF ES s" and "p \<in> pending s"
  shows "\<exists>t. hipFileMemcpyKernel x schedule n p s = (Ret (), t) \<and> op_step p s t"
proof -
  from assms obtain op f b st fo bo so where op: "op_heap s p = Some (op, 1)"
    "sp_obj p (op_heap s) = Some op" "ao_file op = Some f" "ao_buffer op = Some b"
    "ao_stream op = Some st" "sp_obj f (file_heap s) = Some fo" "sp_obj b (buf_heap s) = Some bo"
    "sp_obj st (stream_heap s) = Some so"
    by (rule pending_objects)
  let ?fail = "op_update p (\<lambda>op. op\<lparr>ao_bytes_transferred_internal := - op_error_code hipFileInvalidValue\<rparr>) s"
  obtain v where v: "?fail = (Ret (), v)" "op_step p s v"
    using op_update_step [OF op(1), of "\<lambda>op. op\<lparr>ao_bytes_transferred_internal := - op_error_code hipFileInvalidValue\<rparr>"]
    by (auto simp: op_bound_def)
  have "hipFileMemcpyKernel x schedule n p s \<in> {(Ret (), s), ?fail} \<or>
      (\<exists>w. hipFileMemcpyKernel x schedule n p s = (Ret (), s\<lparr>world := w\<rparr>))"
    using op(2) by (auto simp: hipFileMemcpyKernel_def Let_def split: bindable.splits IoType.splits)
  then show ?thesis
    using v op_step_refl [OF op(1)] op_step_only_world [OF op(1)] by auto
qed

section \<open>Completion\<close>

lemma held_clear:
  assumes "distinct ps" and "p \<in> set ps" and "h p = Some (op, n)" and "get op = Some q" and "get op' = None"
  shows "held get (h(p \<mapsto> (op', n))) ps = (held get h ps)(q := held get h ps q - 1)"
proof (rule ext)
  fix a
  have "held get (h(p \<mapsto> (op', n))) (remove1 p ps) = held get h (remove1 p ps)"
    by (rule held_cong) (use assms(1) in \<open>simp add: sp_obj_def\<close>)
  then show "held get (h(p \<mapsto> (op', n))) ps a = ((held get h ps)(q := held get h ps q - 1)) a"
    using held_remove1 [OF assms(2), of get h a] held_remove1 [OF assms(2), of get "h(p \<mapsto> (op', n))" a]
      held_remove1 [OF assms(2), of get h q] assms(3-5)
    by (auto simp: sp_obj_def)
qed

lemma own_add_drop: "0 < F q \<Longrightarrow> (own_add E F)(q := own_add E F q - 1) = own_add E (F(q := F q - 1))"
  by (auto simp: own_add_def fun_eq_iff)

lemma completeOp_step:
  assumes inv: "base_inv EB EF ES s" and p: "p \<in> pending s" and x: "closes x"
  shows "\<exists>t op. AsyncMonitor_completeOp x p s = (Ret (), t) \<and> base_inv EB EF ES t \<and>
    op_heap s p = Some (op, 1) \<and>
    op_heap t = (op_heap s)(p \<mapsto> (op\<lparr>ao_file := None, ao_buffer := None, ao_stream := None\<rparr>, 1)) \<and>
    submitted_ops t = submitted_ops s \<and> completed_ops t = completed_ops s @ [p] \<and>
    stream_tasks t = stream_tasks s \<and> client_vars t = client_vars s"
proof -
  from inv p obtain op f b st fo bo so where op: "op_heap s p = Some (op, 1)"
    "sp_obj p (op_heap s) = Some op" "ao_file op = Some f" "ao_buffer op = Some b"
    "ao_stream op = Some st" "sp_obj f (file_heap s) = Some fo" "sp_obj b (buf_heap s) = Some bo"
    "sp_obj st (stream_heap s) = Some so"
    by (rule pending_objects)
  have mem: "p \<in> set (ops s)" "p \<notin> set (completed_ops s)" using p by (simp_all add: pending_def)
  have mon: "monitor_inv s" and drv: "drv_inv (own_add EB (buf_uses s)) (own_add EF (file_uses s)) (own_add ES (stream_uses s)) s"
    using inv by (simp_all add: base_inv_def)
  have dist: "distinct (ops s)" using mon by (simp add: monitor_inv_def)
  have pos: "0 < file_uses s f" "0 < buf_uses s b" "0 < stream_uses s st"
    using held_pos [OF mem(1)] op by (simp_all add: file_uses_def buf_uses_def stream_uses_def)
  define op1 where "op1 = op\<lparr>ao_file := None\<rparr>"
  define op2 where "op2 = op1\<lparr>ao_buffer := None\<rparr>"
  define op3 where "op3 = op2\<lparr>ao_stream := None\<rparr>"
  define s1 where "s1 = s\<lparr>op_heap := (op_heap s)(p \<mapsto> (op1, 1))\<rparr>"
  obtain r2 s2 where s2: "File_drop x f s1 = (r2, s2)" by fastforce
  have drv1: "drv_inv (own_add EB (buf_uses s)) (own_add EF (file_uses s)) (own_add ES (stream_uses s)) s1"
    using drv by (simp add: s1_def)
  have f2: "r2 = Ret ()" "drv_inv (own_add EB (buf_uses s)) ((own_add EF (file_uses s))(f := own_add EF (file_uses s) f - 1))
      (own_add ES (stream_uses s)) s2"
    using File_drop_drv_inv [OF drv1 _ s2] pos(1) never_endsD [OF never_ends_File_drop [OF x], of f s1 s2] s2
    by auto
  note rest2 = rest_async [OF File_drop_rest [OF s2]]
  define s3 where "s3 = s2\<lparr>op_heap := (op_heap s)(p \<mapsto> (op2, 1))\<rparr>"
  obtain r4 s4 where s4: "Buffer_drop b s3 = (r4, s4)" by fastforce
  have "drv_inv (own_add EB (buf_uses s)) ((own_add EF (file_uses s))(f := own_add EF (file_uses s) f - 1))
      (own_add ES (stream_uses s)) s3"
    using f2(2) by (simp add: s3_def)
  from Buffer_drop_inv [OF this _ s4] pos(2)
  have f4: "r4 = Ret ()" "drv_inv ((own_add EB (buf_uses s))(b := own_add EB (buf_uses s) b - 1))
      ((own_add EF (file_uses s))(f := own_add EF (file_uses s) f - 1)) (own_add ES (stream_uses s)) s4"
    by auto
  note rest4 = rest_async [OF Buffer_drop_rest [OF s4]]
  define s5 where "s5 = s4\<lparr>op_heap := (op_heap s)(p \<mapsto> (op3, 1))\<rparr>"
  have "drv_inv ((own_add EB (buf_uses s))(b := own_add EB (buf_uses s) b - 1))
      ((own_add EF (file_uses s))(f := own_add EF (file_uses s) f - 1)) (own_add ES (stream_uses s)) s5"
    using f4(2) by (simp add: s5_def)
  from Stream_drop_drv_inv [OF this] pos(3)
  obtain s6 where s6: "Stream_drop st s5 = (Ret (), s6)"
    "drv_inv ((own_add EB (buf_uses s))(b := own_add EB (buf_uses s) b - 1))
      ((own_add EF (file_uses s))(f := own_add EF (file_uses s) f - 1))
      ((own_add ES (stream_uses s))(st := own_add ES (stream_uses s) st - 1)) s6"
    "drv_rest s6 = drv_rest s5" by auto
  note rest6 = rest_async [OF s6(3)]
  define t where "t = s6\<lparr>completed_ops := completed_ops s6 @ [p]\<rparr>"
  have fields: "op_heap t = (op_heap s)(p \<mapsto> (op3, 1))" "submitted_ops t = submitted_ops s"
    "completed_ops t = completed_ops s @ [p]" "stream_tasks t = stream_tasks s" "client_vars t = client_vars s"
    using rest2 rest4 rest6 by (simp_all add: t_def s5_def s3_def s1_def)
  have u1: "op_update p (\<lambda>a. a\<lparr>ao_file := None\<rparr>) s = (Ret (), s1)"
    using op(1) by (simp add: op_update_def s1_def op1_def)
  have u3: "op_update p (\<lambda>a. a\<lparr>ao_buffer := None\<rparr>) s2 = (Ret (), s3)"
    using rest2(1) by (simp add: op_update_def s1_def s3_def op2_def)
  have u5: "op_update p (\<lambda>a. a\<lparr>ao_stream := None\<rparr>) s4 = (Ret (), s5)"
    using rest4(1) by (simp add: op_update_def s3_def s5_def op3_def)
  have "map_of (submitted_ops s) p \<noteq> None" using mem(1) by (simp add: ops_def map_of_eq_None_iff)
  then have run: "AsyncMonitor_completeOp x p s = (Ret (), t)"
    using op(2-5) f2(1) f4(1) s2 s4 s6(1) u1 u3 u5
    by (auto simp: AsyncMonitor_completeOp_def opt_do_def t_def cbind_def cget_def cmodify_def)
  have op3: "op3 = op\<lparr>ao_file := None, ao_buffer := None, ao_stream := None\<rparr>"
    by (simp add: op3_def op2_def op1_def)
  have ops_t: "ops t = ops s" by (simp add: ops_def fields)
  have uses: "buf_uses t = (buf_uses s)(b := buf_uses s b - 1)" "file_uses t = (file_uses s)(f := file_uses s f - 1)"
    "stream_uses t = (stream_uses s)(st := stream_uses s st - 1)"
    using held_clear [OF dist mem(1), where h = "op_heap s" and n = 1 and op = op and op' = op3 and get = ao_buffer and q = b]
      held_clear [OF dist mem(1), where h = "op_heap s" and n = 1 and op = op and op' = op3 and get = ao_file and q = f]
      held_clear [OF dist mem(1), where h = "op_heap s" and n = 1 and op = op and op' = op3 and get = ao_stream and q = st] op
    by (simp_all add: buf_uses_def file_uses_def stream_uses_def fields ops_t op3)
  have "drv_inv (own_add EB (buf_uses t)) (own_add EF (file_uses t)) (own_add ES (stream_uses t)) t"
    using s6(2) pos by (simp only: uses own_add_drop [symmetric]) (simp add: t_def)
  moreover have "monitor_inv t"
  proof -
    have "sp_owned (count_list (ops s)) (op_heap t)"
      using sp_owned_upd [where own = "count_list (ops s)" and h = "op_heap s" and p = p and n = 1
          and v = "Some (op3, 1)"] mon op(1) sp_owned_use_count [of "count_list (ops s)" "op_heap s" p]
      by (simp add: fields monitor_inv_def sp_use_count_def fun_upd_idem)
    moreover have "op_owns False op3" by (simp add: op_owns_def op3)
    ultimately show ?thesis
      using mon mem by (auto simp: monitor_inv_def ops_t fields)
  qed
  ultimately have "base_inv EB EF ES t" by (simp add: base_inv_def)
  with run fields op(1) op3 show ?thesis by blast
qed

lemma cleanup_step:
  assumes inv: "base_inv EB EF ES s" and p: "p \<in> pending s" and x: "closes x"
  shows "\<exists>t op. async_io_cleanup x p s = (Ret (), t) \<and> base_inv EB EF ES t \<and>
    sp_obj p (op_heap s) = Some op \<and> pending t = pending s - {p} \<and> bound_ops s \<subseteq> bound_ops t \<and>
    stream_tasks t = stream_tasks s \<and> completed_ops t = completed_ops s @ [p] \<and> ops t = ops s \<and>
    client_vars t = (client_vars s)(ao_bytes_transferred op := word_of_int (ao_bytes_transferred_internal op)) \<and>
    cleanup_announce x p s = (Ret (ao_bytes_transferred op, True), t\<lparr>client_vars := client_vars s\<rparr>) \<and>
    op_heap t p \<noteq> None"
proof -
  from completeOp_step [OF assms] obtain u op where u: "AsyncMonitor_completeOp x p s = (Ret (), u)"
    "base_inv EB EF ES u" "op_heap s p = Some (op, 1)"
    "op_heap u = (op_heap s)(p \<mapsto> (op\<lparr>ao_file := None, ao_buffer := None, ao_stream := None\<rparr>, 1))"
    "submitted_ops u = submitted_ops s" "completed_ops u = completed_ops s @ [p]"
    "stream_tasks u = stream_tasks s" "client_vars u = client_vars s" by blast
  let ?t = "u\<lparr>client_vars := (client_vars u)(ao_bytes_transferred op := word_of_int (ao_bytes_transferred_internal op))\<rparr>"
  have announce: "cleanup_announce x p s = (Ret (ao_bytes_transferred op, True), u)"
    using u by (simp add: cleanup_announce_def sp_obj_def)
  then have "async_io_cleanup x p s = (Ret (), ?t)"
    using u by (simp add: async_io_cleanup_def cbind_def cleanup_report_def sp_obj_def client_store_def cmodify_def)
  moreover have "pending ?t = pending s - {p}" by (auto simp: pending_def ops_def u)
  moreover have "bound_ops s \<subseteq> bound_ops ?t" using u(3,4) by (auto simp: bound_ops_def sp_obj_def op_bound_def)
  moreover have "?t\<lparr>client_vars := client_vars s\<rparr> = u" using u(8) by (cases u) simp
  ultimately show ?thesis using u announce by (intro exI [of _ ?t] exI [of _ op]) (simp add: sp_obj_def ops_def)
qed

section \<open>The completion thread\<close>

lemma world_only_free_or_log:
  "world_only (ccatch (hipHostFree x p) (\<lambda>_. Sys_syslog x LOG_CRIT m))"
  unfolding hipHostFree_def Sys_syslog_def by (intro world_only_ccatch) auto

lemma free_or_log_returns: "ccatch (hipHostFree x p) (\<lambda>_. Sys_syslog x LOG_CRIT m) s \<noteq> (Exn e, t)"
  by (auto simp: ccatch_def Sys_syslog_def call_ext_def split: prod.splits outcome.splits)

lemma free_or_log_world:
  "\<exists>w. ccatch (hipHostFree x p) (\<lambda>_. Sys_syslog x LOG_CRIT m) s = (Ret (), s\<lparr>world := w\<rparr>)"
  using world_only_free_or_log [of x p m]
  by (cases rule: world_onlyE [where s = s]) (auto simp: free_or_log_returns)

lemma deleters_world:
  "\<exists>w. hipHostDeleter x p s = (Ret (), s\<lparr>world := w\<rparr>)"
  "\<exists>w. AsyncOpFallback_delete x p s' = (Ret (), s'\<lparr>world := w\<rparr>)"
  using free_or_log_world [of x p "''Error freeing pinned host memory.''" s]
    free_or_log_world [of x p "''Freeing AsyncOpFallback failed.''" s']
  by (auto simp: hipHostDeleter_def AsyncOpFallback_delete_def cnoexcept_def)

text \<open>A round of the thread removes one complete operation.\<close>

lemma held_drop_none:
  "p \<in> set ps \<Longrightarrow> Option.bind (sp_obj p h) get = None \<Longrightarrow> distinct ps \<Longrightarrow>
     held get (h(p := None)) (removeAll p ps) = held get h ps"
proof
  fix q
  assume a: "p \<in> set ps" "Option.bind (sp_obj p h) get = None" "distinct ps"
  have "held get (h(p := None)) (remove1 p ps) = held get h (remove1 p ps)"
    by (rule held_cong) (use a in \<open>simp add: sp_obj_def\<close>)
  with held_remove1 [OF a(1), of get h q] a show "held get (h(p := None)) (removeAll p ps) q = held get h ps q"
    by (simp add: distinct_remove1_removeAll)
qed

lemma keys_delete: "map fst (AList.delete k al) = removeAll k (map fst al)"
  by (induction al) (auto simp: AList.delete_eq)

lemma completion_step:
  assumes inv: "base_inv EB EF ES s" and c: "completed_ops s \<noteq> []"
  shows "\<exists>t. AsyncMonitor_completion_round x s = (Ret True, t) \<and> base_inv EB EF ES t \<and>
    pending t = pending s \<and> bound_ops s \<inter> pending s \<subseteq> bound_ops t \<and> stream_tasks t = stream_tasks s \<and>
    completed_ops t = butlast (completed_ops s) \<and> ops t = removeAll (last (completed_ops s)) (ops s) \<and>
    client_vars t = client_vars s \<and> is_finished t = is_finished s \<and>
    op_heap t = (op_heap s)(last (completed_ops s) := None)"
proof -
  let ?p = "last (completed_ops s)"
  have mon: "monitor_inv s" using inv by (simp add: base_inv_def)
  have pc: "?p \<in> set (completed_ops s)" using c by simp
  with mon have mem: "?p \<in> set (ops s)" and dist: "distinct (ops s)" "distinct (completed_ops s)"
    by (auto simp: monitor_inv_def)
  from monitor_op [OF mon mem] pc obtain op where op: "op_heap s ?p = Some (op, 1)" "op_owns False op" by auto
  then have none: "ao_file op = None" "ao_buffer op = None" "ao_stream op = None" by (simp_all add: op_owns_def)
  have key: "map_of (submitted_ops s) ?p = Some ?p"
  proof -
    from mem have "map_of (submitted_ops s) ?p \<noteq> None" by (simp add: ops_def map_of_eq_None_iff)
    then obtain v where "map_of (submitted_ops s) ?p = Some v" by auto
    moreover from this have "v = ?p" using mon by (fastforce simp: monitor_inv_def dest: map_of_SomeD)
    ultimately show ?thesis by simp
  qed
  define h where "h = (op_heap s)(?p := None)"
  define u where "u = s\<lparr>completed_ops := butlast (completed_ops s), submitted_ops := AList.delete ?p (submitted_ops s)\<rparr>"
  obtain w1 where w1: "hipHostDeleter x (ao_bounce_buffer op) (u\<lparr>op_heap := h\<rparr>) = (Ret (), u\<lparr>op_heap := h\<rparr>\<lparr>world := w1\<rparr>)"
    using deleters_world(1) [of x "ao_bounce_buffer op" "u\<lparr>op_heap := h\<rparr>"] by blast
  obtain w2 where w2: "AsyncOpFallback_delete x ?p (u\<lparr>op_heap := h\<rparr>\<lparr>world := w1\<rparr>) =
      (Ret (), u\<lparr>op_heap := h\<rparr>\<lparr>world := w1\<rparr>\<lparr>world := w2\<rparr>)"
    using deleters_world(2) [of x ?p "u\<lparr>op_heap := h\<rparr>\<lparr>world := w1\<rparr>"] by blast
  have rel: "sp_release ?p (op_heap s) = (Some op, h)" using op(1) by (simp add: sp_release_def h_def)
  define t where "t = u\<lparr>op_heap := h\<rparr>\<lparr>world := w1\<rparr>\<lparr>world := w2\<rparr>"
  have "op_heap u = op_heap s" by (simp add: u_def)
  then have drop: "AsyncOp_drop x ?p u = (Ret (), t)"
    using rel w1 w2 none
    by (simp add: AsyncOp_drop_def AsyncOpFallback_dtor_def AsyncOp_dtor_def cbind_def opt_do_def cret_def t_def)
  have run: "AsyncMonitor_completion_round x s = (Ret True, t)"
    using c key drop
    by (simp add: AsyncMonitor_completion_round_def cbind_def cget_def cmodify_def opt_do_def cret_def u_def)
  have fields: "op_heap t = h" "completed_ops t = butlast (completed_ops s)"
    "submitted_ops t = AList.delete ?p (submitted_ops s)" "stream_tasks t = stream_tasks s"
    "client_vars t = client_vars s" "is_finished t = is_finished s"
    by (simp_all add: t_def u_def)
  have ops_t: "ops t = removeAll ?p (ops s)"
    by (simp add: ops_def fields keys_delete)
  have uses: "buf_uses t = buf_uses s" "file_uses t = file_uses s" "stream_uses t = stream_uses s"
    using held_drop_none [OF mem _ dist(1), where h = "op_heap s"] op(1) none
    by (simp_all add: buf_uses_def file_uses_def stream_uses_def ops_t fields(1) h_def sp_obj_def)
  have butl: "set (butlast (completed_ops s)) = set (completed_ops s) - {?p}"
    using c dist(2) by (cases "completed_ops s" rule: rev_cases) auto
  have "monitor_inv t"
  proof -
    have "sp_owned ((count_list (ops s))(?p := 0)) h"
      unfolding h_def by (rule sp_owned_clear_one) (use mon in \<open>simp add: monitor_inv_def\<close>)
    moreover have "(count_list (ops s))(?p := 0) = count_list (removeAll ?p (ops s))"
      using dist(1) by (auto simp: fun_eq_iff distinct_count_list distinct_removeAll)
    ultimately show ?thesis
      using mon butl dist set_delete_subset [of ?p "submitted_ops s"]
      by (auto simp: monitor_inv_def ops_t fields h_def distinct_removeAll distinct_butlast)
  qed
  moreover have "drv_inv (own_add EB (buf_uses t)) (own_add EF (file_uses t)) (own_add ES (stream_uses t)) t"
    unfolding uses using inv by (simp add: base_inv_def t_def u_def drv_inv_world)
  moreover have "pending t = pending s"
    using butl pc by (auto simp: pending_def ops_t fields)
  moreover have "bound_ops s \<inter> pending s \<subseteq> bound_ops t"
    using pc by (auto simp: bound_ops_def pending_def fields h_def sp_obj_def)
  ultimately show ?thesis
    using run fields ops_t by (auto simp: base_inv_def h_def)
qed

end
