(* ===== verification/Async_Submission.thy ===== *)
theory Async_Submission
  imports Async_Tasks
begin

text \<open>
  The submission of an operation: its construction, the tasks that it appends to the queue of its stream,
  whichever of the calls of the runtime fails, and \<^verbatim>\<open>Fallback::async_io\<close>.
\<close>

section \<open>Enqueueing\<close>

definition appends :: "ptr \<Rightarrow> ('w, 'z) async_state_scheme \<Rightarrow> ('w, 'z) async_state_scheme \<Rightarrow> async_task list \<Rightarrow> bool" where
  "appends q s t ts \<longleftrightarrow>
     (\<exists>w. t = s\<lparr>world := w, stream_tasks := (stream_tasks s)(q := stream_tasks s q @ ts)\<rparr>)"

lemma appends_Nil: "appends q s (s\<lparr>world := w\<rparr>) []"
  unfolding appends_def by (intro exI [of _ w]) simp

lemma appends_refl: "appends q s s []"
  unfolding appends_def by (intro exI [of _ "world s"]) simp

lemma appends_trans: "appends q s t ts \<Longrightarrow> appends q t u us \<Longrightarrow> appends q s u (ts @ us)"
  unfolding appends_def by force

text \<open>
  A function that only appends tasks to one queue; \<open>P\<close> says which, depending on whether it returns
  or throws.
\<close>

definition launches ::
  "ptr \<Rightarrow> (bool \<Rightarrow> async_task list \<Rightarrow> bool) \<Rightarrow> (('w, 'z) async_state_scheme, 'a) cxx \<Rightarrow> bool" where
  "launches q P m \<longleftrightarrow>
     (\<forall>s. fst (m s) \<noteq> Terminate \<and>
        (\<exists>ts. appends q s (snd (m s)) ts \<and> P (case fst (m s) of Ret _ \<Rightarrow> True | _ \<Rightarrow> False) ts))"

lemma launchesE:
  assumes "launches q P m" and "m s = (r, t)"
  obtains (ret) a ts where "r = Ret a" "appends q s t ts" "P True ts"
    | (exn) e ts where "r = Exn e" "appends q s t ts" "P False ts"
  using assms unfolding launches_def by (cases r) (metis fst_conv snd_conv outcome.simps)+

lemma launchesI:
  assumes "\<And>s. (\<exists>a t ts. m s = (Ret a, t) \<and> appends q s t ts \<and> P True ts) \<or>
      (\<exists>e t ts. m s = (Exn e, t) \<and> appends q s t ts \<and> P False ts)"
  shows "launches q P m"
  unfolding launches_def
proof
  fix s
  from assms [of s] show "fst (m s) \<noteq> Terminate \<and>
      (\<exists>ts. appends q s (snd (m s)) ts \<and> P (case fst (m s) of Ret _ \<Rightarrow> True | _ \<Rightarrow> False) ts)"
    by auto
qed

lemma launches_mono: "launches q P m \<Longrightarrow> (\<And>ok ts. P ok ts \<Longrightarrow> Q ok ts) \<Longrightarrow> launches q Q m"
  unfolding launches_def by metis

lemma launches_world_only:
  assumes "world_only m"
  shows "launches q (\<lambda>ok ts. ts = []) m"
proof (rule launchesI)
  fix s
  from assms show "(\<exists>a t ts. m s = (Ret a, t) \<and> appends q s t ts \<and> ts = []) \<or>
      (\<exists>e t ts. m s = (Exn e, t) \<and> appends q s t ts \<and> ts = [])"
    by (cases rule: world_onlyE [where s = s]) (auto intro: appends_Nil)
qed

lemma launches_cbind:
  assumes "launches q P m" and "\<And>a. launches q Q (k a)"
  shows "launches q (\<lambda>ok ts. \<not> ok \<and> P False ts \<or> (\<exists>us vs. ts = us @ vs \<and> P True us \<and> Q ok vs)) (cbind m k)"
proof (rule launchesI)
  fix s
  obtain r t where m: "m s = (r, t)" by fastforce
  from assms(1) m show "(\<exists>b v ts. cbind m k s = (Ret b, v) \<and> appends q s v ts \<and>
        (\<not> True \<and> P False ts \<or> (\<exists>us vs. ts = us @ vs \<and> P True us \<and> Q True vs))) \<or>
      (\<exists>e v ts. cbind m k s = (Exn e, v) \<and> appends q s v ts \<and>
        (\<not> False \<and> P False ts \<or> (\<exists>us vs. ts = us @ vs \<and> P True us \<and> Q False vs)))"
  proof (cases rule: launchesE)
    case (exn e ts)
    with m show ?thesis by (auto simp: cbind_def)
  next
    case (ret a us)
    obtain r' v where k: "k a t = (r', v)" by fastforce
    from assms(2) k show ?thesis
    proof (cases rule: launchesE)
      case (ret b vs)
      have "cbind m k s = (Ret b, v)" using m k \<open>r = Ret a\<close> ret by (simp add: cbind_def)
      with appends_trans [OF \<open>appends q s t us\<close> ret(2)] \<open>P True us\<close> ret(3) show ?thesis by blast
    next
      case (exn e vs)
      have "cbind m k s = (Exn e, v)" using m k \<open>r = Ret a\<close> exn by (simp add: cbind_def)
      with appends_trans [OF \<open>appends q s t us\<close> exn(2)] \<open>P True us\<close> exn(3) show ?thesis by blast
    qed
  qed
qed

lemma world_only_launch: "world_only (hipLaunchHostFunc x q fn p)" "world_only (hipLaunchKernel x n m a b q)"
  by (simp_all add: hipLaunchHostFunc_def hipLaunchKernel_def world_only_hip_call0)

lemma launches_enqueue: "launches q (\<lambda>ok ts. ok \<and> ts = [t]) (enqueue_task q t)"
proof (rule launchesI)
  fix s
  have "appends q s (s\<lparr>stream_tasks := (stream_tasks s)(q := stream_tasks s q @ [t])\<rparr>) [t]"
    unfolding appends_def by (intro exI [of _ "world s"]) simp
  then show "(\<exists>a u ts. enqueue_task q t s = (Ret a, u) \<and> appends q s u ts \<and> True \<and> ts = [t]) \<or>
      (\<exists>e u ts. enqueue_task q t s = (Exn e, u) \<and> appends q s u ts \<and> False \<and> ts = [t])"
    by (simp add: enqueue_task_def cmodify_def)
qed

lemma launches_host_func: "launches q (\<lambda>ok ts. ts = (if ok then [HostFunc fn p] else [])) (launch_host_func x q fn p)"
  unfolding launch_host_func_def
  by (rule launches_mono [OF launches_cbind [OF launches_world_only [OF world_only_launch(1)] launches_enqueue]])
    auto

lemma launches_kernel:
  "launches q (\<lambda>ok ts. ts = (if ok then [MemcpyKernel (word_of_int n) p] else [])) (launch_memcpy_kernel x q n d p)"
  unfolding launch_memcpy_kernel_def
  by (rule launches_mono [OF launches_cbind [OF launches_world_only [OF world_only_launch(2)] launches_enqueue]])
    auto

definition stream_fixed :: "Stream \<Rightarrow> bool" where
  "stream_fixed st \<longleftrightarrow> Stream_fixedBufferOffset st \<and> Stream_fixedFileOffset st \<and> Stream_fixedIOSize st"

lemma launches_ccatch:
  assumes "launches q P m" and "\<And>e. launches q Q (h e)"
  shows "launches q (\<lambda>ok ts. ok \<and> P True ts \<or> (\<exists>us vs. ts = us @ vs \<and> P False us \<and> Q ok vs)) (ccatch m h)"
proof (rule launchesI)
  fix s
  obtain r t where m: "m s = (r, t)" by fastforce
  from assms(1) m show "(\<exists>b v ts. ccatch m h s = (Ret b, v) \<and> appends q s v ts \<and>
        (True \<and> P True ts \<or> (\<exists>us vs. ts = us @ vs \<and> P False us \<and> Q True vs))) \<or>
      (\<exists>e v ts. ccatch m h s = (Exn e, v) \<and> appends q s v ts \<and>
        (False \<and> P True ts \<or> (\<exists>us vs. ts = us @ vs \<and> P False us \<and> Q False vs)))"
  proof (cases rule: launchesE)
    case (ret a ts)
    with m show ?thesis by (auto simp: ccatch_def)
  next
    case (exn e us)
    obtain r' v where k: "h e t = (r', v)" by fastforce
    from assms(2) k show ?thesis
    proof (cases rule: launchesE)
      case (ret b vs)
      have "ccatch m h s = (Ret b, v)" using m k \<open>r = Exn e\<close> ret by (simp add: ccatch_def)
      with appends_trans [OF \<open>appends q s t us\<close> ret(2)] \<open>P False us\<close> ret(3) show ?thesis by blast
    next
      case (exn e' vs)
      have "ccatch m h s = (Exn e', v)" using m k \<open>r = Exn e\<close> exn by (simp add: ccatch_def)
      with appends_trans [OF \<open>appends q s t us\<close> exn(2)] \<open>P False us\<close> exn(3) show ?thesis by blast
    qed
  qed
qed

lemma launches_cwhen:
  assumes "launches q P m"
  shows "launches q (\<lambda>ok ts. if b then P ok ts else ts = []) (cwhen b m)"
proof (cases b)
  case False
  have "launches q (\<lambda>ok ts. ts = []) (cret ())" by (rule launches_world_only) auto
  with False show ?thesis by (simp add: cwhen_def)
qed (use assms in \<open>simp add: cwhen_def\<close>)

text \<open>The transfer of an operation: a copy on the host and a copy on the device, in the order of the direction.\<close>

definition transfer_tasks :: "IoType \<Rightarrow> uint32_t \<Rightarrow> ptr \<Rightarrow> async_task list" where
  "transfer_tasks type n p =
     (case type of IoRead \<Rightarrow> [HostFunc fn_async_io_cpu_copy p, MemcpyKernel n p]
                 | IoWrite \<Rightarrow> [MemcpyKernel n p, HostFunc fn_async_io_cpu_copy p])"

definition bind_tasks :: "Stream \<Rightarrow> ptr \<Rightarrow> async_task list" where
  "bind_tasks st p = (if stream_fixed st then [] else [HostFunc fn_async_io_bind_params p])"

lemma launches_transfer:
  "launches q (\<lambda>ok ts. if ok then ts = transfer_tasks type (word_of_int n) p
                       else \<exists>k<2. ts = take k (transfer_tasks type (word_of_int n) p))
     (case type of
        IoRead \<Rightarrow> cbind (launch_host_func x q fn_async_io_cpu_copy p) (\<lambda>_. launch_memcpy_kernel x q n d p)
      | IoWrite \<Rightarrow> cbind (launch_memcpy_kernel x q n d p) (\<lambda>_. launch_host_func x q fn_async_io_cpu_copy p))"
proof (cases type)
  case IoRead
  have "launches q (\<lambda>ok ts. if ok then ts = transfer_tasks type (word_of_int n) p
                       else \<exists>k<2. ts = take k (transfer_tasks type (word_of_int n) p))
      (cbind (launch_host_func x q fn_async_io_cpu_copy p) (\<lambda>_. launch_memcpy_kernel x q n d p))"
    by (rule launches_mono [OF launches_cbind [OF launches_host_func launches_kernel]])
      (auto simp: transfer_tasks_def IoRead intro: exI [of _ 0] exI [of _ 1])
  then show ?thesis using IoRead by simp
next
  case IoWrite
  have "launches q (\<lambda>ok ts. if ok then ts = transfer_tasks type (word_of_int n) p
                       else \<exists>k<2. ts = take k (transfer_tasks type (word_of_int n) p))
      (cbind (launch_memcpy_kernel x q n d p) (\<lambda>_. launch_host_func x q fn_async_io_cpu_copy p))"
    by (rule launches_mono [OF launches_cbind [OF launches_kernel launches_host_func]])
      (auto simp: transfer_tasks_def IoWrite intro: exI [of _ 0] exI [of _ 1])
  then show ?thesis using IoWrite by simp
qed

lemma world_only_attr: "world_only (hipDeviceGetAttribute x g)" "world_only (Sys_syslog x a m)"
  "world_only (hipHostGetDevicePointer x p n)" "world_only (hipHostMalloc x k n)"
  by (auto simp: hipDeviceGetAttribute_def Sys_syslog_def hipHostGetDevicePointer_def hipHostMalloc_def)

lemma tasks_prefix_ok:
  "k \<le> 2 \<Longrightarrow> tasks_ok (if stream_fixed st then {p} else {}) {p} (bind_tasks st p @ take k (transfer_tasks type n p) @ us)
     \<longleftrightarrow> tasks_ok {p} {p} us"
proof -
  assume "k \<le> 2"
  then consider "k = 0" | "k = 1" | "k = 2" by linarith
  then show ?thesis by cases (auto simp: bind_tasks_def transfer_tasks_def split: IoType.splits)
qed

text \<open>
  All tasks of an operation; and what an enqueueing leaves in the queue is in order, whether it
  returns or throws.
\<close>

definition submission_tasks :: "IoType \<Rightarrow> Stream \<Rightarrow> uint32_t \<Rightarrow> ptr \<Rightarrow> async_task list" where
  "submission_tasks type st n p = bind_tasks st p @ transfer_tasks type n p @ [HostFunc fn_async_io_cleanup p]"

lemma launches_enqueue_all:
  "launches (Stream_getHipStream st)
     (\<lambda>ok ts. tasks_ok (if stream_fixed st then {p} else {}) {p} ts \<and>
        (ok \<longrightarrow> (\<exists>n. ts = submission_tasks type st n p)))
     (Fallback_async_enqueue x type b st p d)"
proof -
  let ?q = "Stream_getHipStream st" and ?C = "if stream_fixed st then {p} else {}"
  let ?good = "\<lambda>ok ts. if ok then \<exists>n. ts = bind_tasks st p @ transfer_tasks type n p @ [HostFunc fn_async_io_cleanup p]
      else ts = [] \<or> (\<exists>n. \<exists>k\<le>2. ts = bind_tasks st p @ take k (transfer_tasks type n p))"
  let ?body = "cbind (hipDeviceGetAttribute x (Buffer_getGpuId b)) (\<lambda>max_threads.
         cbind (cwhen (\<not> Stream_fixedBufferOffset st \<or> \<not> Stream_fixedFileOffset st \<or> \<not> Stream_fixedIOSize st)
                  (launch_host_func x ?q fn_async_io_bind_params p)) (\<lambda>_.
         cbind (case type of
                  IoRead \<Rightarrow>
                    cbind (launch_host_func x ?q fn_async_io_cpu_copy p) (\<lambda>_.
                      launch_memcpy_kernel x ?q max_threads d p)
                | IoWrite \<Rightarrow>
                    cbind (launch_memcpy_kernel x ?q max_threads d p) (\<lambda>_.
                      launch_host_func x ?q fn_async_io_cpu_copy p)) (\<lambda>_.
         launch_host_func x ?q fn_async_io_cleanup p)))"
  have len: "length (transfer_tasks type n p) = 2" for n
    by (simp add: transfer_tasks_def split: IoType.splits)
  have tail: "launches ?q (\<lambda>ok ts. if ok then ts = transfer_tasks type (word_of_int n) p @ [HostFunc fn_async_io_cleanup p]
        else \<exists>k\<le>2. ts = take k (transfer_tasks type (word_of_int n) p))
      (cbind (case type of
                  IoRead \<Rightarrow>
                    cbind (launch_host_func x ?q fn_async_io_cpu_copy p) (\<lambda>_.
                      launch_memcpy_kernel x ?q n d p)
                | IoWrite \<Rightarrow>
                    cbind (launch_memcpy_kernel x ?q n d p) (\<lambda>_.
                      launch_host_func x ?q fn_async_io_cpu_copy p)) (\<lambda>_.
         launch_host_func x ?q fn_async_io_cleanup p))" for n
    by (rule launches_mono [OF launches_cbind [OF launches_transfer launches_host_func]])
      (use len [of "word_of_int n"] in \<open>auto split: if_splits intro: less_imp_le exI [of _ 2]\<close>)
  have rest: "launches ?q ?good (cbind (cwhen (\<not> Stream_fixedBufferOffset st \<or> \<not> Stream_fixedFileOffset st \<or> \<not> Stream_fixedIOSize st)
                  (launch_host_func x ?q fn_async_io_bind_params p)) (\<lambda>_.
         cbind (case type of
                  IoRead \<Rightarrow>
                    cbind (launch_host_func x ?q fn_async_io_cpu_copy p) (\<lambda>_.
                      launch_memcpy_kernel x ?q n d p)
                | IoWrite \<Rightarrow>
                    cbind (launch_memcpy_kernel x ?q n d p) (\<lambda>_.
                      launch_host_func x ?q fn_async_io_cpu_copy p)) (\<lambda>_.
         launch_host_func x ?q fn_async_io_cleanup p)))" for n
    by (rule launches_mono [OF launches_cbind [OF launches_cwhen [OF launches_host_func] tail]])
      (auto simp: bind_tasks_def stream_fixed_def split: if_splits)
  have body: "launches ?q ?good ?body"
    by (rule launches_mono [OF launches_cbind [OF launches_world_only [OF world_only_attr(1)] rest]])
      (auto split: if_splits)
  have retry: "launches ?q (\<lambda>ok ts. \<not> ok \<and> (ts = [] \<or> ts = [HostFunc fn_async_io_cleanup p]))
      (cbind (ccatch (launch_host_func x ?q fn_async_io_cleanup p) (\<lambda>_. Sys_syslog x LOG_CRIT m)) (\<lambda>_. cthrow e))" for m e
  proof -
    have "launches ?q (\<lambda>ok ts. ts = [] \<and> \<not> ok) (cthrow e)"
      by (rule launchesI) (auto simp: cthrow_def intro: appends_refl)
    from launches_cbind [OF launches_ccatch [OF launches_host_func launches_world_only [OF world_only_attr(2)]] this]
    show ?thesis by (rule launches_mono) (auto split: if_splits)
  qed
  have "launches ?q (\<lambda>ok ts. tasks_ok ?C {p} ts \<and> (ok \<longrightarrow> (\<exists>n. ts = submission_tasks type st n p)))
      (ccatch ?body (\<lambda>e. cbind (ccatch (launch_host_func x ?q fn_async_io_cleanup p)
         (\<lambda>_. Sys_syslog x LOG_CRIT ''Unable to enqueue async cleanup function. This will leak memory.'')) (\<lambda>_. cthrow e)))"
    by (rule launches_mono [OF launches_ccatch [OF body retry]])
      (use tasks_prefix_ok [of 2 st p type] tasks_prefix_ok [of _ st p type _ "[]"]
         tasks_prefix_ok [of _ st p type _ "[HostFunc fn_async_io_cleanup p]"] len in \<open>auto simp: submission_tasks_def split: if_splits\<close>)
  then show ?thesis by (simp add: Fallback_async_enqueue_def Let_def)
qed

section \<open>Construction\<close>

lemma world_only_cunwind:
  assumes "world_only m" and "\<And>s. \<exists>w. d s = (Ret (), s\<lparr>world := w\<rparr>)"
  shows "world_only (cunwind m d)"
  unfolding world_only_def
proof
  fix s
  from assms(1) show "fst (cunwind m d s) \<noteq> Terminate \<and> (\<exists>w. snd (cunwind m d s) = s\<lparr>world := w\<rparr>)"
  proof (cases rule: world_onlyE [where s = s])
    case (ret a w)
    then show ?thesis by (auto simp: cunwind_def)
  next
    case (exn e w)
    obtain w' where "d (s\<lparr>world := w\<rparr>) = (Ret (), s\<lparr>world := w\<rparr>\<lparr>world := w'\<rparr>)" using assms(2) by blast
    with exn show ?thesis by (auto simp: cunwind_def)
  qed
qed

lemma world_only_getMaxRwCount: "world_only (getMaxRwCount x)"
  by (auto simp: world_only_def getMaxRwCount_eq world_unchanged)

lemma AsyncOp_dtor_three:
  "ao_file op = Some f \<Longrightarrow> ao_buffer op = Some b \<Longrightarrow> ao_stream op = Some st \<Longrightarrow>
     AsyncOp_dtor x op = cbind (Stream_drop st) (\<lambda>_. cbind (Buffer_drop b) (\<lambda>_. File_drop x f))"
  by (simp add: AsyncOp_dtor_def opt_do_def)

lemma ctor_step:
  fixes s t :: "('w, 'z) async_state_scheme"
  assumes inv: "drv_inv EB EF ES s" and pos: "0 < EB b" "0 < EF f" "0 < ES st" and x: "closes x"
    and run: "AsyncOpFallback_ctor x type f b st bo so size_p fo_p bo_p bt_p s = (r, t)"
  shows "drv_rest t = drv_rest s \<and>
    (case r of
       Ret op \<Rightarrow> drv_inv (EB(b := Suc (EB b))) (EF(f := Suc (EF f))) (ES(st := Suc (ES st))) t \<and>
                ao_file op = Some f \<and> ao_buffer op = Some b \<and> ao_stream op = Some st \<and>
                (stream_fixed so \<longrightarrow> op_bound op)
     | Exn e \<Rightarrow> drv_inv EB EF ES t
     | Terminate \<Rightarrow> False)"
proof -
  let ?EB = "EB(b := Suc (EB b))" and ?EF = "EF(f := Suc (EF f))" and ?ES = "ES(st := Suc (ES st))"
  obtain u where u: "AsyncOp_take f b st s = (Ret (), u)" "drv_inv ?EB ?EF ?ES u" "drv_rest u = drv_rest s"
    using AsyncOp_take_inv [OF inv pos] by blast
  define base where "base = AsyncOp_ctor type f b st so size_p fo_p bo_p bt_p (client_vars u)"
  define m :: "(('w, 'z) async_state_scheme, AsyncOpFallback) cxx"
    where "m = cbind (getMaxRwCount x) (\<lambda>limit.
           let submitted_size = min (client_vars u size_p) limit in
           cbind (hipHostMalloc x submitted_size 0) (\<lambda>host_ptr.
           cunwind
             (cbind (hipHostGetDevicePointer x host_ptr 0) (\<lambda>dev_ptr.
                cret (base\<lparr>ao_submitted_size := submitted_size, ao_gpu_buffer := Buffer_getBuffer bo,
                           ao_bounce_buffer := host_ptr, ao_bounce_buffer_dev_ptr := dev_ptr\<rparr>)))
             (hipHostDeleter x host_ptr)))"
  have fields: "ao_file base = Some f" "ao_buffer base = Some b" "ao_stream base = Some st"
    by (simp_all add: base_def AsyncOp_ctor_def)
  have "world_only m"
    unfolding m_def Let_def
    by (intro world_only_cbind world_only_cunwind world_only_attr world_only_getMaxRwCount world_only_cret
        deleters_world(1))
  have run': "cunwind m (AsyncOp_dtor x base) u = (r, t)"
    using run u(1) by (simp add: AsyncOpFallback_ctor_def cbind_def cget_def base_def m_def Let_def)
  from \<open>world_only m\<close> show ?thesis
  proof (cases rule: world_onlyE [where s = u])
    case (ret op w)
    then have "ao_file op = Some f \<and> ao_buffer op = Some b \<and> ao_stream op = Some st \<and>
        (op_bound base \<longrightarrow> op_bound op)"
      by (auto simp: m_def Let_def cbind_def cunwind_def cret_def fields op_bound_def
          split: prod.splits outcome.splits)
    moreover have "stream_fixed so \<Longrightarrow> op_bound base"
      by (simp add: stream_fixed_def base_def AsyncOp_ctor_def op_bound_def)
    ultimately show ?thesis using run' ret u by (auto simp: cunwind_def drv_inv_world)
  next
    case (exn e w)
    obtain r2 v where v: "AsyncOp_dtor x base (u\<lparr>world := w\<rparr>) = (r2, v)" by fastforce
    have "drv_inv ?EB ?EF ?ES (u\<lparr>world := w\<rparr>)" using u(2) by (simp add: drv_inv_world)
    from three_drops_inv [OF this _ _ _ v [unfolded AsyncOp_dtor_three [OF fields]]]
    have v2: "drv_inv EB EF ES v" "r2 = Ret () \<or> r2 = Terminate" "drv_rest v = drv_rest u" by simp_all
    moreover have "r2 \<noteq> Terminate"
    proof
      assume end_: "r2 = Terminate"
      have "never_ends (AsyncOp_dtor x base :: (('w, 'z) async_state_scheme, unit) cxx)"
        unfolding AsyncOp_dtor_three [OF fields] Stream_drop_def Buffer_drop_def
        by (intro never_ends_cbind never_ends_simps never_ends_File_drop x)
      from never_endsD [OF this, of "u\<lparr>world := w\<rparr>" v] v end_ show False by simp
    qed
    ultimately show ?thesis using run' exn v u(3) by (auto simp: cunwind_def)
  qed
qed

text \<open>An allocation does not return the address of a live operation.\<close>

definition fresh_op :: "'w ext \<Rightarrow> ('w, 'z) async_state_scheme \<Rightarrow> bool" where
  "fresh_op x s \<longleftrightarrow>
     (\<forall>w p w'. hip_HostMalloc x (sizeof_AsyncOpFallback x) 0 w = ((hipSuccess, p), w') \<longrightarrow> op_heap s p = None)"

lemma new_Ret:
  "AsyncOpFallback_new x s = (Ret p, t) \<Longrightarrow>
     \<exists>w w'. hip_HostMalloc x (sizeof_AsyncOpFallback x) 0 w = ((hipSuccess, p), w') \<and> t = s\<lparr>world := w'\<rparr>"
  by (auto simp: AsyncOpFallback_new_def ccatch_def hipHostMalloc_def hip_call1_def cbind_def call_ext_def
      throwOnHipError_def cthrow_def cret_def split: prod.splits outcome.splits if_splits)

lemma world_only_new: "world_only (AsyncOpFallback_new x)"
  unfolding AsyncOpFallback_new_def by (intro world_only_ccatch world_only_attr) auto

lemma make_step:
  fixes s t :: "('w, 'z) async_state_scheme"
  assumes inv: "drv_inv EB EF ES s" and pos: "0 < EB b" "0 < EF f" "0 < ES st" and x: "closes x"
    and fresh: "fresh_op x s"
    and run: "AsyncOpFallback_make x type f b st bo so size_p fo_p bo_p bt_p s = (r, t)"
  shows "case r of
       Ret p \<Rightarrow> \<exists>op u. op_heap s p = None \<and> drv_rest u = drv_rest s \<and>
                t = u\<lparr>op_heap := sp_make p op (op_heap s)\<rparr> \<and>
                drv_inv (EB(b := Suc (EB b))) (EF(f := Suc (EF f))) (ES(st := Suc (ES st))) u \<and>
                ao_file op = Some f \<and> ao_buffer op = Some b \<and> ao_stream op = Some st \<and>
                (stream_fixed so \<longrightarrow> op_bound op)
     | Exn e \<Rightarrow> drv_inv EB EF ES t \<and> drv_rest t = drv_rest s
     | Terminate \<Rightarrow> False"
  using world_only_new [of x]
proof (cases rule: world_onlyE [where s = s])
  case (exn e w)
  with run inv show ?thesis by (auto simp: AsyncOpFallback_make_def cbind_def drv_inv_world)
next
  case (ret p w)
  have dead: "op_heap s p = None" using new_Ret [OF ret] fresh unfolding fresh_op_def by blast
  obtain r1 u where u: "AsyncOpFallback_ctor x type f b st bo so size_p fo_p bo_p bt_p (s\<lparr>world := w\<rparr>) = (r1, u)"
    by fastforce
  have "drv_inv EB EF ES (s\<lparr>world := w\<rparr>)" using inv by (simp add: drv_inv_world)
  note c = ctor_step [OF this pos x u]
  have rest: "drv_rest u = drv_rest s" using c by simp
  show ?thesis
  proof (cases r1)
    case (Ret op)
    with run ret u have rt: "r = Ret p" "t = u\<lparr>op_heap := sp_make p op (op_heap u)\<rparr>"
      by (simp_all add: AsyncOpFallback_make_def cbind_def cunwind_def cmodify_def cret_def)
    show ?thesis
      unfolding rt outcome.case
      by (rule exI [of _ op], rule exI [of _ u]) (use c Ret dead rest rest_async(1) [OF rest] in simp)
  next
    case (Exn e)
    obtain w' where "AsyncOpFallback_delete x p u = (Ret (), u\<lparr>world := w'\<rparr>)"
      using deleters_world(2) [of x p u] by blast
    with run ret u Exn have "r = Exn e" "t = u\<lparr>world := w'\<rparr>"
      by (simp_all add: AsyncOpFallback_make_def cbind_def cunwind_def)
    with c Exn rest show ?thesis by (simp add: drv_inv_world)
  next
    case Terminate
    with c show ?thesis by simp
  qed
qed

section \<open>Submission\<close>

lemma own_add_Suc: "own_add E (F(q := Suc (F q))) = (own_add E F)(q := Suc (own_add E F q))"
  by (auto simp: own_add_def fun_eq_iff)

lemma held_add:
  assumes "h p = None" and "p \<notin> set ps" and "get op = Some q"
  shows "held get (h(p \<mapsto> (op, n))) (ps @ [p]) = (held get h ps)(q := Suc (held get h ps q))"
proof (rule ext)
  fix a
  have "held get (h(p \<mapsto> (op, n))) ps = held get h ps"
    by (rule held_cong) (use assms(2) in \<open>auto simp: sp_obj_def\<close>)
  with assms(3) show "held get (h(p \<mapsto> (op, n))) (ps @ [p]) a = ((held get h ps)(q := Suc (held get h ps q))) a"
    by (simp add: held_snoc sp_obj_def)
qed

lemma monitor_fresh:
  assumes "monitor_inv s" and "op_heap s p = None"
  shows "p \<notin> set (ops s)" and "map_of (submitted_ops s) p = None"
proof -
  show "p \<notin> set (ops s)" using monitor_op [OF assms(1)] assms(2) by fastforce
  then show "map_of (submitted_ops s) p = None" by (simp add: ops_def map_of_eq_None_iff)
qed

text \<open>A state that has one operation more.\<close>

lemma async_inv_add:
  fixes s v :: "('w, 'z) async_state_scheme"
  assumes inv: "async_inv EB EF ES s" and dead: "op_heap s p = None"
    and op: "ao_file op = Some f" "ao_buffer op = Some b" "ao_stream op = Some st"
    and drv: "drv_inv ((own_add EB (buf_uses s))(b := Suc (own_add EB (buf_uses s) b)))
      ((own_add EF (file_uses s))(f := Suc (own_add EF (file_uses s) f)))
      ((own_add ES (stream_uses s))(st := Suc (own_add ES (stream_uses s) st))) v"
    and v: "op_heap v = (op_heap s)(p \<mapsto> (op, 1))" "submitted_ops v = AList.update p p (submitted_ops s)"
      "completed_ops v = completed_ops s" "stream_tasks v = (stream_tasks s)(q := stream_tasks s q @ ts)"
    and ts: "tasks_ok C {p} ts" and C: "C \<subseteq> bound_ops v"
  shows "async_inv EB EF ES v"
proof -
  have mon: "monitor_inv s" and que: "queues_inv s" using inv by (simp_all add: async_inv_def)
  note new = monitor_fresh [OF mon dead]
  have ops_v: "ops v = ops s @ [p]"
    using new(2) by (simp add: ops_def v update_new map_of_None_iff)
  have uses: "buf_uses v = (buf_uses s)(b := Suc (buf_uses s b))" "file_uses v = (file_uses s)(f := Suc (file_uses s f))"
    "stream_uses v = (stream_uses s)(st := Suc (stream_uses s st))"
    unfolding buf_uses_def file_uses_def stream_uses_def ops_v v(1)
    by (rule held_add, rule dead, rule new(1), rule op)+
  have "drv_inv (own_add EB (buf_uses v)) (own_add EF (file_uses v)) (own_add ES (stream_uses v)) v"
    unfolding uses own_add_Suc by (rule drv)
  moreover have "monitor_inv v"
  proof -
    have "sp_owned ((count_list (ops s))(p := 1)) (op_heap v)"
      unfolding v(1) by (rule sp_owned_upd) (use mon in \<open>simp_all add: monitor_inv_def\<close>)
    moreover have "(count_list (ops s))(p := 1) = count_list (ops v)"
      using new(1) by (auto simp: ops_v fun_eq_iff count_list_0_iff)
    moreover have "p \<notin> set (completed_ops s)" using mon new(1) by (auto simp: monitor_inv_def)
    moreover have "op_owns True op" using op by (simp add: op_owns_def)
    ultimately show ?thesis
      using mon new by (auto simp: monitor_inv_def v ops_v set_update_new)
  qed
  moreover have "queues_inv v"
  proof -
    have pend: "pending v = insert p (pending s)"
      using mon new(1) by (auto simp: pending_def ops_v v monitor_inv_def)
    have bound: "bound_ops s \<subseteq> bound_ops v" using dead by (auto simp: bound_ops_def v sp_obj_def)
    have out: "p \<notin> task_op ` set (stream_tasks s q')" for q'
      using que new(1) tasks_ok_ops unfolding queues_inv_def pending_def by blast
    have "tasks_ok (bound_ops v) (pending v) (stream_tasks v q')" for q'
    proof (cases "q' = q")
      case True
      have "tasks_ok (bound_ops s \<union> C) (insert p (pending s)) (stream_tasks s q @ ts)"
        by (rule tasks_ok_append [OF _ out ts]) (use que in \<open>simp add: queues_inv_def\<close>)
      then have "tasks_ok (bound_ops v) (pending v) (stream_tasks s q @ ts)"
        by (rule tasks_ok_mono) (use bound C pend in auto)
      then show ?thesis using True by (simp add: v(4))
    next
      case False
      have "tasks_ok (bound_ops s) (pending s) (stream_tasks s q')" using que by (simp add: queues_inv_def)
      then show ?thesis
        using False bound pend by (auto simp: v elim: tasks_ok_mono)
    qed
    moreover have "task_op ` set (stream_tasks v q1) \<inter> task_op ` set (stream_tasks v q2) = {}" if "q1 \<noteq> q2" for q1 q2
    proof -
      have old: "task_op ` set (stream_tasks s q1) \<inter> task_op ` set (stream_tasks s q2) = {}"
        using que that by (simp add: queues_inv_def)
      have new: "task_op ` set ts \<inter> task_op ` set (stream_tasks s q') = {}" for q'
        using tasks_ok_ops [OF ts] out [of q'] by blast
      show ?thesis
      proof (cases "q1 = q")
        case True
        with that have "q2 \<noteq> q" by simp
        with True old new [of q2] show ?thesis by (simp add: v(4) image_Un Int_Un_distrib2)
      next
        case False
        with old new [of q1] show ?thesis
          by (cases "q2 = q") (simp_all add: v(4) image_Un Int_Un_distrib Int_commute)
      qed
    qed
    ultimately show ?thesis by (simp add: queues_inv_def)
  qed
  ultimately show ?thesis by (simp add: async_inv_def)
qed

text \<open>
  From the insertion in the monitor to the end of the scope of the local pointer: the operation is
  submitted, its queue grows, and the monitor is left as its only owner. When the address on the
  device cannot be found, the operation stays submitted with no task in the queue.
\<close>

lemma add_enqueue_step:
  fixes t v :: "('w, 'z) async_state_scheme"
  assumes new: "map_of (submitted_ops t) p = None" and live: "op_heap t p = Some (op, 1)"
    and run: "cscope (cbind (AsyncMonitor_addOp x p) (\<lambda>_. cbind (AsyncOpFallback_devPtr x p) (\<lambda>d.
        Fallback_async_enqueue x type b st p d))) (AsyncOp_drop x p) t = (r, v)"
  shows "r \<noteq> Terminate \<and> (\<exists>w ts.
    v = t\<lparr>world := w, submitted_ops := AList.update p p (submitted_ops t),
         stream_tasks := (stream_tasks t)(Stream_getHipStream st := stream_tasks t (Stream_getHipStream st) @ ts)\<rparr> \<and>
    tasks_ok (if stream_fixed st then {p} else {}) {p} ts \<and>
    (r = Ret () \<longrightarrow> (\<exists>n. ts = submission_tasks type st n p)))"
proof -
  let ?q = "Stream_getHipStream st"
  let ?a = "t\<lparr>op_heap := (op_heap t)(p \<mapsto> (op, 2)), submitted_ops := AList.update p p (submitted_ops t)\<rparr>"
  let ?m = "cbind (AsyncOpFallback_devPtr x p) (\<lambda>d. Fallback_async_enqueue x type b st p d)
    :: (('w, 'z) async_state_scheme, unit) cxx"
  have add: "AsyncMonitor_addOp x p t = (Ret (), ?a)"
    using new live by (simp add: AsyncMonitor_addOp_def cxx_defs sp_copy_def numeral_2_eq_2)
  have "world_only (AsyncOpFallback_devPtr x p)" by (simp add: AsyncOpFallback_devPtr_def world_only_attr)
  note m = launches_cbind [OF launches_world_only [OF this] launches_enqueue_all]
  obtain r1 a1 where a1: "?m ?a = (r1, a1)" by fastforce
  have "r1 \<noteq> Terminate \<and> (\<exists>ts. appends ?q ?a a1 ts \<and> tasks_ok (if stream_fixed st then {p} else {}) {p} ts \<and>
      (r1 = Ret () \<longrightarrow> (\<exists>n. ts = submission_tasks type st n p)))"
    by (rule launchesE [OF m a1]) auto
  then obtain ts where r1: "r1 \<noteq> Terminate" and app: "appends ?q ?a a1 ts"
    and ts: "tasks_ok (if stream_fixed st then {p} else {}) {p} ts"
      "r1 = Ret () \<longrightarrow> (\<exists>n. ts = submission_tasks type st n p)"
    by blast
  from app obtain w where a1': "a1 = ?a\<lparr>world := w, stream_tasks := (stream_tasks t)(?q := stream_tasks t ?q @ ts)\<rparr>"
    by (auto simp: appends_def)
  have "AsyncOp_drop x p a1 = (Ret (), a1\<lparr>op_heap := op_heap t\<rparr>)"
    using live by (simp add: AsyncOp_drop_def sp_release_def a1' fun_upd_idem)
  then have "r = r1" "v = a1\<lparr>op_heap := op_heap t\<rparr>"
    using run add a1 r1 by (simp_all add: cscope_def cbind_def split: outcome.splits)
  with r1 ts a1' show ?thesis by (auto intro!: exI [of _ w] exI [of _ ts])
qed

text \<open>
  What a submission does to the operations: none is added, or one whose tasks stand at the end of the
  queue of its stream.
\<close>

definition submitted :: "IoType \<Rightarrow> Stream \<Rightarrow> ('w, 'z) async_state_scheme \<Rightarrow> ('w, 'z) async_state_scheme \<Rightarrow> bool \<Rightarrow> bool" where
  "submitted type so s t ok \<longleftrightarrow>
     completed_ops t = completed_ops s \<and>
     (\<exists>p op ts. op_heap s p = None \<and> ops t = ops s @ [p] \<and> op_heap t = (op_heap s)(p \<mapsto> (op, 1)) \<and>
        stream_tasks t = (stream_tasks s)(st_hip_stream so := stream_tasks s (st_hip_stream so) @ ts) \<and>
        (ok \<longrightarrow> (\<exists>n. ts = submission_tasks type so n p)))"

definition not_submitted :: "('w, 'z) async_state_scheme \<Rightarrow> ('w, 'z) async_state_scheme \<Rightarrow> bool" where
  "not_submitted s t \<longleftrightarrow>
     completed_ops t = completed_ops s \<and> ops t = ops s \<and> op_heap t = op_heap s \<and> stream_tasks t = stream_tasks s"

lemma submit_op_inv:
  fixes s t :: "('w, 'z) async_state_scheme"
  assumes inv: "async_inv EB EF ES s" and pos: "0 < EB b" "0 < EF f" "0 < ES st" and x: "closes x"
    and fresh: "fresh_op x s"
    and run: "cbind (AsyncOpFallback_make x type f b st bo so size_p fo_p bo_p bt_p) (\<lambda>op.
        cscope (cbind (AsyncMonitor_addOp x op) (\<lambda>_. cbind (AsyncOpFallback_devPtr x op) (\<lambda>d.
          Fallback_async_enqueue x type bo so op d))) (AsyncOp_drop x op)) s = (r, t)"
  shows "r \<noteq> Terminate \<and> async_inv EB EF ES t \<and>
    (not_submitted s t \<and> r \<noteq> Ret () \<or> submitted type so s t (r = Ret ()))"
proof -
  let ?EB = "own_add EB (buf_uses s)" and ?EF = "own_add EF (file_uses s)" and ?ES = "own_add ES (stream_uses s)"
  have drv: "drv_inv ?EB ?EF ?ES s" and mon: "monitor_inv s" using inv by (simp_all add: async_inv_def)
  obtain r1 u where u: "AsyncOpFallback_make x type f b st bo so size_p fo_p bo_p bt_p s = (r1, u)" by fastforce
  note mk = make_step [OF drv _ _ _ x fresh u]
  show ?thesis
  proof (cases r1)
    case (Exn e)
    with mk pos have "drv_inv ?EB ?EF ?ES u" "drv_rest u = drv_rest s" by simp_all
    moreover note rest = rest_async [OF this(2)]
    ultimately have "async_inv EB EF ES u" using inv by (simp add: async_inv_def)
    with run u Exn rest show ?thesis by (auto simp: cbind_def not_submitted_def)
  next
    case Terminate
    with mk pos show ?thesis by simp
  next
    case (Ret p)
    with mk pos obtain op u' where u': "op_heap s p = None" "drv_rest u' = drv_rest s"
        "u = u'\<lparr>op_heap := sp_make p op (op_heap s)\<rparr>"
        "drv_inv (?EB(b := Suc (?EB b))) (?EF(f := Suc (?EF f))) (?ES(st := Suc (?ES st))) u'"
        "ao_file op = Some f" "ao_buffer op = Some b" "ao_stream op = Some st" "stream_fixed so \<longrightarrow> op_bound op"
      by auto
    note rest = rest_async [OF u'(2)]
    have new: "map_of (submitted_ops s) p = None" by (rule monitor_fresh [OF mon u'(1)])
    have "op_heap u p = Some (op, 1)" "map_of (submitted_ops u) p = None"
      using new by (simp_all add: u'(3) sp_make_def rest)
    moreover have "cscope (cbind (AsyncMonitor_addOp x p) (\<lambda>_. cbind (AsyncOpFallback_devPtr x p) (\<lambda>d.
        Fallback_async_enqueue x type bo so p d))) (AsyncOp_drop x p) u = (r, t)"
      using run u Ret by (simp add: cbind_def)
    ultimately obtain w ts where t: "t = u\<lparr>world := w, submitted_ops := AList.update p p (submitted_ops u),
         stream_tasks := (stream_tasks u)(Stream_getHipStream so := stream_tasks u (Stream_getHipStream so) @ ts)\<rparr>"
      and r: "r \<noteq> Terminate" and ts: "tasks_ok (if stream_fixed so then {p} else {}) {p} ts"
         "r = Ret () \<longrightarrow> (\<exists>n. ts = submission_tasks type so n p)"
      using add_enqueue_step by blast
    have eqs: "op_heap t = (op_heap s)(p \<mapsto> (op, 1))" "submitted_ops t = AList.update p p (submitted_ops s)"
      "completed_ops t = completed_ops s"
      "stream_tasks t = (stream_tasks s)(Stream_getHipStream so := stream_tasks s (Stream_getHipStream so) @ ts)"
      by (simp_all add: t u'(3) sp_make_def rest)
    have "drv_inv (?EB(b := Suc (?EB b))) (?EF(f := Suc (?EF f))) (?ES(st := Suc (?ES st))) t"
      using u'(4) by (simp add: t u'(3) drv_inv_world)
    moreover have "(if stream_fixed so then {p} else {}) \<subseteq> bound_ops t"
      using u'(8) by (auto simp: bound_ops_def eqs sp_obj_def)
    ultimately have "async_inv EB EF ES t"
      by (intro async_inv_add [OF inv u'(1,5,6,7) _ eqs ts(1)])
    moreover have "ops t = ops s @ [p]" using new by (simp add: ops_def eqs update_new map_of_None_iff)
    ultimately show ?thesis
      using r eqs ts(2) u'(1) unfolding submitted_def Stream_getHipStream_def by blast
  qed
qed

text \<open>A change of the variables of the client does not touch the invariant.\<close>

lemma async_inv_client [simp]: "async_inv EB EF ES (s\<lparr>client_vars := v\<rparr>) = async_inv EB EF ES s"
  by (simp add: async_inv_base queues_inv_def)

lemma fresh_op_client [simp]: "fresh_op x (s\<lparr>client_vars := v\<rparr>) = fresh_op x s"
  by (simp add: fresh_op_def)

lemma not_submitted_client: "not_submitted s (s\<lparr>client_vars := v\<rparr>)" "not_submitted s s"
  by (simp_all add: not_submitted_def ops_def)

lemma submitted_client:
  "not_submitted (s\<lparr>client_vars := v\<rparr>) t = not_submitted s t"
  "submitted type so (s\<lparr>client_vars := v\<rparr>) t ok = submitted type so s t ok"
  by (simp_all add: not_submitted_def submitted_def ops_def)

lemma Fallback_async_io_inv:
  fixes s t :: "('w, 'z) async_state_scheme"
  assumes inv: "async_inv EB EF ES s" and pos: "0 < EB b" "0 < EF f" "0 < ES st" and x: "closes x"
    and fresh: "fresh_op x s" and so: "sp_obj st (stream_heap s) = Some so"
    and run: "Fallback_async_io x type f b size_p fo_p bo_p bt_p st s = (r, t)"
  shows "r \<noteq> Terminate \<and> async_inv EB EF ES t \<and>
    (not_submitted s t \<or> submitted type so s t (r = Ret ()))"
proof -
  have "drv_inv (own_add EB (buf_uses s)) (own_add EF (file_uses s)) (own_add ES (stream_uses s)) s"
    using inv by (simp add: async_inv_def)
  from drv_live(1) [OF this, of b] pos obtain bo where bo: "sp_obj b (buf_heap s) = Some bo" by auto
  let ?s = "s\<lparr>client_vars := (client_vars s)(bt_p := 0)\<rparr>"
  let ?m = "cbind (AsyncOpFallback_make x type f b st bo so size_p fo_p bo_p bt_p) (\<lambda>op.
        cscope (cbind (AsyncMonitor_addOp x op) (\<lambda>_. cbind (AsyncOpFallback_devPtr x op) (\<lambda>d.
          Fallback_async_enqueue x type bo so op d))) (AsyncOp_drop x op)) :: (('w, 'z) async_state_scheme, unit) cxx"
  have "\<exists>e. r = Exn e \<and> t = s \<or> r = Ret () \<and> t = ?s \<or> ?m ?s = (r, t)"
    using run so bo
    by (auto simp: Fallback_async_io_def cbind_def getMaxRwCount_eq cget_def cthrow_def client_store_def
        cmodify_def cret_def split: if_splits)
  then consider (exn) e where "r = Exn e" "t = s" | (empty) "r = Ret ()" "t = ?s" | (run) "?m ?s = (r, t)" by blast
  then show ?thesis
  proof cases
    case run
    have "async_inv EB EF ES ?s" "fresh_op x ?s" using inv fresh by simp_all
    note sub = submit_op_inv [OF this(1) pos x this(2) run]
    then show ?thesis by (auto simp: submitted_client)
  qed (use inv in \<open>simp_all add: not_submitted_client\<close>)
qed

end
