(* ===== verification/No_Status.thy ===== *)
theory No_Status
  imports Process_Safety
begin

text \<open>
  Only the public functions throw a \<^verbatim>\<open>hipFileError_t\<close>; what they call does not, so that a call fails
  with an error.
\<close>

definition no_status :: "('s, 'a) cxx \<Rightarrow> bool" where
  "no_status m \<longleftrightarrow> (\<forall>s e t. m s \<noteq> (Exn (Thrown_hipFileError e), t))"

lemma no_statusD: "no_status m \<Longrightarrow> m s = (Exn ex, t) \<Longrightarrow> ex \<noteq> Thrown_hipFileError e"
  by (auto simp: no_status_def)

lemma no_status_basic [intro]:
  "no_status (cret a)" "no_status (cget f)" "no_status (cmodify g)" "no_status (call_ext h)"
  "no_status (throwOn x v w)"
  by (simp_all add: no_status_def cret_def cget_def cmodify_def call_ext_def throwOn_def split: prod.split)

lemma no_status_cthrow [intro]: "(\<And>e. ex \<noteq> Thrown_hipFileError e) \<Longrightarrow> no_status (cthrow ex)"
  by (simp add: no_status_def cthrow_def)

lemma no_status_cbind [intro]: "no_status m \<Longrightarrow> (\<And>a. no_status (k a)) \<Longrightarrow> no_status (cbind m k)"
  unfolding no_status_def cbind_def by (auto split: outcome.splits prod.splits)

lemma no_status_ccatch [intro]: "(\<And>e. no_status (h e)) \<Longrightarrow> no_status (ccatch m h)"
  unfolding no_status_def ccatch_def by (auto split: outcome.splits prod.splits)

lemma no_status_rethrow [intro]:
  assumes "no_status m" and "\<And>e. (\<And>f. e \<noteq> Thrown_hipFileError f) \<Longrightarrow> no_status (h e)"
  shows "no_status (ccatch m h)"
  unfolding no_status_def
proof (intro allI)
  fix s e t
  obtain r u where m: "m s = (r, u)" by fastforce
  show "ccatch m h s \<noteq> (Exn (Thrown_hipFileError e), t)"
  proof (cases r)
    case (Exn ex)
    with m have "ex \<noteq> Thrown_hipFileError f" for f using no_statusD [OF assms(1)] by simp
    then have "no_status (h ex)" by (rule assms(2))
    with m Exn show ?thesis by (auto simp: ccatch_def no_status_def)
  qed (use m in \<open>auto simp: ccatch_def\<close>)
qed

lemma no_status_if [intro]: "no_status m \<Longrightarrow> no_status n \<Longrightarrow> no_status (if b then m else n)"
  by simp

lemma no_status_prod [intro]: "(\<And>a b. no_status (f a b)) \<Longrightarrow> no_status (case p of (a, b) \<Rightarrow> f a b)"
  by (cases p) simp

lemma no_status_throwOnHipError [intro]: "no_status (throwOnHipError r)"
  by (simp add: no_status_def throwOnHipError_def cthrow_def cret_def)

lemma no_status_hip [intro]: "no_status (hip_call1 f)" "no_status (hip_call0 g)"
  unfolding hip_call1_def hip_call0_def
  by (intro no_status_cbind no_status_prod no_status_basic no_status_throwOnHipError)+

lemma no_status_scopes [intro]: "no_status m \<Longrightarrow> no_status (cscope m d)" "no_status m \<Longrightarrow> no_status (cunwind m d)"
  by (auto simp: no_status_def cscope_def cunwind_def split: prod.splits outcome.splits)

lemma no_status_cwhen [intro]: "no_status m \<Longrightarrow> no_status (cwhen b m)"
  by (auto simp: cwhen_def)

lemma no_status_option [intro]:
  "no_status m \<Longrightarrow> (\<And>p. no_status (n p)) \<Longrightarrow> no_status (\<lambda>s. case f s of None \<Rightarrow> m s | Some p \<Rightarrow> n p s)"
  by (auto simp: no_status_def split: option.split)

lemma no_status_results [intro]: "no_status (\<lambda>s. (Ret (a s), g s))" "no_status (\<lambda>s. (Terminate, g s))"
  by (simp_all add: no_status_def)

lemmas no_status_intros = no_status_cbind no_status_if no_status_prod no_status_hip no_status_basic
  no_status_cthrow no_status_throwOnHipError

lemma no_status_Stream_ctor: "no_status (Stream_ctor x hs flags)"
  unfolding Stream_ctor_def Let_def hipStreamGetDevice_def by (intro no_status_intros) simp

lemma no_status_isValidBufferRegion: "no_status (isValidBufferRegion x p n)"
  unfolding isValidBufferRegion_def hipMemGetAddressRange_def
  by (intro no_status_rethrow no_status_intros) simp_all

lemma no_status_Buffer_ctor: "no_status (Buffer_ctor x buf len bflags)"
  unfolding Buffer_ctor_def hipPointerGetAttributes_def
  by (intro no_status_intros no_status_isValidBufferRegion) simp_all

lemma no_status_getMountInfo: "no_status (getMountInfo x dev)"
  unfolding getMountInfo_def mnt_free_def by (intro no_status_intros) simp_all

lemma no_status_UnregisteredFile_ctor: "no_status (UnregisteredFile_ctor x fd)"
proof -
  have handler: "no_status (case e of
                      Std_system_error c \<Rightarrow> if c \<noteq> EINVAL then cthrow e else cret a
                    | _ \<Rightarrow> cthrow e)" if "\<And>f. e \<noteq> Thrown_hipFileError f" for e and a :: UnregisteredFile
    using that by (cases e) auto
  have c: "no_status (Sys_open x p fl m)" "no_status (Sys_fcntl x fd' op arg)"
    "no_status (Sys_statx x fd' p' fl' req)" for p fl m fd' op arg p' fl' req
    unfolding Sys_open_def Sys_fcntl_def Sys_statx_def by (intro no_status_intros)+
  show ?thesis
    unfolding UnregisteredFile_ctor_def Let_def
    by (intro no_status_cbind no_status_if no_status_rethrow handler c no_status_getMountInfo no_status_basic)
qed

lemma no_status_registerBuffer: "no_status (DriverState_registerBuffer x na buf len flags)"
  unfolding DriverState_registerBuffer_def BufferMap_registerBuffer_def
  by (intro no_status_intros no_status_Buffer_ctor) simp_all

lemma no_status_registerStream: "no_status (DriverState_registerStream x na hs flags)"
  unfolding DriverState_registerStream_def StreamMap_registerStream_def
  by (intro no_status_intros no_status_Stream_ctor) simp_all

end
