(* ===== verification/Async_Api.thy ===== *)
theory Async_Api
  imports Async_Submission No_Status
begin

text \<open>
  The public functions \<^verbatim>\<open>hipFileReadAsync\<close> and \<^verbatim>\<open>hipFileWriteAsync\<close>: they always return, they keep the
  invariant, and they report a success exactly when the operation is submitted as a whole.
\<close>

section \<open>The public functions\<close>

lemma own_add_upd: "own_add (E(p := Suc (E p))) F = (own_add E F)(p := Suc (own_add E F p))"
  by (auto simp: fun_eq_iff)

lemma own_add_idem [simp]: "(own_add E F)(p := E p + F p) = own_add E F"
  by (rule fun_upd_idem) simp

lemma checkNull_eq:
  "checkNull ps s =
     (if nullptr \<in> set ps then (Exn (Thrown_hipFileError (hipFile_status hipFileInvalidValue)), s) else (Ret (), s))"
  by (induction ps) (auto simp: cret_def cthrow_def)

lemma async_inv_rest:
  fixes s t :: "('w, 'z) async_state_scheme"
  assumes "async_inv EB EF ES s" and "drv_rest t = drv_rest s"
    and "drv_inv (own_add EB' (buf_uses s)) (own_add EF' (file_uses s)) (own_add ES' (stream_uses s)) t"
  shows "async_inv EB' EF' ES' t"
  using assms rest_async [OF assms(2)] by (simp add: async_inv_def)

lemma submitted_rest:
  fixes s t u :: "('w, 'z) async_state_scheme"
  assumes "drv_rest t = drv_rest s"
  shows "not_submitted t u = not_submitted s u" "submitted type so t u ok = submitted type so s u ok"
    "not_submitted u t = not_submitted u s" "submitted type so u t ok = submitted type so u s ok"
  by (simp_all add: not_submitted_def submitted_def rest_async [OF assms])

lemma IOAsync_body_inv:
  fixes s t :: "('w, 'z) async_state_scheme"
  assumes inv: "async_inv EB EF ES s" and nb: "buf_heap s nb = None" and ns: "stream_heap s ns = None"
    and x: "closes x" and fresh: "fresh_op x s"
    and run: "cbind (DriverState_getFileBufferAndStream x nb ns fh buf hs) (\<lambda>fbs.
               cscope
                 (cbind (Fallback_async_io x type (fst fbs) (fst (snd fbs)) size_p fo_p bo_p bt_p (snd (snd fbs)))
                    (\<lambda>_. cret (hipFile_status hipFileSuccess)))
                 (file_buffer_stream_dtor x fbs)) s = (r, t)"
  shows "r \<noteq> Terminate \<and> async_inv EB EF ES t \<and> (\<forall>e. r = Ret e \<longrightarrow> e = hipFile_status hipFileSuccess) \<and>
    (not_submitted s t \<or> (\<exists>so. st_hip_stream so = hs \<and> submitted type so s t (\<exists>e. r = Ret e)))"
proof -
  have drv: "drv_inv (own_add EB (buf_uses s)) (own_add EF (file_uses s)) (own_add ES (stream_uses s)) s"
    using inv by (simp add: async_inv_def)
  obtain r1 u where u: "DriverState_getFileBufferAndStream x nb ns fh buf hs s = (r1, u)" by fastforce
  note g = getFileBufferAndStream_inv [OF drv nb ns u x]
  then have rest: "drv_rest u = drv_rest s" by (rule conjunct1)
  show ?thesis
  proof (cases r1)
    case (Exn e)
    with g have "async_inv EB EF ES u" by (intro async_inv_rest [OF inv rest]) simp
    moreover have "not_submitted s u" by (simp add: not_submitted_def rest_async [OF rest])
    ultimately show ?thesis using run u Exn by (auto simp: cbind_def)
  next
    case Terminate
    with g show ?thesis by simp
  next
    case (Ret fbs)
    obtain f b st where fbs: "fbs = (f, b, st)" by (cases fbs)
    let ?EB = "EB(b := Suc (EB b))" and ?EF = "EF(f := Suc (EF f))" and ?ES = "ES(st := Suc (ES st))"
    from g Ret fbs obtain so where so: "sp_obj st (stream_heap u) = Some so" "st_hip_stream so = hs" by auto
    have i1: "async_inv ?EB ?EF ?ES u"
      by (rule async_inv_rest [OF inv rest]) (use g Ret fbs in \<open>simp only: own_add_upd outcome.case prod.case\<close>)
    have fr: "fresh_op x u" using fresh by (simp add: fresh_op_def rest_async [OF rest])
    obtain r2 v where v: "Fallback_async_io x type f b size_p fo_p bo_p bt_p st u = (r2, v)" by fastforce
    note io = Fallback_async_io_inv [OF i1 _ _ _ x fr so(1) v]
    then have i2: "async_inv ?EB ?EF ?ES v" and r2: "r2 \<noteq> Terminate" by simp_all
    obtain r3 w where w: "file_buffer_stream_dtor x (f, b, st) v = (r3, w)" by fastforce
    have never: "never_ends (file_buffer_stream_dtor x (f, b, st) :: (('w, 'z) async_state_scheme, unit) cxx)"
      unfolding file_buffer_stream_dtor_def prod.case Stream_drop_def Buffer_drop_def
      by (intro never_ends_cbind never_ends_simps never_ends_File_drop x)
    have i2': "drv_inv (own_add ?EB (buf_uses v)) (own_add ?EF (file_uses v)) (own_add ?ES (stream_uses v)) v"
      using i2 by (simp add: async_inv_def)
    have drops: "drv_inv (own_add EB (buf_uses v)) (own_add EF (file_uses v)) (own_add ES (stream_uses v)) w \<and>
        r3 = Ret () \<and> drv_rest w = drv_rest v"
      using three_drops_inv [OF i2' _ _ _ w [unfolded file_buffer_stream_dtor_def prod.case]]
        never_endsD [OF never, of v w] w
      by (auto simp: own_add_upd)
    then have i3: "async_inv EB EF ES w" by (intro async_inv_rest [OF i2]) auto
    have "r = (case r2 of Ret _ \<Rightarrow> Ret (hipFile_status hipFileSuccess) | Exn e \<Rightarrow> Exn e)" "t = w"
      using run u Ret fbs v w r2 drops by (auto simp: cbind_def cscope_def cret_def split: outcome.splits)
    with i3 io r2 so(2) show ?thesis
      by (cases r2) (auto simp: submitted_rest [OF rest] submitted_rest [OF conjunct2 [OF conjunct2 [OF drops]]])
  qed
qed


text \<open>The result that each exception is mapped to.\<close>

definition async_result :: "exn \<Rightarrow> hipFileError_t" where
  "async_result ex =
     (case ex of
        Thrown_hipFileError e \<Rightarrow> e
      | Std_bad_alloc \<Rightarrow> \<lparr>err = hipFileHipDriverError, hip_drv_err = hipErrorOutOfMemory\<rparr>
      | FileNotRegistered \<Rightarrow> hipFile_status hipFileHandleNotRegistered
      | _ \<Rightarrow> if is_invalid_argument ex then hipFile_status hipFileInvalidValue else handle_exception ex)"

lemma async_inv_same_ops:
  fixes s t :: "('w, 'z) async_state_scheme"
  assumes inv: "async_inv EB EF ES s"
    and drv: "drv_inv (own_add EB' (buf_uses s)) (own_add EF' (file_uses s)) (own_add ES' (stream_uses s)) t"
    and same: "op_heap t = op_heap s" "submitted_ops t = submitted_ops s"
      "completed_ops t = completed_ops s" "stream_tasks t = stream_tasks s"
  shows "async_inv EB' EF' ES' t"
proof -
  have "buf_uses t = buf_uses s" "file_uses t = file_uses s" "stream_uses t = stream_uses s"
    "monitor_inv t = monitor_inv s" "queues_inv t = queues_inv s"
    using same by (simp_all add: ops_def buf_uses_def file_uses_def stream_uses_def monitor_inv_def
        queues_inv_def pending_def bound_ops_def)
  with inv drv show ?thesis by (simp add: async_inv_def)
qed

lemma async_inv_implicit_init:
  fixes s :: "('w, 'z) async_state_scheme"
  assumes "async_inv EB EF ES s"
  shows "async_inv EB EF ES (implicit_init s)"
proof (rule async_inv_same_ops [OF assms])
  show "drv_inv (own_add EB (buf_uses s)) (own_add EF (file_uses s)) (own_add ES (stream_uses s)) (implicit_init s)"
    using assms implicit_init_inv by (auto simp: async_inv_def)
qed (simp_all add: implicit_init_def)

section \<open>No status is thrown\<close>

lemma no_status_lookups:
  "no_status (FileMap_getFile fh)" "no_status (BufferMap_getBuffer x nb buf)" "no_status (StreamMap_getStream x ns hs)"
proof -
  show "no_status (FileMap_getFile fh)"
    by (auto simp: no_status_def FileMap_getFile_def split: option.splits)
  have temp: "no_status (Buffer_ctor_temp x buf)"
    unfolding Buffer_ctor_temp_def hipPointerGetAttributes_def hipMemGetAddressRange_def
    by (intro no_status_intros) simp_all
  show "no_status (BufferMap_getBuffer x nb buf)"
    unfolding BufferMap_getBuffer_def [abs_def] by (intro no_status_option no_status_intros temp no_status_results)
  show "no_status (StreamMap_getStream x ns hs)"
    unfolding StreamMap_getStream_def [abs_def]
    by (intro no_status_option no_status_intros no_status_Stream_ctor no_status_results)
qed

lemma no_status_getFileBufferAndStream: "no_status (DriverState_getFileBufferAndStream x nb ns fh buf hs)"
  unfolding DriverState_getFileBufferAndStream_def
  by (intro no_status_intros no_status_scopes no_status_lookups) simp

lemma no_status_calls:
  "no_status (getMaxRwCount x)" "no_status (hipHostMalloc x n f)" "no_status (hipHostGetDevicePointer x p g)"
  "no_status (hipDeviceGetAttribute x d)" "no_status (Sys_syslog x l m)" "no_status (client_store p v)"
  "no_status (enqueue_task hs task)" "no_status (AsyncOp_take f' b st)"
  by (auto simp: no_status_def getMaxRwCount_eq client_store_def enqueue_task_def AsyncOp_take_def cmodify_def)
    (auto simp: hipHostMalloc_def hipHostGetDevicePointer_def hipDeviceGetAttribute_def Sys_syslog_def
      dest: no_statusD [OF no_status_hip(1)] no_statusD [OF no_status_hip(2)] no_statusD [OF no_status_basic(4)])

lemma no_status_launches:
  "no_status (launch_host_func x hs fn p)" "no_status (launch_memcpy_kernel x hs n d p)"
  unfolding launch_host_func_def launch_memcpy_kernel_def hipLaunchHostFunc_def hipLaunchKernel_def
  by (intro no_status_intros no_status_calls)+

lemma no_status_enqueue: "no_status (Fallback_async_enqueue x type b st p d)"
  unfolding Fallback_async_enqueue_def Let_def
  by (intro no_status_rethrow no_status_intros no_status_cwhen no_status_calls no_status_launches no_status_ccatch)
    (auto split: IoType.split intro!: no_status_cbind no_status_launches)

lemma no_status_make: "no_status (AsyncOpFallback_make x type f b st bo so size_p fo_p bo_p bt_p)"
  unfolding AsyncOpFallback_make_def AsyncOpFallback_new_def AsyncOpFallback_ctor_def Let_def
  by (intro no_status_intros no_status_scopes no_status_ccatch no_status_calls) simp

lemma no_status_drops: "no_status (File_drop x p)" "no_status (Buffer_drop p)" "no_status (Stream_drop p)"
  "no_status (opt_do f None)"
proof -
  show "no_status (File_drop x p)"
    unfolding no_status_def
  proof (intro allI)
    fix s e t
    show "File_drop x p s \<noteq> (Exn (Thrown_hipFileError e), t)" by (rule File_drop_outcome [of x p s]) auto
  qed
qed (auto simp: Buffer_drop_def Stream_drop_def opt_do_def)

lemma no_status_opt_do: "(\<And>p. no_status (f p)) \<Longrightarrow> no_status (opt_do f v)"
  by (cases v) (auto simp: opt_do_def)

lemma no_status_deleters: "no_status (hipHostDeleter x p)" "no_status (AsyncOpFallback_delete x p)"
  unfolding no_status_def using deleters_world by (metis outcome.distinct(1) prod.inject)+

lemma no_status_AsyncOp_drop: "no_status (AsyncOp_drop x p :: (('w, 'z) async_state_scheme, unit) cxx)"
  unfolding no_status_def
proof (intro allI)
  fix s t :: "('w, 'z) async_state_scheme" and e
  have "no_status (cbind (AsyncOpFallback_dtor x op) (\<lambda>_. AsyncOpFallback_delete x p)
      :: (('w, 'z) async_state_scheme, unit) cxx)" for op
    unfolding AsyncOpFallback_dtor_def AsyncOp_dtor_def
    by (intro no_status_intros no_status_deleters no_status_opt_do no_status_drops)
  then show "AsyncOp_drop x p s \<noteq> (Exn (Thrown_hipFileError e), t)"
    by (auto simp: AsyncOp_drop_def no_status_def split: prod.splits option.splits)
qed

lemma no_status_addOp: "no_status (AsyncMonitor_addOp x p)"
  unfolding AsyncMonitor_addOp_def by (intro no_status_intros no_status_AsyncOp_drop)

lemma no_status_Fallback_async_io:
  "no_status (Fallback_async_io x type f b size_p fo_p bo_p bt_p st :: (('w, 'z) async_state_scheme, unit) cxx)"
  unfolding no_status_def
proof (intro allI)
  fix s t :: "('w, 'z) async_state_scheme" and e
  let ?body = "\<lambda>bo so. cbind (getMaxRwCount x) (\<lambda>limit.
          cbind (cget client_vars) (\<lambda>vars.
            if \<not> paramsValid bo (min (vars size_p) limit) (vars fo_p) (vars bo_p)
            then cthrow Std_invalid_argument
            else if Buffer_getGpuId bo \<noteq> Stream_getHipDevice so then cthrow Std_invalid_argument
            else cbind (client_store bt_p 0) (\<lambda>_.
                 cbind (cget client_vars) (\<lambda>vars'.
                   if vars' size_p = 0 then cret ()
                   else cbind (AsyncOpFallback_make x type f b st bo so size_p fo_p bo_p bt_p) (\<lambda>op.
                        cscope
                          (cbind (AsyncMonitor_addOp x op) (\<lambda>_.
                           cbind (AsyncOpFallback_devPtr x op) (\<lambda>op_dev_ptr.
                           Fallback_async_enqueue x type bo so op op_dev_ptr)))
                          (AsyncOp_drop x op))))))
      :: (('w, 'z) async_state_scheme, unit) cxx"
  have "no_status (?body bo so)" for bo so
    unfolding AsyncOpFallback_devPtr_def
    by (intro no_status_intros no_status_scopes no_status_calls no_status_make no_status_addOp no_status_enqueue)
      simp_all
  then show "Fallback_async_io x type f b size_p fo_p bo_p bt_p st s \<noteq> (Exn (Thrown_hipFileError e), t)"
    by (auto simp: Fallback_async_io_def no_status_def split: option.split)
qed

text \<open>An exception is never reported as a success.\<close>

lemma async_result_not_success:
  "(\<And>f. ex \<noteq> Thrown_hipFileError f) \<Longrightarrow> err (async_result ex) \<noteq> hipFileSuccess"
  by (cases ex) (auto simp: async_result_def handle_exception_def)

lemma hipFileIOAsync_inv:
  fixes s t :: "('w, 'z) async_state_scheme"
  assumes inv: "async_inv EB EF ES s" and nb: "buf_heap s nb = None" and ns: "stream_heap s ns = None"
    and x: "closes x" and fresh: "fresh_op x s"
    and run: "hipFileIOAsync x nb ns type fh buf size_p fo_p bo_p bt_p hs s = (r, t)"
  shows "(\<exists>e. r = Ret e) \<and> async_inv EB EF ES t \<and>
    (not_submitted s t \<or> (\<exists>so ok. st_hip_stream so = hs \<and> submitted type so s t ok \<and>
       (ok \<longleftrightarrow> r = Ret (hipFile_status hipFileSuccess))))"
proof (cases "ref_count s = 0")
  case True
  have "hipFileIOAsync x nb ns type fh buf size_p fo_p bo_p bt_p hs s =
      (Ret (hipFile_status hipFileInvalidValue), implicit_init s)"
    by (simp add: hipFileIOAsync_def ensureDriverInit_def DriverState_ensureInitialized_def True
        DriverState_getRefCount_def ccatch_def cbind_def cget_def cmodify_def cret_def implicit_init_def)
  with run have "r = Ret (hipFile_status hipFileInvalidValue)" "t = implicit_init s" by simp_all
  moreover have "not_submitted s (implicit_init s)"
    by (simp add: not_submitted_def implicit_init_def ops_def)
  ultimately show ?thesis using async_inv_implicit_init [OF inv] by simp
next
  case False
  show ?thesis
  proof (cases "nullptr \<in> set [buf, size_p, fo_p, bo_p, bt_p]")
    case True
    with False run have "r = Ret (hipFile_status hipFileInvalidValue)" "t = s"
      by (simp_all add: hipFileIOAsync_def DriverState_getRefCount_def ccatch_def cbind_def cget_def
          checkNull_eq cret_def del: checkNull.simps)
    with inv show ?thesis by (simp add: not_submitted_client)
  next
    case nonnull: False
    let ?body = "cbind (DriverState_getFileBufferAndStream x nb ns fh buf hs) (\<lambda>fbs.
               cscope
                 (cbind (Fallback_async_io x type (fst fbs) (fst (snd fbs)) size_p fo_p bo_p bt_p (snd (snd fbs)))
                    (\<lambda>_. cret (hipFile_status hipFileSuccess)))
                 (file_buffer_stream_dtor x fbs)) :: (('w, 'z) async_state_scheme, hipFileError_t) cxx"
    obtain r1 u where u: "?body s = (r1, u)" by fastforce
    note body = IOAsync_body_inv [OF inv nb ns x fresh u]
    have "r = (case r1 of Exn e \<Rightarrow> Ret (async_result e) | _ \<Rightarrow> r1)" "t = u"
      using run u False nonnull
      by (auto simp: hipFileIOAsync_def DriverState_getRefCount_def ccatch_def cbind_def cget_def
          checkNull_eq cret_def async_result_def simp del: checkNull.simps split: outcome.splits)
    moreover have "no_status ?body"
      by (intro no_status_intros no_status_scopes no_status_getFileBufferAndStream no_status_Fallback_async_io)
    then have "async_result ex \<noteq> hipFile_status hipFileSuccess" if "r1 = Exn ex" for ex
      using async_result_not_success [of ex] no_statusD [where m = ?body and s = s and ex = ex and t = u] u that
      by force
    ultimately show ?thesis using body by (cases r1) auto
  qed
qed

end
