(* ===== verification/Runs.thy ===== *)
theory Runs
  imports Prelude
begin

text \<open>
  The contracts that the theorems on whole runs rest on: a step relation that keeps an invariant, one
  whose steps use up work, and functions whose calls are steps of an abstract specification.
  \<^verbatim>\<open>Driver_Spec\<close> and \<^verbatim>\<open>Async_System\<close> provide them.
\<close>

section \<open>Step relations\<close>

locale invariant_system =
  fixes step :: "'s \<Rightarrow> 's \<Rightarrow> bool"
    and inv :: "'s \<Rightarrow> bool"
  assumes step_inv: "inv s \<Longrightarrow> step s t \<Longrightarrow> inv t"
begin

lemma run_inv: "step\<^sup>*\<^sup>* s t \<Longrightarrow> inv s \<Longrightarrow> inv t"
  by (induction rule: rtranclp_induct) (auto intro: step_inv)

end

text \<open>Steps that use up work: runs are bounded, and an end is reached.\<close>

locale draining_system = invariant_system step inv
  for step :: "'s \<Rightarrow> 's \<Rightarrow> bool" and inv :: "'s \<Rightarrow> bool" +
  fixes work :: "'s \<Rightarrow> nat"
  assumes step_work: "inv s \<Longrightarrow> step s t \<Longrightarrow> work t < work s"
begin

lemma run_bounded: "(step ^^ n) s t \<Longrightarrow> inv s \<Longrightarrow> n + work t \<le> work s"
proof (induction n arbitrary: s)
  case (Suc n)
  from Suc.prems(1) obtain u where "step s u" "(step ^^ n) u t" by (rule relpowp_Suc_E2)
  with Suc.IH [of u] step_inv [of s u] step_work [of s u] Suc.prems(2) show ?case by simp
qed simp

lemma run_ends: "inv s \<Longrightarrow> \<exists>t. step\<^sup>*\<^sup>* s t \<and> inv t \<and> (\<forall>u. \<not> step t u)"
proof (induction "work s" arbitrary: s rule: less_induct)
  case less
  show ?case
  proof (cases "\<exists>u. step s u")
    case True
    then obtain u where "step s u" by blast
    with less.hyps [of u] step_inv [of s u] step_work [of s u] less.prems show ?thesis
      by (meson converse_rtranclp_into_rtranclp)
  qed (use less.prems in blast)
qed

end

section \<open>Sequences of calls\<close>

text \<open>
  The calls of a client one after the other, what each of them needs of the state it meets, and the
  results that a specification allows for the whole sequence.
\<close>

primrec calls :: "('c \<Rightarrow> ('s, 'r) cxx) \<Rightarrow> 'c list \<Rightarrow> ('s, 'r list) cxx" where
  "calls exec [] = cret []"
| "calls exec (c # cs) = cbind (exec c) (\<lambda>r. cbind (calls exec cs) (\<lambda>rs. cret (r # rs)))"

primrec calls_ok :: "('c \<Rightarrow> ('s, 'r) cxx) \<Rightarrow> ('c \<Rightarrow> 's \<Rightarrow> bool) \<Rightarrow> 'c list \<Rightarrow> 's \<Rightarrow> bool" where
  "calls_ok exec ok [] s \<longleftrightarrow> True"
| "calls_ok exec ok (c # cs) s \<longleftrightarrow> ok c s \<and> calls_ok exec ok cs (snd (exec c s))"

fun spec_calls :: "('c \<Rightarrow> 'r \<Rightarrow> 'a \<Rightarrow> 'a \<Rightarrow> bool) \<Rightarrow> 'c list \<Rightarrow> 'r list \<Rightarrow> 'a \<Rightarrow> 'a \<Rightarrow> bool" where
  "spec_calls spec [] [] a b \<longleftrightarrow> b = a"
| "spec_calls spec (c # cs) (r # rs) a b \<longleftrightarrow> (\<exists>m. spec c r a m \<and> spec_calls spec cs rs m b)"
| "spec_calls spec _ _ a b \<longleftrightarrow> False"

text \<open>
  Functions that implement a specification: in a state with the invariant each call returns, keeps the
  invariant and a part of the state, and is a step of the specification.
\<close>

locale simulation =
  fixes exec :: "'c \<Rightarrow> ('s, 'r) cxx"
    and ok :: "'c \<Rightarrow> 's \<Rightarrow> bool"
    and inv :: "'s \<Rightarrow> bool"
    and kept :: "'s \<Rightarrow> 'k"
    and result :: "'r \<Rightarrow> 'e"
    and abs_of :: "'s \<Rightarrow> 'a"
    and spec :: "'c \<Rightarrow> 'e \<Rightarrow> 'a \<Rightarrow> 'a \<Rightarrow> bool"
  assumes call: "inv s \<Longrightarrow> ok c s \<Longrightarrow>
    \<exists>r t. exec c s = (Ret r, t) \<and> inv t \<and> kept t = kept s \<and> spec c (result r) (abs_of s) (abs_of t)"
begin

lemma calls_refine:
  "inv s \<Longrightarrow> calls_ok exec ok cs s \<Longrightarrow>
     \<exists>rs t. calls exec cs s = (Ret rs, t) \<and> inv t \<and> kept t = kept s \<and>
       spec_calls spec cs (map result rs) (abs_of s) (abs_of t)"
proof (induction cs arbitrary: s)
  case (Cons c cs)
  from call [of s c] Cons.prems obtain r u where u: "exec c s = (Ret r, u)" "inv u" "kept u = kept s"
    "spec c (result r) (abs_of s) (abs_of u)" by auto
  with Cons.IH [of u] Cons.prems(2) obtain rs t where "calls exec cs u = (Ret rs, t)" "inv t" "kept t = kept u"
    "spec_calls spec cs (map result rs) (abs_of u) (abs_of t)" by auto
  with u show ?case by (auto simp: cbind_def cret_def intro!: exI [of _ "abs_of u"])
qed (simp add: cret_def)

end

end
