(* ===== verification/Driver_Spec.thy ===== *)
theory Driver_Spec
  imports No_Status Runs
begin

text \<open>
  An abstract specification of the driver: how often it is open, which buffers, handles and streams
  are registered, and which of them an operation uses. The calls of the public functions that
  manage the driver, and the simulation: each call returns, and its result and its effect are a
  step of the specification.
\<close>

section \<open>Calls\<close>

text \<open>The first argument of a registration is the address that the allocation of the object returns.\<close>

datatype call =
    DriverOpen
  | DriverClose
  | HandleRegister ptr ptr "hipFileDescr_t option"
  | HandleDeregister ptr
  | BufRegister ptr ptr size_t int
  | BufDeregister ptr
  | StreamRegister ptr ptr uint32_t
  | StreamDeregister ptr

fun perform :: "'w ext \<Rightarrow> call \<Rightarrow> (('w, 'z) drv_state_scheme, hipFileError_t) cxx" where
  "perform x DriverOpen = hipFileDriverOpen"
| "perform x DriverClose = hipFileDriverClose x"
| "perform x (HandleRegister na fhp descr) = cbind (hipFileHandleRegister x na fhp descr) (\<lambda>r. cret (fst r))"
| "perform x (HandleDeregister fh) =
     cbind (hipFileHandleDeregister x fh) (\<lambda>_. cret (hipFile_status hipFileSuccess))"
| "perform x (BufRegister na buf len flags) = hipFileBufRegister x na buf len flags"
| "perform x (BufDeregister buf) = hipFileBufDeregister buf"
| "perform x (StreamRegister na hs flags) = hipFileStreamRegister x na hs flags"
| "perform x (StreamDeregister hs) = hipFileStreamDeregister hs"

fun fresh_for :: "call \<Rightarrow> ('w, 'z) drv_state_scheme \<Rightarrow> bool" where
  "fresh_for (HandleRegister na _ _) s \<longleftrightarrow> file_heap s na = None \<and> na \<noteq> nullptr"
| "fresh_for (BufRegister na _ _ _) s \<longleftrightarrow> buf_heap s na = None"
| "fresh_for (StreamRegister na _ _) s \<longleftrightarrow> stream_heap s na = None"
| "fresh_for _ s \<longleftrightarrow> True"

section \<open>The specification\<close>

record driver_spec =
  opens :: int
  buffers :: "ptr set"
  handles :: "ptr set"
  streams :: "ptr set"
  busy_buffers :: "ptr set"
  busy_handles :: "ptr set"

definition spec_init :: "driver_spec \<Rightarrow> driver_spec" where
  "spec_init a = (if opens a = 0 then a\<lparr>opens := 1\<rparr> else a)"

text \<open>
  A registration may fail for a reason that the specification does not see (the runtime rejects the
  pointer, the descriptor cannot be opened); it then registers nothing, but it may have opened the driver.
\<close>

fun spec_step :: "call \<Rightarrow> hipFileOpError \<Rightarrow> driver_spec \<Rightarrow> driver_spec \<Rightarrow> bool" where
  "spec_step DriverOpen e a b \<longleftrightarrow> e = hipFileSuccess \<and> b = a\<lparr>opens := opens a + 1\<rparr>"
| "spec_step DriverClose e a b \<longleftrightarrow>
     (if opens a = 0 then e = hipFileDriverNotInitialized \<and> b = a
      else e = hipFileSuccess \<and>
        b = (if opens a = 1
             then a\<lparr>opens := 0, buffers := {}, handles := {}, busy_buffers := {}, busy_handles := {}\<rparr>
             else a\<lparr>opens := opens a - 1\<rparr>))"
| "spec_step (HandleRegister na _ _) e a b \<longleftrightarrow>
     (if e = hipFileSuccess
      then na \<notin> handles a \<and> b = (spec_init a)\<lparr>handles := insert na (handles a)\<rparr>
      else b = a \<or> b = spec_init a)"
| "spec_step (HandleDeregister fh) e a b \<longleftrightarrow>
     e = hipFileSuccess \<and>
     b = (if opens a = 0 \<or> fh \<in> busy_handles a then a else a\<lparr>handles := handles a - {fh}\<rparr>)"
| "spec_step (BufRegister _ buf _ _) e a b \<longleftrightarrow>
     (buf \<in> buffers a \<longrightarrow> e = hipFileMemoryAlreadyRegistered) \<and>
     b = (if e = hipFileSuccess then (spec_init a)\<lparr>buffers := insert buf (buffers a)\<rparr> else spec_init a)"
| "spec_step (BufDeregister buf) e a b \<longleftrightarrow>
     e = (if opens a = 0 then hipFileDriverClosing
          else if buf \<notin> buffers a then hipFileMemoryNotRegistered
          else if buf \<in> busy_buffers a then hipFileInternalError
          else hipFileSuccess) \<and>
     b = (if e = hipFileSuccess then a\<lparr>buffers := buffers a - {buf}\<rparr> else a)"
| "spec_step (StreamRegister _ hs flags) e a b \<longleftrightarrow>
     (hs \<in> streams a \<or> 16 \<le> unat flags \<longrightarrow> e \<noteq> hipFileSuccess) \<and>
     b = (if e = hipFileSuccess then a\<lparr>streams := insert hs (streams a)\<rparr> else a)"
| "spec_step (StreamDeregister hs) e a b \<longleftrightarrow>
     e = (if hs \<in> streams a then hipFileSuccess else hipFileInvalidValue) \<and>
     b = a\<lparr>streams := streams a - {hs}\<rparr>"

definition busy :: "owners \<Rightarrow> (ptr \<rightharpoonup> ptr) \<Rightarrow> ptr set" where
  "busy E lookup = {k. \<exists>p. lookup k = Some p \<and> 0 < E p}"

definition abs_driver :: "owners \<Rightarrow> owners \<Rightarrow> ('w, 'z) drv_state_scheme \<Rightarrow> driver_spec" where
  "abs_driver EB EF s =
     \<lparr>opens = ref_count s, buffers = dom (buf_lookup s), handles = dom (file_lookup s),
      streams = dom (stream_lookup s), busy_buffers = busy EB (buf_lookup s),
      busy_handles = busy EF (file_lookup s)\<rparr>"

lemma busy_simps [simp]:
  "busy E Map.empty = {}"
  "E p = 0 \<Longrightarrow> f k = None \<Longrightarrow> busy E (f(k \<mapsto> p)) = busy E f"
  "k \<notin> busy E f \<Longrightarrow> busy E (f(k := None)) = busy E f"
  by (auto simp: busy_def split: if_splits)

section \<open>Frames\<close>

text \<open>What the calls leave alone.\<close>

lemma frame_streams:
  "buf_frame s t \<Longrightarrow> from_stream t = from_stream s"
  "file_frame s t \<Longrightarrow> from_stream t = from_stream s"
  by (cases s; cases t; simp add: buf_frame_def file_frame_def)+

lemma frame_more:
  fixes s t :: "('w, 'z) drv_state_scheme"
  shows "buf_frame s t \<Longrightarrow> drv_state.more t = drv_state.more s"
    "file_frame s t \<Longrightarrow> drv_state.more t = drv_state.more s"
    "stream_frame s t \<Longrightarrow> drv_state.more t = drv_state.more s"
  by (cases s; cases t; simp add: buf_frame_def file_frame_def stream_frame_def)+


lemma implicit_init_more [simp]: "drv_state.more (implicit_init s) = drv_state.more s"
  by (cases s) (simp add: implicit_init_def)

lemma abs_implicit_init: "abs_driver EB EF (implicit_init s) = spec_init (abs_driver EB EF s)"
  by (simp add: implicit_init_def abs_driver_def spec_init_def stream_lookup_def buf_lookup_def file_lookup_def)

lemma buf_fresh_no_uses: "drv_inv EB EF ES s \<Longrightarrow> buf_heap s p = None \<Longrightarrow> EB p = 0"
  by (auto simp: drv_inv_def buf_inv_def tbl_inv_def sp_owned_def own_sum_def dest!: spec [of _ p])

lemma file_fresh_no_uses: "drv_inv EB EF ES s \<Longrightarrow> file_heap s p = None \<Longrightarrow> EF p = 0"
  by (auto simp: drv_inv_def file_inv_def sp_owned_def own_sum_def dest!: spec [of _ p])

text \<open>How a state of the tables is seen after a change of one of them.\<close>

lemma abs_frames:
  fixes s t :: "('w, 'z) drv_state_scheme"
  shows "buf_frame s t \<Longrightarrow>
      abs_driver EB EF t = (abs_driver EB EF s)\<lparr>buffers := dom (buf_lookup t), busy_buffers := busy EB (buf_lookup t)\<rparr>"
    and "file_frame s t \<Longrightarrow>
      abs_driver EB EF t = (abs_driver EB EF s)\<lparr>handles := dom (file_lookup t), busy_handles := busy EF (file_lookup t)\<rparr>"
    and "stream_frame s t \<Longrightarrow> abs_driver EB EF t = (abs_driver EB EF s)\<lparr>streams := dom (stream_lookup t)\<rparr>"
  by (cases s; cases t; simp add: abs_driver_def buf_frame_def file_frame_def stream_frame_def
      buf_lookup_def file_lookup_def stream_lookup_def)+

section \<open>Each call is a step\<close>

definition simulates ::
  "owners \<Rightarrow> owners \<Rightarrow> owners \<Rightarrow> 'w ext \<Rightarrow> call \<Rightarrow> ('w, 'z) drv_state_scheme \<Rightarrow> bool" where
  "simulates EB EF ES x c s \<longleftrightarrow>
     (\<exists>e t. perform x c s = (Ret e, t) \<and> drv_inv EB EF ES t \<and> drv_state.more t = drv_state.more s \<and>
        spec_step c (err e) (abs_driver EB EF s) (abs_driver EB EF t))"

lemma simulatesI:
  "perform x c s = (Ret e, t) \<Longrightarrow> drv_inv EB EF ES t \<Longrightarrow> drv_state.more t = drv_state.more s \<Longrightarrow>
     spec_step c (err e) (abs_driver EB EF s) (abs_driver EB EF t) \<Longrightarrow> simulates EB EF ES x c s"
  unfolding simulates_def by blast

lemma open_simulates:
  assumes "drv_inv EB EF ES s"
  shows "simulates EB EF ES x DriverOpen s"
proof (rule simulatesI)
  let ?t = "s\<lparr>ref_count := ref_count s + 1\<rparr>"
  show "perform x DriverOpen s = (Ret (hipFile_status hipFileSuccess), ?t)"
    by (simp add: hipFileDriverOpen_def DriverState_incrRefCount_def cxx_defs)
  show "drv_inv EB EF ES ?t" using assms by (simp add: drv_inv_def)
  show "drv_state.more ?t = drv_state.more s" by simp
  show "spec_step DriverOpen (err (hipFile_status hipFileSuccess)) (abs_driver EB EF s) (abs_driver EB EF ?t)"
    by (simp add: abs_driver_def stream_lookup_def buf_lookup_def file_lookup_def)
qed

text \<open>A function that leaves the streams and the state of the other components alone.\<close>

definition tables_only :: "(('w, 'z) drv_state_scheme, 'a) cxx \<Rightarrow> bool" where
  "tables_only m \<longleftrightarrow>
     (\<forall>s. from_stream (snd (m s)) = from_stream s \<and> drv_state.more (snd (m s)) = drv_state.more s)"

lemma tables_only_basic [intro, simp]: "tables_only (cret a)" "tables_only (cthrow e)" "tables_only (cget f)"
  by (simp_all add: tables_only_def cret_def cthrow_def cget_def)

lemma tables_only_cbind [intro]: "tables_only m \<Longrightarrow> (\<And>a. tables_only (k a)) \<Longrightarrow> tables_only (cbind m k)"
  unfolding tables_only_def cbind_def by (auto split: outcome.splits prod.splits) (metis prod.sel(2))+

lemma tables_only_cwhen [intro]: "tables_only m \<Longrightarrow> tables_only (cwhen b m)"
  by (simp add: cwhen_def)

lemma tables_only_frames:
  fixes m :: "(('w, 'z) drv_state_scheme, 'a) cxx"
  shows "(\<And>s. buf_frame s (snd (m s))) \<Longrightarrow> tables_only m"
    and "(\<And>s. file_frame s (snd (m s))) \<Longrightarrow> tables_only m"
  using frame_streams frame_more unfolding tables_only_def by blast+

lemma tables_onlyD:
  "tables_only m \<Longrightarrow> m s = (r, t) \<Longrightarrow> from_stream t = from_stream s \<and> drv_state.more t = drv_state.more s"
  unfolding tables_only_def by (metis snd_conv)

lemma tables_only_decr: "tables_only (DriverState_decrRefCount x :: (('w, 'z) drv_state_scheme, unit) cxx)"
proof -
  have count: "tables_only (cmodify (\<lambda>s :: ('w, 'z) drv_state_scheme.
      if 0 < ref_count s then s\<lparr>ref_count := ref_count s - 1\<rparr> else s))"
    by (auto simp: tables_only_def cmodify_def)
  show ?thesis
    unfolding DriverState_decrRefCount_def
    by (intro tables_only_cbind tables_only_cwhen count tables_only_frames(1) [OF BufferMap_clear_frame]
        tables_only_frames(2) [OF FileMap_clear_frame]) auto
qed

lemma close_simulates:
  assumes inv: "drv_inv EB EF ES s" and x: "closes x"
  shows "simulates EB EF ES x DriverClose s"
proof (cases "ref_count s = 0")
  case True
  then have "perform x DriverClose s = (Ret (hipFile_status hipFileDriverNotInitialized), s)"
    by (simp add: hipFileDriverClose_def DriverState_getRefCount_def cxx_defs)
  then show ?thesis by (rule simulatesI) (use inv True in \<open>simp_all add: abs_driver_def\<close>)
next
  case False
  obtain r t where d: "DriverState_decrRefCount x s = (r, t)" by fastforce
  have "r \<noteq> Terminate" using never_endsD [OF never_ends_decrRefCount [OF x]] d by metis
  note spec = DriverState_decrRefCount_inv [OF inv d this]
  have pos: "0 < ref_count s" using drv_inv_parts(4) [OF inv] False by simp
  show ?thesis
  proof (rule simulatesI)
    show "perform x DriverClose s = (Ret (hipFile_status hipFileSuccess), t)"
      using d pos spec by (simp add: hipFileDriverClose_def DriverState_getRefCount_def cxx_defs)
  qed (use spec pos tables_onlyD [OF tables_only_decr d] in
        \<open>auto simp: abs_driver_def stream_lookup_def split: if_splits\<close>)
qed

lemma buf_register_simulates:
  assumes inv: "drv_inv EB EF ES s" and fresh: "buf_heap s na = None"
  shows "simulates EB EF ES x (BufRegister na buf len flags) s"
proof -
  let ?s = "implicit_init s"
  obtain r t where t: "DriverState_registerBuffer x na buf len flags s = (r, t)" by fastforce
  note spec = DriverState_registerBuffer_inv [OF inv fresh t]
  have op: "BufferMap_registerBuffer x na buf len flags ?s = (r, t)"
    using t by (simp add: DriverState_registerBuffer_def cbind_def cmodify_def implicit_init_def)
  have fr: "buf_frame ?s t" using registerBuffer_frame [of ?s x na buf len flags] op by simp
  note abs = abs_frames(1) [OF fr, of EB EF, unfolded abs_implicit_init]
  have more: "drv_state.more t = drv_state.more s" using frame_more(1) [OF fr] by simp
  have twice: "r = Exn BufferAlreadyRegistered" if "buf_lookup s buf \<noteq> None"
    using op registerBuffer_present [of ?s buf x na len flags] that by simp
  have unused: "EB na = 0" by (rule buf_fresh_no_uses [OF inv fresh])
  show ?thesis
  proof (cases r)
    case (Ret a)
    have new: "buf_lookup s buf = None" using twice Ret by (cases "buf_lookup s buf") auto
    show ?thesis
      by (rule simulatesI [of _ _ _ "hipFile_status hipFileSuccess" t])
        (use t Ret spec more new unused in \<open>auto simp: hipFileBufRegister_def ccatch_def cbind_def cret_def abs
          abs_driver_def [of EB EF s] spec_init_def\<close>)
  next
    case (Exn ex)
    then have "ex \<noteq> Thrown_hipFileError e" for e
      using no_statusD [OF no_status_registerBuffer] t by blast
    then obtain e where e: "perform x (BufRegister na buf len flags) s = (Ret e, t)" "err e \<noteq> hipFileSuccess"
      "ex = BufferAlreadyRegistered \<Longrightarrow> err e = hipFileMemoryAlreadyRegistered"
      using t Exn
      by (cases ex) (auto simp: hipFileBufRegister_def ccatch_def cbind_def cret_def handle_exception_def
          split: if_splits)
    show ?thesis
      by (rule simulatesI [OF e(1)])
        (use e spec more twice Exn in \<open>auto simp: abs abs_driver_def [of EB EF s] spec_init_def\<close>)
  qed (use spec in simp)
qed

lemma buf_deregister_simulates:
  assumes inv: "drv_inv EB EF ES s"
  shows "simulates EB EF ES x (BufDeregister buf) s"
proof -
  obtain r t where t: "DriverState_deregisterBuffer buf s = (r, t)" by fastforce
  note spec = DriverState_deregisterBuffer_inv [OF inv t]
  have "buf_frame s t"
    using t deregisterBuffer_frame [of s buf] by (auto simp: DriverState_deregisterBuffer_def cbind_def cget_def cthrow_def
        split: if_splits)
  note abs = abs_frames(1) [OF this, of EB EF] and more = frame_more(1) [OF this]
  obtain e where e: "hipFileBufDeregister buf s = (Ret (hipFile_status e), t)"
    "e = (if ref_count s = 0 then hipFileDriverClosing
          else case buf_lookup s buf of
                 None \<Rightarrow> hipFileMemoryNotRegistered
               | Some p \<Rightarrow> if 0 < EB p then hipFileInternalError else hipFileSuccess)"
    using t spec by (auto simp: hipFileBufDeregister_def ccatch_def cbind_def cret_def split: option.splits if_splits)
  show ?thesis
    by (rule simulatesI [of _ _ _ "hipFile_status e" t])
      (use e spec more in \<open>auto simp: abs abs_driver_def [of EB EF s] busy_def split: option.splits if_splits\<close>)
qed


lemma register_unregistered_frame:
  assumes x: "closes x" and op: "register_unregistered x na uf s = (r, t)"
  shows "file_frame (implicit_init s) t"
proof -
  obtain r1 u where u: "DriverState_registerFile na uf s = (r1, u)" by fastforce
  then have u': "FileMap_registerFile na uf (implicit_init s) = (r1, u)"
    by (simp add: DriverState_registerFile_def cbind_def cmodify_def implicit_init_def)
  have fr: "file_frame (implicit_init s) u" using registerFile_frame [of "implicit_init s" na uf] u' by simp
  let ?d = "UnregisteredFile_dtor x (case r1 of Ret _ \<Rightarrow> UnregisteredFile_moved uf | _ \<Rightarrow> uf)"
  from world_dtor_UnregisteredFile obtain w where "t = u \<or> t = u\<lparr>world := w\<rparr>"
    by (rule world_dtorE [of ?d u])
      (use op u in \<open>auto simp: register_unregistered_def cscope_def cret_def cthrow_def split: outcome.splits\<close>)
  then show ?thesis using fr file_frame_trans [OF fr file_frame_upds(1)] by auto
qed

text \<open>What a registration changes: the tables of the files, or the world alone when the file cannot be opened.\<close>

lemma hipFileHandleRegister_frame:
  fixes s t :: "('w, 'z) drv_state_scheme"
  assumes x: "closes x" and t: "hipFileHandleRegister x na fhp descr s = (Ret (e, h), t)"
    and na: "h = None \<or> h = Some na \<and> e = hipFile_status hipFileSuccess"
  shows "(\<exists>w. t = s\<lparr>world := w\<rparr>) \<and> h = None \<and> err e \<noteq> hipFileSuccess \<or>
      (\<exists>w. file_frame (implicit_init (s\<lparr>world := w\<rparr>)) t \<and> (err e = hipFileSuccess \<longleftrightarrow> h = Some na))"
proof -
  have status: "no_status (register_unregistered x na uf)" for uf :: UnregisteredFile
    by (auto simp: no_status_def register_unregistered_def DriverState_registerFile_def FileMap_registerFile_def
        cbind_def cmodify_def cscope_def cret_def cthrow_def Let_def split: outcome.splits prod.splits if_splits)
  have handle: "err (case ex of FileAlreadyRegistered \<Rightarrow> hipFile_status hipFileHandleAlreadyRegistered
      | _ \<Rightarrow> handle_exception ex) \<noteq> hipFileSuccess" if "\<And>f. ex \<noteq> Thrown_hipFileError f" for ex
    using that by (auto simp: handle_exception_def split: exn.splits)
  have same: "\<exists>w. s = s\<lparr>world := w\<rparr>" by (intro exI [of _ "world s"]) simp
  consider (bad) "fhp = nullptr \<or> descr = None"
    | (fd) d where "fhp \<noteq> nullptr" "descr = Some d" "descr_type d = hipFileHandleTypeOpaqueFD"
    | (other) d where "fhp \<noteq> nullptr" "descr = Some d" "descr_type d \<noteq> hipFileHandleTypeOpaqueFD"
    by (cases descr) auto
  then show ?thesis
  proof cases
    case bad
    with t same show ?thesis by (auto simp: hipFileHandleRegister_def ccatch_def cret_def)
  next
    case other
    with t same show ?thesis
      by (cases "descr_type d") (auto simp: hipFileHandleRegister_def ccatch_def cret_def)
  next
    case fd
    note un = t [unfolded hipFileHandleRegister_def ccatch_def cbind_def]
    from world_only_UnregisteredFile_ctor [of x "descr_fd d"] show ?thesis
    proof (cases rule: world_onlyE [where s = s])
      case (exn ex w)
      then have "ex \<noteq> Thrown_hipFileError f" for f using no_statusD [OF no_status_UnregisteredFile_ctor] by blast
      with un fd exn handle [of ex] show ?thesis by (auto simp: cret_def)
    next
      case (ret uf w)
      obtain r1 u where u: "register_unregistered x na uf (s\<lparr>world := w\<rparr>) = (r1, u)" by fastforce
      note fr = register_unregistered_frame [OF x u]
      show ?thesis
      proof (cases r1)
        case (Ret h')
        with un fd ret u have "t = u" "h = Some h'" "err e = hipFileSuccess" by (auto simp: cret_def)
        with fr na show ?thesis by auto
      next
        case (Exn ex)
        then have "ex \<noteq> Thrown_hipFileError f" for f using no_statusD [OF status] u by blast
        with un fd ret u fr Exn handle [of ex] have "t = u" "h = None" "err e \<noteq> hipFileSuccess"
          by (auto simp: cret_def)
        with fr show ?thesis by auto
      next
        case Terminate
        with register_unregistered_not_terminate [OF x u] show ?thesis by simp
      qed
    qed
  qed
qed

lemma handle_register_simulates:
  assumes inv: "drv_inv EB EF ES s" and na: "file_heap s na = None" "na \<noteq> nullptr" and x: "closes x"
  shows "simulates EB EF ES x (HandleRegister na fhp descr) s"
proof -
  obtain e h t where t: "hipFileHandleRegister x na fhp descr s = (Ret (e, h), t)"
    using hipFileHandleRegister_not_terminate [OF x] by (metis surj_pair)
  note spec = hipFileHandleRegister_spec [OF inv na t]
  have unused: "EF na = 0" by (rule file_fresh_no_uses [OF inv na(1)])
  have "h = None \<or> h = Some na \<and> e = hipFile_status hipFileSuccess" using spec by auto
  from hipFileHandleRegister_frame [OF x t this] show ?thesis
  proof (elim disjE exE conjE)
    fix w
    assume a: "t = s\<lparr>world := w\<rparr>" "h = None" "err e \<noteq> hipFileSuccess"
    show ?thesis
      by (rule simulatesI [of _ _ _ e t])
        (use t spec a in \<open>auto simp: cbind_def cret_def abs_driver_def buf_lookup_def file_lookup_def stream_lookup_def\<close>)
  next
    fix w
    assume fr: "file_frame (implicit_init (s\<lparr>world := w\<rparr>)) t" and e: "err e = hipFileSuccess \<longleftrightarrow> h = Some na"
    have "abs_driver EB EF (s\<lparr>world := w\<rparr>) = abs_driver EB EF s"
      by (simp add: abs_driver_def buf_lookup_def file_lookup_def stream_lookup_def)
    note abs = abs_frames(2) [OF fr, of EB EF, unfolded abs_implicit_init this]
    have more: "drv_state.more t = drv_state.more s" using frame_more(2) [OF fr] by simp
    show ?thesis
      by (rule simulatesI [of _ _ _ e t])
        (use t spec more unused e in \<open>auto simp: cbind_def cret_def abs abs_driver_def [of EB EF s] spec_init_def\<close>)
  qed
qed

lemma hipFileHandleDeregister_frame:
  assumes "hipFileHandleDeregister x fh s = (r, t)"
  shows "file_frame s t"
  using assms deregisterFile_frame [of s x fh]
  by (auto simp: hipFileHandleDeregister_def DriverState_deregisterFile_def ccatch_def cbind_def cget_def
      cthrow_def cret_def split: if_splits outcome.splits prod.splits)

lemma handle_deregister_simulates:
  assumes inv: "drv_inv EB EF ES s" and x: "closes x"
  shows "simulates EB EF ES x (HandleDeregister fh) s"
proof -
  obtain r t where t: "hipFileHandleDeregister x fh s = (r, t)" by fastforce
  note spec = hipFileHandleDeregister_spec [OF inv t hipFileHandleDeregister_not_terminate [OF x inv t]]
  note fr = hipFileHandleDeregister_frame [OF t]
  note abs = abs_frames(2) [OF fr, of EB EF] and more = frame_more(2) [OF fr]
  show ?thesis
    by (rule simulatesI [of _ _ _ "hipFile_status hipFileSuccess" t])
      (use t spec more in \<open>auto simp: cbind_def cret_def abs abs_driver_def [of EB EF s] busy_def
        split: option.splits if_splits\<close>)
qed

lemma stream_register_simulates:
  assumes inv: "drv_inv EB EF ES s" and na: "stream_heap s na = None"
  shows "simulates EB EF ES x (StreamRegister na hs flags) s"
proof -
  obtain r t where t: "DriverState_registerStream x na hs flags s = (r, t)" by fastforce
  then have op: "StreamMap_registerStream x na hs flags s = (r, t)" by (simp add: DriverState_registerStream_def)
  note spec = registerStream_spec [OF drv_inv_parts(3) [OF inv] na op]
  have fr: "stream_frame s t" using registerStream_frame [of s x na hs flags] op by simp
  have inv': "drv_inv EB EF ES t" by (rule drv_inv_stream [OF inv fr]) (use spec in simp)
  note abs = abs_frames(3) [OF fr, of EB EF] and more = frame_more(3) [OF fr]
  have ok: "stream_lookup s hs = None \<and> unat flags < 16" if "r = Ret ()"
    using op that Stream_ctor_Ret
    by (auto simp: StreamMap_registerStream_def stream_lookup_def cbind_def cget_def cthrow_def
        split: if_splits outcome.splits prod.splits)
  obtain e where e: "hipFileStreamRegister x na hs flags s = (Ret e, t)" "err e = hipFileSuccess \<longleftrightarrow> r = Ret ()"
  proof (cases r)
    case (Exn ex)
    moreover from this have "ex \<noteq> Thrown_hipFileError f" for f
      using no_statusD [OF no_status_registerStream] t by blast
    ultimately show ?thesis
      using t by (intro that [of "if is_invalid_argument ex then hipFile_status hipFileInvalidValue else handle_exception ex"])
        (auto simp: hipFileStreamRegister_def ccatch_def cbind_def cret_def handle_exception_def split: exn.splits)
  qed (use t spec that in \<open>auto simp: hipFileStreamRegister_def ccatch_def cbind_def cret_def\<close>)
  show ?thesis
    by (rule simulatesI [of _ _ _ e t])
      (use e spec more ok inv' in \<open>auto simp: abs abs_driver_def [of EB EF s] split: if_splits\<close>)
qed

lemma stream_deregister_simulates:
  assumes inv: "drv_inv EB EF ES s"
  shows "simulates EB EF ES x (StreamDeregister hs) s"
proof -
  obtain r t where t: "DriverState_deregisterStream hs s = (r, t)" by fastforce
  then have op: "StreamMap_deregisterStream hs s = (r, t)" by (simp add: DriverState_deregisterStream_def)
  note spec = deregisterStream_spec [OF drv_inv_parts(3) [OF inv] op]
  have fr: "stream_frame s t" using deregisterStream_frame [of s hs] op by simp
  have inv': "drv_inv EB EF ES t" by (rule drv_inv_stream [OF inv fr]) (use spec in simp)
  note abs = abs_frames(3) [OF fr, of EB EF] and more = frame_more(3) [OF fr]
  have "hipFileStreamDeregister hs s =
      (Ret (hipFile_status (if stream_lookup s hs = None then hipFileInvalidValue else hipFileSuccess)), t)"
    using t spec by (auto simp: hipFileStreamDeregister_def ccatch_def cbind_def cret_def)
  then show ?thesis
    by (intro simulatesI [of _ _ _ "hipFile_status (if stream_lookup s hs = None then hipFileInvalidValue else hipFileSuccess)" t])
      (use spec more inv' in \<open>auto simp: abs abs_driver_def [of EB EF s]\<close>)
qed


text \<open>All calls.\<close>

lemma perform_simulates:
  assumes "drv_inv EB EF ES s" and "fresh_for c s" and "closes x"
  shows "simulates EB EF ES x c s"
  using assms
  by (cases c) (simp_all add: open_simulates close_simulates handle_register_simulates
      handle_deregister_simulates buf_register_simulates buf_deregister_simulates
      stream_register_simulates stream_deregister_simulates)

text \<open>And all sequences of calls.\<close>

interpretation driver: simulation "perform x" fresh_for "\<lambda>s. drv_inv EB EF ES s \<and> closes x" drv_state.more err
  "abs_driver EB EF" spec_step for x EB EF ES
  by unfold_locales (use perform_simulates in \<open>auto simp: simulates_def\<close>)

end
