(* ===== verification/Async_System.thy ===== *)
theory Async_System
  imports Async_Api Driver_Spec
begin

text \<open>
  Asynchronous IO as a system: clients that submit operations and manage the driver, the runtime that
  runs the tasks of the streams, the completion thread, and the environment. The invariant holds in
  every reachable state, and when the queues run empty nothing is left of the operations.
\<close>

section \<open>Steps\<close>

inductive async_step :: "'w ext \<Rightarrow> ('w, 'z) async_state_scheme \<Rightarrow> ('w, 'z) async_state_scheme \<Rightarrow> bool" for x where
  submit: "buf_heap s nb = None \<Longrightarrow> stream_heap s ns = None \<Longrightarrow> fresh_op x s \<Longrightarrow>
     hipFileIOAsync x nb ns type fh buf size_p fo_p bo_p bt_p hs s = (Ret e, t) \<Longrightarrow> async_step x s t"
| run: "stream_tasks s q = task # ts \<Longrightarrow> any_order schedule \<Longrightarrow>
     run_task x schedule task (s\<lparr>stream_tasks := (stream_tasks s)(q := ts)\<rparr>) = Some (Ret (), t) \<Longrightarrow> async_step x s t"
| reap: "AsyncMonitor_completion_round x s = (Ret b, t) \<Longrightarrow> async_step x s t"
| manage: "fresh_for c s \<Longrightarrow> perform x c s = (Ret e, t) \<Longrightarrow> async_step x s t"
| client: "async_step x s (s\<lparr>client_vars := v\<rparr>)"
| environment: "async_step x s (s\<lparr>world := w\<rparr>)"

section \<open>A task at the head of a queue\<close>

lemma queues_inv_pop:
  fixes s t :: "('w, 'z) async_state_scheme"
  assumes que: "queues_inv s" and q: "stream_tasks s q = task # ts"
    and rest: "tasks_ok (bound_ops t) (pending t) ts" 
    and keep: "bound_ops s \<inter> pending t \<subseteq> bound_ops t" "pending s - {task_op task} \<subseteq> pending t"
    and t: "stream_tasks t = (stream_tasks s)(q := ts)"
  shows "queues_inv t"
proof -
  have disj: "q1 \<noteq> q2 \<Longrightarrow> task_op ` set (stream_tasks s q1) \<inter> task_op ` set (stream_tasks s q2) = {}" for q1 q2
    using que by (simp add: queues_inv_def)
  have "tasks_ok (bound_ops t) (pending t) (stream_tasks t q')" for q'
  proof (cases "q' = q")
    case False
    have "task_op task \<notin> task_op ` set (stream_tasks s q')"
      using disj [of q q'] False q by auto
    moreover have "tasks_ok (bound_ops s) (pending s) (stream_tasks s q')" using que by (simp add: queues_inv_def)
    ultimately have "tasks_ok (bound_ops s) (pending s - {task_op task}) (stream_tasks s q')"
      by (intro tasks_ok_remove)
    then have "tasks_ok (bound_ops t) (pending t) (stream_tasks s q')"
      by (rule tasks_ok_mono) (use keep in blast)+
    then show ?thesis using False t by simp
  qed (use rest t in simp)
  moreover have "task_op ` set (stream_tasks t q1) \<inter> task_op ` set (stream_tasks t q2) = {}" if "q1 \<noteq> q2" for q1 q2
    using disj [OF that] q by (cases "q1 = q"; cases "q2 = q") (use that t in auto)
  ultimately show ?thesis by (simp add: queues_inv_def)
qed


lemma op_step_ops: "op_step p s t \<Longrightarrow> ops t = ops s \<and> completed_ops t = completed_ops s"
  by (auto simp: op_step_def ops_def)

lemma base_async_inv: "base_inv EB EF ES t \<Longrightarrow> queues_inv t \<Longrightarrow> async_inv EB EF ES t"
  by (simp add: async_inv_base)

text \<open>What the task at the head of a queue does: it never fails, and the invariant holds afterwards.\<close>

definition ran ::
  "owners \<Rightarrow> owners \<Rightarrow> owners \<Rightarrow> async_task \<Rightarrow> ptr \<Rightarrow> async_task list \<Rightarrow>
     ('w, 'z) async_state_scheme \<Rightarrow> ('w, 'z) async_state_scheme \<Rightarrow> bool" where
  "ran EB EF ES task q ts s t \<longleftrightarrow>
     async_inv EB EF ES t \<and> stream_tasks t = (stream_tasks s)(q := ts) \<and> ops t = ops s \<and>
     completed_ops t = completed_ops s @
       (case task of HostFunc fn_async_io_cleanup p \<Rightarrow> [p] | _ \<Rightarrow> [])"

lemma run_task_step:
  fixes s t :: "('w, 'z) async_state_scheme"
  assumes inv: "async_inv EB EF ES s" and q: "stream_tasks s q = task # ts"
    and x: "closes x" and page: "c_sysconf_pagesize x \<noteq> -1"
    and run: "run_task x schedule task (s\<lparr>stream_tasks := (stream_tasks s)(q := ts)\<rparr>) = Some (r, t)"
  shows "r = Ret () \<and> ran EB EF ES task q ts s t"
proof -
  let ?s = "s\<lparr>stream_tasks := (stream_tasks s)(q := ts)\<rparr>"
  have base: "base_inv EB EF ES ?s" and que: "queues_inv s"
    using inv by (simp_all add: async_inv_base)
  have head: "tasks_ok (bound_ops s) (pending s) (task # ts)"
    using que q unfolding queues_inv_def by metis
  have step: "ran EB EF ES task q ts s t"
    if st: "op_step p ?s t" and "task_op task = p" and rest: "tasks_ok (bound_ops t) (pending s) ts"
      and "\<And>p. task \<noteq> HostFunc fn_async_io_cleanup p" for p
  proof -
    note k = op_step_keeps [OF st]
    have "queues_inv t"
      by (rule queues_inv_pop [OF que q]) (use k rest in auto)
    with k(1) [OF base] k op_step_ops [OF st] that(4) show ?thesis
      by (auto simp: ran_def ops_def base_async_inv split: async_task.split host_fn.split)
  qed
  show ?thesis
  proof (cases task)
    case (MemcpyKernel n p)
    with head have p: "p \<in> pending ?s" and rest: "tasks_ok (bound_ops s) (pending s) ts" by simp_all
    obtain u where u: "hipFileMemcpyKernel x schedule n p ?s = (Ret (), u)" "op_step p ?s u"
      using kernel_step [OF base p] by blast
    moreover have "tasks_ok (bound_ops u) (pending s) ts"
      by (rule tasks_ok_mono [OF rest]) (use op_step_keeps(3) [OF u(2)] in auto)
    ultimately show ?thesis
      using run step [of p] MemcpyKernel by (auto simp: run_task_def olift_def)
  next
    case (HostFunc fn p)
    show ?thesis
    proof (cases fn)
      case fn_async_io_bind_params
      with head HostFunc have p: "p \<in> pending ?s" and rest: "tasks_ok (insert p (bound_ops s)) (pending s) ts"
        by simp_all
      obtain u where u: "async_io_bind_params x p ?s = (Ret (), u)" "op_step p ?s u" "p \<in> bound_ops u"
        using bind_params_step [OF base p page] by blast
      moreover have "tasks_ok (bound_ops u) (pending s) ts"
        by (rule tasks_ok_mono [OF rest]) (use op_step_keeps(3) [OF u(2)] u(3) in auto)
      ultimately show ?thesis
        using run step [of p] HostFunc fn_async_io_bind_params by (auto simp: run_task_def olift_def)
    next
      case fn_async_io_cpu_copy
      with head HostFunc have p: "p \<in> pending ?s" "p \<in> bound_ops ?s"
        and rest: "tasks_ok (bound_ops s) (pending s) ts" by simp_all
      have run': "async_io_cpu_copy x p ?s = Some (r, t)"
        using run HostFunc fn_async_io_cpu_copy by (simp add: run_task_def)
      from cpu_copy_step [OF base p run'] have r: "r = Ret ()" "op_step p ?s t" by simp_all
      moreover have "tasks_ok (bound_ops t) (pending s) ts"
        by (rule tasks_ok_mono [OF rest]) (use op_step_keeps(3) [OF r(2)] in auto)
      ultimately show ?thesis
        using step [of p] HostFunc fn_async_io_cpu_copy by auto
    next
      case fn_async_io_cleanup
      with head HostFunc have p: "p \<in> pending ?s" and rest: "tasks_ok (bound_ops s) (pending s - {p}) ts" by simp_all
      obtain u op where u: "async_io_cleanup x p ?s = (Ret (), u)" "base_inv EB EF ES u"
        "pending u = pending s - {p}" "bound_ops s \<subseteq> bound_ops u" "stream_tasks u = (stream_tasks s)(q := ts)"
        "completed_ops u = completed_ops s @ [p]" "ops u = ops s"
        using cleanup_step [OF base p x] by (auto simp: ops_def)
      have "queues_inv u"
        by (rule queues_inv_pop [OF que q]) (use u rest HostFunc in \<open>auto elim: tasks_ok_mono\<close>)
      with u run HostFunc fn_async_io_cleanup show ?thesis
        by (auto simp: run_task_def olift_def ran_def base_async_inv)
    qed
  qed
qed


section \<open>Reachable states\<close>

definition async_initial :: "('w, 'z) async_state_scheme \<Rightarrow> bool" where
  "async_initial s \<longleftrightarrow>
     buf_heap s = Map.empty \<and> from_ptr s = [] \<and> file_heap s = Map.empty \<and> from_fd s = [] \<and> from_fh s = [] \<and>
     stream_heap s = Map.empty \<and> from_stream s = [] \<and> ref_count s = 0 \<and>
     op_heap s = Map.empty \<and> submitted_ops s = [] \<and> completed_ops s = [] \<and> stream_tasks s = (\<lambda>_. [])"

inductive async_reachable :: "'w ext \<Rightarrow> ('w, 'z) async_state_scheme \<Rightarrow> bool" for x where
  start: "async_initial s \<Longrightarrow> async_reachable x s"
| step: "async_reachable x s \<Longrightarrow> async_step x s t \<Longrightarrow> async_reachable x t"

abbreviation no_uses :: owners where "no_uses \<equiv> \<lambda>_. 0"

lemma async_initial_inv: "async_initial s \<Longrightarrow> async_inv no_uses no_uses no_uses s"
  by (simp add: async_initial_def async_inv_def drv_inv_def buf_inv_def file_inv_def stream_inv_def tbl_inv_def
      monitor_inv_def queues_inv_def ops_def own_sum_def own_add_def sp_owned_def buf_uses_def file_uses_def
      stream_uses_def file_entries_ok_def table_uses_def)

lemma more_ops:
  fixes s t :: "('w, 'z) async_state_scheme"
  assumes "drv_state.more t = drv_state.more s"
  shows "op_heap t = op_heap s" "submitted_ops t = submitted_ops s" "completed_ops t = completed_ops s"
    "stream_tasks t = stream_tasks s" "client_vars t = client_vars s" "is_finished t = is_finished s"
  using assms by (cases s; cases t; simp)+

lemma round_idle: "completed_ops s = [] \<Longrightarrow> AsyncMonitor_completion_round x s = (Ret (\<not> is_finished s), s)"
  by (simp add: AsyncMonitor_completion_round_def cbind_def cget_def cret_def)

lemma round_inv:
  fixes s t :: "('w, 'z) async_state_scheme"
  assumes inv: "async_inv EB EF ES s" and run: "AsyncMonitor_completion_round x s = (r, t)"
  shows "(\<exists>b. r = Ret b) \<and> async_inv EB EF ES t"
proof (cases "completed_ops s = []")
  case True
  with run inv show ?thesis by (auto simp: round_idle)
next
  case False
  have base: "base_inv EB EF ES s" and que: "queues_inv s" using inv by (simp_all add: async_inv_base)
  from completion_step [OF base False, of x] run
  have t: "r = Ret True" "base_inv EB EF ES t" "pending t = pending s"
    "bound_ops s \<inter> pending s \<subseteq> bound_ops t" "stream_tasks t = stream_tasks s" by auto
  have "queues_inv t"
    using que t by (auto simp: queues_inv_def elim!: tasks_ok_mono)
  with t show ?thesis by (auto simp: async_inv_base)
qed

lemma manage_inv:
  fixes s t :: "('w, 'z) async_state_scheme"
  assumes inv: "async_inv EB EF ES s" and fresh: "fresh_for c s" and x: "closes x"
    and run: "perform x c s = (r, t)"
  shows "(\<exists>e. r = Ret e) \<and> async_inv EB EF ES t"
proof -
  have "drv_inv (own_add EB (buf_uses s)) (own_add EF (file_uses s)) (own_add ES (stream_uses s)) s"
    using inv by (simp add: async_inv_def)
  from perform_simulates [OF this fresh x] run
  have "\<exists>e. r = Ret e" and drv: "drv_inv (own_add EB (buf_uses s)) (own_add EF (file_uses s)) (own_add ES (stream_uses s)) t"
    and more: "drv_state.more t = drv_state.more s"
    by (auto simp: simulates_def)
  with async_inv_same_ops [OF inv drv more_ops(1-4) [OF more]] show ?thesis by simp
qed

lemma async_inv_world [simp]: "async_inv EB EF ES (s\<lparr>world := w\<rparr>) = async_inv EB EF ES s"
  by (simp add: async_inv_base queues_inv_def)

lemma async_step_inv:
  assumes "async_step x s t" and "async_inv EB EF ES s" and "closes x" and "c_sysconf_pagesize x \<noteq> -1"
  shows "async_inv EB EF ES t"
  using assms
proof (induction rule: async_step.induct)
  case (submit s nb ns type fh buf size_p fo_p bo_p bt_p hs e t)
  from hipFileIOAsync_inv [OF submit.prems(1) submit.hyps(1,2) submit.prems(2) submit.hyps(3,4)]
  show ?case by simp
next
  case (run s q task ts schedule t)
  from run_task_step [OF run.prems(1) run.hyps(1) run.prems(2,3) run.hyps(3)]
  show ?case by (simp add: ran_def)
next
  case (reap s b t)
  from round_inv [OF reap.prems(1) reap.hyps(1)] show ?case by simp
next
  case (manage c s e t)
  from manage_inv [OF manage.prems(1) manage.hyps(1) manage.prems(2) manage.hyps(2)] show ?case by simp
qed simp_all

lemma async_reachable_inv:
  assumes "async_reachable x s" and "closes x" and "c_sysconf_pagesize x \<noteq> -1"
  shows "async_inv no_uses no_uses no_uses s"
  using assms by (induction rule: async_reachable.induct) (blast intro: async_initial_inv async_step_inv)+

section \<open>Draining\<close>

text \<open>The steps that need nothing from the client: the head of a queue runs, the completion thread removes an operation.\<close>

inductive drain_step :: "'w ext \<Rightarrow> ('w, 'z) async_state_scheme \<Rightarrow> ('w, 'z) async_state_scheme \<Rightarrow> bool" for x where
  run: "stream_tasks s q = task # ts \<Longrightarrow> any_order schedule \<Longrightarrow>
     run_task x schedule task (s\<lparr>stream_tasks := (stream_tasks s)(q := ts)\<rparr>) = Some (Ret (), t) \<Longrightarrow> drain_step x s t"
| reap: "completed_ops s \<noteq> [] \<Longrightarrow> AsyncMonitor_completion_round x s = (Ret b, t) \<Longrightarrow> drain_step x s t"

lemma drain_async: "drain_step x s t \<Longrightarrow> async_step x s t"
  by (induction rule: drain_step.induct) (auto intro: async_step.run async_step.reap)

definition active :: "('w, 'z) async_state_scheme \<Rightarrow> ptr set" where
  "active s = {q. stream_tasks s q \<noteq> []}"

definition work :: "('w, 'z) async_state_scheme \<Rightarrow> nat" where
  "work s = 2 * (\<Sum>q \<in> active s. length (stream_tasks s q)) + length (completed_ops s)"

lemma active_finite:
  assumes "queues_inv s"
  shows "finite (active s)"
proof (rule finite_imageD [where f = "\<lambda>q. task_op (hd (stream_tasks s q))"])
  have "task_op (hd (stream_tasks s q)) \<in> task_op ` set (stream_tasks s q)" if "q \<in> active s" for q
    using that by (simp add: active_def)
  moreover have "task_op ` set (stream_tasks s q) \<subseteq> pending s" for q
    by (rule tasks_ok_ops [of "bound_ops s"]) (use assms in \<open>simp add: queues_inv_def\<close>)
  ultimately have "(\<lambda>q. task_op (hd (stream_tasks s q))) ` active s \<subseteq> pending s" by blast
  then show "finite ((\<lambda>q. task_op (hd (stream_tasks s q))) ` active s)"
    by (rule finite_subset) (simp add: pending_def)
  show "inj_on (\<lambda>q. task_op (hd (stream_tasks s q))) (active s)"
  proof (rule inj_onI)
    fix q q'
    assume a: "q \<in> active s" "q' \<in> active s" "task_op (hd (stream_tasks s q)) = task_op (hd (stream_tasks s q'))"
    then have "task_op (hd (stream_tasks s q)) \<in> task_op ` set (stream_tasks s q) \<inter> task_op ` set (stream_tasks s q')"
      by (simp add: active_def) (metis image_eqI list.set_sel(1))
    then show "q = q'" using assms unfolding queues_inv_def by blast
  qed
qed

lemma tasks_pop:
  fixes s t :: "('w, 'z) async_state_scheme"
  assumes fin: "finite (active s)" and q: "stream_tasks s q = task # ts"
    and t: "stream_tasks t = (stream_tasks s)(q := ts)"
  shows "(\<Sum>q \<in> active s. length (stream_tasks s q)) = Suc (\<Sum>q \<in> active t. length (stream_tasks t q))"
proof -
  have "(\<Sum>q \<in> active t. length (stream_tasks t q)) = (\<Sum>q \<in> active s. length (stream_tasks t q))"
    by (rule sum.mono_neutral_left [OF fin]) (use q t in \<open>auto simp: active_def split: if_splits\<close>)
  moreover have "q \<in> active s" using q by (simp add: active_def)
  ultimately show ?thesis
    using sum.remove [OF fin, of q "\<lambda>q. length (stream_tasks s q)"]
      sum.remove [OF fin, of q "\<lambda>q. length (stream_tasks t q)"] q t by simp
qed

lemma drain_step_cases:
  fixes s t :: "('w, 'z) async_state_scheme"
  assumes st: "drain_step x s t" and inv: "async_inv EB EF ES s"
    and x: "closes x" and page: "c_sysconf_pagesize x \<noteq> -1"
  obtains (run) q task ts where "stream_tasks s q = task # ts" "ran EB EF ES task q ts s t"
    | (reap) "completed_ops s \<noteq> []" "async_inv EB EF ES t" "stream_tasks t = stream_tasks s" "pending t = pending s"
        "completed_ops t = butlast (completed_ops s)"
  using st
proof cases
  case (run q task ts schedule)
  from run_task_step [OF inv run(1) x page run(3)] run(1) that(1) show thesis by blast
next
  case (reap b)
  have base: "base_inv EB EF ES s" using inv by (simp add: async_inv_base)
  from completion_step [OF base reap(1), of x] round_inv [OF inv reap(2)] reap that(2) show thesis by auto
qed

lemma drain_step_work:
  assumes "drain_step x s t" and inv: "async_inv EB EF ES s"
    and "closes x" and "c_sysconf_pagesize x \<noteq> -1"
  shows "work t < work s"
  using assms
proof (cases rule: drain_step_cases)
  case (run q task ts)
  then have "completed_ops t = completed_ops s @
       (case task of HostFunc fn_async_io_cleanup p \<Rightarrow> [p] | _ \<Rightarrow> [])" by (simp add: ran_def)
  then have "length (completed_ops t) \<le> Suc (length (completed_ops s))"
    by (simp split: async_task.split host_fn.split)
  moreover have "(\<Sum>q \<in> active s. length (stream_tasks s q)) = Suc (\<Sum>q \<in> active t. length (stream_tasks t q))"
    by (rule tasks_pop [OF active_finite run(1)]) (use inv run in \<open>simp_all add: async_inv_def ran_def\<close>)
  ultimately show ?thesis by (simp add: work_def)
next
  case reap
  then show ?thesis by (simp add: work_def active_def)
qed

definition cleanup_queued :: "('w, 'z) async_state_scheme \<Rightarrow> bool" where
  "cleanup_queued s \<longleftrightarrow> (\<forall>p \<in> pending s. \<exists>q. HostFunc fn_async_io_cleanup p \<in> set (stream_tasks s q))"

lemma drain_step_cleanup:
  assumes "drain_step x s t" and inv: "async_inv EB EF ES s"
    and "closes x" and "c_sysconf_pagesize x \<noteq> -1" and clean: "cleanup_queued s"
  shows "cleanup_queued t"
  using assms(1-4)
proof (cases rule: drain_step_cases)
  case (run q task ts)
  show ?thesis
    unfolding cleanup_queued_def
  proof
    fix p
    assume p: "p \<in> pending t"
    have t: "stream_tasks t = (stream_tasks s)(q := ts)" "ops t = ops s" "completed_ops t = completed_ops s @
       (case task of HostFunc fn_async_io_cleanup p \<Rightarrow> [p] | _ \<Rightarrow> [])" using run(2) by (simp_all add: ran_def)
    with p have "p \<in> pending s" and task: "task \<noteq> HostFunc fn_async_io_cleanup p" by (auto simp: pending_def)
    with clean obtain q' where "HostFunc fn_async_io_cleanup p \<in> set (stream_tasks s q')"
      by (auto simp: cleanup_queued_def)
    with t(1) run(1) task show "\<exists>q. HostFunc fn_async_io_cleanup p \<in> set (stream_tasks t q)"
      by (intro exI [of _ q']) auto
  qed
qed (use clean in \<open>simp add: cleanup_queued_def\<close>)

interpretation draining: draining_system "drain_step x"
  "\<lambda>s. async_inv EB EF ES s \<and> cleanup_queued s \<and> closes x \<and> c_sysconf_pagesize x \<noteq> -1" work for x EB EF ES
  by unfold_locales (auto elim: drain_async [THEN async_step_inv] drain_step_cleanup drain_step_work)

lemma cpu_copy_not_None:
  assumes "transfer_counts x" and "interrupts_bounded x budget"
  shows "async_io_cpu_copy x p s \<noteq> None"
proof -
  have "obind (oloop (cpu_copy_round x type f bounce sz fo) 0)
      (\<lambda>r. olift (op_update p (\<lambda>op. op\<lparr>ao_bytes_transferred_internal := r\<rparr>))) s \<noteq> None" for type f bounce sz fo
    by (rule obind_not_None) (use cpu_copy_returns [OF assms, of type f bounce sz fo 0 s] in auto)
  then show ?thesis
    by (auto simp: async_io_cpu_copy_def split: option.splits bindable.splits simp del: not_None_eq)
qed

text \<open>A drain that cannot go on has nothing left to do.\<close>

lemma drain_progress:
  fixes s :: "('w, 'z) async_state_scheme"
  assumes inv: "async_inv EB EF ES s" and x: "closes x" "c_sysconf_pagesize x \<noteq> -1"
    "transfer_counts x" "interrupts_bounded x budget"
    and stuck: "\<And>t. \<not> drain_step x s t"
  shows "completed_ops s = [] \<and> stream_tasks s = (\<lambda>_. [])"
proof
  show done_: "completed_ops s = []"
    using stuck round_inv [OF inv] drain_step.reap by (metis surj_pair)
  have "stream_tasks s q = []" for q
  proof (rule ccontr)
    assume "stream_tasks s q \<noteq> []"
    then obtain task ts where q: "stream_tasks s q = task # ts" by (cases "stream_tasks s q") auto
    let ?s = "s\<lparr>stream_tasks := (stream_tasks s)(q := ts)\<rparr>"
    have "run_task x kernel_steps task ?s \<noteq> None"
      by (simp add: run_task_def cpu_copy_not_None [OF x(3,4)] split: async_task.split host_fn.split del: not_None_eq)
    then obtain r t where run: "run_task x kernel_steps task ?s = Some (r, t)" by auto
    with run_task_step [OF inv q x(1,2) run] have "run_task x kernel_steps task ?s = Some (Ret (), t)" by simp
    from drain_step.run [OF q _ this] stuck show False by (simp add: any_order_def)
  qed
  then show "stream_tasks s = (\<lambda>_. [])" by blast
qed

lemma held_empty: "held get h [] = no_uses" by simp

lemma drained:
  fixes s :: "('w, 'z) async_state_scheme"
  assumes inv: "async_inv EB EF ES s" and "cleanup_queued s"
    and "completed_ops s = []" and "stream_tasks s = (\<lambda>_. [])"
  shows "submitted_ops s = [] \<and> op_heap s = Map.empty \<and> drv_inv EB EF ES s"
proof -
  have "ops s = []" using assms(2-4) by (simp add: cleanup_queued_def pending_def)
  then show ?thesis
    using inv
    by (auto simp: async_inv_def monitor_inv_def ops_def buf_uses_def file_uses_def stream_uses_def own_add_def
        sp_owned_def fun_eq_iff split: option.splits) (metis not_None_eq less_nat_zero_code prod.collapse)
qed


section \<open>The end of the completion thread\<close>

text \<open>
  A thread that was asked to finish removes all complete operations first; what is still pending
  stays submitted.
\<close>

lemma completion_thread_finishes:
  fixes s :: "('w, 'z) async_state_scheme"
  assumes "async_inv EB EF ES s" and "is_finished s"
  shows "\<exists>t. AsyncMonitor_completion_thread x s = Some (Ret (), t) \<and> async_inv EB EF ES t \<and>
    completed_ops t = [] \<and> set (ops t) = pending s \<and> stream_tasks t = stream_tasks s"
  using assms
proof (induction "length (completed_ops s)" arbitrary: s)
  case 0
  then have "completed_ops s = []" by simp
  moreover from this have "AsyncMonitor_completion_thread x s = Some (Ret (), s)"
    using "0.prems"(2)
    by (simp add: AsyncMonitor_completion_thread_def oloop.simps [of _ "()"] cbind_def round_idle cret_def)
  ultimately show ?case using "0.prems"(1) by (auto simp: pending_def)
next
  case (Suc n)
  then have c: "completed_ops s \<noteq> []" by auto
  have base: "base_inv EB EF ES s" using Suc.prems(1) by (simp add: async_inv_base)
  from completion_step [OF base c, of x] obtain t where t: "AsyncMonitor_completion_round x s = (Ret True, t)"
    "pending t = pending s" "stream_tasks t = stream_tasks s" "completed_ops t = butlast (completed_ops s)"
    "is_finished t = is_finished s" by blast
  have "async_inv EB EF ES t" using round_inv [OF Suc.prems(1) t(1)] by simp
  have n: "n = length (completed_ops t)" using t(4) Suc.hyps(2) by simp
  from Suc.hyps(1) [OF n \<open>async_inv EB EF ES t\<close>] t(2,3,5) Suc.prems(2)
  obtain u where u: "AsyncMonitor_completion_thread x t = Some (Ret (), u)" "async_inv EB EF ES u"
    "completed_ops u = []" "set (ops u) = pending s" "stream_tasks u = stream_tasks s" by auto
  have "AsyncMonitor_completion_thread x s = Some (Ret (), u)"
    using u(1) t(1)
    by (simp add: AsyncMonitor_completion_thread_def oloop.simps [of _ "()" s] cbind_def cret_def)
  with u show ?case by blast
qed

text \<open>The destructor, when no operation is pending.\<close>

lemma monitor_destroyed:
  fixes s :: "('w, 'z) async_state_scheme"
  assumes inv: "async_inv EB EF ES s" and none: "pending s = {}"
  shows "\<exists>t. AsyncMonitor_dtor x s = Some (Ret (), t) \<and> submitted_ops t = [] \<and> op_heap t = Map.empty \<and>
    drv_inv EB EF ES t"
proof -
  let ?s = "s\<lparr>is_finished := True\<rparr>"
  have "drv_inv (own_add EB (buf_uses s)) (own_add EF (file_uses s)) (own_add ES (stream_uses s)) ?s"
    using inv by (simp add: async_inv_def)
  then have "async_inv EB EF ES ?s" by (intro async_inv_same_ops [OF inv]) simp_all
  from completion_thread_finishes [OF this, of x] obtain t where t: "AsyncMonitor_completion_thread x ?s = Some (Ret (), t)"
    "async_inv EB EF ES t" "completed_ops t = []" "set (ops t) = pending ?s" by auto
  have "pending ?s = {}" using none by (simp add: pending_def ops_def)
  with t(4) have ops: "ops t = []" by simp
  then have sub: "submitted_ops t = []" by (simp add: ops_def)
  then have same: "t\<lparr>submitted_ops := []\<rparr> = t" by simp
  have run: "AsyncMonitor_dtor x s = Some (Ret (), t)"
    using t(1) sub same
    by (simp add: AsyncMonitor_dtor_def obind_def olift_def cmodify_def cbind_def cget_def cwhen_def cret_def)
  have "op_heap t = Map.empty \<and> drv_inv EB EF ES t"
    using t(2,3) ops sub
    by (auto simp: async_inv_def monitor_inv_def ops_def buf_uses_def file_uses_def stream_uses_def own_add_def
        sp_owned_def fun_eq_iff split: option.splits) (metis not_None_eq less_nat_zero_code prod.collapse)
  with run sub show ?thesis by blast
qed

text \<open>
  \<^verbatim>\<open>async_io_cleanup\<close> reads the count of the operation after \<^verbatim>\<open>completeOp\<close> has announced it. A completion
  thread that runs in between has already deleted the operation.
\<close>

lemma completed_op_deleted:
  assumes inv: "base_inv EB EF ES s" and p: "p \<in> pending s" and x: "closes x"
  shows "\<exists>t u. AsyncMonitor_completeOp x p s = (Ret (), t) \<and>
    AsyncMonitor_completion_round x t = (Ret True, u) \<and> op_heap u p = None"
proof -
  obtain t where t: "AsyncMonitor_completeOp x p s = (Ret (), t)" "base_inv EB EF ES t"
    "completed_ops t = completed_ops s @ [p]"
    using completeOp_step [OF assms] by blast
  with completion_step [OF t(2), of x] show ?thesis by auto
qed

text \<open>
  When the stream fixes the size, the operation keeps the size of the request as it is, while its bounce buffer
  has only as many bytes as a transfer may have.
\<close>

lemma fixed_size_not_cut:
  fixes s t :: "('w, 'z) async_state_scheme"
  assumes "Stream_fixedIOSize so" and "c_sysconf_pagesize x \<noteq> -1"
    and "AsyncOpFallback_ctor x type f b st bo so size_p fo_p bo_p bytes_p s = (Ret op, t)"
  shows "ao_size op = Bound (client_vars s size_p) \<and>
    ao_submitted_size op = min (client_vars s size_p) (max_rw_count x)"
proof -
  have limit: "getMaxRwCount x s = (Ret (max_rw_count x), s)" for s :: "('w, 'z) async_state_scheme"
    using assms(2) by (simp add: getMaxRwCount_eq)
  show ?thesis
    using assms(1,3)
    by (auto simp: AsyncOpFallback_ctor_def AsyncOp_take_def AsyncOp_ctor_def cmodify_def cbind_def cget_def cret_def
        cunwind_def limit Let_def split: outcome.splits prod.splits)
qed

end
