(* ===== verification/Async_Bytes.thy ===== *)
theory Async_Bytes
  imports Async_System
begin

text \<open>
  What an asynchronous IO does to bytes: the copy on the host between the file and the bounce buffer, the
  copy on the device between the bounce buffer and the buffer of the client, and both together.
\<close>

section \<open>Memory\<close>

text \<open>
  The bytes that the kernel loads and stores are the memory that the system calls see, under the addresses
  that the device has for them, and a store changes no file.
\<close>

definition memory_view :: "'w ext \<Rightarrow> 'w view \<Rightarrow> bool" where
  "memory_view x v \<longleftrightarrow>
     mem_documented x (v_mem v) (v_dev v) \<and>
     (\<forall>a b w. v_file v (mem_store x a b w) = v_file v w)"

text \<open>A range of addresses on the device that shows the memory at another address, or at the same one.\<close>

definition mapped :: "'w view \<Rightarrow> ptr \<Rightarrow> ptr \<Rightarrow> nat \<Rightarrow> bool" where
  "mapped v dev host n \<longleftrightarrow> (\<forall>i < n. v_dev v (dev + of_nat i) = host + of_nat i)"

lemma mapped_mono: "mapped v dev host n \<Longrightarrow> m \<le> n \<Longrightarrow> mapped v dev host m"
  by (simp add: mapped_def)

lemma mapped_region: "mapped v dev host n \<Longrightarrow> v_dev v ` region dev n = region host n"
  by (auto simp: mapped_def region_def image_image intro!: image_eqI)

lemma mapped_inj:
  assumes "mapped v dev host n" and "n \<le> 2 ^ 64"
  shows "inj_on (v_dev v) (region dev n)"
proof (rule inj_onI)
  fix a b
  assume "a \<in> region dev n" "b \<in> region dev n" and eq: "v_dev v a = v_dev v b"
  then obtain i j where "i < n" "j < n" "a = dev + of_nat i" "b = dev + of_nat j" by (auto simp: region_def)
  with eq assms show "a = b" by (simp add: mapped_def)
qed

section \<open>The copy on the host\<close>

text \<open>\<open>n\<close> bytes of the file are in the bounce buffer, and nothing outside it has changed.\<close>

definition bounce_inv :: "'w view \<Rightarrow> 'w \<Rightarrow> int \<Rightarrow> ptr \<Rightarrow> nat \<Rightarrow> nat \<Rightarrow> nat \<Rightarrow> 'w \<Rightarrow> bool" where
  "bounce_inv v w0 fd host sz off n w \<longleftrightarrow>
     v_file v w = v_file v w0 \<and>
     (\<forall>i < n. v_mem v w (host + of_nat i) = v_file v w0 fd ! (off + i)) \<and>
     (0 < n \<longrightarrow> off + n \<le> length (v_file v w0 fd)) \<and>
     (\<forall>a. a \<notin> region host sz \<longrightarrow> v_mem v w a = v_mem v w0 a)"

lemma bounce_inv_extend:
  assumes inv: "bounce_inv v w0 fd host sz off n w" and le: "n + m \<le> sz" and sz: "sz \<le> 2 ^ 64"
    and "v_file v w' = v_file v w"
    and bytes: "\<forall>i < m. v_mem v w' (host + of_nat n + of_nat i) = v_file v w fd ! (off + n + i)"
    and len: "0 < m \<longrightarrow> off + n + m \<le> length (v_file v w fd)"
    and keep: "\<forall>a. a \<notin> region (host + of_nat n) (sz - n) \<longrightarrow> v_mem v w' a = v_mem v w a"
  shows "bounce_inv v w0 fd host sz off (n + m) w'"
proof -
  have "v_mem v w' (host + of_nat i) = v_file v w0 fd ! (off + i)" if "i < n + m" for i
  proof (cases "i < n")
    case True
    have "host + of_nat i \<notin> region (host + of_nat n) (sz - n)"
      by (rule before_region [OF True]) (use le sz in simp)
    with True inv keep show ?thesis by (simp add: bounce_inv_def)
  next
    case False
    define k where "k = i - n"
    with False that have "i = n + k" "k < m" by simp_all
    with bytes inv show ?thesis by (simp add: bounce_inv_def add.assoc)
  qed
  moreover have "v_mem v w' a = v_mem v w0 a" if "a \<notin> region host sz" for a
  proof -
    have "a \<notin> region (host + of_nat n) (sz - n)"
      using that region_offset_subset [of n "sz - n" sz host] le by auto
    with keep have "v_mem v w' a = v_mem v w a" by simp
    also have "\<dots> = v_mem v w0 a" using that inv by (simp add: bounce_inv_def)
    finally show ?thesis .
  qed
  moreover have "v_file v w' = v_file v w0" using inv assms(4) by (simp add: bounce_inv_def)
  moreover have "off + (n + m) \<le> length (v_file v w0 fd)" if "0 < n + m"
    using inv len that by (cases "m = 0") (simp_all add: bounce_inv_def add.assoc)
  ultimately show ?thesis unfolding bounce_inv_def by blast
qed

lemma cpu_read_round:
  fixes n :: size_t
  assumes pr: "documented_pread x v" and fo: "0 \<le> sint fo" and n: "unat n \<le> unat sz"
    and inv: "bounce_inv v w0 (File_bufferedFd f) host (unat sz) (nat (sint fo)) (unat n) (world s)"
    and rnd: "cpu_copy_round x IoRead f host sz fo n s = (Ret q, t)"
  shows "case q of
      Inl m \<Rightarrow> unat m \<le> unat sz \<and>
        bounce_inv v w0 (File_bufferedFd f) host (unat sz) (nat (sint fo)) (unat m) (world t)
    | Inr k \<Rightarrow> \<exists>m \<le> unat sz. (k = -1 \<or> k = sint (of_nat m :: size_t) \<and>
          (m < unat sz \<longrightarrow> length (v_file v w0 (File_bufferedFd f)) \<le> nat (sint fo) + m)) \<and>
        bounce_inv v w0 (File_bufferedFd f) host (unat sz) (nat (sint fo)) m (world t)"
proof (cases "n < sz")
  case False
  with rnd have "q = Inr (sint n)" "t = s" by (simp_all add: cpu_copy_round_def)
  moreover have "n = sz" using n False by (simp add: word_less_nat_alt word_unat_eq_iff)
  ultimately show ?thesis using inv by (auto intro!: exI [of _ "unat n"])
next
  case True
  let ?fd = "File_bufferedFd f" and ?off = "fo + of_nat (unat n)" and ?N = "unat n"
  have len: "unat (sz - n) = unat sz - ?N" using True by (simp add: unat_sub word_less_nat_alt word_le_nat_alt)
  have lt: "?N < unat sz" using True by (simp add: word_less_nat_alt)
  obtain r w1 where c: "c_pread x ?fd (host + n) (sz - n) (fo + n) (world s) = (r, w1)" by fastforce
  have off_eq: "sint (fo + n) = sint fo + int ?N"
  proof (cases "?N = 0")
    case False
    then have "nat (sint fo) + ?N \<le> length (v_file v w0 ?fd)" using inv by (simp add: bounce_inv_def)
    then have "nat (sint fo) + ?N < 2 ^ 63" using file_length_bound [OF pr, of w0 ?fd] by (rule le_less_trans)
    then have "int (nat (sint fo) + ?N) < int (2 ^ 63)" by (simp only: of_nat_less_iff)
    then have "sint fo + int ?N < 2 ^ 63" using fo by (simp only: of_nat_add of_nat_power of_nat_numeral int_nat_eq if_True)
    from sint_add_nat [OF fo this] show ?thesis by simp
  qed (simp add: unat_eq_0)
  have off: "0 \<le> sint (fo + n)" "nat (sint (fo + n)) = nat (sint fo) + ?N"
    unfolding off_eq using fo by (linarith, simp only: nat_add_distrib of_nat_0_le_iff nat_int)
  note pread = pr [unfolded documented_pread_def, rule_format, OF conjI [OF c off(1)]]
  have file1: "v_file v w1 = v_file v (world s)"
    and keep: "\<forall>a. a \<notin> region (host + of_nat ?N) (unat sz - ?N) \<longrightarrow> v_mem v w1 a = v_mem v (world s) a"
    using pread len by auto
  have le64: "unat sz \<le> 2 ^ 64" using unat_less_64 [of sz] by simp
  have ext: "bounce_inv v w0 ?fd host (unat sz) (nat (sint fo)) (?N + m) w1"
    if "?N + m \<le> unat sz" "m \<le> nat r" "r \<noteq> -1 \<or> m = 0" for m
  proof (rule bounce_inv_extend [OF inv that(1) le64 file1 _ _ keep])
    show "\<forall>i<m. v_mem v w1 (host + of_nat ?N + of_nat i) = v_file v (world s) ?fd ! (nat (sint fo) + ?N + i)"
      using pread that off by (auto simp: add.assoc)
    show "0 < m \<longrightarrow> nat (sint fo) + ?N + m \<le> length (v_file v (world s) ?fd)"
      using pread that off by auto
  qed
  consider (bad) "r = -1" | (eof) "r = 0" | (some) "0 < r" "nat r \<le> unat sz - ?N"
    using pread len by linarith
  then show ?thesis
  proof cases
    case bad
    with rnd c True have "t = s\<lparr>world := w1\<rparr>" "q = Inl n \<or> q = Inr (-1)"
      by (auto simp: cpu_copy_round_def Sys_pread_def cbind_def call_ext_def throwOn_def split: if_splits)
    with ext [of 0] lt show ?thesis by (auto intro!: exI [of _ ?N])
  next
    case eof
    with rnd c True have t: "t = s\<lparr>world := w1\<rparr>" "q = Inr (sint n)"
      by (auto simp: cpu_copy_round_def Sys_pread_def cbind_def call_ext_def throwOn_def split: if_splits)
    have "length (v_file v w0 ?fd) \<le> nat (sint fo) + ?N"
      using pread eof len lt off inv by (auto simp: bounce_inv_def)
    with t ext [of 0] lt show ?thesis by (auto intro!: exI [of _ ?N])
  next
    case some
    with rnd c True have t: "t = s\<lparr>world := w1\<rparr>" "q = Inl (n + word_of_int r)"
      by (auto simp: cpu_copy_round_def Sys_pread_def cbind_def call_ext_def throwOn_def split: if_splits)
    have sum: "unat (n + word_of_int r) = ?N + nat r"
    proof -
      have "?N + nat r < 2 ^ 64" using some(2) lt unat_less_64 [of sz] by linarith
      moreover have "unat (word_of_int r :: size_t) = nat r"
        by (rule unat_of_int_le [of _ sz]) (use some in simp_all)
      ultimately show ?thesis by (simp only: unat_word_ariths(1) len_of_numeral_defs) simp
    qed
    have le: "?N + nat r \<le> unat sz" using some(2) lt by linarith
    have "bounce_inv v w0 ?fd host (unat sz) (nat (sint fo)) (?N + nat r) w1"
      by (rule ext [OF le]) (use some(1) in auto)
    with le show ?thesis by (simp only: t sum.case sum) simp
  qed
qed


lemma cpu_read_loop:
  assumes pr: "documented_pread x v" and fo: "0 \<le> sint fo"
    and loop: "oloop (cpu_copy_round x IoRead f host sz fo) 0 s = Some (Ret k, t)"
  shows "\<exists>m \<le> unat sz. (k = -1 \<or> k = sint (of_nat m :: size_t) \<and>
          (m < unat sz \<longrightarrow> length (v_file v (world s) (File_bufferedFd f)) \<le> nat (sint fo) + m)) \<and>
        bounce_inv v (world s) (File_bufferedFd f) host (unat sz) (nat (sint fo)) m (world t)"
proof -
  let ?I = "\<lambda>n u. unat n \<le> unat sz \<and>
    bounce_inv v (world s) (File_bufferedFd f) host (unat sz) (nat (sint fo)) (unat n) (world u)"
  let ?Q = "\<lambda>r u. \<forall>k. r = Ret k \<longrightarrow> (\<exists>m \<le> unat sz. (k = -1 \<or> k = sint (of_nat m :: size_t) \<and>
          (m < unat sz \<longrightarrow> length (v_file v (world s) (File_bufferedFd f)) \<le> nat (sint fo) + m)) \<and>
        bounce_inv v (world s) (File_bufferedFd f) host (unat sz) (nat (sint fo)) m (world u))"
  note round = cpu_read_round [OF pr fo]
  have "?Q (Ret k) t"
  proof (rule oloop_inv [OF loop, where I = ?I])
    show "?I 0 s" by (simp add: bounce_inv_def)
  next
    fix n u n' u'
    assume "?I n u" "cpu_copy_round x IoRead f host sz fo n u = (Ret (Inl n'), u')"
    with round [of n sz "world s" f host u "Inl n'" u'] show "?I n' u'" by simp
  next
    fix n u n' u'
    assume "?I n u" "cpu_copy_round x IoRead f host sz fo n u = (Ret (Inr n'), u')"
    with round [of n sz "world s" f host u "Inr n'" u'] show "?Q (Ret n') u'" by simp
  qed simp_all
  then show ?thesis by blast
qed

text \<open>Writing: \<open>n\<close> bytes of the bounce buffer are in the file.\<close>

abbreviation file_inv_write :: "'w view \<Rightarrow> 'w \<Rightarrow> int \<Rightarrow> ptr \<Rightarrow> nat \<Rightarrow> nat \<Rightarrow> nat \<Rightarrow> 'w \<Rightarrow> bool" where
  "file_inv_write v \<equiv> write_inv v UNIV"

lemma cpu_write_round:
  fixes n :: size_t
  assumes pw: "documented_pwrite x v" and fo: "0 \<le> sint fo" and n: "unat n \<le> unat sz"
    and inv: "file_inv_write v w0 (File_bufferedFd f) host (nat (sint fo)) (unat sz) (unat n) (world s)"
    and rnd: "cpu_copy_round x IoWrite f host sz fo n s = (Ret q, t)"
  shows "case q of
      Inl m \<Rightarrow> unat m \<le> unat sz \<and>
        file_inv_write v w0 (File_bufferedFd f) host (nat (sint fo)) (unat sz) (unat m) (world t)
    | Inr k \<Rightarrow> \<exists>m \<le> unat sz. (k = -1 \<or> k = sint (of_nat m :: size_t)) \<and>
        file_inv_write v w0 (File_bufferedFd f) host (nat (sint fo)) (unat sz) m (world t)"
proof (cases "n < sz")
  case False
  with rnd have "q = Inr (sint n)" "t = s" by (simp_all add: cpu_copy_round_def)
  moreover have "n = sz" using n False by (simp add: word_less_nat_alt word_unat_eq_iff)
  ultimately show ?thesis using inv by (auto intro!: exI [of _ "unat n"])
next
  case True
  let ?fd = "File_bufferedFd f" and ?N = "unat n"
  have len: "unat (sz - n) = unat sz - ?N" using True by (simp add: unat_sub word_less_nat_alt word_le_nat_alt)
  have lt: "?N < unat sz" using True by (simp add: word_less_nat_alt)
  obtain r w1 where c: "c_pwrite x ?fd (host + n) (sz - n) (fo + n) (world s) = (r, w1)" by fastforce
  have off_eq: "sint (fo + n) = sint fo + int ?N"
  proof (cases "?N = 0")
    case False
    then have "nat (sint fo) + ?N < 2 ^ 63" using inv by (simp add: write_inv_def)
    then have "int (nat (sint fo) + ?N) < int (2 ^ 63)" by (simp only: of_nat_less_iff)
    then have "sint fo + int ?N < 2 ^ 63" using fo by (simp only: of_nat_add of_nat_power of_nat_numeral int_nat_eq if_True)
    from sint_add_nat [OF fo this] show ?thesis by simp
  qed (simp add: unat_eq_0)
  have off: "0 \<le> sint (fo + n)" "nat (sint (fo + n)) = nat (sint fo) + ?N"
    unfolding off_eq using fo by (linarith, simp only: nat_add_distrib of_nat_0_le_iff nat_int)
  note pwrite = pw [unfolded documented_pwrite_def, rule_format, OF conjI [OF c off(1)]]
  have mem1: "\<forall>a \<in> UNIV. v_mem v w1 a = v_mem v (world s) a" using pwrite by simp
  consider (bad) "r = -1" "v_file v w1 ?fd = v_file v (world s) ?fd"
    | (ok) "0 \<le> r" "nat r \<le> unat sz - ?N" "nat (sint fo) + ?N + nat r < 2 ^ 63"
      "v_file v w1 ?fd = write_at (v_file v (world s) ?fd) (nat (sint fo) + ?N)
         (map (\<lambda>i. v_mem v (world s) (host + n + of_nat i)) [0..<nat r])"
    using pwrite len off(2) by auto
  then show ?thesis
  proof cases
    case bad
    with rnd c True have t: "t = s\<lparr>world := w1\<rparr>" "q = Inl n \<or> q = Inr (-1)"
      by (auto simp: cpu_copy_round_def Sys_pwrite_def cbind_def call_ext_def throwOn_def split: if_splits)
    from write_inv_same [OF inv bad(2) mem1] t n show ?thesis by (auto intro!: exI [of _ ?N])
  next
    case ok
    have "map (\<lambda>i. v_mem v (world s) (host + n + of_nat i)) [0..<nat r] =
        map (\<lambda>i. v_mem v w0 (host + of_nat (?N + i))) [0..<nat r]"
      using inv by (simp add: write_inv_def add.assoc)
    note content = ok(4) [unfolded this]
    have le: "?N + nat r \<le> unat sz" using ok(2) lt by linarith
    note w = write_inv_pwrite [OF inv le content mem1 ok(3)]
    from ok(1) rnd c True have t: "t = s\<lparr>world := w1\<rparr>"
      "q = (if r = 0 then Inr (sint n) else Inl (n + word_of_int r))"
      by (auto simp: cpu_copy_round_def Sys_pwrite_def cbind_def call_ext_def throwOn_def split: if_splits)
    have sum: "unat (n + word_of_int r) = ?N + nat r"
    proof -
      have "?N + nat r < 2 ^ 64" using le unat_less_64 [of sz] by linarith
      moreover have "unat (word_of_int r :: size_t) = nat r"
        by (rule unat_of_int_le [of _ sz]) (use ok(1) le in simp_all)
      ultimately show ?thesis by (simp only: unat_word_ariths(1) len_of_numeral_defs) simp
    qed
    show ?thesis
    proof (cases "r = 0")
      case True
      with w(1) n show ?thesis by (auto simp: t intro!: exI [of _ ?N])
    next
      case False
      with w(2) le show ?thesis by (simp only: t if_False sum.case sum) simp
    qed
  qed
qed

lemma cpu_write_loop:
  assumes pw: "documented_pwrite x v" and fo: "0 \<le> sint fo"
    and loop: "oloop (cpu_copy_round x IoWrite f host sz fo) 0 s = Some (Ret k, t)"
  shows "\<exists>m \<le> unat sz. (k = -1 \<or> k = sint (of_nat m :: size_t)) \<and>
        file_inv_write v (world s) (File_bufferedFd f) host (nat (sint fo)) (unat sz) m (world t)"
proof -
  let ?I = "\<lambda>n u. unat n \<le> unat sz \<and>
    file_inv_write v (world s) (File_bufferedFd f) host (nat (sint fo)) (unat sz) (unat n) (world u)"
  let ?Q = "\<lambda>r u. \<forall>k. r = Ret k \<longrightarrow> (\<exists>m \<le> unat sz. (k = -1 \<or> k = sint (of_nat m :: size_t)) \<and>
        file_inv_write v (world s) (File_bufferedFd f) host (nat (sint fo)) (unat sz) m (world u))"
  note round = cpu_write_round [OF pw fo]
  have "?Q (Ret k) t"
  proof (rule oloop_inv [OF loop, where I = ?I])
    show "?I 0 s" by (simp add: write_inv_refl)
  next
    fix n u n' u'
    assume "?I n u" "cpu_copy_round x IoWrite f host sz fo n u = (Ret (Inl n'), u')"
    with round [of n sz "world s" f host u "Inl n'" u'] show "?I n' u'" by simp
  next
    fix n u n' u'
    assume "?I n u" "cpu_copy_round x IoWrite f host sz fo n u = (Ret (Inr n'), u')"
    with round [of n sz "world s" f host u "Inr n'" u'] show "?Q (Ret n') u'" by simp
  qed simp_all
  then show ?thesis by blast
qed

section \<open>The copy on the device\<close>

lemma do_copy_file:
  assumes "memory_view x v"
  shows "v_file v (do_copy x dst src st w) = v_file v w"
proof -
  have store: "v_file v (mem_store x a b w) = v_file v w" for a b w using assms by (simp add: memory_view_def)
  have "v_file v (fold (\<lambda>j. mem_store x (f j) (g j)) js w) = v_file v w" for f g and js :: "nat list"
    by (induction js arbitrary: w) (simp_all add: store)
  then show ?thesis by (cases st) (simp_all add: store Let_def)
qed

lemma copies_file:
  assumes "memory_view x v"
  shows "v_file v (fold (do_copy x dst src) steps w) = v_file v w"
  by (induction steps arbitrary: w) (simp_all add: do_copy_file [OF assms])

lemma sint_small: "m < 2 ^ 63 \<Longrightarrow> sint (of_nat m :: size_t) = int m"
  using sint_add_nat [of 0 m] by simp

text \<open>The kernel, on an operation whose parameters are bound and whose host part did not fail.\<close>

lemma kernel_copies:
  assumes mv: "memory_view x v" and any: "any_order schedule" and dim: "n \<noteq> 0"
    and op: "sp_obj p (op_heap s) = Some op" "0 \<le> ao_bytes_transferred_internal op"
      "ao_size op = Bound sz" "ao_buffer_offset op = Bound bo"
      "ao_bounce_buffer_dev_ptr op \<noteq> nullptr" "ao_gpu_buffer op \<noteq> nullptr"
    and m: "m = (case ao_io_type op of IoRead \<Rightarrow> nat (ao_bytes_transferred_internal op) | IoWrite \<Rightarrow> unat sz)" "m < 2 ^ 63"
    and dst: "(dst, src) = (case ao_io_type op of
        IoRead \<Rightarrow> (ao_gpu_buffer op + bo, ao_bounce_buffer_dev_ptr op)
      | IoWrite \<Rightarrow> (ao_bounce_buffer_dev_ptr op, ao_gpu_buffer op + bo))"
    and inj: "inj_on (v_dev v) (region dst m)"
    and disj: "v_dev v ` region dst m \<inter> v_dev v ` region src m = {}"
  shows "\<exists>w. hipFileMemcpyKernel x schedule n p s = (Ret (), s\<lparr>world := w\<rparr>) \<and> v_file v w = v_file v (world s) \<and>
    (\<forall>i < m. v_mem v w (v_dev v (dst + of_nat i)) = v_mem v (world s) (v_dev v (src + of_nat i))) \<and>
    (\<forall>a. a \<notin> v_dev v ` region dst m \<longrightarrow> v_mem v w a = v_mem v (world s) a)"
proof -
  let ?steps = "schedule (unat n) m"
  let ?w = "fold (do_copy x dst src) ?steps (world s)"
  have size: "unat (case ao_io_type op of IoRead \<Rightarrow> word_of_int (ao_bytes_transferred_internal op) | IoWrite \<Rightarrow> sz) = m"
  proof (cases "ao_io_type op")
    case IoRead
    with m have "nat (ao_bytes_transferred_internal op) = m" "m < 2 ^ 64" by simp_all
    then show ?thesis unfolding IoRead IoType.case word_int_nat [OF op(2)] unat_of_nat by simp
  qed (use m in simp)
  have "hipFileMemcpyKernel x schedule n p s = (Ret (), s\<lparr>world := ?w\<rparr>)"
    using op dst size by (cases "ao_io_type op") (simp_all add: hipFileMemcpyKernel_def Let_def)
  moreover have img: "dev_at (v_dev v) q ` {..<m} = v_dev v ` region q m" for q
    by (simp add: region_def image_image)
  have "copied (v_mem v) (dev_at (v_dev v) dst) (dev_at (v_dev v) src) {..<m} (world s) ?w"
  proof (rule kernel_copied)
    show "mem_documented x (v_mem v) (v_dev v)" using mv by (simp add: memory_view_def)
    show "0 < unat n" using dim by (simp add: unat_gt_0)
    show "set ?steps = set (kernel_steps (unat n) m)"
      using any unfolding any_order_def by (metis mset_eq_setD)
    show "inj_on (dev_at (v_dev v) dst) {..<m}"
    proof (rule inj_onI)
      fix i j
      assume ij: "i \<in> {..<m}" "j \<in> {..<m}" and eq: "v_dev v (dst + of_nat i) = v_dev v (dst + of_nat j)"
      have "dst + of_nat i = dst + of_nat j" by (rule inj_onD [OF inj eq]) (use ij in auto)
      with of_nat_inj_ptr [of i j] ij m(2) show "i = j" by simp
    qed
    show "dev_at (v_dev v) dst ` {..<m} \<inter> dev_at (v_dev v) src ` {..<m} = {}" unfolding img by (rule disj)
  qed
  ultimately show ?thesis
    using copies_file [OF mv] by (intro exI [of _ ?w]) (simp add: copied_def flip: img)
qed

text \<open>The same under the addresses that the memory has for the host.\<close>

lemma kernel_copies_mapped:
  assumes "memory_view x v" and "any_order schedule" and "n \<noteq> 0"
    and "sp_obj p (op_heap s) = Some op" "0 \<le> ao_bytes_transferred_internal op"
      "ao_size op = Bound sz" "ao_buffer_offset op = Bound bo"
      "ao_bounce_buffer_dev_ptr op \<noteq> nullptr" "ao_gpu_buffer op \<noteq> nullptr"
    and "m = (case ao_io_type op of IoRead \<Rightarrow> nat (ao_bytes_transferred_internal op) | IoWrite \<Rightarrow> unat sz)" and m: "m < 2 ^ 63"
    and "(dst, src) = (case ao_io_type op of
        IoRead \<Rightarrow> (ao_gpu_buffer op + bo, ao_bounce_buffer_dev_ptr op)
      | IoWrite \<Rightarrow> (ao_bounce_buffer_dev_ptr op, ao_gpu_buffer op + bo))"
    and d: "mapped v dst d m" and c: "mapped v src c m" and disj: "region d m \<inter> region c m = {}"
  shows "\<exists>w. hipFileMemcpyKernel x schedule n p s = (Ret (), s\<lparr>world := w\<rparr>) \<and> v_file v w = v_file v (world s) \<and>
    (\<forall>i < m. v_mem v w (d + of_nat i) = v_mem v (world s) (c + of_nat i)) \<and>
    (\<forall>a. a \<notin> region d m \<longrightarrow> v_mem v w a = v_mem v (world s) a)"
proof -
  have "inj_on (v_dev v) (region dst m)" by (rule mapped_inj [OF d]) (use m in simp)
  from kernel_copies [OF assms(1-12) this] disj d c show ?thesis
    by (simp add: mapped_region [OF d] mapped_region [OF c]) (simp add: mapped_def)
qed


section \<open>Both copies\<close>

fun run_tasks ::
  "'w ext \<Rightarrow> (nat \<Rightarrow> nat \<Rightarrow> copy_step list) \<Rightarrow> async_task list \<Rightarrow> (('w, 'z) async_state_scheme, unit) ocxx" where
  "run_tasks x schedule [] = olift (cret ())"
| "run_tasks x schedule (task # tasks) = obind (run_task x schedule task) (\<lambda>_. run_tasks x schedule tasks)"

text \<open>
  An operation whose parameters are bound, with a bounce buffer apart from the buffer of the client. The
  device sees the bounce buffer at \<open>ao_bounce_buffer_dev_ptr\<close>, the host at \<open>ao_bounce_buffer\<close>; the buffer of the
  client is memory of the device and has one address.
\<close>

definition io_ready ::
  "'w view \<Rightarrow> ('w, 'z) async_state_scheme \<Rightarrow> ptr \<Rightarrow> AsyncOpFallback \<Rightarrow> File \<Rightarrow> size_t \<Rightarrow> hoff_t \<Rightarrow> hoff_t \<Rightarrow> bool" where
  "io_ready v s p op f sz fo bo \<longleftrightarrow>
     op_heap s p = Some (op, 1) \<and> Option.bind (ao_file op) (\<lambda>q. sp_obj q (file_heap s)) = Some f \<and>
     ao_size op = Bound sz \<and> ao_file_offset op = Bound fo \<and> ao_buffer_offset op = Bound bo \<and>
     ao_bytes_transferred_internal op = 0 \<and>
     ao_bounce_buffer_dev_ptr op \<noteq> nullptr \<and> ao_gpu_buffer op \<noteq> nullptr \<and>
     mapped v (ao_bounce_buffer_dev_ptr op) (ao_bounce_buffer op) (unat sz) \<and>
     mapped v (ao_gpu_buffer op + bo) (ao_gpu_buffer op + bo) (unat sz) \<and>
     region (ao_gpu_buffer op + bo) (unat sz) \<inter> region (ao_bounce_buffer op) (unat sz) = {} \<and>
     0 \<le> sint fo \<and> unat sz < 2 ^ 63"

lemma cpu_copy_eq:
  assumes "io_ready v s p op f sz fo bo" and "async_io_cpu_copy x p s = Some (r, t)"
  obtains k w where "r = Ret ()" "t = s\<lparr>world := w, op_heap := (op_heap s)(p \<mapsto> (op\<lparr>ao_bytes_transferred_internal := k\<rparr>, 1))\<rparr>"
    "oloop (cpu_copy_round x (ao_io_type op) f (ao_bounce_buffer op) sz fo) 0 s = Some (Ret k, s\<lparr>world := w\<rparr>)"
proof -
  have op: "op_heap s p = Some (op, 1)" "Option.bind (ao_file op) (\<lambda>q. sp_obj q (file_heap s)) = Some f"
    "ao_size op = Bound sz" "ao_file_offset op = Bound fo" "ao_bytes_transferred_internal op = 0"
    using assms(1) by (simp_all add: io_ready_def)
  let ?loop = "oloop (cpu_copy_round x (ao_io_type op) f (ao_bounce_buffer op) sz fo) 0"
  have run: "obind ?loop (\<lambda>r. olift (op_update p (\<lambda>op. op\<lparr>ao_bytes_transferred_internal := r\<rparr>))) s = Some (r, t)"
    using assms(2) op by (simp add: async_io_cpu_copy_def sp_obj_def bounceBufferHostPtr_def)
  then obtain q u where q: "?loop s = Some (q, u)" by (auto simp: obind_def split: option.splits)
  from cpu_copy_loop [OF q] obtain k w where k: "q = Ret k" "u = s\<lparr>world := w\<rparr>" by blast
  from run q k op(1) have "r = Ret ()"
    "t = s\<lparr>world := w, op_heap := (op_heap s)(p \<mapsto> (op\<lparr>ao_bytes_transferred_internal := k\<rparr>, 1))\<rparr>"
    by (auto simp: obind_def olift_def op_update_def)
  with q k that show thesis by simp
qed

lemma sint_of_nat_small: "m \<le> unat sz \<Longrightarrow> unat sz < 2 ^ 63 \<Longrightarrow> sint (of_nat m :: size_t) = int m"
  by (rule sint_small) simp

lemma region_disjoint_mono: "region a n \<inter> region b n = {} \<Longrightarrow> m \<le> n \<Longrightarrow> region a m \<inter> region b m = {}"
  using region_mono [of m n a] region_mono [of m n b] by blast

lemma read_tasks:
  fixes s t :: "('w, 'z) async_state_scheme"
  assumes ready: "io_ready v s p op f sz fo bo" and type: "ao_io_type op = IoRead"
    and pr: "documented_pread x v" and mv: "memory_view x v" and any: "any_order schedule" and dim: "n \<noteq> 0"
    and run: "run_tasks x schedule (transfer_tasks IoRead n p) s = Some (r, t)"
  shows "r = Ret () \<and> (\<exists>k.
    t = s\<lparr>world := world t, op_heap := (op_heap s)(p \<mapsto> (op\<lparr>ao_bytes_transferred_internal := k\<rparr>, 1))\<rparr> \<and>
    v_file v (world t) = v_file v (world s) \<and>
    (k = -1 \<or> 0 \<le> k \<and> nat k \<le> unat sz \<and>
       (\<forall>i < nat k. v_mem v (world t) (ao_gpu_buffer op + bo + of_nat i) =
          v_file v (world s) (File_bufferedFd f) ! (nat (sint fo) + i)) \<and>
       (nat k < unat sz \<longrightarrow> length (v_file v (world s) (File_bufferedFd f)) \<le> nat (sint fo) + nat k)) \<and>
    (\<forall>a. a \<notin> region (ao_bounce_buffer op) (unat sz) \<union> region (ao_gpu_buffer op + bo) (unat sz) \<longrightarrow>
       v_mem v (world t) a = v_mem v (world s) a))"
proof -
  note rd = ready [unfolded io_ready_def]
  let ?host = "ao_bounce_buffer op" and ?dev = "ao_bounce_buffer_dev_ptr op" and ?gpu = "ao_gpu_buffer op + bo"
  let ?fd = "File_bufferedFd f"
  from run obtain r1 u where c: "async_io_cpu_copy x p s = Some (r1, u)"
    by (auto simp: transfer_tasks_def obind_def run_task_def split: option.splits)
  then obtain k w where u: "r1 = Ret ()"
    "u = s\<lparr>world := w, op_heap := (op_heap s)(p \<mapsto> (op\<lparr>ao_bytes_transferred_internal := k\<rparr>, 1))\<rparr>"
    and loop: "oloop (cpu_copy_round x (ao_io_type op) f ?host sz fo) 0 s = Some (Ret k, s\<lparr>world := w\<rparr>)"
    by (rule cpu_copy_eq [OF ready])
  from cpu_read_loop [OF pr _ loop [unfolded type]] rd obtain m where m: "m \<le> unat sz"
    "k = -1 \<or> k = int m \<and> (m < unat sz \<longrightarrow> length (v_file v (world s) ?fd) \<le> nat (sint fo) + m)"
    "bounce_inv v (world s) ?fd ?host (unat sz) (nat (sint fo)) m w"
    using sint_of_nat_small [of _ sz] by auto
  have kern: "hipFileMemcpyKernel x schedule n p u = (r, t)"
    using run c u(1)
    by (auto simp: transfer_tasks_def obind_def run_task_def olift_def cret_def split: outcome.splits prod.splits)
  let ?op = "op\<lparr>ao_bytes_transferred_internal := k\<rparr>"
  have obj: "sp_obj p (op_heap u) = Some ?op" by (simp add: u(2) sp_obj_def)
  show ?thesis
  proof (cases "k = -1")
    case True
    then have "r = Ret ()" "t = u" using kern obj by (simp_all add: hipFileMemcpyKernel_def)
    with u(2) m(3) True show ?thesis by (auto simp: bounce_inv_def)
  next
    case False
    with m(2) have k: "k = int m" "m < unat sz \<longrightarrow> length (v_file v (world s) ?fd) \<le> nat (sint fo) + m" by simp_all
    have "\<exists>w'. hipFileMemcpyKernel x schedule n p u = (Ret (), u\<lparr>world := w'\<rparr>) \<and> v_file v w' = v_file v (world u) \<and>
      (\<forall>i < m. v_mem v w' (?gpu + of_nat i) = v_mem v (world u) (?host + of_nat i)) \<and>
      (\<forall>a. a \<notin> region ?gpu m \<longrightarrow> v_mem v w' a = v_mem v (world u) a)"
    proof (rule kernel_copies_mapped [OF mv any dim obj])
      show "mapped v ?gpu ?gpu m" by (rule mapped_mono [OF _ m(1)]) (use rd in blast)
      show "mapped v ?dev ?host m" by (rule mapped_mono [OF _ m(1)]) (use rd in blast)
      show "region ?gpu m \<inter> region ?host m = {}" by (rule region_disjoint_mono [OF _ m(1)]) (use rd in blast)
    qed (use rd type k m(1) in simp_all)
    then obtain w' where w': "r = Ret ()" "t = u\<lparr>world := w'\<rparr>" "v_file v w' = v_file v w"
      "\<forall>i < m. v_mem v w' (?gpu + of_nat i) = v_mem v w (?host + of_nat i)"
      "\<forall>a. a \<notin> region ?gpu m \<longrightarrow> v_mem v w' a = v_mem v w a"
      using kern u(2) by auto
    from w'(4) m(3) have bytes: "\<forall>i < m. v_mem v w' (?gpu + of_nat i) = v_file v (world s) ?fd ! (nat (sint fo) + i)"
      by (simp add: bounce_inv_def)
    have others: "\<forall>a. a \<notin> region ?host (unat sz) \<union> region ?gpu (unat sz) \<longrightarrow> v_mem v w' a = v_mem v (world s) a"
      using w'(5) m(3) region_mono [OF m(1), of ?gpu] by (auto simp: bounce_inv_def)
    have "v_file v w' = v_file v (world s)" using w'(3) m(3) by (simp add: bounce_inv_def)
    moreover have wt: "world t = w'" using w'(2) by simp
    moreover have "t = s\<lparr>world := w', op_heap := (op_heap s)(p \<mapsto> (?op, 1))\<rparr>" using w'(2) u(2) by simp
    moreover have nk: "nat k = m" "0 \<le> k" using k(1) by simp_all
    ultimately show ?thesis
      unfolding wt w'(1) using bytes others k(2) m(1) by (intro conjI exI [of _ k] disjI2 refl) (simp_all only: nk)
  qed
qed


lemma write_tasks:
  fixes s t :: "('w, 'z) async_state_scheme"
  assumes ready: "io_ready v s p op f sz fo bo" and type: "ao_io_type op = IoWrite"
    and pw: "documented_pwrite x v" and mv: "memory_view x v" and any: "any_order schedule" and dim: "n \<noteq> 0"
    and run: "run_tasks x schedule (transfer_tasks IoWrite n p) s = Some (r, t)"
  shows "r = Ret () \<and> (\<exists>k. \<exists>m \<le> unat sz.
    t = s\<lparr>world := world t, op_heap := (op_heap s)(p \<mapsto> (op\<lparr>ao_bytes_transferred_internal := k\<rparr>, 1))\<rparr> \<and>
    (k = -1 \<or> k = int m) \<and>
    (\<forall>i < m. nat (sint fo) + i < length (v_file v (world t) (File_bufferedFd f)) \<and>
       v_file v (world t) (File_bufferedFd f) ! (nat (sint fo) + i) =
         v_mem v (world s) (ao_gpu_buffer op + bo + of_nat i)) \<and>
    (\<forall>j < length (v_file v (world s) (File_bufferedFd f)).
       j < nat (sint fo) \<or> nat (sint fo) + unat sz \<le> j \<longrightarrow>
       v_file v (world t) (File_bufferedFd f) ! j = v_file v (world s) (File_bufferedFd f) ! j) \<and>
    length (v_file v (world s) (File_bufferedFd f)) \<le> length (v_file v (world t) (File_bufferedFd f)) \<and>
    length (v_file v (world t) (File_bufferedFd f)) \<le>
      max (length (v_file v (world s) (File_bufferedFd f))) (nat (sint fo) + unat sz) \<and>
    (\<forall>j < length (v_file v (world t) (File_bufferedFd f)).
       byte_written (v_file v (world s) (File_bufferedFd f)) (v_file v (world t) (File_bufferedFd f)) (nat (sint fo))
         (unat sz) (\<lambda>i. v_mem v (world s) (ao_gpu_buffer op + bo + of_nat i)) j) \<and>
    (\<forall>a. a \<notin> region (ao_bounce_buffer op) (unat sz) \<longrightarrow> v_mem v (world t) a = v_mem v (world s) a))"
proof -
  note rd = ready [unfolded io_ready_def]
  let ?host = "ao_bounce_buffer op" and ?dev = "ao_bounce_buffer_dev_ptr op" and ?gpu = "ao_gpu_buffer op + bo"
  let ?fd = "File_bufferedFd f"
  have obj: "sp_obj p (op_heap s) = Some op" using rd by (simp add: sp_obj_def)
  have "\<exists>w. hipFileMemcpyKernel x schedule n p s = (Ret (), s\<lparr>world := w\<rparr>) \<and> v_file v w = v_file v (world s) \<and>
      (\<forall>i < unat sz. v_mem v w (?host + of_nat i) = v_mem v (world s) (?gpu + of_nat i)) \<and>
      (\<forall>a. a \<notin> region ?host (unat sz) \<longrightarrow> v_mem v w a = v_mem v (world s) a)"
  proof (rule kernel_copies_mapped [OF mv any dim obj])
    show "mapped v ?dev ?host (unat sz)" "mapped v ?gpu ?gpu (unat sz)" "region ?host (unat sz) \<inter> region ?gpu (unat sz) = {}"
      using rd by blast+
  qed (use rd type in simp_all)
  then obtain w where w: "hipFileMemcpyKernel x schedule n p s = (Ret (), s\<lparr>world := w\<rparr>)"
    "v_file v w = v_file v (world s)"
    "\<forall>i < unat sz. v_mem v w (?host + of_nat i) = v_mem v (world s) (?gpu + of_nat i)"
    "\<forall>a. a \<notin> region ?host (unat sz) \<longrightarrow> v_mem v w a = v_mem v (world s) a" by blast
  have ready': "io_ready v (s\<lparr>world := w\<rparr>) p op f sz fo bo" using ready by (simp add: io_ready_def)
  have "async_io_cpu_copy x p (s\<lparr>world := w\<rparr>) = Some (r, t)"
    using run w(1)
    by (auto simp: transfer_tasks_def obind_def run_task_def olift_def cret_def split: outcome.splits option.splits prod.splits)
  with ready' obtain k w' where t: "r = Ret ()"
    "t = s\<lparr>world := w', op_heap := (op_heap s)(p \<mapsto> (op\<lparr>ao_bytes_transferred_internal := k\<rparr>, 1))\<rparr>"
    and loop: "oloop (cpu_copy_round x (ao_io_type op) f ?host sz fo) 0 (s\<lparr>world := w\<rparr>) =
      Some (Ret k, s\<lparr>world := w\<rparr>\<lparr>world := w'\<rparr>)"
    by (rule cpu_copy_eq) simp
  from cpu_write_loop [OF pw _ loop [unfolded type]] rd obtain m where m: "m \<le> unat sz" "k = -1 \<or> k = int m"
    and wi: "write_inv v UNIV w ?fd ?host (nat (sint fo)) (unat sz) m w'"
    using sint_of_nat_small [of _ sz] by auto
  have wt: "world t = w'" using t(2) by simp
  have bytes: "byte_written (v_file v (world s) ?fd) (v_file v w' ?fd) (nat (sint fo)) (unat sz)
      (\<lambda>i. v_mem v (world s) (?gpu + of_nat i)) j" if "j < length (v_file v w' ?fd)" for j
  proof (rule byte_written_cong)
    show "byte_written (v_file v (world s) ?fd) (v_file v w' ?fd) (nat (sint fo)) (unat sz)
      (\<lambda>i. v_mem v w (?host + of_nat i)) j" using wi that w(2) by (simp add: write_inv_def)
  qed (use w(3) in simp)
  show ?thesis
    unfolding wt t(1)
    by (intro conjI exI [of _ k] exI [of _ m] refl t(2) m)
      (use wi w(2-4) bytes m(1) in \<open>simp_all add: write_inv_def\<close>)
qed

section \<open>With the cleanup\<close>

text \<open>The cleanup gives the count to the client.\<close>

lemma cleanup_reports:
  fixes s t :: "('w, 'z) async_state_scheme"
  assumes inv: "async_inv EB EF ES s" and p: "p \<in> pending s" and x: "closes x"
    and op: "op_heap s p = Some (op, 1)"
    and t: "t = s\<lparr>world := w, op_heap := (op_heap s)(p \<mapsto> (op\<lparr>ao_bytes_transferred_internal := k\<rparr>, 1))\<rparr>"
  shows "\<exists>u. async_io_cleanup x p t = (Ret (), u) \<and> client_vars u (ao_bytes_transferred op) = word_of_int k \<and>
    completed_ops u = completed_ops s @ [p]"
proof -
  have "op_step p s t" unfolding op_step_def 
    by (intro exI [of _ w] exI [of _ op] exI [of _ "op\<lparr>ao_bytes_transferred_internal := k\<rparr>"])
      (use op t in \<open>simp add: op_bound_def\<close>)
  note keep = op_step_keeps [OF this] and same = op_step_ops [OF this]
  have "base_inv EB EF ES t" by (rule keep(1)) (use inv in \<open>simp add: async_inv_base\<close>)
  moreover have "p \<in> pending t" using p keep(2) by simp
  moreover have "sp_obj p (op_heap t) = Some (op\<lparr>ao_bytes_transferred_internal := k\<rparr>)" by (simp add: t sp_obj_def)
  ultimately show ?thesis using cleanup_step [OF _ _ x, of EB EF ES t p] same by auto
qed

end
