(* ===== verification/Async_Cleanup.thy ===== *)
theory Async_Cleanup
  imports Async_System
begin

text \<open>
  The cleanup of an operation in two steps. \<^verbatim>\<open>async_io_cleanup\<close> (\<^verbatim>\<open>backend/fallback.cpp\<close>) announces the operation
  under the lock of the monitor and reads its count afterwards without a lock, so that any other step may
  come in between. The system below has both halves as steps of their own. Every state that it
  reaches is a state of the system with whole tasks, whose invariant therefore holds in it as well.
\<close>

section \<open>Steps\<close>

text \<open>
  For each stream, the cleanup that is between its halves: the operation, and what the first half hands to
  the second. The next task of the stream waits for it.
\<close>

type_synonym cleanups = "ptr \<Rightarrow> (ptr \<times> ptr \<times> bool) option"

inductive fine_step ::
  "'w ext \<Rightarrow> ('w, 'z) async_state_scheme \<times> cleanups \<Rightarrow> ('w, 'z) async_state_scheme \<times> cleanups \<Rightarrow> bool" for x where
  submit: "buf_heap s nb = None \<Longrightarrow> stream_heap s ns = None \<Longrightarrow> fresh_op x s \<Longrightarrow>
     hipFileIOAsync x nb ns type fh buf size_p fo_p bo_p bt_p hs s = (Ret e, t) \<Longrightarrow> fine_step x (s, r) (t, r)"
| run: "stream_tasks s q = task # ts \<Longrightarrow> r q = None \<Longrightarrow> (\<And>p. task \<noteq> HostFunc fn_async_io_cleanup p) \<Longrightarrow>
     any_order schedule \<Longrightarrow>
     run_task x schedule task (s\<lparr>stream_tasks := (stream_tasks s)(q := ts)\<rparr>) = Some (Ret (), t) \<Longrightarrow> fine_step x (s, r) (t, r)"
| announce: "stream_tasks s q = HostFunc fn_async_io_cleanup p # ts \<Longrightarrow> r q = None \<Longrightarrow>
     cleanup_announce x p (s\<lparr>stream_tasks := (stream_tasks s)(q := ts)\<rparr>) = (Ret b, t) \<Longrightarrow>
     fine_step x (s, r) (t, r(q \<mapsto> (p, b)))"
| report: "r q = Some (p, b) \<Longrightarrow> cleanup_report p b s = (Ret (), t) \<Longrightarrow> fine_step x (s, r) (t, r(q := None))"
| reap: "AsyncMonitor_completion_round x s = (Ret go, t) \<Longrightarrow> fine_step x (s, r) (t, r)"
| manage: "fresh_for c s \<Longrightarrow> perform x c s = (Ret e, t) \<Longrightarrow> fine_step x (s, r) (t, r)"
| client: "fine_step x (s, r) (s\<lparr>client_vars := v\<rparr>, r)"
| environment: "fine_step x (s, r) (s\<lparr>world := w\<rparr>, r)"

inductive fine_reachable :: "'w ext \<Rightarrow> ('w, 'z) async_state_scheme \<times> cleanups \<Rightarrow> bool" for x where
  start: "async_initial s \<Longrightarrow> fine_reachable x (s, \<lambda>_. None)"
| step: "fine_reachable x c \<Longrightarrow> fine_step x c d \<Longrightarrow> fine_reachable x d"

section \<open>The halves\<close>

text \<open>The first half of a cleanup at the head of a queue, and the whole of it.\<close>

lemma cleanup_halves:
  fixes s :: "('w, 'z) async_state_scheme"
  assumes inv: "async_inv EB EF ES s" and q: "stream_tasks s q = HostFunc fn_async_io_cleanup p # ts" and x: "closes x"
  obtains b t v where
    "cleanup_announce x p (s\<lparr>stream_tasks := (stream_tasks s)(q := ts)\<rparr>) = (Ret (b, True), t)"
    "run_task x schedule (HostFunc fn_async_io_cleanup p) (s\<lparr>stream_tasks := (stream_tasks s)(q := ts)\<rparr>) =
       Some (Ret (), t\<lparr>client_vars := v\<rparr>)"
    "base_inv EB EF ES t" "op_heap t p \<noteq> None" "completed_ops t = completed_ops s @ [p]" "ops t = ops s"
    "stream_tasks t = (stream_tasks s)(q := ts)"
proof -
  let ?s = "s\<lparr>stream_tasks := (stream_tasks s)(q := ts)\<rparr>"
  have base: "base_inv EB EF ES ?s" and que: "queues_inv s" using inv by (simp_all add: async_inv_base)
  have "tasks_ok (bound_ops s) (pending s) (HostFunc fn_async_io_cleanup p # ts)"
    using que q unfolding queues_inv_def by metis
  then have p: "p \<in> pending ?s" by simp
  from cleanup_step [OF base p x] show thesis
  proof (elim exE conjE)
    fix t op
    assume t: "async_io_cleanup x p ?s = (Ret (), t)" "base_inv EB EF ES t"
    "completed_ops t = completed_ops ?s @ [p]" "ops t = ops ?s" "stream_tasks t = stream_tasks ?s"
    "cleanup_announce x p ?s = (Ret (ao_bytes_transferred op, True), t\<lparr>client_vars := client_vars ?s\<rparr>)"
      "op_heap t p \<noteq> None"
    show thesis
    proof (rule that [OF t(6), where v = "client_vars t"])
      show "run_task x schedule (HostFunc fn_async_io_cleanup p) ?s =
          Some (Ret (), t\<lparr>client_vars := client_vars ?s, client_vars := client_vars t\<rparr>)"
        using t(1) by (simp add: run_task_def olift_def)
    qed (use t in \<open>simp_all add: ops_def\<close>)
  qed
qed

lemma cleanup_report_alive:
  "op_heap s p = Some (op, n) \<Longrightarrow>
     cleanup_report p (b, True) s =
       (Ret (), s\<lparr>client_vars := (client_vars s)(b := word_of_int (ao_bytes_transferred_internal op))\<rparr>)"
  by (simp add: cleanup_report_def sp_obj_def client_store_def cmodify_def)

lemma cleanup_report_dead: "op_heap s p = None \<Longrightarrow> cleanup_report p (b, True) s = (Terminate, s)"
  by (simp add: cleanup_report_def sp_obj_def)

text \<open>A report changes nothing but a variable of the client.\<close>

lemma cleanup_report_client:
  "cleanup_report p b s = (Ret (), t) \<Longrightarrow> t = s\<lparr>client_vars := client_vars t\<rparr>"
  by (cases b) (auto simp: cleanup_report_def client_store_def cmodify_def split: if_splits option.splits)

section \<open>Simulation by whole tasks\<close>

lemma fine_step_simulated:
  fixes s t :: "('w, 'z) async_state_scheme"
  assumes "fine_step x (s, r) (t, r')" and reach: "async_reachable x s"
    and x: "closes x" "c_sysconf_pagesize x \<noteq> -1"
  shows "async_reachable x t"
  using assms(1)
proof (cases rule: fine_step.cases)
  case (announce q p ts b)
  have inv: "async_inv no_uses no_uses no_uses s" by (rule async_reachable_inv [OF reach x])
  obtain b' t' v where "cleanup_announce x p (s\<lparr>stream_tasks := (stream_tasks s)(q := ts)\<rparr>) = (Ret (b', True), t')"
    and run: "run_task x kernel_steps (HostFunc fn_async_io_cleanup p) (s\<lparr>stream_tasks := (stream_tasks s)(q := ts)\<rparr>) =
      Some (Ret (), t'\<lparr>client_vars := v\<rparr>)"
    by (rule cleanup_halves [OF inv announce(2) x(1)])
  with announce(4) have t: "t' = t" by simp
  have "any_order kernel_steps" by (simp add: any_order_def)
  from async_reachable.step [OF reach async_step.run [OF announce(2) this run]]
  have "async_reachable x (t\<lparr>client_vars := v\<rparr>)" unfolding t .
  from async_reachable.step [OF this async_step.client [of x _ "client_vars t"]] show ?thesis by simp
next
  case (report q p b)
  from cleanup_report_client [OF report(3)] obtain v where "t = s\<lparr>client_vars := v\<rparr>" by blast
  with async_reachable.step [OF reach async_step.client] show ?thesis by simp
qed (blast intro: async_reachable.step [OF reach] async_step.intros)+

lemma fine_step_announced:
  fixes s t :: "('w, 'z) async_state_scheme"
  assumes "fine_step x (s, r) (t, r')" and inv: "async_inv EB EF ES s" and x: "closes x"
    and "\<forall>q p b k. r q = Some (p, b, k) \<longrightarrow> k"
  shows "\<forall>q p b k. r' q = Some (p, b, k) \<longrightarrow> k"
  using assms(1)
proof (cases rule: fine_step.cases)
  case (announce q p ts b)
  obtain b' t' where "cleanup_announce x p (s\<lparr>stream_tasks := (stream_tasks s)(q := ts)\<rparr>) = (Ret (b', True), t')"
    by (rule cleanup_halves [OF inv announce(2) x])
  with announce have "r' = r(q \<mapsto> (p, b', True))" by simp
  with assms(4) show ?thesis by simp blast
qed (use assms(4) in \<open>auto split: if_splits\<close>)

text \<open>The states of the finer system are states of the coarser one, and a cleanup between its halves has announced.\<close>

lemma fine_reachable_simulated:
  fixes s :: "('w, 'z) async_state_scheme"
  assumes "fine_reachable x (s, r)" and x: "closes x" "c_sysconf_pagesize x \<noteq> -1"
  shows "async_reachable x s \<and> (\<forall>q p b k. r q = Some (p, b, k) \<longrightarrow> k)"
  using assms(1)
proof (induction "(s, r)" arbitrary: s r rule: fine_reachable.induct)
  case (start s)
  then show ?case by (simp add: async_reachable.start)
next
  case (step c t r')
  obtain s r where c: "c = (s, r)" by fastforce
  with step.hyps(2) have reach: "async_reachable x s" and k: "\<forall>q p b k. r q = Some (p, b, k) \<longrightarrow> k" by blast+
  note st = step.hyps(3) [unfolded c]
  from fine_step_simulated [OF st reach x] fine_step_announced [OF st async_reachable_inv [OF reach x] x(1) k]
  show ?case by blast
qed

text \<open>
  The completion thread takes the operation that was announced last: when it runs between the two halves, the
  second half reads an operation that no longer exists.
\<close>

lemma cleanup_race:
  fixes t :: "('w, 'z) async_state_scheme"
  assumes base: "base_inv EB EF ES t" and c: "completed_ops t = ps @ [p]"
  shows "\<exists>u. AsyncMonitor_completion_round x t = (Ret True, u) \<and> cleanup_report p (b, True) u = (Terminate, u)"
proof -
  have "completed_ops t \<noteq> []" using c by simp
  from completion_step [OF base this, of x] c obtain u where
    "AsyncMonitor_completion_round x t = (Ret True, u)" "op_heap u p = None" by auto
  then show ?thesis using cleanup_report_dead by blast
qed

lemma cleanup_reads_deleted_operation:
  fixes s :: "('w, 'z) async_state_scheme"
  assumes reach: "fine_reachable x (s, r)" and q: "stream_tasks s q = HostFunc fn_async_io_cleanup p # ts" "r q = None"
    and x: "closes x" "c_sysconf_pagesize x \<noteq> -1"
  shows "\<exists>b (u :: ('w, 'z) async_state_scheme). fine_reachable x (u, r(q \<mapsto> (p, b, True))) \<and> cleanup_report p (b, True) u = (Terminate, u)"
proof -
  have inv: "async_inv no_uses no_uses no_uses s"
    using fine_reachable_simulated [OF reach x] async_reachable_inv [OF _ x] by blast
  obtain b t where t: "cleanup_announce x p (s\<lparr>stream_tasks := (stream_tasks s)(q := ts)\<rparr>) = (Ret (b, True), t)"
    "base_inv no_uses no_uses no_uses t" "completed_ops t = completed_ops s @ [p]"
    by (rule cleanup_halves [OF inv q(1) x(1)])
  from cleanup_race [OF t(2,3), where b = b] obtain u where
    u: "AsyncMonitor_completion_round x t = (Ret True, u)" "cleanup_report p (b, True) u = (Terminate, u)" by blast
  have "fine_step x (s, r) (t, r(q \<mapsto> (p, b, True)))"
    by (rule fine_step.announce [where r = r and q = q, OF q(1) _ t(1)]) (rule q(2))
  from fine_reachable.step [OF reach this]
  have "fine_reachable x (t, r(q \<mapsto> (p, b, True)))" .
  from fine_reachable.step [OF this fine_step.reap [OF u(1)]] u(2) show ?thesis by blast
qed

end
