(* ===== verification/Sample_Async.thy ===== *)
theory Sample_Async
  imports Sample_Platform Async_Bytes Async_Cleanup
begin

text \<open>
  A client of asynchronous IO on the sample platform: a file and a buffer are registered, and a read
  and a write are submitted on two streams.
\<close>

section \<open>States\<close>

definition sample_vars :: "ptr \<Rightarrow> 64 word" where
  "sample_vars = (\<lambda>_. 0)(0x100 := 4, 0x108 := 1, 0x110 := 8)"

definition async_init :: "sample async_state" where
  "async_init =
     \<lparr>world = sample_world 0, m_fastpath_override = None, m_fallback_override = None,
      buf_heap = Map.empty, from_ptr = [],
      file_heap = Map.empty, from_fd = [], from_fh = [],
      stream_heap = Map.empty, from_stream = [],
      ref_count = 0, m_stats = Some (Stats_init\<lparr>st_level := 1\<rparr>), hip_inited = False,
      batch_heap = Map.empty, active_contexts = [],
      op_heap = Map.empty, submitted_ops = [], completed_ops = [], is_finished = False,
      stream_tasks = (\<lambda>_. []), client_vars = sample_vars\<rparr>"

definition async_open :: "sample async_state" where
  "async_open = snd (perform sample_fast (HandleRegister sample_fh 0x7000 (Some sample_descr)) async_init)"

definition async_ready :: "sample async_state" where
  "async_ready = snd (perform sample_fast (BufRegister sample_bufobj sample_buf 64 0) async_open)"

lemma async_ready_facts:
  "fst (perform sample_fast (HandleRegister sample_fh 0x7000 (Some sample_descr)) async_init) = Ret (hipFile_status hipFileSuccess)"
  "file_heap async_init sample_fh = None"
  "fst (perform sample_fast (BufRegister sample_bufobj sample_buf 64 0) async_open) = Ret (hipFile_status hipFileSuccess)"
  "buf_heap async_open sample_bufobj = None"
  "buf_heap async_ready 0x8000 = None" "stream_heap async_ready 0x9000 = None" "op_heap async_ready 0x20000000 = None"
  "ref_count async_ready = 1"
  by code_simp+

text \<open>The runtime of the sample platform.\<close>

lemma sample_runtime:
  "hipHostMalloc sample_fast n fl s = (Ret (if n = 192 then 0x20000000 else 0x30000000), s)"
  "hipHostGetDevicePointer sample_fast p g s = (Ret (p + 0x40000000), s)"
  "hipDeviceGetAttribute sample_fast d s = (Ret 1024, s)"
  "hipLaunchHostFunc sample_fast st fn p s = (Ret (), s)"
  "hipLaunchKernel sample_fast a b p c st s = (Ret (), s)"
  "getMaxRwCount sample_fast s = (Ret 0x7ffff000, s)"
  "sizeof_AsyncOpFallback sample_fast = 192"
  by (simp_all add: sample_fast_def sample_ext_def sample_pinned_shift_def hipHostMalloc_def hipHostGetDevicePointer_def hipDeviceGetAttribute_def
      hipLaunchHostFunc_def hipLaunchKernel_def hip_call1_def hip_call0_def throwOnHipError_def cbind_def call_ext_def
      cret_def getMaxRwCount_eq max_rw_count_def C_INT_MAX_def)

text \<open>A submission, once the objects are found.\<close>

definition sample_op :: "IoType \<Rightarrow> ptr \<Rightarrow> Buffer \<Rightarrow> Stream \<Rightarrow> (ptr \<Rightarrow> 64 word) \<Rightarrow> AsyncOpFallback" where
  "sample_op type stream b st vars =
     (AsyncOp_ctor type sample_fh sample_bufobj stream st 0x100 0x108 0x110 0x118 vars)
       \<lparr>ao_submitted_size := min (vars 0x100) 0x7ffff000, ao_gpu_buffer := Buffer_getBuffer b,
        ao_bounce_buffer := 0x30000000, ao_bounce_buffer_dev_ptr := 0x70000000\<rparr>"

lemma sp_copy_made: "sp_copy p (h(p \<mapsto> (a, n))) = h(p \<mapsto> (a, Suc n))"
  by (simp add: sp_copy_def)

lemma sample_submit:
  assumes "sp_obj sample_bufobj (buf_heap s) = Some b" "sp_obj stream (stream_heap s) = Some st"
    and "paramsValid b (min (client_vars s 0x100) 0x7ffff000) (client_vars s 0x108) (client_vars s 0x110)"
    and "Buffer_getGpuId b = Stream_getHipDevice st" "client_vars s 0x100 \<noteq> 0"
    and "submitted_ops s = []" "min (client_vars s 0x100) 0x7ffff000 \<noteq> 192"
  shows "Fallback_async_io sample_fast type sample_fh sample_bufobj 0x100 0x108 0x110 0x118 stream s =
    (Ret (), s\<lparr>client_vars := (client_vars s)(0x118 := 0),
        buf_heap := sp_copy sample_bufobj (buf_heap s), file_heap := sp_copy sample_fh (file_heap s),
        stream_heap := sp_copy stream (stream_heap s),
        submitted_ops := [(0x20000000, 0x20000000)],
        stream_tasks := (stream_tasks s)(st_hip_stream st :=
          stream_tasks s (st_hip_stream st) @ submission_tasks type st 1024 0x20000000),
        op_heap := (op_heap s)(0x20000000 \<mapsto> (sample_op type stream b st ((client_vars s)(0x118 := 0)), 1))\<rparr>)"
  using assms
  by (cases type) (simp_all add: Fallback_async_io_def cbind_def ccatch_def cscope_def cunwind_def cget_def cmodify_def cret_def cwhen_def
    client_store_def AsyncOpFallback_make_def AsyncOpFallback_new_def AsyncOpFallback_ctor_def AsyncOp_take_def Let_def
    sample_runtime AsyncMonitor_addOp_def AsyncOpFallback_devPtr_def Fallback_async_enqueue_def launch_host_func_def
    launch_memcpy_kernel_def enqueue_task_def AsyncOp_drop_def sp_make_def sp_copy_made sp_release_def sample_op_def
    submission_tasks_def bind_tasks_def transfer_tasks_def stream_fixed_def Stream_getHipStream_def)


text \<open>The objects of the client, and a submission as a whole.\<close>

definition async_held :: "sample async_state" where
  "async_held = snd (DriverState_getFileBufferAndStream sample_fast 0x8000 0x9000 sample_fh sample_buf 0xE000 async_ready)"

definition held_buffer :: Buffer where "held_buffer = the (sp_obj sample_bufobj (buf_heap async_held))"
definition held_stream :: Stream where "held_stream = the (sp_obj 0x9000 (stream_heap async_held))"
definition held_file :: File where "held_file = the (sp_obj sample_fh (file_heap async_held))"

definition async_op :: "IoType \<Rightarrow> AsyncOpFallback" where
  "async_op type = sample_op type 0x9000 held_buffer held_stream (sample_vars(0x118 := 0))"

lemma async_held_facts:
  "fst (DriverState_getFileBufferAndStream sample_fast 0x8000 0x9000 sample_fh sample_buf 0xE000 async_ready) =
     Ret (sample_fh, sample_bufobj, 0x9000)"
  "buf_heap async_held sample_bufobj = Some (held_buffer, 2)"
  "stream_heap async_held 0x9000 = Some (held_stream, 1)"
  "file_heap async_held sample_fh = Some (held_file, 3)"
  "paramsValid held_buffer 4 1 8" "Buffer_getGpuId held_buffer = Stream_getHipDevice held_stream"
  "st_hip_stream held_stream = 0xE000" "\<not> stream_fixed held_stream"
  "submitted_ops async_held = []" "completed_ops async_held = []" "stream_tasks async_held 0xE000 = []"
  "File_bufferedFd held_file = 3" "Buffer_getBuffer held_buffer = sample_buf"
  by code_simp+

lemma async_held_more: "drv_state.more async_held = drv_state.more async_ready"
  by code_simp

lemma async_held_ops:
  "op_heap async_held = Map.empty" "client_vars async_held = sample_vars" "stream_tasks async_held = (\<lambda>_. [])"
  "submitted_ops async_held = []" "completed_ops async_held = []" "is_finished async_held = False"
proof -
  have "drv_state.more async_ready = drv_state.more async_init" by code_simp
  then have more: "drv_state.more async_held = drv_state.more async_init" using async_held_more by simp
  show "op_heap async_held = Map.empty" "client_vars async_held = sample_vars" "stream_tasks async_held = (\<lambda>_. [])"
    "submitted_ops async_held = []" "completed_ops async_held = []" "is_finished async_held = False"
    by (simp_all add: more_ops [OF more]) (simp_all add: async_init_def)
qed

text \<open>Dropping the pointers of the call undoes the copies that the operation took.\<close>

lemma sp_release_fresh_copy: "h p = Some (a, n) \<Longrightarrow> 0 < n \<Longrightarrow> sp_release p (sp_copy p h) = (None, h)"
  by (auto simp: sp_release_def sp_copy_def fun_upd_idem)

lemma dtor_undoes_copies:
  assumes "file_heap s f = Some (a, Suc i)" "buf_heap s b = Some (c, Suc j)" "stream_heap s st = Some (d, Suc k)"
  shows "file_buffer_stream_dtor x (f, b, st)
    (s\<lparr>buf_heap := sp_copy b (buf_heap s), file_heap := sp_copy f (file_heap s), stream_heap := sp_copy st (stream_heap s)\<rparr>) =
    (Ret (), s)"
  by (simp add: assms sp_release_fresh_copy file_buffer_stream_dtor_def cbind_def cmodify_def Stream_drop_def Buffer_drop_def File_drop_def)

text \<open>The state after the submission.\<close>

definition async_submit :: "IoType \<Rightarrow> hipFileError_t outcome \<times> sample async_state" where
  "async_submit type =
     hipFileIOAsync sample_fast 0x8000 0x9000 type sample_fh sample_buf 0x100 0x108 0x110 0x118 0xE000 async_ready"

definition async_sent :: "IoType \<Rightarrow> sample async_state" where
  "async_sent type =
     async_held\<lparr>client_vars := sample_vars(0x118 := 0), submitted_ops := [(0x20000000, 0x20000000)],
       stream_tasks := (\<lambda>_. [])(0xE000 := submission_tasks type held_stream 1024 0x20000000),
       op_heap := [0x20000000 \<mapsto> (async_op type, 1)]\<rparr>"

lemma async_held_run:
  "DriverState_getFileBufferAndStream sample_fast 0x8000 0x9000 sample_fh sample_buf 0xE000 async_ready =
     (Ret (sample_fh, sample_bufobj, 0x9000), async_held)"
  using async_held_facts(1) by (simp add: async_held_def prod_eq_iff)

lemma sample_vars_simps [simp]:
  "sample_vars 0x100 = 4" "sample_vars 0x108 = 1" "sample_vars 0x110 = 8"
  by (simp_all add: sample_vars_def)

lemma async_held_submit:
  "Fallback_async_io sample_fast type sample_fh sample_bufobj 0x100 0x108 0x110 0x118 0x9000 async_held =
     (Ret (), (async_sent type)\<lparr>buf_heap := sp_copy sample_bufobj (buf_heap async_held),
        file_heap := sp_copy sample_fh (file_heap async_held), stream_heap := sp_copy 0x9000 (stream_heap async_held)\<rparr>)"
  by (subst sample_submit [where b = held_buffer and st = held_stream])
    (simp_all add: async_held_facts sp_obj_def async_held_ops async_sent_def async_op_def)

lemma async_sent_eq: "async_submit type = (Ret (hipFile_status hipFileSuccess), async_sent type)"
proof -
  have "file_buffer_stream_dtor sample_fast (sample_fh, sample_bufobj, 0x9000)
      ((async_sent type)\<lparr>buf_heap := sp_copy sample_bufobj (buf_heap async_held),
        file_heap := sp_copy sample_fh (file_heap async_held), stream_heap := sp_copy 0x9000 (stream_heap async_held)\<rparr>) =
      (Ret (), async_sent type)"
    using dtor_undoes_copies [where s = "async_sent type" and f = sample_fh and b = sample_bufobj and st = "0x9000" and
        x = sample_fast and a = held_file and c = held_buffer and d = held_stream and i = 2 and j = 1 and k = 0]
    by (simp add: async_sent_def async_held_facts numeral_eq_Suc)
  moreover have "sample_buf \<noteq> 0" by (simp add: sample_buf_def)
  ultimately show ?thesis
    by (simp add: async_submit_def hipFileIOAsync_def ccatch_def cbind_def DriverState_getRefCount_def cget_def
        async_ready_facts checkNull_eq cret_def async_held_run cscope_def async_held_submit
        del: checkNull.simps)
qed

section \<open>Reachability and the runtime\<close>

lemma sample_page: "c_sysconf_pagesize sample_fast \<noteq> -1"
  by (simp add: sample_fast_def sample_ext_def)

lemma sample_fast_closes: "closes sample_fast"
  unfolding sample_fast_def by (rule sample_closes)

lemma sample_fresh_op: "op_heap s 0x20000000 = None \<Longrightarrow> fresh_op sample_fast s"
  by (simp add: fresh_op_def sample_fast_def sample_ext_def)

lemma async_ready_reachable: "async_reachable sample_fast async_ready"
proof (rule async_reachable.step)
  show "async_reachable sample_fast async_open"
  proof (rule async_reachable.step)
    show "async_reachable sample_fast async_init"
      by (rule async_reachable.start) (simp add: async_initial_def async_init_def)
    have "perform sample_fast (HandleRegister sample_fh 0x7000 (Some sample_descr)) async_init =
        (Ret (hipFile_status hipFileSuccess), async_open)"
      using async_ready_facts(1) by (simp add: async_open_def prod_eq_iff)
    then show "async_step sample_fast async_init async_open"
      by (rule async_step.manage [rotated]) (use async_ready_facts(2) in \<open>simp add: sample_fh_def\<close>)
  qed
  have "perform sample_fast (BufRegister sample_bufobj sample_buf 64 0) async_open =
      (Ret (hipFile_status hipFileSuccess), async_ready)"
    using async_ready_facts(3) by (simp add: async_ready_def prod_eq_iff)
  then show "async_step sample_fast async_open async_ready"
    by (rule async_step.manage [rotated]) (simp add: async_ready_facts)
qed

lemma async_sent_reachable: "async_reachable sample_fast (async_sent type)"
proof (rule async_reachable.step [OF async_ready_reachable])
  show "async_step sample_fast async_ready (async_sent type)"
    by (rule async_step.submit [OF async_ready_facts(5,6) sample_fresh_op [OF async_ready_facts(7)]
          async_sent_eq [unfolded async_submit_def]])
qed

text \<open>The same state in the system in which a cleanup takes two steps.\<close>

lemma async_sent_fine: "fine_reachable sample_fast (async_sent type, \<lambda>_. None)"
proof -
  have "perform sample_fast (HandleRegister sample_fh 0x7000 (Some sample_descr)) async_init =
      (Ret (hipFile_status hipFileSuccess), async_open)"
    using async_ready_facts(1) by (simp add: async_open_def prod_eq_iff)
  then have 1: "fine_step sample_fast (async_init, r) (async_open, r)" for r
    by (rule fine_step.manage [rotated]) (use async_ready_facts(2) in \<open>simp add: sample_fh_def\<close>)
  have "perform sample_fast (BufRegister sample_bufobj sample_buf 64 0) async_open =
      (Ret (hipFile_status hipFileSuccess), async_ready)"
    using async_ready_facts(3) by (simp add: async_ready_def prod_eq_iff)
  then have 2: "fine_step sample_fast (async_open, r) (async_ready, r)" for r
    by (rule fine_step.manage [rotated]) (simp add: async_ready_facts)
  have 3: "fine_step sample_fast (async_ready, r) (async_sent type, r)" for r
    by (rule fine_step.submit [OF async_ready_facts(5,6) sample_fresh_op [OF async_ready_facts(7)]
          async_sent_eq [unfolded async_submit_def]])
  have "fine_reachable sample_fast (async_init, \<lambda>_. None)"
    by (rule fine_reachable.start) (simp add: async_initial_def async_init_def)
  then show ?thesis by (intro fine_reachable.step [OF _ 3] fine_reachable.step [OF _ 2] fine_reachable.step [OF _ 1])
qed

lemma sample_memory_view: "memory_view sample_fast sample_view"
  by (simp add: memory_view_def mem_documented_def sample_fast_def sample_ext_def sample_view_def sample_content_def fun_eq_iff)

lemma sample_mapped: "mapped sample_view 0x70000000 0x30000000 4" "mapped sample_view 0x100000008 0x100000008 4"
proof -
  have four: "(\<forall>i < 4. P i) \<longleftrightarrow> P 0 \<and> P 1 \<and> P 2 \<and> P 3" for P :: "nat \<Rightarrow> bool"
    by (simp add: numeral_eq_Suc All_less_Suc) blast
  show "mapped sample_view 0x70000000 0x30000000 4" "mapped sample_view 0x100000008 0x100000008 4"
    unfolding mapped_def four by (simp_all add: sample_view_def sample_dev_def sample_pinned_shift_def)
qed

text \<open>The state once the parameters are bound.\<close>

definition async_popped :: "IoType \<Rightarrow> sample async_state" where
  "async_popped type = (async_sent type)\<lparr>stream_tasks := (stream_tasks (async_sent type))
     (0xE000 := transfer_tasks type 1024 0x20000000 @ [HostFunc fn_async_io_cleanup 0x20000000])\<rparr>"

definition async_bound :: "IoType \<Rightarrow> sample async_state" where
  "async_bound type = snd (async_io_bind_params sample_fast 0x20000000 (async_popped type))"

lemma async_op_simps:
  "ao_io_type (async_op type) = type" "ao_file (async_op type) = Some sample_fh"
  "ao_buffer (async_op type) = Some sample_bufobj" "ao_stream (async_op type) = Some 0x9000"
  "ao_size (async_op type) = Unbound 0x100" "ao_file_offset (async_op type) = Unbound 0x108"
  "ao_buffer_offset (async_op type) = Unbound 0x110" "ao_bytes_transferred (async_op type) = 0x118"
  "ao_submitted_size (async_op type) = 4" "ao_bytes_transferred_internal (async_op type) = 0"
  "ao_gpu_buffer (async_op type) = sample_buf" "ao_bounce_buffer (async_op type) = 0x30000000"
  "ao_bounce_buffer_dev_ptr (async_op type) = 0x70000000"
proof -
  have "\<not> Stream_fixedIOSize held_stream" "\<not> Stream_fixedFileOffset held_stream"
    "\<not> Stream_fixedBufferOffset held_stream" by code_simp+
  then show "ao_io_type (async_op type) = type" "ao_file (async_op type) = Some sample_fh"
    "ao_buffer (async_op type) = Some sample_bufobj" "ao_stream (async_op type) = Some 0x9000"
    "ao_size (async_op type) = Unbound 0x100" "ao_file_offset (async_op type) = Unbound 0x108"
    "ao_buffer_offset (async_op type) = Unbound 0x110" "ao_bytes_transferred (async_op type) = 0x118"
    "ao_submitted_size (async_op type) = 4" "ao_bytes_transferred_internal (async_op type) = 0"
    "ao_gpu_buffer (async_op type) = sample_buf" "ao_bounce_buffer (async_op type) = 0x30000000"
    "ao_bounce_buffer_dev_ptr (async_op type) = 0x70000000"
    by (simp_all add: async_op_def sample_op_def AsyncOp_ctor_def async_held_facts)
qed

lemma async_bound_eq:
  "async_io_bind_params sample_fast 0x20000000 (async_popped type) = (Ret (), async_bound type)"
  "async_bound type = (async_popped type)\<lparr>op_heap := [0x20000000 \<mapsto> ((async_op type)
     \<lparr>ao_buffer_offset := Bound 8, ao_file_offset := Bound 1, ao_size := Bound 4\<rparr>, 1)]\<rparr>"
proof -
  have "async_io_bind_params sample_fast 0x20000000 (async_popped type) = (Ret (), (async_popped type)\<lparr>op_heap :=
     [0x20000000 \<mapsto> ((async_op type)\<lparr>ao_buffer_offset := Bound 8, ao_file_offset := Bound 1, ao_size := Bound 4\<rparr>, 1)]\<rparr>)"
    by (simp add: async_io_bind_params_def async_popped_def async_sent_def sp_obj_def cnoexcept_def cbind_def sample_runtime bind_value_def
        async_op_simps op_update_def async_held_facts sample_vars_def)
  then show "async_io_bind_params sample_fast 0x20000000 (async_popped type) = (Ret (), async_bound type)"
    "async_bound type = (async_popped type)\<lparr>op_heap := [0x20000000 \<mapsto> ((async_op type)
     \<lparr>ao_buffer_offset := Bound 8, ao_file_offset := Bound 1, ao_size := Bound 4\<rparr>, 1)]\<rparr>"
    by (simp_all add: async_bound_def)
qed

lemma region_list: "region p n = set (map (\<lambda>i. p + of_nat i) [0..<n])"
  by (auto simp: region_def)

lemma async_bound_ready:
  "io_ready sample_view (async_bound type) 0x20000000
     ((async_op type)\<lparr>ao_buffer_offset := Bound 8, ao_file_offset := Bound 1, ao_size := Bound 4\<rparr>) held_file 4 1 8"
proof -
  have "region (0x100000008 :: ptr) 4 \<inter> region 0x30000000 4 = {}"
    by (simp add: region_list upt_rec)
  then show ?thesis
    by (simp add: io_ready_def async_bound_eq(2) async_popped_def async_sent_def async_op_simps sp_obj_def async_held_facts sample_mapped
        sample_buf_def)
qed

lemma async_bound_pending: "0x20000000 \<in> pending (async_bound type)"
  by (simp add: pending_def ops_def async_bound_eq(2) async_popped_def async_sent_def async_held_ops)


lemma sent_queue:
  "stream_tasks (async_sent type) 0xE000 = HostFunc fn_async_io_bind_params 0x20000000 #
     transfer_tasks type 1024 0x20000000 @ [HostFunc fn_async_io_cleanup 0x20000000]"
  by (simp add: async_sent_def submission_tasks_def bind_tasks_def async_held_facts)

lemma sent_pending: "fst ` set (submitted_ops (async_sent type)) - set (completed_ops (async_sent type)) = {0x20000000}"
  by (simp add: async_sent_def async_held_ops)

lemma async_bound_reachable: "async_reachable sample_fast (async_bound type)"
proof (rule async_reachable.step [OF async_sent_reachable])
  have "run_task sample_fast kernel_steps (HostFunc fn_async_io_bind_params 0x20000000) (async_popped type) =
      Some (Ret (), async_bound type)"
    by (simp add: run_task_def olift_def async_bound_eq(1))
  then show "async_step sample_fast (async_sent type) (async_bound type)"
    unfolding async_popped_def by (rule async_step.run [OF sent_queue, rotated]) (simp add: any_order_def)
qed

lemmas sample_fast_counts = sample_transfer_counts [of "\<lambda>_. None", folded sample_fast_def]
lemmas sample_fast_interrupts = sample_interrupts_bounded [of "\<lambda>_. None", folded sample_fast_def]
lemmas sample_fast_pread = sample_pread_documented [of "\<lambda>_. None", folded sample_fast_def]
lemmas sample_fast_pwrite = sample_pwrite_documented [of "\<lambda>_. None", folded sample_fast_def]

end
