(* ===== verification/Async_Properties.thy ===== *)
theory Async_Properties
  imports Sample_Async
begin

text \<open>
  The properties of asynchronous IO and of the driver as a specification: what holds in every reachable
  state, what a submission does, that the queues drain, and which bytes are moved.
\<close>

section \<open>Runs\<close>

text \<open>Cleanups come last.\<close>

lemma tasks_ok_split:
  "tasks_ok B L (us @ HostFunc fn_async_io_cleanup p # vs) \<Longrightarrow> p \<notin> task_op ` set vs"
proof (induction B L us rule: tasks_ok.induct)
  case (1 B L)
  then show ?case using tasks_ok_ops [of B "L - {p}" vs] by auto
qed auto

definition nothing_left :: "('w, 'z) async_state_scheme \<Rightarrow> bool" where
  "nothing_left s \<longleftrightarrow>
     submitted_ops s = [] \<and> completed_ops s = [] \<and> op_heap s = Map.empty \<and> stream_tasks s = (\<lambda>_. []) \<and>
     drv_inv no_uses no_uses no_uses s"

lemma drain_stuck:
  fixes t :: "('w, 'z) async_state_scheme"
  assumes "async_inv no_uses no_uses no_uses t" and "cleanup_queued t" and "closes x" and "c_sysconf_pagesize x \<noteq> -1"
    and "transfer_counts x" and "interrupts_bounded x budget" and "\<And>u. \<not> drain_step x t u"
  shows "nothing_left t"
  using drain_progress [OF assms(1,3-7)] drained [OF assms(1,2)] by (auto simp: nothing_left_def)

section \<open>Reachable states\<close>

text \<open>
  C29: in every state that submissions, running tasks, the completion thread and the management of the
  driver can reach, the monitor holds exactly the live operations, each once; what is complete is still
  submitted; a pending operation keeps its file, buffer and stream alive; a queue has tasks of pending
  operations only, no operation has tasks in two queues, and nothing for an operation follows its cleanup.
\<close>

theorem async_state_consistent:
  assumes "async_reachable x s" and "closes x" and "c_sysconf_pagesize x \<noteq> -1"
  shows "distinct (map fst (submitted_ops s)) \<and> (\<forall>e \<in> set (submitted_ops s). fst e = snd e) \<and>
    dom (op_heap s) = fst ` set (submitted_ops s) \<and> (\<forall>p op n. op_heap s p = Some (op, n) \<longrightarrow> n = 1) \<and>
    distinct (completed_ops s) \<and> set (completed_ops s) \<subseteq> fst ` set (submitted_ops s) \<and>
    (\<forall>p \<in> fst ` set (submitted_ops s) - set (completed_ops s). \<exists>op f b st.
       op_heap s p = Some (op, 1) \<and> ao_file op = Some f \<and> ao_buffer op = Some b \<and> ao_stream op = Some st \<and>
       file_heap s f \<noteq> None \<and> buf_heap s b \<noteq> None \<and> stream_heap s st \<noteq> None) \<and>
    (\<forall>q. task_op ` set (stream_tasks s q) \<subseteq> fst ` set (submitted_ops s) - set (completed_ops s)) \<and>
    (\<forall>q q'. q \<noteq> q' \<longrightarrow> task_op ` set (stream_tasks s q) \<inter> task_op ` set (stream_tasks s q') = {}) \<and>
    (\<forall>q us p vs. stream_tasks s q = us @ HostFunc fn_async_io_cleanup p # vs \<longrightarrow> p \<notin> task_op ` set vs)"
proof -
  have inv: "async_inv no_uses no_uses no_uses s" by (rule async_reachable_inv [OF assms])
  then have mon: "monitor_inv s" and que: "queues_inv s" and base: "base_inv no_uses no_uses no_uses s"
    by (simp_all add: async_inv_def base_inv_def)
  have pend: "fst ` set (submitted_ops s) - set (completed_ops s) = pending s"
    and keys: "set (ops s) = fst ` set (submitted_ops s)"
    by (simp_all add: pending_def ops_def)
  have mon': "distinct (map fst (submitted_ops s))" "\<forall>e \<in> set (submitted_ops s). fst e = snd e"
    "distinct (completed_ops s)" "set (completed_ops s) \<subseteq> fst ` set (submitted_ops s)"
    "sp_owned (count_list (ops s)) (op_heap s)"
    using mon unfolding monitor_inv_def ops_def set_map by blast+
  have one: "n = 1 \<and> p \<in> set (ops s)" if "op_heap s p = Some (op, n)" for p op n
    using that mon'(1) distinct_count_list [of "ops s" p]
    by (cases rule: sp_owned_cases [OF mon'(5), of p]) (auto simp: ops_def [symmetric] split: if_splits)
  then have heap: "\<forall>p op n. op_heap s p = Some (op, n) \<longrightarrow> n = 1" by blast
  have "p \<in> dom (op_heap s) \<longleftrightarrow> p \<in> set (ops s)" for p
    using monitor_op [OF mon, of p] one [of p] by (cases "op_heap s p") auto
  then have dom: "dom (op_heap s) = fst ` set (submitted_ops s)"
    unfolding keys [symmetric] by blast
  have live: "\<forall>p \<in> pending s. \<exists>op f b st. op_heap s p = Some (op, 1) \<and> ao_file op = Some f \<and> ao_buffer op = Some b \<and>
      ao_stream op = Some st \<and> file_heap s f \<noteq> None \<and> buf_heap s b \<noteq> None \<and> stream_heap s st \<noteq> None"
    by (rule ballI, rule pending_objects [OF base], assumption) (auto simp: sp_obj_def)
  have ok: "tasks_ok (bound_ops s) (pending s) (stream_tasks s q)" for q
    using que by (simp add: queues_inv_def)
  have disj: "\<forall>q q'. q \<noteq> q' \<longrightarrow> task_op ` set (stream_tasks s q) \<inter> task_op ` set (stream_tasks s q') = {}"
    using que by (simp add: queues_inv_def)
  have last: "\<forall>q us p vs. stream_tasks s q = us @ HostFunc fn_async_io_cleanup p # vs \<longrightarrow> p \<notin> task_op ` set vs"
    using ok tasks_ok_split by metis
  show ?thesis
    unfolding pend by (intro conjI mon' dom heap live disj last allI tasks_ok_ops [OF ok])
qed

theorem async_state_consistent_witness:
  "dom (op_heap (async_sent IoRead)) = fst ` set (submitted_ops (async_sent IoRead))"
  by (rule conjunct1 [OF conjunct2 [OF conjunct2 [OF
        async_state_consistent [OF async_sent_reachable sample_fast_closes sample_page]]]])

text \<open>Run as a whole, the task at the head of a queue returns.\<close>

lemma task_returns:
  fixes s :: "('w, 'z) async_state_scheme"
  assumes "async_reachable x s" and "stream_tasks s q = task # ts" and "closes x" and "c_sysconf_pagesize x \<noteq> -1"
    and "transfer_counts x" and "interrupts_bounded x budget"
  shows "\<exists>t. run_task x schedule task (s\<lparr>stream_tasks := (stream_tasks s)(q := ts)\<rparr>) = Some (Ret (), t) \<and>
    stream_tasks t = (stream_tasks s)(q := ts) \<and> submitted_ops t = submitted_ops s \<and>
    completed_ops t = completed_ops s @
      (case task of HostFunc fn_async_io_cleanup p \<Rightarrow> [p] | _ \<Rightarrow> [])"
proof -
  have inv: "async_inv no_uses no_uses no_uses s" by (rule async_reachable_inv [OF assms(1,3,4)])
  let ?s = "s\<lparr>stream_tasks := (stream_tasks s)(q := ts)\<rparr>"
  have "run_task x schedule task ?s \<noteq> None"
    by (simp add: run_task_def cpu_copy_not_None [OF assms(5,6)] split: async_task.split host_fn.split del: not_None_eq)
  then obtain r t where run: "run_task x schedule task ?s = Some (r, t)" by auto
  from run_task_step [OF inv assms(2-4) run]
  have t: "r = Ret ()" "stream_tasks t = (stream_tasks s)(q := ts)" "ops t = ops s"
    "completed_ops t = completed_ops s @ (case task of HostFunc fn_async_io_cleanup p \<Rightarrow> [p] | _ \<Rightarrow> [])"
    "monitor_inv t"
    by (simp_all add: ran_def async_inv_def)
  have same: "m = map (\<lambda>p. (p, p)) (map fst m)" if "\<forall>e \<in> set m. fst e = snd e" for m :: "(ptr \<times> ptr) list"
    using that by (induction m) auto
  have "submitted_ops t = map (\<lambda>p. (p, p)) (ops t)" "submitted_ops s = map (\<lambda>p. (p, p)) (ops s)"
    using t(5) inv same by (simp_all add: monitor_inv_def async_inv_def ops_def)
  with t run show ?thesis by auto
qed

text \<open>
  C30: in a reachable state of the system in which a cleanup takes two steps, whatever step comes next on a stream,
  with the threads of a kernel in any order, it returns, lets no exception out and accesses no dead object, with one
  exception. A task other than a cleanup takes itself off the queue and completes nothing. The
  first half of a cleanup completes its operation, which is alive afterwards. The second half, which
  reads the count without a lock, gives it to the client exactly when the operation is still there; when the
  completion thread ran in between, which it can after every first half, the read is of
  a dead object.
\<close>

theorem no_task_fails:
  fixes s :: "('w, 'z) async_state_scheme"
  assumes "fine_reachable x (s, r)" and "closes x" and "c_sysconf_pagesize x \<noteq> -1"
    and "transfer_counts x" and "interrupts_bounded x budget"
  shows "case r q of
      Some (p, b, announced) \<Rightarrow> announced \<and>
        cleanup_report p (b, announced) s =
          (case op_heap s p of
             Some (op, n) \<Rightarrow>
               (Ret (), s\<lparr>client_vars := (client_vars s)(b := word_of_int (ao_bytes_transferred_internal op))\<rparr>)
           | None \<Rightarrow> (Terminate, s))
    | None \<Rightarrow>
        (case stream_tasks s q of
           [] \<Rightarrow> True
         | HostFunc fn_async_io_cleanup p # ts \<Rightarrow>
             \<exists>b t u. cleanup_announce x p (s\<lparr>stream_tasks := (stream_tasks s)(q := ts)\<rparr>) = (Ret (b, True), t) \<and>
               op_heap t p \<noteq> None \<and> completed_ops t = completed_ops s @ [p] \<and>
               AsyncMonitor_completion_round x t = (Ret True, u) \<and> cleanup_report p (b, True) u = (Terminate, u)
         | task # ts \<Rightarrow>
             \<exists>t. run_task x schedule task (s\<lparr>stream_tasks := (stream_tasks s)(q := ts)\<rparr>) = Some (Ret (), t) \<and>
               stream_tasks t = (stream_tasks s)(q := ts) \<and> submitted_ops t = submitted_ops s \<and>
               completed_ops t = completed_ops s)"
proof -
  from fine_reachable_simulated [OF assms(1-3)] have reach: "async_reachable x s"
    and known: "r q = Some (p, b, k) \<Longrightarrow> k" for p b k by blast+
  have inv: "async_inv no_uses no_uses no_uses s" by (rule async_reachable_inv [OF reach assms(2,3)])
  show ?thesis
  proof (cases "r q")
    case (Some c)
    obtain p b k where c: "c = (p, b, k)" by (cases c)
    with Some known have k by simp
    with Some c show ?thesis
      by (auto simp: cleanup_report_alive cleanup_report_dead split: option.split)
  next
    case None
    show ?thesis
    proof (cases "stream_tasks s q")
      case q: (Cons task ts)
      note returns = task_returns [OF reach q assms(2-5), of schedule]
      show ?thesis
      proof (cases "\<exists>p. task = HostFunc fn_async_io_cleanup p")
        case True
        then obtain p where p: "task = HostFunc fn_async_io_cleanup p" by blast
        obtain b t where t: "cleanup_announce x p (s\<lparr>stream_tasks := (stream_tasks s)(q := ts)\<rparr>) = (Ret (b, True), t)"
          "base_inv no_uses no_uses no_uses t" "op_heap t p \<noteq> None" "completed_ops t = completed_ops s @ [p]"
          by (rule cleanup_halves [OF inv q [unfolded p] assms(2)])
        from cleanup_race [OF t(2,4), of x b] t None q p show ?thesis by auto
      next
        case False
        with returns None q show ?thesis by (auto split: async_task.split host_fn.split)
      qed
    qed (use None in simp)
  qed
qed

theorem no_task_fails_witness:
  "\<exists>t. run_task sample_fast kernel_steps (HostFunc fn_async_io_bind_params 0x20000000)
      ((async_sent IoRead)\<lparr>stream_tasks := (stream_tasks (async_sent IoRead))(0xE000 :=
         [HostFunc fn_async_io_cpu_copy 0x20000000, MemcpyKernel 1024 0x20000000,
          HostFunc fn_async_io_cleanup 0x20000000])\<rparr>) = Some (Ret (), t) \<and> completed_ops t = []"
  using no_task_fails [OF async_sent_fine [of IoRead] sample_fast_closes sample_page
      sample_fast_counts sample_fast_interrupts, where q = "0xE000" and schedule = kernel_steps]
  by (simp add: sent_queue transfer_tasks_def) (auto simp: async_sent_def async_held_ops)

text \<open>
  C31: a submission always returns. Either nothing was submitted (a parameter was refused, an allocation
  failed, or no byte was asked for), or one new operation is in the monitor and its tasks stand at the
  end of the queue of the client's stream: all of them in order when the result is a success.
\<close>

theorem async_submission_outcome:
  fixes s t :: "('w, 'z) async_state_scheme"
  assumes "async_reachable x s" and "buf_heap s nb = None" and "stream_heap s ns = None" and "fresh_op x s"
    and "closes x" and "c_sysconf_pagesize x \<noteq> -1"
    and "hipFileIOAsync x nb ns type fh buf size_p fo_p bo_p bytes_p hs s = (r, t)"
  shows "(\<exists>e. r = Ret e) \<and> completed_ops t = completed_ops s \<and>
    (map fst (submitted_ops t) = map fst (submitted_ops s) \<and> op_heap t = op_heap s \<and> stream_tasks t = stream_tasks s \<or>
     (\<exists>p op st ts. op_heap s p = None \<and> map fst (submitted_ops t) = map fst (submitted_ops s) @ [p] \<and>
        op_heap t = (op_heap s)(p \<mapsto> (op, 1)) \<and> st_hip_stream st = hs \<and>
        stream_tasks t = (stream_tasks s)(hs := stream_tasks s hs @ ts) \<and>
        (r = Ret (hipFile_status hipFileSuccess) \<longrightarrow>
           (\<exists>n. ts = (if Stream_fixedIOSize st \<and> Stream_fixedFileOffset st \<and> Stream_fixedBufferOffset st then []
                     else [HostFunc fn_async_io_bind_params p]) @
             (case type of IoRead \<Rightarrow> [HostFunc fn_async_io_cpu_copy p, MemcpyKernel n p]
                         | IoWrite \<Rightarrow> [MemcpyKernel n p, HostFunc fn_async_io_cpu_copy p]) @
             [HostFunc fn_async_io_cleanup p]))))"
proof -
  have inv: "async_inv no_uses no_uses no_uses s" by (rule async_reachable_inv [OF assms(1,5,6)])
  have tasks: "submission_tasks type st n p =
      (if Stream_fixedIOSize st \<and> Stream_fixedFileOffset st \<and> Stream_fixedBufferOffset st then []
       else [HostFunc fn_async_io_bind_params p]) @
      (case type of IoRead \<Rightarrow> [HostFunc fn_async_io_cpu_copy p, MemcpyKernel n p]
                  | IoWrite \<Rightarrow> [MemcpyKernel n p, HostFunc fn_async_io_cpu_copy p]) @
      [HostFunc fn_async_io_cleanup p]" for st n p
    by (auto simp: submission_tasks_def bind_tasks_def transfer_tasks_def stream_fixed_def split: IoType.split)
  from hipFileIOAsync_inv [OF inv assms(2,3,5,4,7)] show ?thesis
    unfolding not_submitted_def submitted_def ops_def tasks by blast
qed

lemma sent_differs: "op_heap (async_sent IoRead) \<noteq> op_heap async_ready"
  using async_ready_facts(7) by (auto simp: async_sent_def dest: fun_cong [of _ _ "0x20000000"])

theorem async_submission_outcome_witness:
  "\<exists>p. map fst (submitted_ops (async_sent IoRead)) = map fst (submitted_ops async_ready) @ [p]"
  using async_submission_outcome [OF async_ready_reachable async_ready_facts(5,6) sample_fresh_op [OF async_ready_facts(7)]
      sample_fast_closes sample_page async_sent_eq [of IoRead, unfolded async_submit_def]]
    sent_differs by blast

text \<open>
  C32: left to itself, the system drains. However the queues and the completion thread are interleaved, at
  most \<^term>\<open>work s\<close> steps follow from a reachable state in which every pending operation has its cleanup
  in a queue; when no step is left, no operation, no task and no use of a registered object is left; and
  such an end is reached.
\<close>

theorem async_io_drains:
  fixes s :: "('w, 'z) async_state_scheme"
  assumes "async_reachable x s" and "closes x" and "c_sysconf_pagesize x \<noteq> -1"
    and "transfer_counts x" and "interrupts_bounded x budget"
    and "\<forall>p \<in> fst ` set (submitted_ops s) - set (completed_ops s). \<exists>q. HostFunc fn_async_io_cleanup p \<in> set (stream_tasks s q)"
  shows "(\<forall>n t. (drain_step x ^^ n) s t \<longrightarrow> n \<le> work s) \<and>
    (\<forall>t. (drain_step x)\<^sup>*\<^sup>* s t \<and> (\<forall>u. \<not> drain_step x t u) \<longrightarrow> nothing_left t) \<and>
    (\<exists>t. (drain_step x)\<^sup>*\<^sup>* s t \<and> nothing_left t)"
proof -
  have inv: "async_inv no_uses no_uses no_uses s" by (rule async_reachable_inv [OF assms(1-3)])
  have clean: "cleanup_queued s" using assms(6) by (simp add: cleanup_queued_def pending_def ops_def)
  have all: "async_inv no_uses no_uses no_uses s \<and> cleanup_queued s \<and> closes x \<and> c_sysconf_pagesize x \<noteq> -1"
    using inv clean assms(2,3) by blast
  have stuck: "nothing_left t" if "(drain_step x)\<^sup>*\<^sup>* s t" "\<forall>u. \<not> drain_step x t u" for t
    using draining.run_inv [OF that(1) all] drain_stuck [OF _ _ assms(2-5)] that(2) by blast
  moreover have "n \<le> work s" if "(drain_step x ^^ n) s t" for n t
    using draining.run_bounded [OF that all] by simp
  ultimately show ?thesis using draining.run_ends [OF all] by blast
qed

theorem async_io_drains_witness:
  "\<exists>t. (drain_step sample_fast)\<^sup>*\<^sup>* (async_sent IoRead) t \<and> submitted_ops t = [] \<and> op_heap t = Map.empty"
proof -
  have "\<forall>p \<in> fst ` set (submitted_ops (async_sent IoRead)) - set (completed_ops (async_sent IoRead)).
      \<exists>q. HostFunc fn_async_io_cleanup p \<in> set (stream_tasks (async_sent IoRead) q)"
    unfolding sent_pending by (auto intro!: exI [of _ "0xE000"] simp: sent_queue)
  from async_io_drains [OF async_sent_reachable sample_fast_closes sample_page sample_fast_counts
      sample_fast_interrupts this]
  show ?thesis unfolding nothing_left_def by blast
qed

text \<open>
  C38: once the completion thread is asked to finish, it removes every complete operation and ends, and what
  is pending stays submitted; when nothing is pending, the destructor of the monitor returns and leaves
  no operation and no use of a registered object.
\<close>

theorem completion_thread_ends:
  fixes s :: "('w, 'z) async_state_scheme"
  assumes "async_reachable x s" and "closes x" and "c_sysconf_pagesize x \<noteq> -1"
  shows "(\<exists>t. AsyncMonitor_completion_thread x (s\<lparr>is_finished := True\<rparr>) = Some (Ret (), t) \<and>
      completed_ops t = [] \<and> fst ` set (submitted_ops t) = fst ` set (submitted_ops s) - set (completed_ops s) \<and>
      stream_tasks t = stream_tasks s) \<and>
    (fst ` set (submitted_ops s) \<subseteq> set (completed_ops s) \<longrightarrow>
      (\<exists>t. AsyncMonitor_dtor x s = Some (Ret (), t) \<and> submitted_ops t = [] \<and> op_heap t = Map.empty \<and>
         drv_inv no_uses no_uses no_uses t))"
proof -
  have inv: "async_inv no_uses no_uses no_uses s" by (rule async_reachable_inv [OF assms])
  let ?s = "s\<lparr>is_finished := True\<rparr>"
  have "async_inv no_uses no_uses no_uses ?s"
    by (rule async_inv_same_ops [OF inv]) (use inv in \<open>simp_all add: async_inv_def\<close>)
  from completion_thread_finishes [OF this, of x]
  have "\<exists>t. AsyncMonitor_completion_thread x ?s = Some (Ret (), t) \<and> completed_ops t = [] \<and>
      fst ` set (submitted_ops t) = fst ` set (submitted_ops s) - set (completed_ops s) \<and> stream_tasks t = stream_tasks s"
    by (auto simp: pending_def ops_def)
  moreover have "\<exists>t. AsyncMonitor_dtor x s = Some (Ret (), t) \<and> submitted_ops t = [] \<and> op_heap t = Map.empty \<and>
      drv_inv no_uses no_uses no_uses t" if "fst ` set (submitted_ops s) \<subseteq> set (completed_ops s)"
    by (rule monitor_destroyed [OF inv]) (use that in \<open>simp add: pending_def ops_def\<close>)
  ultimately show ?thesis by blast
qed

theorem completion_thread_ends_witness:
  "\<exists>t. AsyncMonitor_completion_thread sample_fast ((async_sent IoWrite)\<lparr>is_finished := True\<rparr>) = Some (Ret (), t) \<and>
     fst ` set (submitted_ops t) = {0x20000000}"
  using conjunct1 [OF completion_thread_ends [OF async_sent_reachable [of IoWrite] sample_fast_closes sample_page]]
  unfolding sent_pending by blast

text \<open>
  C39: the task at the head of a queue finds its operation alive with its file, buffer and stream, and a copy,
  on the host or on the device, finds the values in the variants of the parameters.
\<close>

theorem tasks_find_their_operands:
  fixes s :: "('w, 'z) async_state_scheme"
  assumes "async_reachable x s" and "closes x" and "c_sysconf_pagesize x \<noteq> -1" and "stream_tasks s q = task # ts"
  shows "\<exists>op f b st fo bo so.
    sp_obj (task_op task) (op_heap s) = Some op \<and>
    ao_file op = Some f \<and> sp_obj f (file_heap s) = Some fo \<and>
    ao_buffer op = Some b \<and> sp_obj b (buf_heap s) = Some bo \<and>
    ao_stream op = Some st \<and> sp_obj st (stream_heap s) = Some so \<and>
    (task = HostFunc fn_async_io_bind_params (task_op task) \<or> task = HostFunc fn_async_io_cleanup (task_op task) \<or>
     (\<exists>sz off boff. ao_size op = Bound sz \<and> ao_file_offset op = Bound off \<and> ao_buffer_offset op = Bound boff))"
proof -
  have inv: "async_inv no_uses no_uses no_uses s" by (rule async_reachable_inv [OF assms(1-3)])
  then have base: "base_inv no_uses no_uses no_uses s" and "queues_inv s" by (simp_all add: async_inv_base)
  then have ok: "tasks_ok (bound_ops s) (pending s) (task # ts)"
    unfolding queues_inv_def assms(4) [symmetric] by blast
  then have "task_op task \<in> pending s" by (cases task) (use tasks_ok_ops [OF ok] in auto)
  then obtain op f b st fo bo so where o: "sp_obj (task_op task) (op_heap s) = Some op"
    "ao_file op = Some f" "ao_buffer op = Some b" "ao_stream op = Some st"
    "sp_obj f (file_heap s) = Some fo" "sp_obj b (buf_heap s) = Some bo" "sp_obj st (stream_heap s) = Some so"
    by (rule pending_objects [OF base])
  have "task = HostFunc fn_async_io_bind_params (task_op task) \<or> task = HostFunc fn_async_io_cleanup (task_op task) \<or>
     (\<exists>sz off boff. ao_size op = Bound sz \<and> ao_file_offset op = Bound off \<and> ao_buffer_offset op = Bound boff)"
  proof (cases task)
    case (HostFunc fn p)
    with ok o(1) show ?thesis by (cases fn) (auto simp: bound_ops_def op_bound_def)
  next
    case (MemcpyKernel n p)
    with ok o(1) show ?thesis by (auto simp: bound_ops_def op_bound_def)
  qed
  with o show ?thesis by blast
qed

theorem tasks_find_their_operands_witness:
  "\<exists>op. sp_obj 0x20000000 (op_heap (async_sent IoRead)) = Some op \<and> ao_file op \<noteq> None"
  using tasks_find_their_operands [OF async_sent_reachable [of IoRead] sample_fast_closes sample_page sent_queue [of IoRead]]
  by auto

end
