(* ===== verification/Async_Io_Properties.thy ===== *)
theory Async_Io_Properties
  imports Sample_Async
begin

text \<open>
  The properties of the driver as a specification and of the bytes that asynchronous IO moves: the
  simulation, the copy kernel, reads and writes from the host copy to the report to the client, and the
  late check of the parameters.
\<close>

section \<open>The driver\<close>

text \<open>
  C33: the driver refines its specification. From a state in which the invariant holds, every sequence of
  the eight calls that manage the driver, each registration with a fresh address for its object, returns;
  it keeps the invariant and the rest of the state, and the error codes that it returns and its effect
  on the tables are those of a run of the abstract driver. The abstract driver has the implicit open
  as the code has it: \<^verbatim>\<open>hipFileBufRegister\<close> and \<^verbatim>\<open>hipFileHandleRegister\<close> on a closed driver open it also when the
  registration itself then fails, where the guide to the driver says that only a call that succeeds counts.
\<close>

theorem driver_refines_specification:
  fixes s :: "('w, 'z) drv_state_scheme"
  assumes "drv_inv EB EF ES s" and "calls_ok (perform x) fresh_for cs s" and "closes x"
  shows "\<exists>es t. calls (perform x) cs s = (Ret es, t) \<and> drv_inv EB EF ES t \<and> drv_state.more t = drv_state.more s \<and>
    spec_calls spec_step cs (map err es) (abs_driver EB EF s) (abs_driver EB EF t)"
  using driver.calls_refine [of EB EF ES s x cs] assms by blast

text \<open>A buffer that nothing uses is deregistered, and then it is no longer registered.\<close>

lemma spec_deregister_twice:
  assumes "spec_calls spec_step [BufDeregister buf, BufDeregister buf] es a b"
    and "buf \<in> buffers a" and "busy_buffers a = {}" and "opens a \<noteq> 0"
  shows "es = [hipFileSuccess, hipFileMemoryNotRegistered]"
proof -
  from assms(1) obtain e1 e2 m where "es = [e1, e2]" "spec_step (BufDeregister buf) e1 a m"
    "spec_step (BufDeregister buf) e2 m b"
    by (cases es; cases "tl es"; cases "tl (tl es)") auto
  moreover from this(2) assms(2-4) have "e1 = hipFileSuccess" "m = a\<lparr>buffers := buffers a - {buf}\<rparr>" by simp_all
  ultimately show ?thesis using assms(4) by simp
qed

lemma fast_client_registered: "buf_lookup fast_client sample_buf \<noteq> None" "ref_count fast_client \<noteq> 0"
  by code_simp+

theorem driver_refines_specification_witness:
  "\<exists>es t. calls (perform sample_fast) [BufDeregister sample_buf, BufDeregister sample_buf] fast_client = (Ret es, t) \<and>
     map err es = [hipFileSuccess, hipFileMemoryNotRegistered]"
proof -
  let ?cs = "[BufDeregister sample_buf, BufDeregister sample_buf]"
  have ok: "calls_ok (perform sample_fast) fresh_for ?cs fast_client" by simp
  have "sample_buf \<in> buffers (abs_driver no_uses no_uses fast_client)"
    "busy_buffers (abs_driver no_uses no_uses fast_client) = {}" "opens (abs_driver no_uses no_uses fast_client) \<noteq> 0"
    using fast_client_registered by (auto simp: abs_driver_def busy_def)
  with driver_refines_specification [OF client_inv(2) ok sample_fast_closes] spec_deregister_twice show ?thesis
    by meson
qed

section \<open>The kernel\<close>

text \<open>
  C34: in whatever order its threads run, the copy kernel has the effect of one \<^verbatim>\<open>memcpy\<close>: for a write from the
  client's buffer to the bounce buffer, for a read of the bytes that the host has read in the other direction.
  The threads use the addresses of the device, and \<open>v_dev\<close> says which memory stands behind them.
  Nothing else of memory changes, and no file.
\<close>

theorem kernel_is_memcpy:
  fixes s :: "('w, 'z) async_state_scheme"
  assumes "memory_view x v" and "any_order schedule" and "n \<noteq> 0"
    and "sp_obj p (op_heap s) = Some op" and "0 \<le> ao_bytes_transferred_internal op"
    and "ao_size op = Bound sz" and "ao_buffer_offset op = Bound bo"
    and "ao_bounce_buffer_dev_ptr op \<noteq> nullptr" and "ao_gpu_buffer op \<noteq> nullptr"
    and "m = (case ao_io_type op of IoRead \<Rightarrow> nat (ao_bytes_transferred_internal op) | IoWrite \<Rightarrow> unat sz)" and "m < 2 ^ 63"
    and "(dst, src) = (case ao_io_type op of IoRead \<Rightarrow> (ao_gpu_buffer op + bo, ao_bounce_buffer_dev_ptr op)
      | IoWrite \<Rightarrow> (ao_bounce_buffer_dev_ptr op, ao_gpu_buffer op + bo))"
    and "inj_on (v_dev v) (region dst m)" and "v_dev v ` region dst m \<inter> v_dev v ` region src m = {}"
  shows "\<exists>w. hipFileMemcpyKernel x schedule n p s = (Ret (), s\<lparr>world := w\<rparr>) \<and> v_file v w = v_file v (world s) \<and>
    (\<forall>i < m. v_mem v w (v_dev v (dst + of_nat i)) = v_mem v (world s) (v_dev v (src + of_nat i))) \<and>
    (\<forall>a. a \<notin> v_dev v ` region dst m \<longrightarrow> v_mem v w a = v_mem v (world s) a)"
  by (rule kernel_copies [OF assms])


theorem kernel_is_memcpy_witness:
  "\<exists>w. hipFileMemcpyKernel sample_fast kernel_steps 1024 0x20000000 (async_bound IoWrite) =
     (Ret (), (async_bound IoWrite)\<lparr>world := w\<rparr>) \<and> sm_mem w 0x30000000 = sm_mem (world (async_bound IoWrite)) 0x100000008"
proof -
  let ?op = "(async_op IoWrite)\<lparr>ao_buffer_offset := Bound 8, ao_file_offset := Bound 1, ao_size := Bound 4\<rparr>"
  have "v_dev sample_view ` region 0x70000000 4 \<inter> v_dev sample_view ` region 0x100000008 4 = {}"
    unfolding sample_mapped [THEN mapped_region] by (simp add: region_list upt_rec)
  moreover have "inj_on (v_dev sample_view) (region 0x70000000 4)" by (rule mapped_inj [OF sample_mapped(1)]) simp
  moreover have "sp_obj 0x20000000 (op_heap (async_bound IoWrite)) = Some ?op"
    by (simp add: async_bound_eq(2) sp_obj_def)
  moreover have "any_order kernel_steps" by (simp add: any_order_def)
  ultimately have "\<exists>w. hipFileMemcpyKernel sample_fast kernel_steps 1024 0x20000000 (async_bound IoWrite) =
     (Ret (), (async_bound IoWrite)\<lparr>world := w\<rparr>) \<and> v_file sample_view w = v_file sample_view (world (async_bound IoWrite)) \<and>
     (\<forall>i < 4. v_mem sample_view w (v_dev sample_view (0x70000000 + of_nat i)) =
        v_mem sample_view (world (async_bound IoWrite)) (v_dev sample_view (0x100000008 + of_nat i))) \<and>
     (\<forall>a. a \<notin> v_dev sample_view ` region 0x70000000 4 \<longrightarrow> v_mem sample_view w a = v_mem sample_view (world (async_bound IoWrite)) a)"
    by (intro kernel_is_memcpy [OF sample_memory_view, where op = ?op and sz = 4 and bo = 8])
      (simp_all add: async_op_simps sample_buf_def)
  then show ?thesis by (elim exE conjE, intro exI conjI) (auto simp: sample_view_def sample_dev_def sample_pinned_shift_def dest: spec [of _ "0::nat"])
qed

section \<open>Reads and writes\<close>

lemma run_tasks_append:
  "run_tasks x schedule (us @ vs) = obind (run_tasks x schedule us) (\<lambda>_. run_tasks x schedule vs)"
proof (induction us)
  case Nil
  show ?case by (rule ext) (simp add: obind_def olift_def cret_def)
next
  case (Cons task us)
  show ?case
    unfolding append_Cons run_tasks.simps Cons.IH
    by (rule ext) (simp add: obind_def split: option.split outcome.split)
qed

lemma run_tasks_not_None:
  assumes "transfer_counts x" and "interrupts_bounded x budget"
  shows "run_tasks x schedule tasks s \<noteq> None"
proof (induction tasks arbitrary: s)
  case (Cons task tasks)
  have "run_task x schedule task s \<noteq> None"
    by (simp add: run_task_def cpu_copy_not_None [OF assms] olift_def split: async_task.split host_fn.split del: not_None_eq)
  with Cons.IH show ?case by (simp del: not_None_eq, intro obind_not_None) auto
qed (simp add: olift_def)

text \<open>
  C35: an asynchronous read whose parameters are bound. When its remaining tasks run, the host copy, the
  kernel in any order of its threads and the cleanup (with no other step between its halves), the count that the client finds is -1, or it is the number of bytes
  of the file that now stand in the buffer at the offset; a count below the size means that the file ended.
  No file and no memory but the bounce buffer and the region of the request has changed. The bounce buffer may
  have one address for the host, which reads into it, and another for the device, which copies from it.
\<close>

theorem async_read_delivers:
  fixes s :: "('w, 'z) async_state_scheme"
  assumes "async_reachable x s" and "p \<in> fst ` set (submitted_ops s) - set (completed_ops s)"
    and "io_ready v s p op f sz fo bo" and "ao_io_type op = IoRead"
    and "documented_pread x v" and "memory_view x v" and "any_order schedule" and "n \<noteq> 0"
    and "closes x" and "c_sysconf_pagesize x \<noteq> -1" and "transfer_counts x" and "interrupts_bounded x budget"
  shows "\<exists>u t k. run_tasks x schedule [HostFunc fn_async_io_cpu_copy p, MemcpyKernel n p] s = Some (Ret (), u) \<and>
    run_task x schedule (HostFunc fn_async_io_cleanup p) u = Some (Ret (), t) \<and>
    client_vars t (ao_bytes_transferred op) = word_of_int k \<and> completed_ops t = completed_ops s @ [p] \<and>
    v_file v (world u) = v_file v (world s) \<and>
    (k = -1 \<or> 0 \<le> k \<and> nat k \<le> unat sz \<and>
       (\<forall>i < nat k. v_mem v (world u) (ao_gpu_buffer op + bo + of_nat i) =
          v_file v (world s) (File_bufferedFd f) ! (nat (sint fo) + i)) \<and>
       (nat k < unat sz \<longrightarrow> length (v_file v (world s) (File_bufferedFd f)) \<le> nat (sint fo) + nat k)) \<and>
    (\<forall>a. a \<notin> region (ao_bounce_buffer op) (unat sz) \<union> region (ao_gpu_buffer op + bo) (unat sz) \<longrightarrow>
       v_mem v (world u) a = v_mem v (world s) a)"
proof -
  have inv: "async_inv no_uses no_uses no_uses s" by (rule async_reachable_inv [OF assms(1,9,10)])
  have tasks: "transfer_tasks IoRead n p = [HostFunc fn_async_io_cpu_copy p, MemcpyKernel n p]"
    by (simp add: transfer_tasks_def)
  obtain r u where run: "run_tasks x schedule (transfer_tasks IoRead n p) s = Some (r, u)"
    using run_tasks_not_None [OF assms(11,12)] by fastforce
  from read_tasks [OF assms(3-8) run] obtain k where r: "r = Ret ()"
    and u: "u = s\<lparr>world := world u, op_heap := (op_heap s)(p \<mapsto> (op\<lparr>ao_bytes_transferred_internal := k\<rparr>, 1))\<rparr>"
    and bytes: "v_file v (world u) = v_file v (world s)"
    "k = -1 \<or> 0 \<le> k \<and> nat k \<le> unat sz \<and>
       (\<forall>i < nat k. v_mem v (world u) (ao_gpu_buffer op + bo + of_nat i) =
          v_file v (world s) (File_bufferedFd f) ! (nat (sint fo) + i)) \<and>
       (nat k < unat sz \<longrightarrow> length (v_file v (world s) (File_bufferedFd f)) \<le> nat (sint fo) + nat k)"
    "\<forall>a. a \<notin> region (ao_bounce_buffer op) (unat sz) \<union> region (ao_gpu_buffer op + bo) (unat sz) \<longrightarrow>
       v_mem v (world u) a = v_mem v (world s) a"
    by blast
  have "p \<in> pending s" using assms(2) by (simp add: pending_def ops_def)
  from cleanup_reports [OF inv this assms(9) _ u] assms(3) obtain t where
    "async_io_cleanup x p u = (Ret (), t)" "client_vars t (ao_bytes_transferred op) = word_of_int k"
    "completed_ops t = completed_ops s @ [p]" by (auto simp: io_ready_def)
  with run r bytes show ?thesis
    unfolding tasks by (intro exI [of _ u] exI [of _ t] exI [of _ k]) (simp add: run_task_def olift_def)
qed

text \<open>
  C36: an asynchronous write whose parameters are bound, with its remaining tasks run as in C35. The count that the client finds is -1, or it is the
  number of bytes of the buffer that now stand in the file at the offset. The file changes nowhere outside the region
  of the request and grows at most to its end; inside it, and also when -1 is reported, each byte is the old one or the
  byte that the request has for that place, or a zero in a gap between the old end and the offset. No memory but
  the bounce buffer, at its address for the host, has changed.
\<close>

theorem async_write_delivers:
  fixes s :: "('w, 'z) async_state_scheme"
  assumes "async_reachable x s" and "p \<in> fst ` set (submitted_ops s) - set (completed_ops s)"
    and "io_ready v s p op f sz fo bo" and "ao_io_type op = IoWrite"
    and "documented_pwrite x v" and "memory_view x v" and "any_order schedule" and "n \<noteq> 0"
    and "closes x" and "c_sysconf_pagesize x \<noteq> -1" and "transfer_counts x" and "interrupts_bounded x budget"
  shows "\<exists>u t k. run_tasks x schedule [MemcpyKernel n p, HostFunc fn_async_io_cpu_copy p] s = Some (Ret (), u) \<and>
    run_task x schedule (HostFunc fn_async_io_cleanup p) u = Some (Ret (), t) \<and>
    client_vars t (ao_bytes_transferred op) = word_of_int k \<and> completed_ops t = completed_ops s @ [p] \<and>
    (k = -1 \<or> 0 \<le> k \<and> nat k \<le> unat sz \<and>
       (\<forall>i < nat k. nat (sint fo) + i < length (v_file v (world u) (File_bufferedFd f)) \<and>
          v_file v (world u) (File_bufferedFd f) ! (nat (sint fo) + i) =
            v_mem v (world s) (ao_gpu_buffer op + bo + of_nat i))) \<and>
    (\<forall>j < length (v_file v (world s) (File_bufferedFd f)).
       j < nat (sint fo) \<or> nat (sint fo) + unat sz \<le> j \<longrightarrow>
       v_file v (world u) (File_bufferedFd f) ! j = v_file v (world s) (File_bufferedFd f) ! j) \<and>
    length (v_file v (world s) (File_bufferedFd f)) \<le> length (v_file v (world u) (File_bufferedFd f)) \<and>
    length (v_file v (world u) (File_bufferedFd f)) \<le>
      max (length (v_file v (world s) (File_bufferedFd f))) (nat (sint fo) + unat sz) \<and>
    (\<forall>j < length (v_file v (world u) (File_bufferedFd f)).
       j < length (v_file v (world s) (File_bufferedFd f)) \<and>
         v_file v (world u) (File_bufferedFd f) ! j = v_file v (world s) (File_bufferedFd f) ! j \<or>
       nat (sint fo) \<le> j \<and> j < nat (sint fo) + unat sz \<and>
         v_file v (world u) (File_bufferedFd f) ! j = v_mem v (world s) (ao_gpu_buffer op + bo + of_nat (j - nat (sint fo))) \<or>
       length (v_file v (world s) (File_bufferedFd f)) \<le> j \<and> j < nat (sint fo) \<and>
         v_file v (world u) (File_bufferedFd f) ! j = 0) \<and>
    (\<forall>a. a \<notin> region (ao_bounce_buffer op) (unat sz) \<longrightarrow> v_mem v (world u) a = v_mem v (world s) a)"
proof -
  have inv: "async_inv no_uses no_uses no_uses s" by (rule async_reachable_inv [OF assms(1,9,10)])
  have tasks: "transfer_tasks IoWrite n p = [MemcpyKernel n p, HostFunc fn_async_io_cpu_copy p]"
    by (simp add: transfer_tasks_def)
  obtain r u where run: "run_tasks x schedule (transfer_tasks IoWrite n p) s = Some (r, u)"
    using run_tasks_not_None [OF assms(11,12)] by fastforce
  from write_tasks [OF assms(3-8) run] obtain k m where r: "r = Ret ()" and m: "m \<le> unat sz" "k = -1 \<or> k = int m"
    and u: "u = s\<lparr>world := world u, op_heap := (op_heap s)(p \<mapsto> (op\<lparr>ao_bytes_transferred_internal := k\<rparr>, 1))\<rparr>"
    and bytes: "\<forall>i < m. nat (sint fo) + i < length (v_file v (world u) (File_bufferedFd f)) \<and>
       v_file v (world u) (File_bufferedFd f) ! (nat (sint fo) + i) =
         v_mem v (world s) (ao_gpu_buffer op + bo + of_nat i)"
    and rest: "\<forall>j < length (v_file v (world s) (File_bufferedFd f)).
       j < nat (sint fo) \<or> nat (sint fo) + unat sz \<le> j \<longrightarrow>
       v_file v (world u) (File_bufferedFd f) ! j = v_file v (world s) (File_bufferedFd f) ! j"
    "length (v_file v (world s) (File_bufferedFd f)) \<le> length (v_file v (world u) (File_bufferedFd f))"
    "length (v_file v (world u) (File_bufferedFd f)) \<le>
      max (length (v_file v (world s) (File_bufferedFd f))) (nat (sint fo) + unat sz)"
    "\<forall>j < length (v_file v (world u) (File_bufferedFd f)).
       byte_written (v_file v (world s) (File_bufferedFd f)) (v_file v (world u) (File_bufferedFd f)) (nat (sint fo))
         (unat sz) (\<lambda>i. v_mem v (world s) (ao_gpu_buffer op + bo + of_nat i)) j"
    "\<forall>a. a \<notin> region (ao_bounce_buffer op) (unat sz) \<longrightarrow> v_mem v (world u) a = v_mem v (world s) a"
    by blast
  have "p \<in> pending s" using assms(2) by (simp add: pending_def ops_def)
  from cleanup_reports [OF inv this assms(9) _ u] assms(3) obtain t where
    "async_io_cleanup x p u = (Ret (), t)" "client_vars t (ao_bytes_transferred op) = word_of_int k"
    "completed_ops t = completed_ops s @ [p]" by (auto simp: io_ready_def)
  moreover have "k = -1 \<or> 0 \<le> k \<and> nat k \<le> unat sz \<and>
       (\<forall>i < nat k. nat (sint fo) + i < length (v_file v (world u) (File_bufferedFd f)) \<and>
          v_file v (world u) (File_bufferedFd f) ! (nat (sint fo) + i) =
            v_mem v (world s) (ao_gpu_buffer op + bo + of_nat i))"
    using m bytes by auto
  ultimately show ?thesis
    using run r rest unfolding tasks byte_written_def
    by (intro exI [of _ u] exI [of _ t] exI [of _ k] conjI) (simp_all add: run_task_def olift_def)
qed


lemma bound_pending:
  "0x20000000 \<in> fst ` set (submitted_ops (async_bound type)) - set (completed_ops (async_bound type))"
  using async_bound_pending [of type] by (simp add: pending_def ops_def)

lemma bound_file: "sample_content (world (async_bound type)) 3 = [72, 73, 80, 70, 73, 76, 69]"
proof -
  have "sample_content (world async_held) 3 = [72, 73, 80, 70, 73, 76, 69]" by code_simp
  then show ?thesis by (simp add: async_bound_eq(2) async_popped_def async_sent_def)
qed

theorem async_read_delivers_witness:
  "\<exists>(u :: sample async_state) t k. run_task sample_fast kernel_steps (HostFunc fn_async_io_cleanup 0x20000000) u = Some (Ret (), t) \<and>
    client_vars t 0x118 = word_of_int k \<and>
    map (\<lambda>i. sm_mem (world u) (0x100000008 + of_nat i)) [0..<nat k] = take (nat k) [73, 80, 70, 73]"
proof -
  have any: "any_order kernel_steps" by (simp add: any_order_def)
  from async_read_delivers [OF async_bound_reachable [of IoRead] bound_pending [of IoRead] async_bound_ready [of IoRead] _
      sample_fast_pread sample_memory_view any _ sample_fast_closes sample_page sample_fast_counts
      sample_fast_interrupts, where n = 1024]
  obtain u t :: "sample async_state" and k where run: "run_task sample_fast kernel_steps (HostFunc fn_async_io_cleanup 0x20000000) u = Some (Ret (), t)"
    "client_vars t 0x118 = word_of_int k"
    and k: "k = -1 \<or> 0 \<le> k \<and> nat k \<le> 4 \<and> (\<forall>i < nat k. sm_mem (world u) (0x100000008 + of_nat i) =
       sample_content (world (async_bound IoRead)) 3 ! Suc i) \<and>
       (nat k < 4 \<longrightarrow> length (sample_content (world (async_bound IoRead)) 3) \<le> Suc (nat k))"
    by (simp add: async_op_simps sample_view_def sample_buf_def async_held_facts del: run_tasks.simps) blast
  have "map (\<lambda>i. sm_mem (world u) (0x100000008 + of_nat i)) [0..<nat k] = take (nat k) [73, 80, 70, 73]"
  proof (cases "k = -1")
    case False
    with k have "nat k \<le> 4" and bytes: "\<forall>i < nat k. sm_mem (world u) (0x100000008 + of_nat i) = [72, 73, 80, 70, 73, 76, 69] ! Suc i"
      by (auto simp: bound_file)
    then consider "nat k = 0" | "nat k = 1" | "nat k = 2" | "nat k = 3" | "nat k = 4" by linarith
    then show ?thesis using bytes [rule_format, of 0] bytes [rule_format, of 1] bytes [rule_format, of 2]
        bytes [rule_format, of 3] by cases (simp_all add: upt_rec)
  qed simp
  with run show ?thesis by blast
qed

theorem async_write_delivers_witness:
  "\<exists>(u :: sample async_state) t k. run_task sample_fast kernel_steps (HostFunc fn_async_io_cleanup 0x20000000) u = Some (Ret (), t) \<and>
    client_vars t 0x118 = word_of_int k \<and> sample_content (world u) 3 ! 0 = 72 \<and> length (sample_content (world u) 3) \<le> 7"
proof -
  have any: "any_order kernel_steps" by (simp add: any_order_def)
  have content: "length (sample_content (world (async_bound IoWrite)) 3) = 7"
    "sample_content (world (async_bound IoWrite)) 3 ! 0 = 72" by (simp_all add: bound_file)
  from async_write_delivers [OF async_bound_reachable [of IoWrite] bound_pending [of IoWrite] async_bound_ready [of IoWrite] _
      sample_fast_pwrite sample_memory_view any _ sample_fast_closes sample_page sample_fast_counts
      sample_fast_interrupts, where n = 1024]
  obtain u t :: "sample async_state" and k where run: "run_task sample_fast kernel_steps (HostFunc fn_async_io_cleanup 0x20000000) u = Some (Ret (), t)"
    "client_vars t 0x118 = word_of_int k"
    and u: "\<forall>j < 7. (j = 0 \<longrightarrow> sample_content (world u) 3 ! 0 = sample_content (world (async_bound IoWrite)) 3 ! 0) \<and>
       (5 \<le> j \<longrightarrow> sample_content (world u) 3 ! j = sample_content (world (async_bound IoWrite)) 3 ! j)"
      "length (sample_content (world u) 3) \<le> 7"
    by (simp add: async_op_simps sample_view_def sample_buf_def async_held_facts content(1) del: run_tasks.simps) blast
  from u(1) [rule_format, of 0] content(2) u(2) have "sample_content (world u) 3 ! 0 = 72 \<and>
    length (sample_content (world u) 3) \<le> 7" by simp
  with run show ?thesis by blast
qed

section \<open>The late check\<close>

text \<open>
  C37: a parameter that the stream does not fix is read when the operation starts. The size is then cut to the
  limit of a transfer, and the request is accepted exactly when it fits into what was submitted and lies inside
  the buffer; otherwise the operation carries the error, and neither copy moves a byte.
\<close>

theorem bind_params_exact:
  fixes s :: "('w, 'z) async_state_scheme"
  assumes "op_heap s p = Some (op, 1)" and "Option.bind (ao_buffer op) (\<lambda>q. sp_obj q (buf_heap s)) = Some b"
    and "c_sysconf_pagesize x \<noteq> -1"
    and "value = (\<lambda>v. case v of Bound a \<Rightarrow> a | Unbound q \<Rightarrow> client_vars s q)"
    and "sz = min (value (ao_size op)) (max_rw_count x)" and "fo = value (ao_file_offset op)"
    and "bo = value (ao_buffer_offset op)"
    and "ok \<longleftrightarrow> unat sz \<le> unat (ao_submitted_size op) \<and> 0 \<le> sint fo \<and> 0 \<le> sint bo \<and>
      unat bo < unat (b_length b) \<and> unat bo + unat sz \<le> unat (b_length b)"
  shows "\<exists>op' t. async_io_bind_params x p s = (Ret (), t) \<and> t = s\<lparr>op_heap := (op_heap s)(p \<mapsto> (op', 1))\<rparr> \<and>
    ao_size op' = Bound sz \<and> ao_file_offset op' = Bound fo \<and> ao_buffer_offset op' = Bound bo \<and>
    ao_bytes_transferred_internal op' =
      (if ok then ao_bytes_transferred_internal op else - op_error_code hipFileInvalidValue) \<and>
    (ok \<or> async_io_cpu_copy x p t = Some (Ret (), t) \<and> hipFileMemcpyKernel x schedule n p t = (Ret (), t))"
proof -
  have limit: "getMaxRwCount x s = (Ret (max_rw_count x), s)" for s :: "('w, 'z) async_state_scheme"
    using assms(3) by (simp add: getMaxRwCount_eq)
  have value_: "bind_value (client_vars s) = value" using assms(4) by (auto simp: bind_value_def fun_eq_iff)
  have ok: "ok \<longleftrightarrow> \<not> ao_submitted_size op < sz \<and> paramsValid b sz fo bo"
    by (simp add: assms(8) paramsValid_iff word_less_nat_alt not_less)
  let ?op = "op\<lparr>ao_buffer_offset := Bound bo, ao_file_offset := Bound fo, ao_size := Bound sz\<rparr>"
  let ?op' = "if ok then ?op else ?op\<lparr>ao_bytes_transferred_internal := - op_error_code hipFileInvalidValue\<rparr>"
  let ?t = "s\<lparr>op_heap := (op_heap s)(p \<mapsto> (?op', 1))\<rparr>"
  have run: "async_io_bind_params x p s = (Ret (), ?t)"
    using assms(1,2)
    by (simp add: async_io_bind_params_def sp_obj_def cnoexcept_def cbind_def limit value_ op_update_def Let_def
        assms(5-7) [symmetric] ok del: op_error_code.simps min_less_iff_conj)
  moreover have "async_io_cpu_copy x p ?t = Some (Ret (), ?t) \<and> hipFileMemcpyKernel x schedule n p ?t = (Ret (), ?t)"
    if "\<not> ok"
    using that by (simp add: async_io_cpu_copy_def hipFileMemcpyKernel_def sp_obj_def HIPFILE_BASE_ERR_def)
  ultimately show ?thesis by (intro exI [of _ ?op'] exI [of _ ?t]) auto
qed


theorem bind_params_exact_witness:
  "\<exists>t :: sample async_state. async_io_bind_params sample_fast 0x20000000 (async_sent IoRead) = (Ret (), t) \<and>
    map_option (ao_size \<circ> fst) (op_heap t 0x20000000) = Some (Bound 4)"
proof -
  have op: "op_heap (async_sent IoRead) 0x20000000 = Some (async_op IoRead, 1)"
    and b: "Option.bind (ao_buffer (async_op IoRead)) (\<lambda>q. sp_obj q (buf_heap (async_sent IoRead))) = Some held_buffer"
    by (simp_all add: async_sent_def async_op_simps sp_obj_def async_held_facts)
  have "min (client_vars (async_sent IoRead) 0x100) (max_rw_count sample_fast) = 4"
    by (simp add: async_sent_def max_rw_count_def sample_fast_def sample_ext_def C_INT_MAX_def)
  with bind_params_exact [OF op b sample_page refl refl refl refl refl, of kernel_steps 1024] show ?thesis
    by (auto simp: async_op_simps)
qed

end
