(* ===== verification/Stats_Server.thy ===== *)
theory Stats_Server
  imports Stats
begin

text \<open>
  The server of the statistics and its clients (\<^verbatim>\<open>src/amd_detail/stats.cpp\<close>) and the interface of the
  collection tool (\<^verbatim>\<open>src/amd_detail/hipfile-stats.cpp\<close>). The server puts the counters into an anonymous file
  and hands its descriptor to every client that connects to a socket whose name has the process id; the client
  maps the file and writes a report. The system calls that only this part uses are a record of their own.
\<close>

section \<open>System calls\<close>

type_synonym sockaddr_un = "int \<times> string"

record cmsghdr =
  cmsg_len :: nat
  cmsg_level :: int
  cmsg_type :: int
  cmsg_fd :: int

definition AF_UNIX :: int where "AF_UNIX = 1"
definition SOL_SOCKET :: int where "SOL_SOCKET = 1"
definition SCM_RIGHTS :: int where "SCM_RIGHTS = 1"
definition CMSG_LEN_int :: nat where "CMSG_LEN_int = 20"
definition MFD_ALLOW_SEALING :: "32 word" where "MFD_ALLOW_SEALING = 2"
definition F_ADD_SEALS :: int where "F_ADD_SEALS = 1033"
definition F_SEAL_SHRINK_FUTURE_WRITE :: "64 word" where "F_SEAL_SHRINK_FUTURE_WRITE = 0x12"
definition PROT_READ :: int where "PROT_READ = 1"
definition MAP_SHARED :: int where "MAP_SHARED = 1"
definition POLLIN :: "16 word" where "POLLIN = 1"
definition POLLERR :: "16 word" where "POLLERR = 8"
definition POLLNVAL :: "16 word" where "POLLNVAL = 0x20"

text \<open>
  A message over a socket is one integer with at most one control message; \<open>c_recvmsg\<close> gives the control
  message that \<^verbatim>\<open>CMSG_FIRSTHDR\<close> finds. \<open>shm_stats\<close> is the block of counters that a mapping shows.
\<close>

record 'w stats_ext =
  c_memfd_create :: "string \<Rightarrow> 32 word \<Rightarrow> 'w \<Rightarrow> int \<times> 'w"
  c_eventfd :: "32 word \<Rightarrow> int \<Rightarrow> 'w \<Rightarrow> int \<times> 'w"
  c_ftruncate :: "int \<Rightarrow> size_t \<Rightarrow> 'w \<Rightarrow> int \<times> 'w"
  c_pidfd_open :: "int \<Rightarrow> 32 word \<Rightarrow> 'w \<Rightarrow> int \<times> 'w"
  c_socket :: "'w \<Rightarrow> int \<times> 'w"
  c_bind :: "int \<Rightarrow> sockaddr_un \<Rightarrow> 'w \<Rightarrow> int \<times> 'w"
  c_listen :: "int \<Rightarrow> int \<Rightarrow> 'w \<Rightarrow> int \<times> 'w"
  c_poll :: "(int \<times> 16 word) list \<Rightarrow> int \<Rightarrow> 'w \<Rightarrow> (int \<times> 16 word list) \<times> 'w"
  c_accept :: "int \<Rightarrow> 'w \<Rightarrow> int \<times> 'w"
  c_connect :: "int \<Rightarrow> sockaddr_un \<Rightarrow> 'w \<Rightarrow> int \<times> 'w"
  c_sendmsg :: "int \<Rightarrow> int \<Rightarrow> cmsghdr \<Rightarrow> 'w \<Rightarrow> int \<times> 'w"
  c_recvmsg :: "int \<Rightarrow> 'w \<Rightarrow> (int \<times> cmsghdr option) \<times> 'w"
  c_write :: "int \<Rightarrow> string \<Rightarrow> 'w \<Rightarrow> int \<times> 'w"
  c_getpid :: int
  shm_stats :: "ptr \<Rightarrow> 'w \<Rightarrow> Stats"
  sizeof_Stats :: size_t

definition Sys_memfd_create ::
  "'w ext \<Rightarrow> 'w stats_ext \<Rightarrow> string \<Rightarrow> 32 word \<Rightarrow> (('w, 'z) sys_state_scheme, int) cxx" where
  "Sys_memfd_create x y name flags = cbind (call_ext (c_memfd_create y name flags)) (throwOn x (-1))"

definition Sys_eventfd ::
  "'w ext \<Rightarrow> 'w stats_ext \<Rightarrow> 32 word \<Rightarrow> int \<Rightarrow> (('w, 'z) sys_state_scheme, int) cxx" where
  "Sys_eventfd x y initval flags = cbind (call_ext (c_eventfd y initval flags)) (throwOn x (-1))"

definition Sys_ftruncate ::
  "'w ext \<Rightarrow> 'w stats_ext \<Rightarrow> int \<Rightarrow> size_t \<Rightarrow> (('w, 'z) sys_state_scheme, unit) cxx" where
  "Sys_ftruncate x y fd offset =
     cbind (cbind (call_ext (c_ftruncate y fd offset)) (throwOn x (-1))) (\<lambda>_. cret ())"

definition Sys_pidfd_open ::
  "'w ext \<Rightarrow> 'w stats_ext \<Rightarrow> int \<Rightarrow> 32 word \<Rightarrow> (('w, 'z) sys_state_scheme, int) cxx" where
  "Sys_pidfd_open x y pid flags = cbind (call_ext (c_pidfd_open y pid flags)) (throwOn x (-1))"

section \<open>Passing a descriptor\<close>

definition sendFd :: "'w stats_ext \<Rightarrow> int \<Rightarrow> int \<Rightarrow> (('w, 'z) sys_state_scheme, int) cxx" where
  "sendFd y sock fd =
     (let data = 1;
          cmsg = \<lparr>cmsg_len = CMSG_LEN_int, cmsg_level = SOL_SOCKET, cmsg_type = SCM_RIGHTS, cmsg_fd = fd\<rparr>
      in cbind (call_ext (c_sendmsg y sock data cmsg)) (\<lambda>r. cret (if r = -1 then -1 else 0)))"

definition recvFd :: "'w ext \<Rightarrow> 'w stats_ext \<Rightarrow> int \<Rightarrow> (('w, 'z) sys_state_scheme, int) cxx" where
  "recvFd x y sockfd =
     cbind (call_ext (c_recvmsg y sockfd)) (\<lambda>(r, cmsgp).
       if r = -1 then cret (-1)
       else (let refuse = cbind (call_ext (\<lambda>w. ((), c_set_errno x EINVAL w))) (\<lambda>_. cret (-1))
             in case cmsgp of
                  None \<Rightarrow> refuse
                | Some c \<Rightarrow>
                    if cmsg_len c \<noteq> CMSG_LEN_int \<or> cmsg_level c \<noteq> SOL_SOCKET \<or> cmsg_type c \<noteq> SCM_RIGHTS
                    then refuse else cret (cmsg_fd c)))"

text \<open>The name in the abstract namespace: a zero byte, and \<^verbatim>\<open>AISSTATS%08x\<close> of the process id.\<close>

definition hex_digit :: "nat \<Rightarrow> char" where
  "hex_digit d = (if d < 10 then char_of (48 + d) else char_of (87 + d))"

definition hex8 :: "32 word \<Rightarrow> string" where
  "hex8 n = map (\<lambda>i. hex_digit (unat n div 16 ^ i mod 16)) (rev [0..<8])"

definition populateSocketAddr :: "int \<Rightarrow> sockaddr_un" where
  "populateSocketAddr pid = (AF_UNIX, CHR 0x00 # ''AISSTATS'' @ hex8 (word_of_int pid))"

section \<open>The server\<close>

record StatsServer =
  srv_fd :: FileDescriptor
  srv_efd :: FileDescriptor
  srv_stats :: ptr

definition StatsServer_statsDeleter ::
  "'w ext \<Rightarrow> 'w stats_ext \<Rightarrow> ptr \<Rightarrow> (('w, 'z) stats_state_scheme, unit) cxx" where
  "StatsServer_statsDeleter x y p =
     (if p = nullptr then cret ()
      else cbind (cmodify (\<lambda>s. s\<lparr>m_stats := None\<rparr>)) (\<lambda>_. Sys_munmap x p (sizeof_Stats y)))"

text \<open>
  The constructor. When a call throws, the descriptors that it has made are closed; a mapping that
  exists when \<^verbatim>\<open>fcntl\<close> throws is not undone. The thread is started last.
\<close>

definition StatsServer_ctor ::
  "'w ext \<Rightarrow> 'w stats_ext \<Rightarrow> (('w, 'z) stats_state_scheme, StatsServer) cxx" where
  "StatsServer_ctor x y =
     cbind (Sys_memfd_create x y ''AISSTATS'' MFD_ALLOW_SEALING) (\<lambda>fd.
     let m_fd = make_managed fd
     in cunwind
          (cbind (Sys_eventfd x y 0 0) (\<lambda>efd.
           let m_efd = make_managed efd
           in cunwind
                (cbind (Sys_ftruncate x y fd (sizeof_Stats y)) (\<lambda>_.
                 cbind (Sys_mmap x nullptr (sizeof_Stats y) PROT_READ_WRITE MAP_SHARED fd 0) (\<lambda>shm.
                 cbind (Sys_fcntl x fd F_ADD_SEALS F_SEAL_SHRINK_FUTURE_WRITE) (\<lambda>_.
                 cbind (cmodify (\<lambda>s. s\<lparr>m_stats := Some (Stats_init
                     \<lparr>st_level := effective_level (Configuration_statsLevel x)\<rparr>)\<rparr>)) (\<lambda>_.
                 cret \<lparr>srv_fd = m_fd, srv_efd = m_efd, srv_stats = shm\<rparr>)))))
                (FileDescriptor_dtor x m_efd)))
          (FileDescriptor_dtor x m_fd))"

text \<open>One round of the thread: the loop goes on, or it ends.\<close>

definition StatsServer_round ::
  "'w ext \<Rightarrow> 'w stats_ext \<Rightarrow> StatsServer \<Rightarrow> int \<Rightarrow> (('w, 'z) sys_state_scheme, unit + unit) cxx" where
  "StatsServer_round x y srv sock =
     cbind (call_ext (c_poll y [(sock, POLLIN), (FileDescriptor_get (srv_efd srv), POLLIN)] (-1))) (\<lambda>(ret, revents).
       let asked_to_end = cret (if (revents ! 1) AND (POLLIN OR POLLERR OR POLLNVAL) \<noteq> 0 then Inr () else Inl ())
       in if ret = 0 then cret (Inl ())
          else if ret < 0 then
            cbind (cget (\<lambda>s. c_errno x (world s))) (\<lambda>e. cret (if e = EINTR then Inl () else Inr ()))
          else if (revents ! 0) AND POLLIN \<noteq> 0 then
            cbind (call_ext (c_accept y sock)) (\<lambda>conn.
              if conn = -1 then cret (Inl ())
              else cbind (sendFd y conn (FileDescriptor_get (srv_fd srv))) (\<lambda>_.
                   cbind (call_ext (c_close x conn)) (\<lambda>_. asked_to_end)))
          else asked_to_end)"

definition StatsServer_threadFn ::
  "'w ext \<Rightarrow> 'w stats_ext \<Rightarrow> StatsServer \<Rightarrow> (('w, 'z) sys_state_scheme, unit) ocxx" where
  "StatsServer_threadFn x y srv =
     obind (olift (call_ext (c_socket y))) (\<lambda>fd.
     let sock = make_managed fd
     in oscope
          (if fd = -1 then olift (cret ())
           else obind (olift (call_ext (c_bind y fd (populateSocketAddr (c_getpid y))))) (\<lambda>b.
                if b = -1 then olift (cret ())
                else obind (olift (call_ext (c_listen y fd 64))) (\<lambda>l.
                     if l = -1 then olift (cret ())
                     else oloop (\<lambda>_. StatsServer_round x y srv fd) ())))
          (FileDescriptor_dtor x sock))"

text \<open>
  The destructor wakes the thread through the event descriptor, waits for it, and destroys the
  members from the last to the first.
\<close>

definition StatsServer_dtor ::
  "'w ext \<Rightarrow> 'w stats_ext \<Rightarrow> StatsServer \<Rightarrow> bool \<Rightarrow> (('w, 'z) stats_state_scheme, unit) ocxx" where
  "StatsServer_dtor x y srv joinable =
     obind (if joinable
            then oloop (\<lambda>_. cbind (call_ext (c_write y (FileDescriptor_get (srv_efd srv)) (CHR 0x01 # replicate 7 (CHR 0x00)))) (\<lambda>r.
                   cbind (cget (\<lambda>s. c_errno x (world s))) (\<lambda>e.
                   cret (if r = -1 \<and> e = EINTR then Inl () else Inr ())))) ()
            else olift (cret ())) (\<lambda>_.
     olift (cbind (cnoexcept (StatsServer_statsDeleter x y (srv_stats srv))) (\<lambda>_.
            cbind (FileDescriptor_dtor x (srv_efd srv)) (\<lambda>_. FileDescriptor_dtor x (srv_fd srv)))))"

section \<open>The client\<close>

record StatsClient =
  cl_pfd :: FileDescriptor
  cl_sfd :: FileDescriptor
  cl_pid :: int

definition StatsClient_ctor ::
  "'w ext \<Rightarrow> 'w stats_ext \<Rightarrow> int \<Rightarrow> (('w, 'z) sys_state_scheme, StatsClient) cxx" where
  "StatsClient_ctor x y p =
     cbind (Sys_pidfd_open x y p 0) (\<lambda>fd.
       cret \<lparr>cl_pfd = make_managed fd, cl_sfd = FileDescriptor_empty, cl_pid = p\<rparr>)"

definition StatsClient_dtor :: "'w ext \<Rightarrow> StatsClient \<Rightarrow> (('w, 'z) sys_state_scheme, unit) cxx" where
  "StatsClient_dtor x cl =
     cbind (FileDescriptor_dtor x (cl_sfd cl)) (\<lambda>_. FileDescriptor_dtor x (cl_pfd cl))"

definition StatsClient_pollProcess ::
  "'w stats_ext \<Rightarrow> StatsClient \<Rightarrow> int \<Rightarrow> (('w, 'z) sys_state_scheme, bool) cxx" where
  "StatsClient_pollProcess y cl timeout =
     (if FileDescriptor_get (cl_pfd cl) = -1 then cret True
      else cbind (call_ext (c_poll y [(FileDescriptor_get (cl_pfd cl), POLLIN)] timeout)) (\<lambda>(r, _). cret (r > 0)))"

text \<open>The attempts to connect: the loop variables are the timeout and the result of the last attempt.\<close>

definition connect_round ::
  "'w stats_ext \<Rightarrow> StatsClient \<Rightarrow> int \<Rightarrow> int \<times> int \<Rightarrow> (('w, 'z) sys_state_scheme, int \<times> int + int) cxx" where
  "connect_round y cl sock = (\<lambda>(timeout, success).
     cbind (StatsClient_pollProcess y cl timeout) (\<lambda>ended.
       if ended then cret (Inr success)
       else cbind (call_ext (c_connect y sock (populateSocketAddr (cl_pid cl)))) (\<lambda>r.
            cret (if r = 0 then Inr r else Inl (timeout + 1, r)))))"

definition StatsClient_connectServer ::
  "'w ext \<Rightarrow> 'w stats_ext \<Rightarrow> StatsClient \<Rightarrow> (('w, 'z) sys_state_scheme, bool \<times> StatsClient) ocxx" where
  "StatsClient_connectServer x y cl =
     obind (olift (call_ext (c_socket y))) (\<lambda>fd.
     let sock = make_managed fd
     in oscope
          (if fd = -1 then olift (cret (False, cl))
           else obind (oloop (connect_round y cl fd) (0, -1)) (\<lambda>success.
                if success = -1 then olift (cret (False, cl))
                else olift (cbind (recvFd x y fd) (\<lambda>sfd.
                       cbind (FileDescriptor_assign x False (cl_sfd cl) (make_managed sfd)) (\<lambda>(this, temporary).
                       cret (True, cl\<lparr>cl_sfd := this\<rparr>))))))
          (FileDescriptor_dtor x sock))"

text \<open>The report, or nothing when \<^verbatim>\<open>generateReport\<close> returns false.\<close>

definition StatsClient_generateReport ::
  "'w ext \<Rightarrow> 'w stats_ext \<Rightarrow> StatsClient \<Rightarrow> (('w, 'z) sys_state_scheme, string option) cxx" where
  "StatsClient_generateReport x y cl =
     (if FileDescriptor_get (cl_sfd cl) = -1 then cret None
      else cbind (call_ext (c_mmap x nullptr (sizeof_Stats y) PROT_READ MAP_SHARED (FileDescriptor_get (cl_sfd cl)) 0)) (\<lambda>shm.
           if shm = -1 then cret None
           else if shm = nullptr then cret None
           else cbind (cget (\<lambda>s. report_text (shm_stats y shm (world s)))) (\<lambda>text.
                cbind (call_ext (c_munmap x shm (sizeof_Stats y))) (\<lambda>_. cret (Some text)))))"

section \<open>The interface of the collection tool\<close>

datatype hipFileStatsError_t =
    hipFileStatsSuccess | hipFileStatsInvalidArgument | hipFileStatsTargetProcessNotFound
  | hipFileStatsTargetProcessNotAccessible | hipFileStatsReportGenerationFailed

text \<open>
  A context is a client, or \<^const>\<open>None\<close> for a null pointer; \<open>out\<close> tells whether the pointer that receives
  the new context is there.
\<close>

definition hipFileStatsCreateContext ::
  "'w ext \<Rightarrow> 'w stats_ext \<Rightarrow> bool \<Rightarrow> int \<Rightarrow>
     (('w, 'z) sys_state_scheme, hipFileStatsError_t \<times> StatsClient option) cxx" where
  "hipFileStatsCreateContext x y out targetPid =
     (if \<not> out then cret (hipFileStatsInvalidArgument, None)
      else if targetPid \<le> 0 then cret (hipFileStatsInvalidArgument, None)
      else ccatch (cbind (StatsClient_ctor x y targetPid) (\<lambda>cl. cret (hipFileStatsSuccess, Some cl)))
             (\<lambda>_. cret (hipFileStatsTargetProcessNotFound, None)))"

definition hipFileStatsCloseContext ::
  "'w ext \<Rightarrow> StatsClient option \<Rightarrow> (('w, 'z) sys_state_scheme, unit) cxx" where
  "hipFileStatsCloseContext x context =
     (case context of None \<Rightarrow> cret () | Some cl \<Rightarrow> StatsClient_dtor x cl)"

definition hipFileStatsConnectToTargetProcess ::
  "'w ext \<Rightarrow> 'w stats_ext \<Rightarrow> StatsClient option \<Rightarrow>
     (('w, 'z) sys_state_scheme, hipFileStatsError_t \<times> StatsClient option) ocxx" where
  "hipFileStatsConnectToTargetProcess x y context =
     (case context of
        None \<Rightarrow> olift (cret (hipFileStatsInvalidArgument, None))
      | Some client \<Rightarrow>
          obind (StatsClient_connectServer x y client) (\<lambda>(connected, client').
            olift (cret (if \<not> connected then hipFileStatsTargetProcessNotAccessible else hipFileStatsSuccess, Some client'))))"

definition hipFileStatsPollTargetProcess ::
  "'w stats_ext \<Rightarrow> StatsClient option \<Rightarrow> bool \<Rightarrow> (('w, 'z) sys_state_scheme, hipFileStatsError_t) cxx" where
  "hipFileStatsPollTargetProcess y context block =
     (case context of
        None \<Rightarrow> cret hipFileStatsInvalidArgument
      | Some client \<Rightarrow>
          cbind (StatsClient_pollProcess y client (if block then -1 else 0)) (\<lambda>ended.
            cret (if \<not> ended then hipFileStatsTargetProcessNotAccessible else hipFileStatsSuccess)))"

definition write_round ::
  "'w ext \<Rightarrow> 'w stats_ext \<Rightarrow> int \<Rightarrow> string \<Rightarrow> nat \<Rightarrow> (('w, 'z) sys_state_scheme, nat + hipFileStatsError_t) cxx" where
  "write_round x y fd report written =
     (if \<not> written < length report then cret (Inr hipFileStatsSuccess)
      else cbind (call_ext (c_write y fd (drop written report))) (\<lambda>n.
           if n \<le> 0 then
             cbind (cget (\<lambda>s. c_errno x (world s))) (\<lambda>e.
               cret (if e = EINTR then Inl written else Inr hipFileStatsReportGenerationFailed))
           else cret (Inl (written + nat n))))"

definition hipFileStatsGenerateReport ::
  "'w ext \<Rightarrow> 'w stats_ext \<Rightarrow> StatsClient option \<Rightarrow> int \<Rightarrow>
     (('w, 'z) sys_state_scheme, hipFileStatsError_t) ocxx" where
  "hipFileStatsGenerateReport x y context fd =
     (case context of
        None \<Rightarrow> olift (cret hipFileStatsInvalidArgument)
      | Some client \<Rightarrow>
          if fd < 0 then olift (cret hipFileStatsInvalidArgument)
          else obind (olift (StatsClient_generateReport x y client)) (\<lambda>r.
               case r of
                 None \<Rightarrow> olift (cret hipFileStatsReportGenerationFailed)
               | Some report \<Rightarrow> oloop (write_round x y fd report) 0))"


section \<open>Addresses and descriptors\<close>

lemma hex_digit_inj: "a < 16 \<Longrightarrow> b < 16 \<Longrightarrow> hex_digit a = hex_digit b \<longleftrightarrow> a = b"
proof -
  assume "a < 16" "b < 16"
  then have "hex_digit a = hex_digit b \<longleftrightarrow> of_char (hex_digit a) = (of_char (hex_digit b) :: nat)" by simp
  also have "\<dots> \<longleftrightarrow> (if a < 10 then 48 + a else 87 + a) = (if b < 10 then 48 + b else 87 + b)"
    using \<open>a < 16\<close> \<open>b < 16\<close> by (auto simp: hex_digit_def)
  also have "\<dots> \<longleftrightarrow> a = b" using \<open>a < 16\<close> \<open>b < 16\<close> by auto
  finally show ?thesis .
qed

lemma digits_mod:
  fixes m n :: nat
  assumes "\<forall>i < k. m div 16 ^ i mod 16 = n div 16 ^ i mod 16"
  shows "m mod 16 ^ k = n mod 16 ^ k"
  using assms
proof (induction k)
  case (Suc k)
  then have "m mod 16 ^ k = n mod 16 ^ k" "m div 16 ^ k mod 16 = n div 16 ^ k mod 16" by simp_all
  then show ?case
    using mod_mult2_eq [of m "16 ^ k" 16] mod_mult2_eq [of n "16 ^ k" 16] by (simp add: mult.commute)
qed simp

lemma hex8_inj: "hex8 m = hex8 n \<longleftrightarrow> m = n"
proof
  assume "hex8 m = hex8 n"
  then have "hex_digit (unat m div 16 ^ i mod 16) = hex_digit (unat n div 16 ^ i mod 16)" if "i < 8" for i
    using that unfolding hex8_def map_eq_conv by simp
  then have "\<forall>i < 8. unat m div 16 ^ i mod 16 = unat n div 16 ^ i mod 16" by (simp add: hex_digit_inj)
  from digits_mod [OF this] have "unat m mod 2 ^ 32 = unat n mod 2 ^ 32" by simp
  moreover have "unat w < 2 ^ 32" for w :: "32 word" using unsigned_less [of w] by simp
  ultimately show "m = n" by (simp add: word_unat_eq_iff)
qed simp

text \<open>Two processes have the same address only when the low 32 bits of their ids agree.\<close>

lemma populateSocketAddr_inj:
  "populateSocketAddr p = populateSocketAddr q \<longleftrightarrow> (word_of_int p :: 32 word) = word_of_int q"
  by (simp add: populateSocketAddr_def hex8_inj)

text \<open>A descriptor that was sent is received where the socket delivers the message.\<close>

lemma sendFd_recvFd:
  assumes "\<And>d c w n w'. c_sendmsg y a d c w = (n, w') \<Longrightarrow> n \<noteq> -1 \<Longrightarrow> \<exists>w''. c_recvmsg y b w' = ((n, Some c), w'')"
    and "sendFd y a fd s = (Ret 0, t)"
  shows "\<exists>w. recvFd x y b t = (Ret fd, t\<lparr>world := w\<rparr>)"
proof -
  let ?c = "\<lparr>cmsg_len = CMSG_LEN_int, cmsg_level = SOL_SOCKET, cmsg_type = SCM_RIGHTS, cmsg_fd = fd\<rparr>"
  obtain n w' where n: "c_sendmsg y a 1 ?c (world s) = (n, w')" by fastforce
  with assms(2) have "n \<noteq> -1" "t = s\<lparr>world := w'\<rparr>"
    by (auto simp: sendFd_def cbind_def call_ext_def cret_def split: if_splits)
  with assms(1) [OF n] show ?thesis
    by (auto simp: recvFd_def cbind_def call_ext_def cret_def)
qed

section \<open>The life of the server\<close>

text \<open>The descriptors that are open, as the calls of the constructor change them.\<close>

definition fd_ledger :: "'w ext \<Rightarrow> 'w stats_ext \<Rightarrow> ('w \<Rightarrow> int set) \<Rightarrow> bool" where
  "fd_ledger x y fds \<longleftrightarrow>
     (\<forall>n f w r w'. c_memfd_create y n f w = (r, w') \<longrightarrow>
        (r = -1 \<longrightarrow> fds w' = fds w) \<and> (r \<noteq> -1 \<longrightarrow> r \<notin> fds w \<and> fds w' = insert r (fds w))) \<and>
     (\<forall>i f w r w'. c_eventfd y i f w = (r, w') \<longrightarrow>
        (r = -1 \<longrightarrow> fds w' = fds w) \<and> (r \<noteq> -1 \<longrightarrow> r \<notin> fds w \<and> fds w' = insert r (fds w))) \<and>
     (\<forall>fd w r w'. c_close x fd w = (r, w') \<longrightarrow> r \<noteq> -1 \<and> fds w' = fds w - {fd}) \<and>
     (\<forall>fd n w r w'. c_ftruncate y fd n w = (r, w') \<longrightarrow> fds w' = fds w) \<and>
     (\<forall>a n p f fd off w r w'. c_mmap x a n p f fd off w = (r, w') \<longrightarrow> fds w' = fds w) \<and>
     (\<forall>fd op arg w r w'. c_fcntl x fd op arg w = (r, w') \<longrightarrow> fds w' = fds w)"

lemma fd_ledger_makes:
  assumes "fd_ledger x y fds"
  shows "c_memfd_create y n f w = (r, w') \<Longrightarrow> (r = -1 \<longrightarrow> fds w' = fds w) \<and> (r \<noteq> -1 \<longrightarrow> r \<notin> fds w \<and> fds w' = insert r (fds w))"
    and "c_eventfd y i g w = (r, w') \<Longrightarrow> (r = -1 \<longrightarrow> fds w' = fds w) \<and> (r \<noteq> -1 \<longrightarrow> r \<notin> fds w \<and> fds w' = insert r (fds w))"
  using assms by (simp_all add: fd_ledger_def)

lemma fd_ledger_same:
  assumes "fd_ledger x y fds"
  shows "c_ftruncate y fd m w = (r, w') \<Longrightarrow> fds w' = fds w"
    and "c_mmap x a m p g fd off w = (q, w') \<Longrightarrow> fds w' = fds w"
    and "c_fcntl x fd op arg w = (r, w') \<Longrightarrow> fds w' = fds w"
  using assms by (simp_all add: fd_ledger_def)

lemma fd_ledger_close:
  assumes "fd_ledger x y fds" and "g \<noteq> -1"
  shows "FileDescriptor_dtor x (make_managed g) u = (Ret (), u\<lparr>world := snd (c_close x g (world u))\<rparr>)"
    and "fds (snd (c_close x g w)) = fds w - {g}"
proof -
  have c: "fst (c_close x g w) \<noteq> -1 \<and> fds (snd (c_close x g w)) = fds w - {g}" for w
    using assms(1) unfolding fd_ledger_def by (metis prod.collapse)
  then show "fds (snd (c_close x g w)) = fds w - {g}" by simp
  show "FileDescriptor_dtor x (make_managed g) u = (Ret (), u\<lparr>world := snd (c_close x g (world u))\<rparr>)"
    using c [of "world u"] assms(2) by (cases "c_close x g (world u)") (simp add: dtor_managed make_managed_def)
qed

text \<open>A constructor that throws leaves no descriptor open.\<close>

lemma StatsServer_ctor_closes:
  fixes s t :: "('w, 'z) stats_state_scheme"
  assumes led: "fd_ledger x y fds" and run: "StatsServer_ctor x y s = (r, t)"
  shows "case r of
      Ret srv \<Rightarrow> fds (world t) = insert (m_fd (srv_efd srv)) (insert (m_fd (srv_fd srv)) (fds (world s))) \<and>
        m_stats t = Some (Stats_init\<lparr>st_level := effective_level (Configuration_statsLevel x)\<rparr>)
    | Exn e \<Rightarrow> fds (world t) = fds (world s) \<and> m_stats t = m_stats s
    | Terminate \<Rightarrow> False"
proof -
  obtain fd w1 where fd: "c_memfd_create y ''AISSTATS'' MFD_ALLOW_SEALING (world s) = (fd, w1)" by fastforce
  obtain efd w2 where efd: "c_eventfd y 0 0 w1 = (efd, w2)" by fastforce
  obtain r3 w3 where r3: "c_ftruncate y fd (sizeof_Stats y) w2 = (r3, w3)" by fastforce
  obtain shm w4 where shm: "c_mmap x nullptr (sizeof_Stats y) PROT_READ_WRITE MAP_SHARED fd 0 w3 = (shm, w4)" by fastforce
  obtain r5 w5 where r5: "c_fcntl x fd F_ADD_SEALS F_SEAL_SHRINK_FUTURE_WRITE w4 = (r5, w5)" by fastforce
  have same: "fds w3 = fds w2" "fds w4 = fds w3" "fds w5 = fds w4"
    using fd_ledger_same [OF led] r3 shm r5 by simp_all
  note l1 = fd_ledger_makes(1) [OF led fd] and l2 = fd_ledger_makes(2) [OF led efd] and close = fd_ledger_close [OF led]
  have managed: "m_fd (make_managed g) = g" for g by (simp add: make_managed_def)
  note defs = StatsServer_ctor_def Sys_memfd_create_def Sys_eventfd_def Sys_ftruncate_def Sys_mmap_def Sys_fcntl_def
    cbind_def call_ext_def throwOn_def cret_def cunwind_def cmodify_def Let_def
  show ?thesis
  proof (cases "fd = -1 \<or> efd = -1")
    case True
    with run l1 l2 show ?thesis by (auto simp: defs fd efd close)
  next
    case False
    then have ends: "fds w5 = insert efd (insert fd (fds (world s)))" "fd \<notin> fds (world s)" "efd \<notin> insert fd (fds (world s))"
      using l1 l2 same by auto
    with False run same show ?thesis
      by (cases "r3 = -1"; cases "shm = -1"; cases "r5 = -1")
        (auto simp: defs fd efd r3 shm r5 close managed)
  qed
qed

text \<open>
  While a connection waits that cannot be accepted, the thread does not look at the event descriptor, and so
  never learns that it is asked to end.
\<close>

lemma accept_failure_spins:
  assumes "\<And>w. \<exists>revents w'. c_poll y [(sock, POLLIN), (m_fd (srv_efd srv), POLLIN)] (-1) w = ((2, revents), w') \<and>
      (revents ! 0) AND POLLIN \<noteq> 0"
    and "\<And>w. \<exists>w'. c_accept y sock w = (-1, w')"
  shows "\<exists>w'. StatsServer_round x y srv sock s = (Ret (Inl ()), s\<lparr>world := w'\<rparr>)"
proof -
  obtain revents w1 where "c_poll y [(sock, POLLIN), (m_fd (srv_efd srv), POLLIN)] (-1) (world s) = ((2, revents), w1)"
    "(revents ! 0) AND POLLIN \<noteq> 0" using assms(1) by blast
  moreover obtain w2 where "c_accept y sock w1 = (-1, w2)" using assms(2) by blast
  ultimately show ?thesis
    by (intro exI [of _ w2]) (simp add: StatsServer_round_def cbind_def call_ext_def cret_def FileDescriptor_get_def Let_def)
qed

text \<open>A failed attempt to connect leaves the client as it was.\<close>

lemma connect_failure_keeps_client:
  assumes "StatsClient_connectServer x y cl s = Some (Ret (ok, cl'), t)"
  shows "cl_pid cl' = cl_pid cl \<and> cl_pfd cl' = cl_pfd cl \<and> (\<not> ok \<longrightarrow> cl' = cl)"
  using assms
  by (auto simp: StatsClient_connectServer_def obind_def olift_def oscope_def call_ext_def cret_def cbind_def Let_def
      split: option.splits outcome.splits prod.splits if_splits)

section \<open>The report\<close>

text \<open>\<open>out\<close> is what was written to a descriptor; a write appends what it reports.\<close>

definition documented_write :: "'w ext \<Rightarrow> 'w stats_ext \<Rightarrow> (int \<Rightarrow> 'w \<Rightarrow> string) \<Rightarrow> bool" where
  "documented_write x y out \<longleftrightarrow>
     (\<forall>fd data w n w'. c_write y fd data w = (n, w') \<longrightarrow>
        n \<le> int (length data) \<and> out fd w' = out fd w @ take (nat n) data)"

definition write_budget :: "'w ext \<Rightarrow> 'w stats_ext \<Rightarrow> ('w \<Rightarrow> nat) \<Rightarrow> bool" where
  "write_budget x y budget \<longleftrightarrow>
     (\<forall>fd data w n w'. data \<noteq> [] \<and> c_write y fd data w = (n, w') \<longrightarrow>
        budget w' \<le> budget w \<and> (n \<le> 0 \<and> c_errno x w' = EINTR \<longrightarrow> budget w' < budget w))"

lemma write_loop_ends:
  assumes "documented_write x y out" and "write_budget x y budget"
  shows "\<exists>r t. oloop (write_round x y fd report) k s = Some (r, t)"
proof (rule oloop_returns [where R = "(\<lambda>(k, s). length report - k) <*mlex*> measure (\<lambda>(k, s). budget (world s))"
      and I = "\<lambda>k s. True"])
  fix k s k' t
  assume run: "write_round x y fd report k s = (Ret (Inl k'), t)"
  have "budget w' < budget w" if "c_write y fd (drop k report) w = (n, w')" "k < length report" "n \<le> 0" "c_errno x w' = EINTR" for n w w'
    using assms(2) that unfolding write_budget_def by (metis drop_eq_Nil not_le)
  with run assms(1) show "True \<and> ((k', t), k, s) \<in> (\<lambda>(k, s). length report - k) <*mlex*> measure (\<lambda>(k, s). budget (world s))"
    by (auto simp: write_round_def cbind_def call_ext_def cget_def cret_def documented_write_def
        mlex_prod_def split: if_splits prod.splits)
qed (auto intro: wf_mlex)

lemma write_loop_appends:
  assumes doc: "documented_write x y out"
    and run: "oloop (write_round x y fd report) 0 s = Some (r, t)"
  shows "\<exists>e k. r = Ret e \<and> out fd (world t) = out fd (world s) @ take k report \<and> e \<in> {hipFileStatsSuccess, hipFileStatsReportGenerationFailed} \<and>
    k \<le> length report \<and> (e = hipFileStatsSuccess \<longleftrightarrow> k = length report)"
proof (rule oloop_inv [OF run, where I = "\<lambda>k u. k \<le> length report \<and> out fd (world u) = out fd (world s) @ take k report"])
  fix k u k' v
  assume inv: "k \<le> length report \<and> out fd (world u) = out fd (world s) @ take k report"
    and run: "write_round x y fd report k u = (Ret (Inl k'), v)"
  have "n \<le> int (length report) - int k" if "c_write y fd (drop k report) (world u) = (n, w)" for n w
    using doc that inv unfolding documented_write_def by (metis length_drop of_nat_diff)
  with inv run show "k' \<le> length report \<and> out fd (world v) = out fd (world s) @ take k' report"
    using doc
    by (auto simp: write_round_def cbind_def call_ext_def cget_def cret_def documented_write_def take_add
        split: if_splits prod.splits dest: spec [of _ fd])
next
  fix k u e v
  assume "k \<le> length report \<and> out fd (world u) = out fd (world s) @ take k report"
    and "write_round x y fd report k u = (Ret (Inr e), v)"
  then have "out fd (world v) = out fd (world s) @ take k report \<and>
      e \<in> {hipFileStatsSuccess, hipFileStatsReportGenerationFailed} \<and> k \<le> length report \<and> (e = hipFileStatsSuccess \<longleftrightarrow> k = length report)"
    using doc
    by (auto simp: write_round_def cbind_def call_ext_def cget_def cret_def documented_write_def
        split: if_splits prod.splits)
  then show "\<exists>e' k. Ret e = Ret e' \<and> out fd (world v) = out fd (world s) @ take k report \<and>
      e' \<in> {hipFileStatsSuccess, hipFileStatsReportGenerationFailed} \<and> k \<le> length report \<and> (e' = hipFileStatsSuccess \<longleftrightarrow> k = length report)"
    by blast
qed (auto simp: write_round_def cbind_def call_ext_def cget_def cret_def split: if_splits prod.splits)

text \<open>
  The budget is needed: a write that returns 0 leaves \<^verbatim>\<open>errno\<close> alone, so that with an old \<^verbatim>\<open>EINTR\<close> in it
  the loop never ends.
\<close>

lemma zero_write_with_EINTR_spins:
  assumes "k < length report" and "I (world s)"
    and zero: "\<And>w. I w \<Longrightarrow> \<exists>w'. c_write y fd (drop k report) w = (0, w') \<and> c_errno x w' = EINTR \<and> I w'"
  shows "oloop (write_round x y fd report) k s = None"
proof (rule ccontr)
  assume "oloop (write_round x y fd report) k s \<noteq> None"
  then obtain r t where run: "oloop (write_round x y fd report) k s = Some (r, t)" by fastforce
  have round: "\<exists>u. write_round x y fd report k s = (Ret (Inl k), u) \<and> I (world u)" if "I (world s)" for s
    using zero [OF that] assms(1) by (auto simp: write_round_def cbind_def call_ext_def cget_def cret_def)
  have False
    by (rule oloop_inv [OF run, where I = "\<lambda>j u. j = k \<and> I (world u)" and Q = "\<lambda>_ _. False"])
      (use assms(2) round in \<open>force+\<close>)
  then show False .
qed

lemma report_outcome:
  fixes s :: "('w, 'z) sys_state_scheme"
  assumes "documented_write x y out" and "write_budget x y budget" and "0 \<le> fd"
    and "FileDescriptor_get (cl_sfd cl) \<noteq> -1"
    and "c_mmap x nullptr (sizeof_Stats y) PROT_READ MAP_SHARED (FileDescriptor_get (cl_sfd cl)) 0 (world s) = (p, w1)"
    and "p \<noteq> -1" and "p \<noteq> nullptr"
    and "c_munmap x p (sizeof_Stats y) w1 = (r, w2)"
  shows "\<exists>e t k. hipFileStatsGenerateReport x y (Some cl) fd s = Some (Ret e, t) \<and>
    out fd (world t) = out fd w2 @ take k (report_text (shm_stats y p w1)) \<and>
    k \<le> length (report_text (shm_stats y p w1)) \<and>
    e = (if k = length (report_text (shm_stats y p w1)) then hipFileStatsSuccess else hipFileStatsReportGenerationFailed)"
proof -
  let ?text = "report_text (shm_stats y p w1)"
  have gen: "StatsClient_generateReport x y cl s = (Ret (Some ?text), s\<lparr>world := w2\<rparr>)"
    using assms(4-8) by (simp add: StatsClient_generateReport_def cbind_def call_ext_def cret_def cget_def)
  obtain q t where run: "oloop (write_round x y fd ?text) 0 (s\<lparr>world := w2\<rparr>) = Some (q, t)"
    using write_loop_ends [OF assms(1,2)] by blast
  with gen assms(3) have "hipFileStatsGenerateReport x y (Some cl) fd s = Some (q, t)"
    by (simp add: hipFileStatsGenerateReport_def obind_def olift_def)
  with write_loop_appends [OF assms(1) run] show ?thesis by auto
qed

lemma report_refused:
  fixes s :: "('w, 'z) sys_state_scheme"
  assumes "0 \<le> fd" and map_: "c_mmap x nullptr (sizeof_Stats y) PROT_READ MAP_SHARED (FileDescriptor_get (cl_sfd cl)) 0 (world s) = (p, w1)"
  shows "FileDescriptor_get (cl_sfd cl) = -1 \<Longrightarrow>
      hipFileStatsGenerateReport x y (Some cl) fd s = Some (Ret hipFileStatsReportGenerationFailed, s)"
    and "FileDescriptor_get (cl_sfd cl) \<noteq> -1 \<Longrightarrow> p = -1 \<or> p = nullptr \<Longrightarrow>
      hipFileStatsGenerateReport x y (Some cl) fd s = Some (Ret hipFileStatsReportGenerationFailed, s\<lparr>world := w1\<rparr>)"
  using assms
  by (auto simp: hipFileStatsGenerateReport_def StatsClient_generateReport_def obind_def olift_def cbind_def call_ext_def cret_def)

end
