(* ===== verification/Stats_Tool.thy ===== *)
theory Stats_Tool
  imports Stats_Server Sample_Platform
begin

text \<open>
  The collection tool (\<^verbatim>\<open>src/tools/ais-stats/ais-stats.cpp\<close>) over the interface of the statistics, and the
  property of the report.
\<close>

section \<open>The tool\<close>

record 'w tool_ext =
  c_atoi :: "string \<Rightarrow> int"
  c_fork :: "'w \<Rightarrow> int \<times> 'w"
  c_execvp :: "string list \<Rightarrow> 'w \<Rightarrow> 'w"
  c_dup :: "int \<Rightarrow> 'w \<Rightarrow> int \<times> 'w"
  print_err :: "string \<Rightarrow> 'w \<Rightarrow> 'w"

definition STDOUT_FILENO :: int where "STDOUT_FILENO = 1"

definition eprint :: "'w tool_ext \<Rightarrow> string \<Rightarrow> (('w, 'z) sys_state_scheme, unit) cxx" where
  "eprint z msg = call_ext (\<lambda>w. ((), print_err z msg w))"

definition newline :: string where "newline = [CHR 0x0A]"

definition printUsage :: "'w tool_ext \<Rightarrow> (('w, 'z) sys_state_scheme, unit) cxx" where
  "printUsage z =
     eprint z (''Usage:'' @ newline @
       ''  ais-stats <program> [args...]'' @ newline @
       ''  ais-stats -p <PID> [-i]'' @ newline @
       ''  -p <PID> Process to collect data from'' @ newline @
       ''  -i Generate report immediately instead of waiting for process to exit'' @ newline)"

text \<open>
  The choice of the process: its id and whether to report at once, or the exit code of a run that
  ends here. In the child \<^verbatim>\<open>execvp\<close> returns only when it fails.
\<close>

definition ais_stats_target ::
  "'w tool_ext \<Rightarrow> string list \<Rightarrow> (('w, 'z) sys_state_scheme, int + int \<times> bool) cxx" where
  "ais_stats_target z argv =
     (if length argv < 2 then cbind (printUsage z) (\<lambda>_. cret (Inl 1))
      else if argv ! 1 = ''-p'' then
        if length argv < 3 then cbind (printUsage z) (\<lambda>_. cret (Inl 1))
        else cret (Inr (c_atoi z (argv ! 2), length argv = 4 \<and> argv ! 3 = ''-i''))
      else cbind (call_ext (c_fork z)) (\<lambda>pid.
           if pid < 0 then cbind (eprint z (''Failed to launch '' @ argv ! 1 @ newline)) (\<lambda>_. cret (Inl 1))
           else if pid = 0 then
             cbind (call_ext (\<lambda>w. ((), c_execvp z (drop 1 argv) w))) (\<lambda>_.
             cbind (eprint z (''Failed to launch '' @ argv ! 1 @ newline)) (\<lambda>_. cret (Inl 1)))
           else cret (Inr (pid, False))))"

text \<open>A failure after the context was made: a message, and the context is closed.\<close>

definition ais_stats_fail ::
  "'w ext \<Rightarrow> 'w tool_ext \<Rightarrow> StatsClient option \<Rightarrow> string \<Rightarrow> (('w, 'z) sys_state_scheme, int) cxx" where
  "ais_stats_fail x z context msg =
     cbind (eprint z (msg @ newline)) (\<lambda>_. cbind (hipFileStatsCloseContext x context) (\<lambda>_. cret 1))"

definition ais_stats_report ::
  "'w ext \<Rightarrow> 'w stats_ext \<Rightarrow> 'w tool_ext \<Rightarrow> StatsClient option \<Rightarrow> (('w, 'z) sys_state_scheme, int) ocxx" where
  "ais_stats_report x y z context =
     obind (olift (call_ext (c_dup z STDOUT_FILENO))) (\<lambda>fd.
       if fd < 0 then olift (ais_stats_fail x z context ''Failed to duplicate stdout file descriptor.'')
       else obind (hipFileStatsGenerateReport x y context fd) (\<lambda>e.
            if e \<noteq> hipFileStatsSuccess
            then olift (cbind (eprint z (''Failed to generate report from target process.'' @ newline)) (\<lambda>_.
                        cbind (call_ext (c_close x fd)) (\<lambda>_.
                        cbind (hipFileStatsCloseContext x context) (\<lambda>_. cret 1))))
            else olift (cbind (call_ext (c_close x fd)) (\<lambda>_.
                        cbind (hipFileStatsCloseContext x context) (\<lambda>_. cret 0)))))"

definition ais_stats_main ::
  "'w ext \<Rightarrow> 'w stats_ext \<Rightarrow> 'w tool_ext \<Rightarrow> string list \<Rightarrow> (('w, 'z) sys_state_scheme, int) ocxx" where
  "ais_stats_main x y z argv =
     obind (olift (ais_stats_target z argv)) (\<lambda>target.
       case target of
         Inl code \<Rightarrow> olift (cret code)
       | Inr (pid, imm) \<Rightarrow>
           obind (olift (hipFileStatsCreateContext x y True pid)) (\<lambda>(e, context).
           if e \<noteq> hipFileStatsSuccess
           then olift (cbind (eprint z (''Failed to create context for target process.'' @ newline)) (\<lambda>_. cret 1))
           else obind (hipFileStatsConnectToTargetProcess x y context) (\<lambda>(e, context).
                if e \<noteq> hipFileStatsSuccess
                then olift (ais_stats_fail x z context ''Failed to connect to target process.'')
                else obind (olift (if imm then cret hipFileStatsSuccess
                                   else hipFileStatsPollTargetProcess y context True)) (\<lambda>e.
                     if e \<noteq> hipFileStatsSuccess
                     then olift (ais_stats_fail x z context ''Failed to poll target process.'')
                     else ais_stats_report x y z context))))"

section \<open>A platform with sockets\<close>

text \<open>The calls of the statistics on the sample platform: a write takes at most 16 bytes.\<close>

definition sample_out :: "int \<Rightarrow> sample \<Rightarrow> string" where
  "sample_out fd w = map (\<lambda>b. char_of (unat b)) (sm_file w fd)"

definition sample_write :: "int \<Rightarrow> string \<Rightarrow> sample \<Rightarrow> int \<times> sample" where
  "sample_write fd data w =
     (let k = min 16 (length data)
      in (int k, w\<lparr>sm_file := (sm_file w)(fd := sm_file w fd @ map (\<lambda>c. of_nat (of_char c)) (take k data))\<rparr>))"

definition sample_stats_ext :: "sample stats_ext" where
  "sample_stats_ext =
     \<lparr>c_memfd_create = (\<lambda>n f w. (20, w)), c_eventfd = (\<lambda>i f w. (21, w)), c_ftruncate = (\<lambda>fd n w. (0, w)),
      c_pidfd_open = (\<lambda>p f w. (22, w)), c_socket = (\<lambda>w. (23, w)), c_bind = (\<lambda>s a w. (0, w)),
      c_listen = (\<lambda>s n w. (0, w)), c_poll = (\<lambda>fds timeout w. ((0, map (\<lambda>_. 0) fds), w)),
      c_accept = (\<lambda>s w. (24, w)), c_connect = (\<lambda>s a w. (0, w)), c_sendmsg = (\<lambda>s d c w. (4, w)),
      c_recvmsg = (\<lambda>s w. ((4, Some \<lparr>cmsg_len = CMSG_LEN_int, cmsg_level = SOL_SOCKET, cmsg_type = SCM_RIGHTS,
                                cmsg_fd = 25\<rparr>), w)),
      c_write = sample_write, c_getpid = 77, shm_stats = (\<lambda>p w. Stats_init), sizeof_Stats = 528\<rparr>"

lemma sample_documented_write: "documented_write x sample_stats_ext sample_out"
proof -
  have "of_char c < (256 :: nat)" for c :: char by simp
  then have "unat (of_nat (of_char c) :: byte) = of_char c" for c :: char
    by (simp add: unat_of_nat take_bit_nat_eq_self)
  then show ?thesis
    by (auto simp: documented_write_def sample_stats_ext_def sample_write_def sample_out_def Let_def comp_def)
qed

lemma sample_write_budget: "write_budget x sample_stats_ext (\<lambda>w. 0)"
  by (auto simp: write_budget_def sample_stats_ext_def sample_write_def Let_def min_def split: if_splits)

definition sample_client :: StatsClient where
  "sample_client = \<lparr>cl_pfd = make_managed 22, cl_sfd = make_managed 25, cl_pid = 77\<rparr>"

section \<open>The report\<close>

text \<open>
  C40: on a platform where writes fail or return 0 with \<^verbatim>\<open>EINTR\<close> in \<^verbatim>\<open>errno\<close> only finitely often,
  \<^verbatim>\<open>hipFileStatsGenerateReport\<close> returns. Without a context or with a negative descriptor it refuses the
  arguments. When no descriptor was received or it cannot be mapped it reports a failure and has written nothing.
  Otherwise it reports a success exactly when the
  whole text of the report, with the version, the level and the four counters that the mapping of the server's memory
  shows, was appended to the descriptor, however the writes were cut or interrupted; after a failure
  a beginning of the text was appended.
\<close>

theorem stats_report_is_written:
  fixes s :: "('w, 'z) sys_state_scheme"
  assumes "documented_write x y out" and "write_budget x y budget"
    and "\<And>n prot flags f off w. out fd (snd (c_mmap x nullptr n prot flags f off w)) = out fd w"
    and "\<And>p n w. out fd (snd (c_munmap x p n w)) = out fd w"
  shows "\<exists>e t. hipFileStatsGenerateReport x y context fd s = Some (Ret e, t) \<and>
    (case context of
       None \<Rightarrow> e = hipFileStatsInvalidArgument \<and> t = s
     | Some cl \<Rightarrow>
         if fd < 0 then e = hipFileStatsInvalidArgument \<and> t = s
         else if m_fd (cl_sfd cl) = -1 then e = hipFileStatsReportGenerationFailed \<and> t = s
         else (case c_mmap x nullptr (sizeof_Stats y) PROT_READ MAP_SHARED (m_fd (cl_sfd cl)) 0 (world s) of (p, w) \<Rightarrow>
           if p = -1 \<or> p = nullptr
           then e = hipFileStatsReportGenerationFailed \<and> out fd (world t) = out fd (world s)
           else (\<exists>k \<le> length (report_text (shm_stats y p w)).
             out fd (world t) = out fd (world s) @ take k (report_text (shm_stats y p w)) \<and>
             e = (if k = length (report_text (shm_stats y p w)) then hipFileStatsSuccess
                  else hipFileStatsReportGenerationFailed))))"
proof (cases "context")
  case None
  then show ?thesis by (simp add: hipFileStatsGenerateReport_def olift_def cret_def)
next
  case (Some cl)
  obtain p w where m: "c_mmap x nullptr (sizeof_Stats y) PROT_READ MAP_SHARED (m_fd (cl_sfd cl)) 0 (world s) = (p, w)"
    by fastforce
  obtain r w2 where u: "c_munmap x p (sizeof_Stats y) w = (r, w2)" by fastforce
  have out: "out fd w = out fd (world s)" "out fd w2 = out fd w" using assms(3,4) m u by (metis snd_conv)+
  note m' = m [folded FileDescriptor_get_def]
  consider (neg) "fd < 0" | (none) "0 \<le> fd" "m_fd (cl_sfd cl) = -1"
    | (fail) "0 \<le> fd" "m_fd (cl_sfd cl) \<noteq> -1" "p = -1 \<or> p = nullptr"
    | (ok) "0 \<le> fd" "m_fd (cl_sfd cl) \<noteq> -1" "p \<noteq> -1" "p \<noteq> nullptr" by linarith
  then show ?thesis
  proof cases
    case neg
    with Some show ?thesis by (simp add: hipFileStatsGenerateReport_def olift_def cret_def)
  next
    case none
    with Some report_refused(1) [OF none(1) m'] show ?thesis by (simp add: FileDescriptor_get_def)
  next
    case fail
    with Some m out report_refused(2) [OF fail(1) m' _ fail(3)] show ?thesis by (simp add: FileDescriptor_get_def)
  next
    case ok
    let ?text = "report_text (shm_stats y p w)"
    obtain e t k where r: "hipFileStatsGenerateReport x y (Some cl) fd s = Some (Ret e, t)"
      "out fd (world t) = out fd (world s) @ take k ?text \<and> k \<le> length ?text \<and>
       e = (if k = length ?text then hipFileStatsSuccess else hipFileStatsReportGenerationFailed)"
      using report_outcome [OF assms(1,2) ok(1) _ m' ok(3,4) u] ok(2) out by (auto simp: FileDescriptor_get_def)
    from r(2) have "\<exists>k \<le> length ?text. out fd (world t) = out fd (world s) @ take k ?text \<and>
       e = (if k = length ?text then hipFileStatsSuccess else hipFileStatsReportGenerationFailed)" by blast
    with r(1) Some m ok show ?thesis by (intro exI [of _ e] exI [of _ t]) (simp split del: if_split)
  qed
qed

theorem stats_report_is_written_witness:
  "(\<exists>e t k. hipFileStatsGenerateReport sample_fast sample_stats_ext (Some sample_client) 7 \<lparr>world = sample_world 0\<rparr> =
      Some (Ret e, t) \<and> sample_out 7 (world t) = take k (report_text Stats_init)) \<and>
   (\<exists>t. hipFileStatsGenerateReport sample_fast sample_stats_ext (Some (sample_client\<lparr>cl_sfd := make_managed (-1)\<rparr>)) 7
      \<lparr>world = sample_world 0\<rparr> = Some (Ret hipFileStatsReportGenerationFailed, t))"
proof -
  have map_: "c_mmap sample_fast nullptr (sizeof_Stats sample_stats_ext) PROT_READ MAP_SHARED (m_fd (cl_sfd sample_client)) 0
      (world \<lparr>world = sample_world 0\<rparr>) = (0x1000, sample_world 0)"
    and fd: "m_fd (cl_sfd sample_client) \<noteq> -1"
    and stats: "shm_stats sample_stats_ext 0x1000 (sample_world 0) = Stats_init"
    and out: "sample_out 7 (sample_world 0) = []"
    by (simp_all add: sample_fast_def sample_ext_def sample_mmap_def sample_stats_ext_def sample_client_def make_managed_def
        sample_out_def sample_world_def)
  have quiet: "sample_out 7 (snd (c_mmap sample_fast nullptr n prot flags f off w)) = sample_out 7 w"
    "sample_out 7 (snd (c_munmap sample_fast p n w)) = sample_out 7 w" for n prot flags f off p w
    by (simp_all add: sample_fast_def sample_ext_def sample_mmap_def)
  note written = stats_report_is_written [OF sample_documented_write sample_write_budget quiet,
      where s = "\<lparr>world = sample_world 0\<rparr>"]
  from written [of "Some sample_client"] map_ fd
  have "\<exists>e t k. hipFileStatsGenerateReport sample_fast sample_stats_ext (Some sample_client) 7 \<lparr>world = sample_world 0\<rparr> =
      Some (Ret e, t) \<and> sample_out 7 (world t) = take k (report_text Stats_init)"
    by (simp add: stats out) blast
  moreover from written [of "Some (sample_client\<lparr>cl_sfd := make_managed (-1)\<rparr>)"]
  have "\<exists>t. hipFileStatsGenerateReport sample_fast sample_stats_ext (Some (sample_client\<lparr>cl_sfd := make_managed (-1)\<rparr>)) 7
      \<lparr>world = sample_world 0\<rparr> = Some (Ret hipFileStatsReportGenerationFailed, t)"
    by (simp add: make_managed_def)
  ultimately show ?thesis ..
qed

end
