(* ===== verification/Singleton.thy ===== *)
theory Singleton
  imports Externals
begin

text \<open>
  \<^verbatim>\<open>Context\<close> (\<^verbatim>\<open>src/amd_detail/context.h\<close>): the access to the one object of a class, which a build for tests may
  override for the time of a scope, and \<^verbatim>\<open>HipFileInit\<close> (\<^verbatim>\<open>context.cpp\<close>), which makes the objects in a fixed order
  so that they are destroyed in the reverse one.
\<close>

section \<open>Singletons with an override\<close>

text \<open>The slot of one class: its own object, once it is made, and a replacement.\<close>

record 'a context_slot =
  standard :: "'a option"
  replacement :: "'a option"

text \<open>A function-local static is made by the first call; \<open>made\<close> is the object that its constructor gives.\<close>

definition Context_get :: "'a \<Rightarrow> ('a context_slot, 'a) cxx" where
  "Context_get made =
     cbind (cmodify (\<lambda>s. if standard s = None then s\<lparr>standard := Some made\<rparr> else s)) (\<lambda>_.
     cget (\<lambda>s. case replacement s of Some r \<Rightarrow> r | None \<Rightarrow> the (standard s)))"

definition Context_override :: "'a \<Rightarrow> ('a context_slot, unit) cxx" where
  "Context_override r =
     cbind (cget replacement) (\<lambda>old.
       if old \<noteq> None then cthrow Std_runtime_error
       else cmodify (\<lambda>s. s\<lparr>replacement := Some r\<rparr>))"

definition Context_restore :: "('a context_slot, unit) cxx" where
  "Context_restore =
     cbind (cget replacement) (\<lambda>old.
       if old = None then cthrow Std_runtime_error
       else cmodify (\<lambda>s. s\<lparr>replacement := None\<rparr>))"

text \<open>A scope with an object of class \<^verbatim>\<open>ContextOverride\<close>; its destructor may not throw.\<close>

definition ContextOverride_ctor :: "'a \<Rightarrow> ('a context_slot, unit) cxx" where
  "ContextOverride_ctor val = Context_override val"

definition ContextOverride_dtor :: "('a context_slot, unit) cxx" where
  "ContextOverride_dtor = cnoexcept Context_restore"

definition with_override :: "'a \<Rightarrow> ('a context_slot, 'b) cxx \<Rightarrow> ('a context_slot, 'b) cxx" where
  "with_override val m = cbind (ContextOverride_ctor val) (\<lambda>_. cscope m ContextOverride_dtor)"

text \<open>The order in which the objects of the library are made.\<close>

datatype singleton = HipSingleton | SysSingleton | StatsServerSingleton | DriverStateSingleton

definition HipFileInit :: "singleton list" where
  "HipFileInit = [HipSingleton, SysSingleton, StatsServerSingleton, DriverStateSingleton]"

section \<open>Overrides are undone\<close>

lemma Context_get_twice:
  assumes "Context_get made s = (Ret a, t)"
  shows "Context_get made' t = (Ret a, t)"
  using assms
  by (auto simp: Context_get_def cbind_def cmodify_def cget_def split: option.splits if_splits)

lemma Context_get_override:
  assumes "replacement s = None"
  shows "\<exists>t. cbind (Context_override r) (\<lambda>_. Context_get made) s = (Ret r, t) \<and> replacement t = Some r"
  using assms by (simp add: Context_get_def Context_override_def cbind_def cmodify_def cget_def)

text \<open>
  What runs under an override sees the replacement, whatever happens inside the scope leaves none behind, and a
  second override inside it throws and leaves the first in place.
\<close>

lemma with_override_undone:
  assumes "replacement s = None"
    and "\<And>u r v. replacement u = Some val \<Longrightarrow> m u = (r, v) \<Longrightarrow> replacement v = Some val \<and> r \<noteq> Terminate"
    and "with_override val m s = (r, t)"
  shows "replacement t = None \<and> r \<noteq> Terminate \<and> (\<exists>u v. m (u\<lparr>replacement := Some val\<rparr>) = (r, v))"
proof -
  obtain q v where m: "m (s\<lparr>replacement := Some val\<rparr>) = (q, v)" by fastforce
  with assms(2) [of "s\<lparr>replacement := Some val\<rparr>"] have v: "replacement v = Some val" "q \<noteq> Terminate" by auto
  with assms(1,3) m have "r = q" "t = v\<lparr>replacement := None\<rparr>"
    by (auto simp: with_override_def ContextOverride_ctor_def ContextOverride_dtor_def Context_override_def
        Context_restore_def cbind_def cget_def cmodify_def cscope_def cnoexcept_def split: outcome.splits)
  with v m show ?thesis by auto
qed

lemma nested_override_refused:
  assumes "replacement s = Some r"
  shows "with_override r' m s = (Exn Std_runtime_error, s)"
  using assms by (simp add: with_override_def ContextOverride_ctor_def Context_override_def cbind_def cget_def cthrow_def)

end
