(* ===== verification/Io_Client.thy ===== *)
theory Io_Client
  imports Io No_Status
begin

text \<open>
  What a client of the synchronous functions can rely on from call to call: an IO changes nothing of
  the library but its counters, its result is negative when it fails, and a property of the world that
  the external calls keep is kept.
\<close>

section \<open>The lookup\<close>

text \<open>A failure: an exception that the public functions turn into a negative number.\<close>

definition failure :: "exn \<Rightarrow> bool" where
  "failure e \<longleftrightarrow> e \<noteq> Hip_RuntimeError hipSuccess \<and> (\<forall>f. e \<noteq> Thrown_hipFileError f)"

definition fails :: "'a outcome \<Rightarrow> bool" where
  "fails r \<longleftrightarrow> (\<forall>e. r = Exn e \<longrightarrow> failure e)"

lemma fails_simps [simp]: "fails (Ret a)" "fails Terminate" "fails (Exn e) \<longleftrightarrow> failure e"
  by (simp_all add: fails_def)

text \<open>A function that keeps a property of the world and throws failures only.\<close>

definition upholds :: "('w \<Rightarrow> bool) \<Rightarrow> (('w, 'z) sys_state_scheme, 'a) cxx \<Rightarrow> bool" where
  "upholds P m \<longleftrightarrow> (\<forall>s r t. P (world s) \<longrightarrow> m s = (r, t) \<longrightarrow> P (world t) \<and> fails r)"

lemma upholdsD: "upholds P m \<Longrightarrow> P (world s) \<Longrightarrow> m s = (r, t) \<Longrightarrow> P (world t) \<and> fails r"
  unfolding upholds_def by blast

lemma upholds_basic [intro]:
  "upholds P (cret a)" "upholds P (throwOn x v w)" "upholds P (throwOnHipError e)"
  by (auto simp: upholds_def cret_def throwOn_def throwOnHipError_def cthrow_def failure_def split: if_splits)

lemma upholds_cthrow [intro]: "failure e \<Longrightarrow> upholds P (cthrow e)"
  by (simp add: upholds_def cthrow_def)

lemma upholds_call_ext [intro]: "(\<And>w. P w \<Longrightarrow> P (snd (f w))) \<Longrightarrow> upholds P (call_ext f)"
  by (auto simp: upholds_def call_ext_apply)

lemma upholds_cbind [intro]:
  assumes "upholds P m" and "\<And>a. upholds P (k a)"
  shows "upholds P (cbind m k)"
  unfolding upholds_def
proof (intro allI impI)
  fix s r t
  assume p: "P (world s)" and b: "cbind m k s = (r, t)"
  obtain r0 u where m: "m s = (r0, u)" by fastforce
  from upholdsD [OF assms(1) p m] b m upholdsD [OF assms(2)] show "P (world t) \<and> fails r"
    by (cases r0) (auto simp: cbind_def)
qed

lemma upholds_if [intro]: "upholds P m \<Longrightarrow> upholds P n \<Longrightarrow> upholds P (if b then m else n)"
  by simp

lemma upholds_cwhen [intro]: "upholds P m \<Longrightarrow> upholds P (cwhen b m)"
  by (simp add: cwhen_def upholds_if upholds_basic)

lemma upholds_prod [intro]: "(\<And>a b. upholds P (f a b)) \<Longrightarrow> upholds P (case p of (a, b) \<Rightarrow> f a b)"
  by (cases p) simp

lemma upholds_hip [intro]:
  "(\<And>w. P w \<Longrightarrow> P (snd (f w))) \<Longrightarrow> upholds P (hip_call1 f)"
  "(\<And>w. P w \<Longrightarrow> P (snd (g w))) \<Longrightarrow> upholds P (hip_call0 g)"
  unfolding hip_call1_def hip_call0_def
  by (intro upholds_cbind upholds_prod upholds_basic upholds_call_ext; simp)+

lemma upholds_Buffer_ctor_temp:
  assumes "\<And>p w. P w \<Longrightarrow> P (snd (hip_PointerGetAttributes x p w))"
    and "\<And>p w. P w \<Longrightarrow> P (snd (hip_MemGetAddressRange x p w))"
  shows "upholds P (Buffer_ctor_temp x buf)"
  unfolding Buffer_ctor_temp_def hipPointerGetAttributes_def hipMemGetAddressRange_def
  by (intro upholds_if upholds_cbind upholds_prod upholds_cthrow upholds_basic upholds_hip)
    (use assms in \<open>auto simp: failure_def\<close>)

lemma getFileAndBuffer_cases:
  fixes s t :: "('w, 'z) drv_state_scheme"
  assumes inv: "drv_inv EB EF ES s" and fresh: "buf_heap s nb = None"
    and op: "DriverState_getFileAndBuffer x nb fh buf s = (r, t)"
  obtains (exn) e w where "r = Exn e" "t = s\<lparr>world := w\<rparr>" "failure e"
    | (ret) fp bp h w where "r = Ret (fp, bp)" "file_lookup s fh = Some fp"
        "t = s\<lparr>world := w, file_heap := sp_copy fp (file_heap s), buf_heap := h\<rparr>"
        "snd (sp_release bp h) = buf_heap s"
        "snd (sp_release fp (sp_copy fp (file_heap s))) = file_heap s"
        "fst (sp_release fp (sp_copy fp (file_heap s))) = None"
        "buf_lookup s buf = Some bp \<and> w = world s \<and> h = sp_copy bp (buf_heap s) \<or>
         buf_lookup s buf = None \<and> bp = nb \<and>
           (\<exists>b. Buffer_ctor_temp x buf (s\<lparr>file_heap := sp_copy fp (file_heap s)\<rparr>) =
                  (Ret b, s\<lparr>world := w, file_heap := sp_copy fp (file_heap s)\<rparr>) \<and> h = sp_make nb b (buf_heap s))"
proof -
  consider (closed) "ref_count s = 0"
    | (nofile) "ref_count s \<noteq> 0" "file_lookup s fh = None"
    | (found) f where "ref_count s \<noteq> 0" "file_lookup s fh = Some f"
    by (cases "file_lookup s fh") auto
  then show thesis
  proof cases
    case closed
    with op have "r = Exn DriverNotInitialized" "t = s"
      by (simp_all add: DriverState_getFileAndBuffer_def cbind_def cget_def cthrow_def)
    with that(1) [of _ "world s"] show thesis by (simp add: failure_def)
  next
    case nofile
    with op have "r = Exn FileNotRegistered" "t = s"
      by (simp_all add: DriverState_getFileAndBuffer_def cbind_def cget_def FileMap_getFile_def file_lookup_def)
    with that(1) [of _ "world s"] show thesis by (simp add: failure_def)
  next
    case found
    let ?h = "sp_copy f (file_heap s)"
    let ?s1 = "s\<lparr>file_heap := ?h\<rparr>"
    have op': "(r, t) = cunwind (cbind (BufferMap_getBuffer x nb buf) (\<lambda>b. cret (f, b))) (File_drop x f) ?s1"
      using op found by (simp add: DriverState_getFileAndBuffer_def cbind_def cget_def
          FileMap_getFile_def file_lookup_def)
    have undo: "sp_release f ?h = (None, file_heap s)"
      by (rule sp_release_copy [OF file_inv_alists(5) [OF drv_inv_parts(2) [OF inv]]])
        (simp add: own_sum_apply table_uses_registered [OF drv_inv_parts(2) [OF inv] found(2)])
    show thesis
    proof (cases "buf_lookup s buf")
      case (Some bp)
      then have "BufferMap_getBuffer x nb buf ?s1 = (Ret bp, ?s1\<lparr>buf_heap := sp_copy bp (buf_heap s)\<rparr>)"
        by (simp add: BufferMap_getBuffer_def buf_lookup_def)
      moreover have "sp_release bp (sp_copy bp (buf_heap s)) = (None, buf_heap s)"
        by (rule sp_release_copy [of "own_sum (val_count (from_ptr s)) EB"])
          (use inv Some in \<open>auto simp: drv_inv_def buf_inv_def tbl_inv_def own_sum_def buf_lookup_def
            val_count_pos\<close>)
      ultimately show thesis
        using op' found undo Some by (intro that(2) [of f bp "sp_copy bp (buf_heap s)" "world s"])
          (simp_all add: cunwind_def cbind_def cret_def)
    next
      case None
      then have get: "BufferMap_getBuffer x nb buf ?s1 =
          cbind (Buffer_ctor_temp x buf) (\<lambda>buffer.
            cbind (cmodify (\<lambda>s. s\<lparr>buf_heap := sp_make nb buffer (buf_heap s)\<rparr>)) (\<lambda>_. cret nb)) ?s1"
        by (simp add: BufferMap_getBuffer_def buf_lookup_def)
      from world_only_Buffer_ctor_temp [of x buf] show thesis
      proof (cases rule: world_onlyE [where s = ?s1])
        case (ret b w)
        then show thesis
          using op' found undo None get sp_release_make [of "buf_heap s" nb b, OF fresh]
          by (intro that(2) [of f nb "sp_make nb b (buf_heap s)" w])
            (simp_all add: cunwind_def cbind_def cret_def cmodify_def)
      next
        case (exn e w)
        have "failure e"
          using upholdsD [OF upholds_Buffer_ctor_temp [of "\<lambda>_. True" x buf] _ exn] by simp
        then show thesis
          using op' get exn undo by (intro that(1) [of e w]) (simp_all add: cunwind_def cbind_def File_drop_def)
      qed
    qed
  qed
qed

section \<open>The backend\<close>

definition oupholds :: "('w \<Rightarrow> bool) \<Rightarrow> (('w, 'z) sys_state_scheme, 'a) ocxx \<Rightarrow> bool" where
  "oupholds P m \<longleftrightarrow> (\<forall>s r t. P (world s) \<longrightarrow> m s = Some (r, t) \<longrightarrow> P (world t) \<and> fails r)"

lemma oupholdsD: "oupholds P m \<Longrightarrow> P (world s) \<Longrightarrow> m s = Some (r, t) \<Longrightarrow> P (world t) \<and> fails r"
  unfolding oupholds_def by blast

lemma oupholds_olift [intro]: "upholds P m \<Longrightarrow> oupholds P (olift m)"
  by (auto simp: oupholds_def olift_def dest: upholdsD)

lemma oupholds_obind [intro]:
  assumes "oupholds P m" and "\<And>a. oupholds P (k a)"
  shows "oupholds P (obind m k)"
  unfolding oupholds_def
proof (intro allI impI)
  fix s r t
  assume p: "P (world s)" and b: "obind m k s = Some (r, t)"
  then obtain r0 u where m: "m s = Some (r0, u)" by (auto simp: obind_def split: option.splits)
  from oupholdsD [OF assms(1) p m] b m oupholdsD [OF assms(2)] show "P (world t) \<and> fails r"
    by (cases r0) (auto simp: obind_def)
qed

lemma oupholds_oscope [intro]:
  assumes "oupholds P m" and "upholds P d"
  shows "oupholds P (oscope m d)"
  unfolding oupholds_def
proof (intro allI impI)
  fix s r t
  assume p: "P (world s)" and b: "oscope m d s = Some (r, t)"
  then obtain r0 u where m: "m s = Some (r0, u)" by (auto simp: oscope_def split: option.splits)
  obtain r1 v where d: "d u = (r1, v)" by fastforce
  from oupholdsD [OF assms(1) p m] b m d upholdsD [OF assms(2) _ d] show "P (world t) \<and> fails r"
    by (cases r0; cases r1) (auto simp: oscope_def)
qed

lemma oupholds_oloop:
  assumes "\<And>a. upholds P (body a)"
  shows "oupholds P (oloop body a)"
  unfolding oupholds_def
proof (intro allI impI)
  fix s r t
  assume p: "P (world s)" and l: "oloop body a s = Some (r, t)"
  show "P (world t) \<and> fails r"
    by (rule oloop_inv [OF l, where I = "\<lambda>_ u. P (world u)"]) (use p in \<open>auto dest: upholdsD [OF assms, rotated]\<close>)
qed

text \<open>A property of the world that the calls of one IO keep.\<close>

definition io_keeps :: "'w ext \<Rightarrow> IoType \<Rightarrow> int \<Rightarrow> ('w \<Rightarrow> bool) \<Rightarrow> bool" where
  "io_keeps x type fd P \<longleftrightarrow>
     (\<forall>w. P w \<longrightarrow>
        (\<forall>n. P (snd (c_mmap x nullptr n PROT_READ_WRITE MAP_PRIVATE_ANONYMOUS (-1) 0 w))) \<and> (\<forall>p n. P (snd (c_munmap x p n w))) \<and>
        (\<forall>d s n k. P (snd (hip_Memcpy x d s n k w))) \<and> (\<forall>st. P (snd (hip_StreamSynchronize x st w))) \<and>
        (\<forall>p n off. type = IoRead \<longrightarrow> P (snd (c_pread x fd p n off w))) \<and>
        (\<forall>p n off. type = IoWrite \<longrightarrow> P (snd (c_pwrite x fd p n off w))) \<and> P (snd (c_fdatasync x fd w)))"

lemma upholds_Fallback_transfer:
  assumes "io_keeps x type (File_bufferedFd f) P"
  shows "upholds P (Fallback_transfer x type f p d n fo)"
  using assms
  unfolding Fallback_transfer_def Sys_pread_def hipMemcpy_def hipStreamSynchronize_def Sys_pwrite_def Sys_fdatasync_def
  by (cases type) (auto simp: io_keeps_def intro!: upholds_cbind upholds_cwhen upholds_hip upholds_call_ext)

lemma upholds_Fallback_round:
  assumes "io_keeps x type (File_bufferedFd f) P"
  shows "upholds P (Fallback_round x type f b sz fo bo ch p n)"
  unfolding upholds_def
proof (intro allI impI)
  fix s r t
  assume P: "P (world s)" and rnd: "Fallback_round x type f b sz fo bo ch p n s = (r, t)"
  obtain r0 u where tr: "Fallback_transfer x type f p (Buffer_getBuffer b + bo + word_of_int n)
      (min ch (sz - word_of_int n)) (fo + word_of_int n) s = (r0, u)" by fastforce
  from rnd tr upholdsD [OF upholds_Fallback_transfer [OF assms] P tr] show "P (world t) \<and> fails r"
    by (cases r0) (auto simp: Fallback_round_def Let_def split: if_splits)
qed

lemma oupholds_Fallback_io:
  assumes io: "io_keeps x type (File_bufferedFd f) P"
  shows "oupholds P (Fallback_io x type f b sz fo bo)"
proof -
  have count: "upholds P (Fallback_count_io type n)" for n
    by (auto simp: upholds_def Fallback_count_io_eq stats_add_def cmodify_def split: option.splits if_splits)
  have body: "oupholds P (Fallback_body x type f b sz fo bo ch p)" for sz ch p
    unfolding Fallback_body_def Fallback_loop_def Sys_munmap_def
    by (intro oupholds_oscope oupholds_obind oupholds_oloop oupholds_olift upholds_cbind upholds_cwhen upholds_basic
        upholds_Fallback_round [OF io] count upholds_call_ext) (use io in \<open>auto simp: io_keeps_def\<close>)
  have limit: "upholds P (getMaxRwCount x)"
    by (auto simp: upholds_def getMaxRwCount_eq failure_def)
  have map: "upholds P (Sys_mmap x nullptr n PROT_READ_WRITE MAP_PRIVATE_ANONYMOUS (-1) 0)" for n
    unfolding Sys_mmap_def by (intro upholds_cbind upholds_basic upholds_call_ext) (use io in \<open>auto simp: io_keeps_def\<close>)
  have run: "oupholds P (obind (olift (getMaxRwCount x)) (\<lambda>limit.
       let sz = min sz limit in
       if \<not> paramsValid b sz fo bo then olift (cthrow Std_invalid_argument)
       else obind (olift (Sys_mmap x nullptr DefaultChunkSize PROT_READ_WRITE MAP_PRIVATE_ANONYMOUS (-1) 0))
              (Fallback_body x type f b sz fo bo DefaultChunkSize)))"
    unfolding Let_def
    by (intro oupholds_obind oupholds_olift limit)
      (auto simp: failure_def intro!: oupholds_obind oupholds_olift body map)
  show ?thesis
    unfolding oupholds_def
    using oupholdsD [OF run] by (auto simp: Fallback_io_def Backend_io_def Fallback_io_chunked_def failure_def)
qed

section \<open>The call\<close>

definition hip_codes :: "'w ext \<Rightarrow> bool" where
  "hip_codes x \<longleftrightarrow> (\<forall>h. if h = hipSuccess then hip_code x h = 0 else 0 < hip_code x h)"

lemma hipFileIo_catch_failure:
  assumes "hip_codes x" and "failure e" and "hipFileIo_catch x e s = (r, t)"
  shows "\<exists>n. r = Ret n \<and> n < 0 \<and> t = s\<lparr>world := world t\<rparr>"
  using assms
  by (cases e) (auto simp: hipFileIo_catch_def cxx_defs set_errno_def HIPFILE_BASE_ERR_def hip_codes_def failure_def
      split: if_splits)

lemma io_frame_heaps:
  fixes s t :: "('w, 'z) stats_state_scheme"
  assumes "io_frame (s\<lparr>world := w, file_heap := fh, buf_heap := bh\<rparr>) t"
  shows "io_frame s (t\<lparr>buf_heap := buf_heap s, file_heap := file_heap s\<rparr>)"
  using assms by (cases s; cases t) (simp add: io_frame_def)

lemma hipFileIo_cases:
  fixes s t :: "('w, 'z) stats_state_scheme"
  assumes inv: "drv_inv EB EF ES s" and fresh: "buf_heap s nb = None" and hc: "hip_codes x"
    and nofast: "\<not> Configuration_fastpath x s"
    and io: "hipFileIo x nb type fh buf sz fo bo (DriverState_getBackends x) s = Some (Ret n, t)"
  obtains (neg) "n < 0" "io_frame s t"
    | (ok) fp f b s1 u v where "file_lookup s fh = Some fp" "sp_obj fp (file_heap s) = Some f"
        "(\<exists>bp. buf_lookup s buf = Some bp \<and> sp_obj bp (buf_heap s) = Some b \<and> world u = world s) \<or>
         buf_lookup s buf = None \<and> world s1 = world s \<and>
           Buffer_ctor_temp x buf (s1 :: ('w, 'z) stats_state_scheme) = (Ret b, s1\<lparr>world := world u\<rparr>)"
        "Fallback_io x type f b sz fo bo (u :: ('w, 'z) stats_state_scheme) = Some (Ret n, v)"
        "world t = world v" "io_frame s t"
proof -
  obtain r1 u where g: "DriverState_getFileAndBuffer x nb fh buf s = (r1, u)" by fastforce
  note un = io [unfolded hipFileIo_def ocatch_def obind_def olift_def g]
  have caught: thesis if "hipFileIo_catch x e c = (Ret n, t)" "failure e" "io_frame s c" for e c
    using hipFileIo_catch_failure [OF hc that(2,1)] io_frame_trans [OF that(3)] neg by (metis io_frame_upds(1) outcome.inject(1))
  from inv fresh g show thesis
  proof (cases rule: getFileAndBuffer_cases)
    case (exn e w)
    with un show thesis by (intro caught [of e u]) simp_all
  next
    case (ret fp bp h w)
    have reg: "\<exists>x. sp_obj fp (file_heap s) = Some x"
      by (rule sp_owned_live [OF file_inv_alists(5) [OF drv_inv_parts(2) [OF inv]]])
        (simp add: own_sum_apply table_uses_registered [OF drv_inv_parts(2) [OF inv] ret(2)])
    then obtain f where f: "sp_obj fp (file_heap s) = Some f" by blast
    have b: "\<exists>b. sp_obj bp (buf_heap u) = Some b \<and>
        ((\<exists>bp. buf_lookup s buf = Some bp \<and> sp_obj bp (buf_heap s) = Some b \<and> world u = world s) \<or>
         buf_lookup s buf = None \<and>
           Buffer_ctor_temp x buf (s\<lparr>file_heap := sp_copy fp (file_heap s)\<rparr>) =
             (Ret b, s\<lparr>file_heap := sp_copy fp (file_heap s), world := world u\<rparr>))"
      using ret(7)
    proof (elim disjE conjE exE)
      assume a: "buf_lookup s buf = Some bp" "w = world s" "h = sp_copy bp (buf_heap s)"
      from buf_inv_entry [OF drv_inv_parts(1) [OF inv] a(1)] a ret(3) show ?thesis
        by (auto simp: sp_simps)
    next
      fix b
      assume "buf_lookup s buf = None" "bp = nb" "h = sp_make nb b (buf_heap s)"
        "Buffer_ctor_temp x buf (s\<lparr>file_heap := sp_copy fp (file_heap s)\<rparr>) =
           (Ret b, s\<lparr>world := w, file_heap := sp_copy fp (file_heap s)\<rparr>)"
      with ret(3) show ?thesis by (simp add: sp_simps)
    qed
    then obtain b where b: "sp_obj bp (buf_heap u) = Some b" "(\<exists>bp. buf_lookup s buf = Some bp \<and> sp_obj bp (buf_heap s) = Some b \<and> world u = world s) \<or>
         buf_lookup s buf = None \<and>
           Buffer_ctor_temp x buf (s\<lparr>file_heap := sp_copy fp (file_heap s)\<rparr>) =
             (Ret b, s\<lparr>file_heap := sp_copy fp (file_heap s), world := world u\<rparr>)" by blast
    have "\<not> Configuration_fastpath x u" using nofast ret(3) by (simp add: Configuration_fastpath_def)
    note sel = fallback_selected [OF this, of f b sz fo bo]
    obtain r2 v where v: "hipFileIo_run type sz fo bo (DriverState_getBackends x) (fp, bp) u = Some (r2, v)"
      using un ret(1) by (auto simp: oscope_def split: option.splits)
    have run: "(Fallback_io x type f b sz fo bo u = Some (r2, v) \<or> r2 = Exn Std_runtime_error \<and> v = u)"
      using v sel f b(1) ret(3)
      by (auto simp: hipFileIo_run_def sp_obj_copy Fallback_backend_def split: if_splits)
    have fr: "io_frame u v" using run fallback.io_in_frame by auto
    have fails: "fails r2"
      using run oupholdsD [OF oupholds_Fallback_io [of x type f "\<lambda>_. True"]] by (auto simp: io_keeps_def failure_def)
    have heaps: "buf_heap v = h" "file_heap v = sp_copy fp (file_heap s)"
      using io_frame_keeps [OF fr] ret(3) by simp_all
    let ?t = "v\<lparr>buf_heap := buf_heap s, file_heap := file_heap s\<rparr>"
    have d: "file_buffer_pair_dtor x (fp, bp) v = (Ret (), ?t)"
      using heaps ret(4-6)
      by (simp add: file_buffer_pair_dtor_def cbind_def Buffer_drop_def cmodify_def File_drop_def prod_eq_iff
          split: prod.split)
    have st: "io_frame s ?t" using io_frame_heaps [OF fr [unfolded ret(3)]] .
    show thesis
    proof (cases r2)
      case (Ret m)
      with un ret(1) v d have "m = n" "t = ?t" by (auto simp: oscope_def)
      with run Ret have "Fallback_io x type f b sz fo bo u = Some (Ret n, v)" by simp
      from ok [OF ret(2) f _ this, of "s\<lparr>file_heap := sp_copy fp (file_heap s)\<rparr>"] b(2) st \<open>t = ?t\<close> show thesis
        by simp
    next
      case (Exn e)
      with un ret(1) v d fails st show thesis by (intro caught [of e ?t]) (auto simp: oscope_def)
    next
      case Terminate
      with un ret(1) v show thesis by (auto simp: oscope_def)
    qed
  qed
qed

section \<open>Bytes\<close>

text \<open>
  The HIP manual: the queries about a pointer change neither memory nor files, and the allocation that
  a pointer belongs to is mapped.
\<close>

definition documented_queries :: "'w ext \<Rightarrow> 'w view \<Rightarrow> bool" where
  "documented_queries x v \<longleftrightarrow>
     (\<forall>p w a w'. hip_PointerGetAttributes x p w = (a, w') \<longrightarrow> v_mem v w' = v_mem v w \<and> v_file v w' = v_file v w) \<and>
     (\<forall>p w e base n w'. hip_MemGetAddressRange x p w = ((e, base, n), w') \<longrightarrow>
        v_mem v w' = v_mem v w \<and> v_file v w' = v_file v w \<and>
        (e = hipSuccess \<longrightarrow> region p (unat (n - (p - base))) \<subseteq> v_live v w'))"

lemma Buffer_ctor_temp_view:
  assumes q: "documented_queries x v" and op: "Buffer_ctor_temp x buf s = (Ret b, t)"
  shows "b_buffer b = buf" "v_mem v (world t) = v_mem v (world s)" "v_file v (world t) = v_file v (world s)"
    "region buf (unat (b_length b)) \<subseteq> v_live v (world t)"
proof -
  obtain at w where a: "hip_PointerGetAttributes x buf (world s) = ((hipSuccess, at), w)"
    using op by (auto simp: Buffer_ctor_temp_def hipPointerGetAttributes_def hip_call1_def cbind_def call_ext_def
        throwOnHipError_def cthrow_def split: if_splits prod.splits)
  obtain base n w' where r: "hip_MemGetAddressRange x buf w = ((hipSuccess, base, n), w')"
    and b: "b_buffer b = buf" "b_length b = n - (buf - base)" "world t = w'"
    using op a by (auto simp: Buffer_ctor_temp_def hipPointerGetAttributes_def hipMemGetAddressRange_def hip_call1_def
        cbind_def call_ext_def throwOnHipError_def cthrow_def cret_def split: if_splits prod.splits)
  note qa = q [unfolded documented_queries_def, THEN conjunct1, rule_format, OF a]
  note qr = q [unfolded documented_queries_def, THEN conjunct2, rule_format, OF r]
  show "b_buffer b = buf" by (rule b(1))
  show "v_mem v (world t) = v_mem v (world s)" "v_file v (world t) = v_file v (world s)"
    using qa qr b(3) by simp_all
  show "region buf (unat (b_length b)) \<subseteq> v_live v (world t)" using qr b(2,3) by simp
qed

lemma hipFileRead_nonneg:
  "0 \<le> n \<Longrightarrow> hipFileRead x nb fh buf sz fo bo s = Some (Ret n, t) \<Longrightarrow>
     hipFileIo x nb IoRead fh buf sz fo bo (DriverState_getBackends x) s = Some (Ret n, t)"
  "0 \<le> n \<Longrightarrow> hipFileWrite x nb fh buf sz fo bo s = Some (Ret n, t) \<Longrightarrow>
     hipFileIo x nb IoWrite fh buf sz fo bo (DriverState_getBackends x) s = Some (Ret n, t)"
  by (auto simp: hipFileRead_def hipFileWrite_def obind_eq_Some_Ret_iff olift_def match_cufile_def
      cbind_def set_errno_def cmodify_def cret_def split: if_splits)

text \<open>An IO through a buffer that is not registered.\<close>

lemma io_unregistered:
  fixes s t :: "('w, 'z) stats_state_scheme"
  assumes inv: "drv_inv EB EF ES s" and fresh: "buf_heap s nb = None" and hc: "hip_codes x"
    and nofast: "\<not> Configuration_fastpath x s" and q: "documented_queries x v"
    and fl: "file_lookup s fh = Some fp" "sp_obj fp (file_heap s) = Some f"
    and bl: "buf_lookup s buf = None" and n: "0 \<le> n"
    and io: "hipFileIo x nb type fh buf sz fo bo (DriverState_getBackends x) s = Some (Ret n, t)"
  obtains b u v' where "Fallback_io x type f b sz fo bo (u :: ('w, 'z) stats_state_scheme) = Some (Ret n, v')"
    "world t = world v'" "io_frame s t" "b_buffer b = buf" "region buf (unat (b_length b)) \<subseteq> v_live v (world u)"
    "v_mem v (world u) = v_mem v (world s)" "v_file v (world u) = v_file v (world s)"
  using inv fresh hc nofast io
proof (cases rule: hipFileIo_cases)
  case (ok fp' f' b s1 u v')
  from ok(3) bl have b: "world s1 = world s" "Buffer_ctor_temp x buf s1 = (Ret b, s1\<lparr>world := world u\<rparr>)" by auto
  from that [OF _ ok(5,6)] ok(1,2,4) fl Buffer_ctor_temp_view [OF q b(2)] b(1) show thesis by simp
qed (use n in simp)

text \<open>A read by a client: the files stay as they are, the bytes arrive, a short count means the end.\<close>

lemma client_read:
  fixes s t :: "('w, 'z) stats_state_scheme"
  assumes "drv_inv EB EF ES s" and "buf_heap s nb = None" and "hip_codes x"
    and "\<not> Configuration_fastpath x s" and "documented_queries x v"
    and env: "documented_pread x v" "documented_memcpy x v" "documented_mmap x v" "documented_munmap x v"
    and "file_lookup s fh = Some fp" "sp_obj fp (file_heap s) = Some f" and "buf_lookup s buf = None"
    and n: "0 \<le> n" and io: "hipFileRead x nb fh buf sz fo 0 s = Some (Ret n, t)"
  shows "io_frame s t \<and> v_file v (world t) = v_file v (world s) \<and> nat n \<le> unat (min sz (max_rw_count x)) \<and>
    (\<forall>i < nat n. v_mem v (world t) (buf + of_nat i) = v_file v (world s) (File_bufferedFd f) ! (nat (sint fo) + i)) \<and>
    (0 < n \<longrightarrow> nat (sint fo) + nat n \<le> length (v_file v (world s) (File_bufferedFd f))) \<and>
    (nat n < unat (min sz (max_rw_count x)) \<longrightarrow>
       length (v_file v (world s) (File_bufferedFd f)) \<le> nat (sint fo) + nat n)"
proof -
  from io_unregistered [OF assms(1-5,10-13) hipFileRead_nonneg(1) [OF n io]] obtain b and u v' :: "('w, 'z) stats_state_scheme"
    where fio: "Fallback_io x IoRead f b sz fo 0 u = Some (Ret n, v')" and r: "world t = world v'" "io_frame s t" "b_buffer b = buf"
      "region buf (unat (b_length b)) \<subseteq> v_live v (world u)" "v_mem v (world u) = v_mem v (world s)"
      "v_file v (world u) = v_file v (world s)" .
  have "region (b_buffer b) (unat (b_length b)) \<subseteq> v_live v (world u)" using r by simp
  from Fallback_io_read_bytes [OF env this fio] r show ?thesis by (auto simp: read_inv_def)
qed

text \<open>The manual page: a write through a descriptor leaves other files alone.\<close>

definition different_files :: "'w ext \<Rightarrow> 'w view \<Rightarrow> int \<Rightarrow> int \<Rightarrow> bool" where
  "different_files x v fd fd' \<longleftrightarrow> (\<forall>p n off w r w'. c_pwrite x fd p n off w = (r, w') \<longrightarrow> v_file v w' fd' = v_file v w fd')"

lemma file_kept:
  assumes "documented_memcpy x v" "documented_syncs x v" "documented_mmap x v" "documented_munmap x v"
    and "different_files x v fd fd'"
  shows "io_keeps x IoWrite fd (\<lambda>w. v_file v w fd' = c)"
  unfolding io_keeps_def
proof (intro allI impI conjI)
  fix w
  assume w: "v_file v w fd' = c"
  show "v_file v (snd (c_mmap x nullptr n PROT_READ_WRITE MAP_PRIVATE_ANONYMOUS (-1) 0 w)) fd' = c" for n
    using assms(3) w unfolding documented_mmap_def by (metis prod.collapse)
  show "v_file v (snd (c_munmap x p n w)) fd' = c" for p n
    using assms(4) w unfolding documented_munmap_def by (metis prod.collapse)
  show "v_file v (snd (hip_Memcpy x d s n k w)) fd' = c" for d s n k
    using assms(1) w unfolding documented_memcpy_def by (metis prod.collapse)
  show "v_file v (snd (hip_StreamSynchronize x st w)) fd' = c" for st
    using assms(2) w unfolding documented_syncs_def by (metis prod.collapse)
  show "v_file v (snd (c_pwrite x fd p n off w)) fd' = c" for p n off
    using assms(5) w unfolding different_files_def by (metis prod.collapse)
  show "v_file v (snd (c_fdatasync x fd w)) fd' = c"
    using assms(2) w unfolding documented_syncs_def by (metis prod.collapse)
qed simp

lemma client_write:
  fixes s t :: "('w, 'z) stats_state_scheme"
  assumes "drv_inv EB EF ES s" and "buf_heap s nb = None" and "hip_codes x"
    and "\<not> Configuration_fastpath x s" and "documented_queries x v"
    and mc: "documented_memcpy x v" and pw: "documented_pwrite x v" and sy: "documented_syncs x v"
    and mm: "documented_mmap x v" "documented_munmap x v"
    and "file_lookup s fh = Some fp" "sp_obj fp (file_heap s) = Some f" and "buf_lookup s buf = None"
    and n: "0 \<le> n" and io: "hipFileWrite x nb fh buf sz fo bo s = Some (Ret n, t)"
    and live: "\<And>w. L \<subseteq> v_live v w" and other: "different_files x v (File_bufferedFd f) fd'"
  shows "io_frame s t \<and> v_file v (world t) fd' = v_file v (world s) fd' \<and> nat n \<le> unat (min sz (max_rw_count x)) \<and>
    write_inv v L (world s) (File_bufferedFd f) (buf + bo) (nat (sint fo)) (unat (min sz (max_rw_count x))) (nat n) (world t)"
proof -
  from io_unregistered [OF assms(1-5,11-14) hipFileRead_nonneg(2) [OF n io]] obtain b and u v' :: "('w, 'z) stats_state_scheme"
    where fio: "Fallback_io x IoWrite f b sz fo bo u = Some (Ret n, v')" and r: "world t = world v'" "io_frame s t" "b_buffer b = buf"
      "region buf (unat (b_length b)) \<subseteq> v_live v (world u)" "v_mem v (world u) = v_mem v (world s)"
      "v_file v (world u) = v_file v (world s)" .
  have "region (b_buffer b) (unat (b_length b)) \<subseteq> v_live v (world u)" using r by simp
  from Fallback_io_write_bytes [OF mc pw sy mm this fio] r
  have w: "nat n \<le> unat (min sz (max_rw_count x))" "write_inv v (v_live v (world u)) (world u) (File_bufferedFd f)
     (buf + bo) (nat (sint fo)) (unat (min sz (max_rw_count x))) (nat n) (world v')" by simp_all
  have "write_inv v L (world s) (File_bufferedFd f) (buf + bo) (nat (sint fo)) (unat (min sz (max_rw_count x)))
     (nat n) (world t)"
    using w(2) r live [of "world u"] unfolding write_inv_def by auto
  moreover have "v_file v (world t) fd' = v_file v (world s) fd'"
    using oupholdsD [OF oupholds_Fallback_io [OF file_kept [OF mc sy mm other]] _ fio, of "v_file v (world s) fd'"] r
    by simp
  ultimately show ?thesis using w(1) r(2) by blast
qed

section \<open>Progress\<close>

text \<open>The manual page: a transfer to a regular file writes at least one byte, or fails.\<close>

definition writes_progress :: "'w ext \<Rightarrow> bool" where
  "writes_progress x \<longleftrightarrow> (\<forall>fd p n off w. n \<noteq> 0 \<longrightarrow> fst (c_pwrite x fd p n off w) \<noteq> 0)"

lemma Fallback_write_progress:
  assumes wp: "writes_progress x" and tc: "transfer_counts x" and sz: "sz \<noteq> 0" and ch: "ch \<noteq> 0"
    and l: "Fallback_loop x IoWrite f b sz fo bo ch p 0 s = Some (Ret n, t)"
  shows "0 < n"
proof -
  let ?I = "\<lambda>n (_ :: ('a, 'b) stats_state_scheme). 0 \<le> n \<and> (word_of_int n :: size_t) < sz"
  have step: "(\<forall>n'. r = Ret (Inl n') \<longrightarrow> ?I n' t) \<and> (\<forall>m. r = Ret (Inr m) \<longrightarrow> 0 < m)"
    if n: "?I n u" and rnd: "Fallback_round x IoWrite f b sz fo bo ch p n u = (r, t)"
    for n and u t :: "('a, 'b) stats_state_scheme" and r
  proof -
    let ?cnt = "min ch (sz - word_of_int n)"
    have cnt: "?cnt \<noteq> 0" using n ch by (auto simp: min_def)
    obtain r0 w where tr: "Fallback_transfer x IoWrite f p (Buffer_getBuffer b + bo + word_of_int n) ?cnt
        (fo + word_of_int n) u = (r0, w)" by fastforce
    have pos: "0 < k" if "r0 = Ret k" for k
      using tr [unfolded that]
    proof (cases rule: write_transfer_cases)
      case (ok w1 e2 w2 r w3 r4)
      have "r = k" "r \<noteq> -1" using ok(4) by (auto split: if_splits)
      with transfer_count(2) [OF tc ok(3)] wp [unfolded writes_progress_def, rule_format, OF cnt] ok(3)
      show ?thesis by (metis fst_conv le_less)
    qed simp
    show ?thesis
      using rnd tr pos n by (cases r0) (auto simp: Fallback_round_def Let_def split: if_splits)
  qed
  have "\<forall>m. Ret n = Ret m \<longrightarrow> 0 < m"
  proof (rule oloop_inv [OF l [unfolded Fallback_loop_def], where I = ?I and Q = "\<lambda>r _. \<forall>m. r = Ret m \<longrightarrow> 0 < m"])
    show "?I 0 s" using sz by (simp add: word_gt_0)
  qed (use step in blast)+
  then show ?thesis by simp
qed

lemma client_write_progress:
  fixes s t :: "('w, 'z) stats_state_scheme"
  assumes "drv_inv EB EF ES s" and "buf_heap s nb = None" and "hip_codes x"
    and "\<not> Configuration_fastpath x s" and wp: "writes_progress x" "transfer_counts x"
    and sz: "sz \<noteq> 0" "max_rw_count x \<noteq> 0" and n: "0 \<le> n"
    and io: "hipFileWrite x nb fh buf sz fo bo s = Some (Ret n, t)"
  shows "0 < n"
  using assms(1-4) hipFileRead_nonneg(2) [OF n io]
proof (cases rule: hipFileIo_cases)
  case (ok fp f b s1 u v)
  obtain p w1 u' where "Fallback_loop x IoWrite f b (min sz (max_rw_count x)) fo bo DefaultChunkSize p 0
      (u\<lparr>world := w1\<rparr>) = Some (Ret n, u')"
    by (rule Fallback_io_Ret [OF ok(4)])
  from Fallback_write_progress [OF wp _ _ this] sz show ?thesis by (simp add: min_def DefaultChunkSize_def)
qed (use n in simp)

text \<open>Whatever an IO returns, nothing of the library but its counters has changed.\<close>

lemma client_io_frame:
  fixes s t :: "('w, 'z) stats_state_scheme"
  assumes "drv_inv EB EF ES s" and "buf_heap s nb = None" and "hip_codes x" and "\<not> Configuration_fastpath x s"
  shows "hipFileRead x nb fh buf sz fo bo s = Some (Ret n, t) \<Longrightarrow> io_frame s t"
    and "hipFileWrite x nb fh buf sz fo bo s = Some (Ret n, t) \<Longrightarrow> io_frame s t"
proof -
  have *: "io_frame s t" if "obind (hipFileIo x nb type fh buf sz fo bo (DriverState_getBackends x))
      (\<lambda>result. olift (match_cufile x result)) s = Some (Ret n, t)" for type
  proof -
    from that obtain m u where u: "hipFileIo x nb type fh buf sz fo bo (DriverState_getBackends x) s = Some (Ret m, u)"
      "match_cufile x m u = (Ret n, t)" by (auto simp: obind_eq_Some_Ret_iff olift_def)
    have "io_frame s u" using assms u(1) by (cases rule: hipFileIo_cases)
    moreover obtain w where "t = u\<lparr>world := w\<rparr>" using match_cufile_Ret [of x m u] u(2) by auto
    ultimately show ?thesis using io_frame_trans [of s u t] by simp
  qed
  show "hipFileRead x nb fh buf sz fo bo s = Some (Ret n, t) \<Longrightarrow> io_frame s t"
    "hipFileWrite x nb fh buf sz fo bo s = Some (Ret n, t) \<Longrightarrow> io_frame s t"
    using * by (simp_all add: hipFileRead_def hipFileWrite_def)
qed

end
