(* ===== verification/Aiscp.thy ===== *)
theory Aiscp
  imports Io_Client Common
begin

text \<open>
  The copy program (\<^verbatim>\<open>examples/aiscp/aiscp.cpp\<close>), a client of the whole stack: it opens and registers two
  files, allocates device memory and copies chunk by chunk with \<^verbatim>\<open>hipFileRead\<close> and \<^verbatim>\<open>hipFileWrite\<close>. The
  jumps to the labels at the end of \<^verbatim>\<open>main\<close> are the continuations of nested functions.
\<close>

section \<open>What the program calls\<close>

text \<open>
  The calls of the C library and of HIP that the library does not make itself, the address that the
  allocator returns for the temporary object of an IO, and the addresses of the two file objects and of
  the two variables that receive the handles.
\<close>

record 'w aiscp_ext =
  c_stat :: "string \<Rightarrow> 'w \<Rightarrow> (int \<times> 64 word \<times> 64 word) \<times> 'w"
  c_ftruncate_fd :: "int \<Rightarrow> 64 word \<Rightarrow> 'w \<Rightarrow> int \<times> 'w"
  c_strerror :: "int \<Rightarrow> string"
  c_fprintf_stderr :: "string \<Rightarrow> 'w \<Rightarrow> 'w"
  hip_Malloc :: "size_t \<Rightarrow> 'w \<Rightarrow> (hipError_t \<times> ptr) \<times> 'w"
  hip_Free :: "ptr \<Rightarrow> 'w \<Rightarrow> hipError_t \<times> 'w"
  new_buffer :: "'w \<Rightarrow> ptr"
  new_src_file :: ptr
  new_dst_file :: ptr
  addr_src_handle :: ptr
  addr_dst_handle :: ptr

definition O_RDONLY :: "32 word" where "O_RDONLY = 0"
definition O_WRONLY :: "32 word" where "O_WRONLY = 1"
definition EXIT_SUCCESS :: int where "EXIT_SUCCESS = 0"
definition EXIT_FAILURE :: int where "EXIT_FAILURE = 1"
definition AISCP_CHUNK_SIZE :: size_t where "AISCP_CHUNK_SIZE = 0x7ffff000"

text \<open>\<^verbatim>\<open>S_IWUSR | S_IRUSR | S_IRGRP | S_IROTH\<close>\<close>

definition dst_mode :: "32 word" where "dst_mode = 0x80 OR 0x100 OR 0x20 OR 0x4"

definition say :: "'w aiscp_ext \<Rightarrow> string \<Rightarrow> (('w, 'z) sys_state_scheme, unit) cxx" where
  "say z msg = call_ext (\<lambda>w. ((), c_fprintf_stderr z msg w))"

definition line_end :: string where "line_end = [CHR 0x0A]"

text \<open>A message that ends in the text of \<^verbatim>\<open>errno\<close>, read after the call that failed.\<close>

definition say_errno :: "'w ext \<Rightarrow> 'w aiscp_ext \<Rightarrow> string \<Rightarrow> (('w, 'z) sys_state_scheme, unit) cxx" where
  "say_errno x z msg =
     cbind (cget (\<lambda>s. c_errno x (world s))) (\<lambda>e. say z (msg @ '' ('' @ c_strerror z e @ '')'' @ line_end))"

section \<open>Files and sizes\<close>

text \<open>The result and the two out parameters; a handle that was not written is null.\<close>

definition open_file ::
  "'w ext \<Rightarrow> 'w aiscp_ext \<Rightarrow> ptr \<Rightarrow> ptr \<Rightarrow> string \<Rightarrow> 32 word \<Rightarrow> 32 word \<Rightarrow>
     (('w, 'z) drv_state_scheme, int \<times> int \<times> ptr) cxx" where
  "open_file x z na handle path flags mode =
     cbind (call_ext (c_open x path (flags OR O_DIRECT) (Some mode))) (\<lambda>fd.
       if fd = -1 then cbind (say_errno x z (''Could not open '' @ path)) (\<lambda>_. cret (1, fd, nullptr))
       else cbind (hipFileHandleRegister x na handle
                     (Some \<lparr>descr_type = hipFileHandleTypeOpaqueFD, descr_fd = fd, descr_hFile = nullptr,
                            descr_fs_ops = nullptr\<rparr>)) (\<lambda>(e, h).
            if err e \<noteq> hipFileSuccess
            then cbind (say z (''Could not register '' @ path @ '' ('' @
                     hipFileGetOpErrorString (Named (err e)) @ '')'' @ line_end)) (\<lambda>_.
                 cbind (call_ext (c_close x fd)) (\<lambda>_. cret (1, fd, nullptr)))
            else cret (0, fd, case h of Some p \<Rightarrow> p | None \<Rightarrow> nullptr)))"

definition close_file ::
  "'w ext \<Rightarrow> 'w aiscp_ext \<Rightarrow> string \<Rightarrow> int \<Rightarrow> ptr \<Rightarrow> (('w, 'z) drv_state_scheme, int) cxx" where
  "close_file x z path fd handle =
     cbind (hipFileHandleDeregister x handle) (\<lambda>_.
     cbind (call_ext (c_close x fd)) (\<lambda>r.
       if r = -1 then cbind (say_errno x z (''Could not close '' @ path)) (\<lambda>_. cret 1)
       else cret 0))"

definition align_up :: "size_t \<Rightarrow> size_t \<Rightarrow> size_t" where
  "align_up value align = (value + align - 1) AND NOT (align - 1)"

definition is_power_of_two :: "size_t \<Rightarrow> bool" where
  "is_power_of_two value \<longleftrightarrow> value > 0 \<and> value AND (value - 1) = 0"

section \<open>The copy\<close>

definition io_message :: "'w ext \<Rightarrow> 'w aiscp_ext \<Rightarrow> string \<Rightarrow> int \<Rightarrow> (('w, 'z) sys_state_scheme, unit) cxx" where
  "io_message x z msg n =
     cbind (cget (\<lambda>s. c_errno x (world s))) (\<lambda>e.
       say z (msg @ '' ('' @ dec_int n @ '') ('' @
              (if IS_HIPFILE_ERR n then HIPFILE_ERRSTR n else c_strerror z e) @ '')'' @ line_end))"

text \<open>
  A round of the loop that writes what was read: the next \<open>nwrite\<close>, or whether the loop ended without
  an error.
\<close>

definition write_chunk_round ::
  "'w ext \<Rightarrow> 'w aiscp_ext \<Rightarrow> string \<Rightarrow> ptr \<Rightarrow> ptr \<Rightarrow> size_t \<Rightarrow> hoff_t \<Rightarrow> int \<Rightarrow> int \<Rightarrow>
     (('w, 'z) stats_state_scheme, int + bool) ocxx" where
  "write_chunk_round x z dst_path dst_handle devbuf block_size file_offset nread nwrite =
     (if nwrite < nread
      then obind (\<lambda>s. hipFileWrite x (new_buffer z (world s)) dst_handle devbuf
                        (align_up (word_of_int (nread - nwrite)) block_size)
                        (file_offset + word_of_int nwrite) (word_of_int nwrite) s) (\<lambda>nbytes.
           if nbytes < 0
           then olift (cbind (io_message x z (''Could not write to '' @ dst_path) nbytes) (\<lambda>_. cret (Inr False)))
           else olift (cret (Inl (nwrite + nbytes))))
      else olift (cret (Inr True)))"

definition write_chunk ::
  "'w ext \<Rightarrow> 'w aiscp_ext \<Rightarrow> string \<Rightarrow> ptr \<Rightarrow> ptr \<Rightarrow> size_t \<Rightarrow> hoff_t \<Rightarrow> int \<Rightarrow>
     (('w, 'z) stats_state_scheme, bool) ocxx" where
  "write_chunk x z dst_path dst_handle devbuf block_size file_offset nread =
     owloop (write_chunk_round x z dst_path dst_handle devbuf block_size file_offset nread) 0"

definition copy_round ::
  "'w ext \<Rightarrow> 'w aiscp_ext \<Rightarrow> string \<Rightarrow> string \<Rightarrow> ptr \<Rightarrow> ptr \<Rightarrow> ptr \<Rightarrow> size_t \<Rightarrow> size_t \<Rightarrow> hoff_t \<Rightarrow>
     (('w, 'z) stats_state_scheme, hoff_t + bool) ocxx" where
  "copy_round x z src_path dst_path src_handle dst_handle devbuf buffer_size block_size file_offset =
     obind (\<lambda>s. hipFileRead x (new_buffer z (world s)) src_handle devbuf buffer_size file_offset 0 s) (\<lambda>nread.
       if nread < 0
       then olift (cbind (io_message x z (''Could not read from '' @ src_path) nread) (\<lambda>_. cret (Inr False)))
       else obind (write_chunk x z dst_path dst_handle devbuf block_size file_offset nread) (\<lambda>ok.
            if \<not> ok then olift (cret (Inr False))
            else olift (cret (if nread > 0 then Inl (file_offset + word_of_int nread) else Inr True))))"

definition copy_chunks ::
  "'w ext \<Rightarrow> 'w aiscp_ext \<Rightarrow> string \<Rightarrow> string \<Rightarrow> ptr \<Rightarrow> ptr \<Rightarrow> ptr \<Rightarrow> size_t \<Rightarrow> size_t \<Rightarrow>
     (('w, 'z) stats_state_scheme, bool) ocxx" where
  "copy_chunks x z src_path dst_path src_handle dst_handle devbuf buffer_size block_size =
     owloop (copy_round x z src_path dst_path src_handle dst_handle devbuf buffer_size block_size) 0"

text \<open>The loop and the truncation: the exit status with which the label \<^verbatim>\<open>free_devbuf\<close> is reached.\<close>

definition copy_file ::
  "'w ext \<Rightarrow> 'w aiscp_ext \<Rightarrow> string \<Rightarrow> string \<Rightarrow> ptr \<Rightarrow> ptr \<Rightarrow> int \<Rightarrow> ptr \<Rightarrow> size_t \<Rightarrow> size_t \<Rightarrow> size_t \<Rightarrow>
     (('w, 'z) stats_state_scheme, int) ocxx" where
  "copy_file x z src_path dst_path src_handle dst_handle dst_fd devbuf buffer_size block_size file_size =
     obind (copy_chunks x z src_path dst_path src_handle dst_handle devbuf buffer_size block_size) (\<lambda>ok.
       if \<not> ok then olift (cret EXIT_FAILURE)
       else olift (cbind (call_ext (c_ftruncate_fd z dst_fd file_size)) (\<lambda>r.
            cbind (if r = -1
                   then say_errno x z (''Could not truncate '' @ dst_path @ '' ('' @ dec_nat (unat file_size) @ '')'')
                   else cret ()) (\<lambda>_.
            cret EXIT_SUCCESS))))"

section \<open>The program\<close>

definition copy_through_device ::
  "'w ext \<Rightarrow> 'w aiscp_ext \<Rightarrow> string \<Rightarrow> string \<Rightarrow> ptr \<Rightarrow> ptr \<Rightarrow> int \<Rightarrow> size_t \<Rightarrow> size_t \<Rightarrow>
     (('w, 'z) stats_state_scheme, int) ocxx" where
  "copy_through_device x z src_path dst_path src_handle dst_handle dst_fd file_size block_size =
     (let buffer_size = align_up (min file_size AISCP_CHUNK_SIZE) block_size in
      obind (olift (call_ext (hip_Malloc z buffer_size))) (\<lambda>(hip_err, devbuf).
        if hip_err \<noteq> hipSuccess
        then olift (cbind (say z (''Could not allocate device buffer ('' @ dec_int (hip_code x hip_err) @ '')''))
                     (\<lambda>_. cret EXIT_FAILURE))
        else obind (copy_file x z src_path dst_path src_handle dst_handle dst_fd devbuf buffer_size block_size file_size)
             (\<lambda>exit_status.
             olift (cbind (call_ext (hip_Free z devbuf)) (\<lambda>hip_err.
                    if hip_err \<noteq> hipSuccess
                    then cbind (say z (''Could free device buffer ('' @ dec_int (hip_code x hip_err) @ '')'' @ line_end))
                           (\<lambda>_. cret EXIT_FAILURE)
                    else cret exit_status)))))"

definition copy_source ::
  "'w ext \<Rightarrow> 'w aiscp_ext \<Rightarrow> string \<Rightarrow> string \<Rightarrow> ptr \<Rightarrow> int \<Rightarrow> size_t \<Rightarrow> size_t \<Rightarrow>
     (('w, 'z) stats_state_scheme, int) ocxx" where
  "copy_source x z src_path dst_path dst_handle dst_fd file_size block_size =
     (if file_size = 0 then olift (cret EXIT_SUCCESS)
      else obind (olift (open_file x z (new_src_file z) (addr_src_handle z) src_path O_RDONLY 0)) (\<lambda>(failed, src_fd, src_handle).
        if failed \<noteq> 0 then olift (cret EXIT_FAILURE)
        else obind (copy_through_device x z src_path dst_path src_handle dst_handle dst_fd file_size block_size)
             (\<lambda>exit_status.
             olift (cbind (close_file x z src_path src_fd src_handle) (\<lambda>failed.
                    cret (if failed \<noteq> 0 then EXIT_FAILURE else exit_status))))))"

definition aiscp_main ::
  "'w ext \<Rightarrow> 'w aiscp_ext \<Rightarrow> string list \<Rightarrow> (('w, 'z) stats_state_scheme, int) ocxx" where
  "aiscp_main x z argv =
     (if length argv \<noteq> 3
      then olift (cbind (say z (''Usage: '' @ (case argv of [] \<Rightarrow> ''(null)'' | a # _ \<Rightarrow> a) @ '' SOURCE DEST'' @ line_end))
             (\<lambda>_. cret 1))
      else let src_path = argv ! 1; dst_path = argv ! 2 in
        obind (olift (call_ext (c_stat z src_path))) (\<lambda>(r, file_size, block_size).
          if r \<noteq> 0
          then olift (cbind (say_errno x z (''Could not stat file: '' @ src_path)) (\<lambda>_. cret EXIT_FAILURE))
          else if \<not> is_power_of_two block_size
          then olift (cbind (say z (''Blocksize is not a power of two ('' @ dec_nat (unat block_size) @ '')''))
                 (\<lambda>_. cret EXIT_FAILURE))
          else obind (olift (open_file x z (new_dst_file z) (addr_dst_handle z) dst_path (O_WRONLY OR O_CREAT) dst_mode))
            (\<lambda>(failed, dst_fd, dst_handle).
            if failed \<noteq> 0 then olift (cret EXIT_FAILURE)
            else obind (copy_source x z src_path dst_path dst_handle dst_fd file_size block_size) (\<lambda>exit_status.
                 olift (cbind (close_file x z dst_path dst_fd dst_handle) (\<lambda>failed.
                        cret (if failed \<noteq> 0 then EXIT_FAILURE else exit_status))))))) "

end
