(* ===== verification/Aiscp_Copy.thy ===== *)
theory Aiscp_Copy
  imports Aiscp
begin

text \<open>
  The copy of the copy program: from a state in which both files are registered it returns, and when
  it reports success the destination has the bytes of the source.
\<close>

section \<open>Rounding\<close>

lemma bit_63: "bit (w :: 64 word) 63 \<longleftrightarrow> 2 ^ 63 \<le> unat w"
proof -
  have lt: "unat w < 2 ^ 63 * 2" using unsigned_less [where 'a = nat, of w] by simp
  have "bit w 63 \<longleftrightarrow> odd (unat w div 2 ^ 63)"
    using bit_unsigned_iff [where 'a = nat, of w 63] by (simp add: bit_iff_odd)
  also have "unat w div 2 ^ 63 = of_bool (2 ^ 63 \<le> unat w)"
  proof (cases "2 ^ 63 \<le> unat w")
    case True
    with lt show ?thesis by (intro div_nat_eqI) auto
  qed (use lt in simp)
  finally show ?thesis by simp
qed

lemma power_of_two_bounds:
  assumes "is_power_of_two a"
  shows "0 < unat a" and "unat a \<le> 2 ^ 63"
proof -
  show pos: "0 < unat a" using assms by (simp add: is_power_of_two_def word_gt_0 unat_gt_0)
  show "unat a \<le> 2 ^ 63"
  proof (rule ccontr)
    assume big: "\<not> ?thesis"
    have "unat (a - 1) = unat a - 1" using pos by (intro unat_minus_one) auto
    with big have "bit a 63" "bit (a - 1) 63" by (simp_all add: bit_63)
    then have "bit (a AND (a - 1)) 63" by (simp only: bit_and_iff)
    with assms show False by (simp add: is_power_of_two_def)
  qed
qed

text \<open>The rounded value is not below the value, however large.\<close>

lemma align_up_ge:
  assumes "0 < unat a" and "unat w + unat a \<le> 2 ^ 64"
  shows "w \<le> align_up w a"
proof -
  let ?y = "w + (a - 1)"
  have a1: "unat (a - 1) = unat a - 1" using assms(1) by (intro unat_minus_one) auto
  have y: "unat ?y = unat w + unat (a - 1)"
    using assms a1 by (subst unat_add_lem [symmetric]) auto
  have "(?y AND NOT (a - 1)) + (?y AND (a - 1)) = (?y AND NOT (a - 1)) OR (?y AND (a - 1))"
    by (rule disjunctive_add_eq_or) (simp add: bit_eq_iff bit_and_iff bit_not_iff)
  also have "\<dots> = ?y" by (simp add: bit_eq_iff bit_and_iff bit_or_iff bit_not_iff) blast
  finally have "align_up w a = ?y - (?y AND (a - 1))"
    by (simp add: align_up_def algebra_simps)
  moreover have le: "?y AND (a - 1) \<le> a - 1" by (simp add: word_and_le1)
  moreover have "?y AND (a - 1) \<le> ?y" by (simp add: word_and_le2)
  ultimately have "unat (align_up w a) = unat ?y - unat (?y AND (a - 1))" by (simp add: unat_sub)
  with y le show ?thesis by (simp add: word_le_nat_alt)
qed

text \<open>What is left of a chunk, rounded up, is never zero.\<close>

lemma rest_of_chunk:
  assumes "is_power_of_two bs" and "0 \<le> m" "m < n" "nat n < 2 ^ 63"
  shows "align_up (word_of_int (n - m)) bs \<noteq> 0"
proof -
  have le: "nat (n - m) < 2 ^ 63" using assms by linarith
  have "unat (of_nat (nat (n - m)) :: size_t) = nat (n - m)"
    using le by (simp add: unat_of_nat take_bit_nat_eq_self)
  then have "unat (word_of_int (n - m) :: size_t) = nat (n - m)"
    using assms(3) by (simp only: word_int_nat diff_ge_0_iff_ge less_imp_le)
  with align_up_ge [OF power_of_two_bounds(1) [OF assms(1)], of "word_of_int (n - m)"] power_of_two_bounds(2) [OF assms(1)]
    le assms(3) show ?thesis by (auto simp: word_le_nat_alt)
qed

section \<open>The platform and the state\<close>

text \<open>What the copy relies on, each as documented.\<close>

definition documented_platform :: "'w ext \<Rightarrow> 'w view \<Rightarrow> bool" where
  "documented_platform x v \<longleftrightarrow>
     documented_pread x v \<and> documented_pwrite x v \<and> documented_memcpy x v \<and> documented_syncs x v \<and>
     documented_mmap x v \<and> documented_munmap x v \<and> documented_queries x v \<and>
     hip_codes x \<and> unmaps x \<and> transfer_counts x \<and> writes_progress x"

text \<open>
  The driver between two calls of the program: no temporary object is left, and the handle and the
  device pointer are known as registered and not registered.
\<close>

definition copy_ready ::
  "owners \<Rightarrow> owners \<Rightarrow> owners \<Rightarrow> 'w ext \<Rightarrow> 'w aiscp_ext \<Rightarrow> (ptr \<times> File) set \<Rightarrow> ptr \<Rightarrow> ('w, 'z) stats_state_scheme \<Rightarrow> bool" where
  "copy_ready EB EF ES x z hs devbuf s \<longleftrightarrow>
     drv_inv EB EF ES s \<and> (\<forall>w. buf_heap s (new_buffer z w) = None) \<and> \<not> Configuration_fastpath x s \<and>
     buf_lookup s devbuf = None \<and>
     (\<forall>(h, f) \<in> hs. \<exists>p. file_lookup s h = Some p \<and> sp_obj p (file_heap s) = Some f)"

lemma io_frame_fastpath:
  fixes s t :: "('w, 'z) stats_state_scheme"
  shows "io_frame s t \<Longrightarrow> Configuration_fastpath x t = Configuration_fastpath x s"
  by (cases s; cases t) (simp add: io_frame_def Configuration_fastpath_def)

lemma copy_ready_frame: "io_frame s t \<Longrightarrow> copy_ready EB EF ES x z hs devbuf s \<Longrightarrow> copy_ready EB EF ES x z hs devbuf t"
  by (simp add: copy_ready_def io_frame_keeps io_frame_fastpath)

lemma copy_ready_io:
  assumes r: "copy_ready EB EF ES x z hs devbuf s" and p: "documented_platform x v"
    and b: "interrupts_bounded x budget"
  shows "\<exists>n t. hipFileRead x (new_buffer z w) h buf sz fo bo s = Some (Ret n, t) \<and> copy_ready EB EF ES x z hs devbuf t"
    and "\<exists>n t. hipFileWrite x (new_buffer z w) h buf sz fo bo s = Some (Ret n, t) \<and> copy_ready EB EF ES x z hs devbuf t"
proof -
  have a: "drv_inv EB EF ES s" "buf_heap s (new_buffer z w) = None" "hip_codes x" "\<not> Configuration_fastpath x s"
    "unmaps x" "transfer_counts x" using r p by (simp_all add: copy_ready_def documented_platform_def)
  note tot = hipFileRead_total [OF a(1,2,5,6) b]
  show "\<exists>n t. hipFileRead x (new_buffer z w) h buf sz fo bo s = Some (Ret n, t) \<and> copy_ready EB EF ES x z hs devbuf t"
    using tot(1) client_io_frame(1) [OF a(1-4)] copy_ready_frame [OF _ r] by meson
  show "\<exists>n t. hipFileWrite x (new_buffer z w) h buf sz fo bo s = Some (Ret n, t) \<and> copy_ready EB EF ES x z hs devbuf t"
    using tot(2) client_io_frame(2) [OF a(1-4)] copy_ready_frame [OF _ r] by meson
qed

lemma say_apply: "say z msg s = (Ret (), s\<lparr>world := c_fprintf_stderr z msg (world s)\<rparr>)"
  by (simp add: say_def call_ext_def)

lemma io_message_world: "\<exists>w. io_message x z msg n s = (Ret (), s\<lparr>world := w\<rparr>)"
  unfolding io_message_def cbind_def cget_def say_apply by auto

section \<open>Arithmetic of the offsets\<close>

lemma offset_add:
  assumes "0 \<le> sint (fo :: hoff_t)" and "0 \<le> n" and "nat (sint fo) + nat n < 2 ^ 63"
  shows "nat (sint (fo + word_of_int n)) = nat (sint fo) + nat n" and "0 \<le> sint (fo + word_of_int n)"
proof -
  have "int (nat (sint fo) + nat n) < int (2 ^ 63)" using assms(3) by (simp only: of_nat_less_iff)
  then have "sint fo + int (nat n) < 2 ^ 63" using assms(1,2) by simp
  from sint_add_nat [OF assms(1) this] have eq: "sint (fo + word_of_int n) = sint fo + n"
    by (simp only: word_int_nat [OF assms(2)] int_nat_eq assms(2) if_True)
  show "nat (sint (fo + word_of_int n)) = nat (sint fo) + nat n"
    unfolding eq by (rule nat_add_distrib [OF assms(1,2)])
  show "0 \<le> sint (fo + word_of_int n)"
    unfolding eq by (rule add_nonneg_nonneg [OF assms(1,2)])
qed

section \<open>Writing a chunk\<close>

text \<open>The first \<open>k\<close> bytes of the destination are those of the source.\<close>

definition copied :: "'w view \<Rightarrow> int \<Rightarrow> byte list \<Rightarrow> nat \<Rightarrow> 'w \<Rightarrow> bool" where
  "copied v fd src k w \<longleftrightarrow> (\<forall>i < k. i < length (v_file v w fd) \<and> v_file v w fd ! i = src ! i)"

text \<open>A write of bytes of the source at their place extends what is copied.\<close>

lemma copied_write:
  assumes c: "copied v fd src k w" and m: "k = off + m" and w: "write_inv v L w fd (buf + word_of_int (int m)) k sz n w'"
    and mem: "\<And>i. i < l \<Longrightarrow> v_mem v w (buf + of_nat i) = src ! (off + i)"
  shows "copied v fd src (off + min (m + n) l) w'"
  unfolding copied_def
proof (intro allI impI)
  fix i
  assume i: "i < off + min (m + n) l"
  note wi = w [unfolded write_inv_def]
  show "i < length (v_file v w' fd) \<and> v_file v w' fd ! i = src ! i"
  proof (cases "i < k")
    case True
    with c wi show ?thesis unfolding copied_def by (metis order_less_le_trans)
  next
    case False
    then obtain j where j: "i = k + j" by (metis le_iff_add not_less)
    with i m have "j < n" "m + j < l" by auto
    with wi mem [of "m + j"] j m show ?thesis by (simp add: add.assoc)
  qed
qed

lemma write_chunk_total:
  fixes s :: "('w, 'z) stats_state_scheme"
  assumes r: "copy_ready EB EF ES x z hs devbuf s" and p: "documented_platform x v"
    and b: "interrupts_bounded x budget" and h: "(h, f) \<in> hs"
    and other: "different_files x v (File_bufferedFd f) sfd"
    and live: "\<And>w. region devbuf N \<subseteq> v_live v w" and rw: "max_rw_count x \<noteq> 0"
    and bs: "is_power_of_two bs" and fo: "0 \<le> sint fo" and n: "0 \<le> n" "nat n \<le> N" "nat (sint fo) + nat n < 2 ^ 63"
    and src: "v_file v (world s) sfd = src"
    and mem: "\<And>i. i < nat n \<Longrightarrow> v_mem v (world s) (devbuf + of_nat i) = src ! (nat (sint fo) + i)"
    and c: "copied v (File_bufferedFd f) src (nat (sint fo)) (world s)"
  shows "\<exists>ok t. write_chunk x z path h devbuf bs fo n s = Some (Ret ok, t) \<and> copy_ready EB EF ES x z hs devbuf t \<and>
    (ok \<longrightarrow> v_file v (world t) sfd = src \<and> copied v (File_bufferedFd f) src (nat (sint fo) + nat n) (world t))"
  unfolding write_chunk_def
proof (rule owloop_total [where R = "measure (\<lambda>(m, u :: ('w, 'z) stats_state_scheme). nat (n - m))" and
      I = "\<lambda>m u. 0 \<le> m \<and> copy_ready EB EF ES x z hs devbuf u \<and> v_file v (world u) sfd = src \<and>
        (\<forall>i < nat n. v_mem v (world u) (devbuf + of_nat i) = src ! (nat (sint fo) + i)) \<and>
        copied v (File_bufferedFd f) src (nat (sint fo) + min (nat m) (nat n)) (world u)"])
  fix m and u :: "('w, 'z) stats_state_scheme"
  assume "0 \<le> m \<and> copy_ready EB EF ES x z hs devbuf u \<and> v_file v (world u) sfd = src \<and>
        (\<forall>i < nat n. v_mem v (world u) (devbuf + of_nat i) = src ! (nat (sint fo) + i)) \<and>
        copied v (File_bufferedFd f) src (nat (sint fo) + min (nat m) (nat n)) (world u)"
  then have m: "0 \<le> m" and ru: "copy_ready EB EF ES x z hs devbuf u" and su: "v_file v (world u) sfd = src"
    and mu: "\<And>i. i < nat n \<Longrightarrow> v_mem v (world u) (devbuf + of_nat i) = src ! (nat (sint fo) + i)"
    and cu: "copied v (File_bufferedFd f) src (nat (sint fo) + min (nat m) (nat n)) (world u)" by blast+
  let ?body = "write_chunk_round x z path h devbuf bs fo n m u"
  let ?P = "\<lambda>r t. case r of
      Inl m' \<Rightarrow> (0 \<le> m' \<and> copy_ready EB EF ES x z hs devbuf t \<and> v_file v (world t) sfd = src \<and>
        (\<forall>i < nat n. v_mem v (world t) (devbuf + of_nat i) = src ! (nat (sint fo) + i)) \<and>
        copied v (File_bufferedFd f) src (nat (sint fo) + min (nat m') (nat n)) (world t)) \<and>
        ((m', t), (m, u)) \<in> measure (\<lambda>(m, u :: ('w, 'z) stats_state_scheme). nat (n - m))
    | Inr ok \<Rightarrow> copy_ready EB EF ES x z hs devbuf t \<and>
        (ok \<longrightarrow> v_file v (world t) sfd = src \<and> copied v (File_bufferedFd f) src (nat (sint fo) + nat n) (world t))"
  show "\<exists>r t. ?body = Some (Ret r, t) \<and> ?P r t"
  proof (cases "m < n")
    case False
    then have "min (nat m) (nat n) = nat n" by simp
    with False ru su cu show ?thesis by (simp add: write_chunk_round_def olift_def cret_def)
  next
    case True
    let ?sz = "align_up (word_of_int (n - m)) bs"
    from copy_ready_io(2) [OF ru p b] obtain k t where t: "hipFileWrite x (new_buffer z (world u)) h devbuf ?sz
        (fo + word_of_int m) (word_of_int m) u = Some (Ret k, t)" and rt: "copy_ready EB EF ES x z hs devbuf t" by blast
    show ?thesis
    proof (cases "k < 0")
      case neg: True
      obtain w where "io_message x z (''Could not write to '' @ path) k t = (Ret (), t\<lparr>world := w\<rparr>)"
        by (metis io_message_world)
      with neg t True copy_ready_frame [OF io_frame_upds(1) rt] show ?thesis
        by (simp add: write_chunk_round_def obind_def olift_def cbind_def cret_def)
    next
      case False
      then have k: "0 \<le> k" by simp
      obtain q where q: "file_lookup u h = Some q" "sp_obj q (file_heap u) = Some f"
        using ru h by (auto simp: copy_ready_def)
      have ready: "drv_inv EB EF ES u" "buf_heap u (new_buffer z (world u)) = None" "hip_codes x"
        "\<not> Configuration_fastpath x u" "documented_queries x v" and nb: "buf_lookup u devbuf = None"
        and doc: "documented_memcpy x v" "documented_pwrite x v" "documented_syncs x v" "documented_mmap x v"
          "documented_munmap x v" and prog: "writes_progress x" "transfer_counts x"
        using ru p by (simp_all add: copy_ready_def documented_platform_def)
      have sz: "?sz \<noteq> 0" by (rule rest_of_chunk [OF bs m True]) (use n in linarith)
      have off: "nat (sint (fo + word_of_int m)) = nat (sint fo) + nat m"
        using offset_add(1) [OF fo m] True m n by linarith
      note cw = client_write [OF ready doc q nb k t live other]
      have pos: "0 < k" by (rule client_write_progress [OF ready(1-4) prog sz rw k t])
      have mm: "min (nat m) (nat n) = nat m" using True by simp
      have memt: "v_mem v (world t) (devbuf + of_nat i) = src ! (nat (sint fo) + i)" if "i < nat n" for i
      proof -
        have "devbuf + of_nat i \<in> region devbuf N" using that n by (intro region_mem) simp
        with cw mu [OF that] show ?thesis by (simp add: write_inv_def)
      qed
      have "copied v (File_bufferedFd f) src (nat (sint fo) + min (nat m + nat k) (nat n)) (world t)"
        by (rule copied_write [OF cu _ _ mu]) (use cw off mm True m in \<open>auto simp: add.commute\<close>)
      with pos k m True t rt cw su memt show ?thesis
        by (auto simp: write_chunk_round_def obind_def olift_def cret_def nat_add_distrib)
    qed
  qed
qed (use r src mem c in auto)

text \<open>A write that reports zero bytes is repeated forever: the loop ends only on progress or on an error.\<close>

lemma zero_write_spins:
  assumes "0 < n" and "I s"
    and zero: "\<And>u. I u \<Longrightarrow> \<exists>t. hipFileWrite x (new_buffer z (world u)) h devbuf (align_up (word_of_int n) bs) fo 0 u =
      Some (Ret 0, t) \<and> I t"
  shows "write_chunk x z path h devbuf bs fo n s = None"
  unfolding write_chunk_def
proof (rule owloop_spins [where I = I])
  fix u
  assume "I u"
  from zero [OF this] assms(1) show "\<exists>t. write_chunk_round x z path h devbuf bs fo n 0 u = Some (Ret (Inl 0), t) \<and> I t"
    by (auto simp: write_chunk_round_def obind_def olift_def cret_def)
qed (rule assms(2))

section \<open>The whole copy\<close>

text \<open>
  The hypotheses of the copy: both handles are registered, to different files, the device allocation is
  mapped, and reads and writes can move something.
\<close>

definition copy_context ::
  "'w ext \<Rightarrow> 'w aiscp_ext \<Rightarrow> 'w view \<Rightarrow> (ptr \<times> File) \<Rightarrow> (ptr \<times> File) \<Rightarrow> ptr \<Rightarrow> size_t \<Rightarrow> size_t \<Rightarrow>
     ('w, 'z) stats_state_scheme \<Rightarrow> bool" where
  "copy_context x z v src dst devbuf buffer_size block_size s \<longleftrightarrow>
     copy_ready (\<lambda>_. 0) (\<lambda>_. 0) (\<lambda>_. 0) x z {src, dst} devbuf s \<and> documented_platform x v \<and>
     different_files x v (File_bufferedFd (snd dst)) (File_bufferedFd (snd src)) \<and>
     (\<forall>w. region devbuf (unat buffer_size) \<subseteq> v_live v w) \<and> buffer_size \<noteq> 0 \<and> max_rw_count x \<noteq> 0 \<and>
     is_power_of_two block_size"

lemma copy_chunks_total:
  fixes s :: "('w, 'z) stats_state_scheme"
  assumes ctx: "copy_context x z v (sh, sf) (dh, df) devbuf N bs s" and b: "interrupts_bounded x budget"
    and src: "v_file v (world s) (File_bufferedFd sf) = src"
  shows "\<exists>ok t. copy_chunks x z sp dp sh dh devbuf N bs s = Some (Ret ok, t) \<and>
    copy_ready (\<lambda>_. 0) (\<lambda>_. 0) (\<lambda>_. 0) x z {(sh, sf), (dh, df)} devbuf t \<and>
    (ok \<longrightarrow> v_file v (world t) (File_bufferedFd sf) = src \<and> copied v (File_bufferedFd df) src (length src) (world t))"
  unfolding copy_chunks_def
proof -
  let ?ready = "copy_ready (\<lambda>_. 0) (\<lambda>_. 0) (\<lambda>_. 0) x z {(sh, sf), (dh, df)} devbuf"
  let ?I = "\<lambda>fo (u :: ('w, 'z) stats_state_scheme). 0 \<le> sint (fo :: hoff_t) \<and> nat (sint fo) \<le> length src \<and> ?ready u \<and>
    v_file v (world u) (File_bufferedFd sf) = src \<and> copied v (File_bufferedFd df) src (nat (sint fo)) (world u)"
  let ?R = "measure (\<lambda>(fo, u :: ('w, 'z) stats_state_scheme). length src - nat (sint (fo :: hoff_t)))"
  let ?Q = "\<lambda>ok t. ?ready t \<and> (ok \<longrightarrow> v_file v (world t) (File_bufferedFd sf) = src \<and>
    copied v (File_bufferedFd df) src (length src) (world t))"
  have p: "documented_platform x v" and other: "different_files x v (File_bufferedFd df) (File_bufferedFd sf)"
    and live: "\<And>w. region devbuf (unat N) \<subseteq> v_live v w" and rw: "N \<noteq> 0" "max_rw_count x \<noteq> 0"
    and bs: "is_power_of_two bs" and r: "?ready s"
    using ctx by (simp_all add: copy_context_def)
  have lim: "0 < unat (min N (max_rw_count x))" using rw by (simp add: min_def unat_gt_0)
  have pr: "documented_pread x v" "documented_memcpy x v" "documented_mmap x v" "documented_munmap x v"
    using p by (simp_all add: documented_platform_def)
  have len: "length src < 2 ^ 63" using file_length_bound [OF pr(1), of "world s" "File_bufferedFd sf"] src by simp
  have round: "\<exists>r t. copy_round x z sp dp sh dh devbuf N bs fo u = Some (Ret r, t) \<and>
      (case r of Inl fo' \<Rightarrow> ?I fo' t \<and> ((fo', t), (fo, u)) \<in> ?R | Inr ok \<Rightarrow> ?Q ok t)" if I: "?I fo u" for fo u
  proof -
    from I have fo: "0 \<le> sint fo" "nat (sint fo) \<le> length src" and ru: "?ready u"
      and su: "v_file v (world u) (File_bufferedFd sf) = src"
      and cu: "copied v (File_bufferedFd df) src (nat (sint fo)) (world u)" by blast+
    from copy_ready_io(1) [OF ru p b] obtain n t where
      t: "hipFileRead x (new_buffer z (world u)) sh devbuf N fo 0 u = Some (Ret n, t)" and rt: "?ready t" by blast
    show ?thesis
    proof (cases "n < 0")
      case True
      obtain w where "io_message x z (''Could not read from '' @ sp) n t = (Ret (), t\<lparr>world := w\<rparr>)"
        by (metis io_message_world)
      with True t copy_ready_frame [OF io_frame_upds(1) rt] show ?thesis
        by (simp add: copy_round_def obind_def olift_def cbind_def cret_def)
    next
      case False
      then have n: "0 \<le> n" by simp
      obtain q where q: "file_lookup u sh = Some q" "sp_obj q (file_heap u) = Some sf"
        using ru by (auto simp: copy_ready_def)
      have ready: "drv_inv (\<lambda>_. 0) (\<lambda>_. 0) (\<lambda>_. 0) u" "buf_heap u (new_buffer z (world u)) = None" "hip_codes x"
        "\<not> Configuration_fastpath x u" "documented_queries x v" and nb: "buf_lookup u devbuf = None"
        using ru p by (simp_all add: copy_ready_def documented_platform_def)
      note cr = client_read [OF ready pr q nb n t, unfolded su]
      have nN: "nat n \<le> unat N" using cr by (auto simp: min_def word_le_nat_alt split: if_splits)
      have bound: "nat (sint fo) + nat n \<le> length src" using cr fo n by (cases "n = 0") auto
      have st: "v_file v (world t) (File_bufferedFd sf) = src" and ct: "copied v (File_bufferedFd df) src (nat (sint fo)) (world t)"
        using cr su cu by (simp_all add: copied_def)
      have dh: "(dh, df) \<in> {(sh, sf), (dh, df)}" by simp
      have mem: "v_mem v (world t) (devbuf + of_nat i) = src ! (nat (sint fo) + i)" if "i < nat n" for i
        using cr that by blast
      obtain ok t2 where t2: "write_chunk x z dp dh devbuf bs fo n t = Some (Ret ok, t2)" "?ready t2"
        "ok \<longrightarrow> v_file v (world t2) (File_bufferedFd sf) = src \<and>
           copied v (File_bufferedFd df) src (nat (sint fo) + nat n) (world t2)"
        using write_chunk_total [OF rt p b dh other live rw(2) bs fo(1) n nN le_less_trans [OF bound len] st mem ct] by blast
      note un = t t2(1) False
      show ?thesis
      proof (cases "ok \<and> 0 < n")
        case True
        note oa = offset_add [OF fo(1) n le_less_trans [OF bound len]]
        have "length src - nat (sint (fo + word_of_int n)) < length src - nat (sint fo)"
          unfolding oa(1) using bound True by linarith
        moreover have "?I (fo + word_of_int n) t2" using oa bound t2 True by simp
        ultimately show ?thesis
          using un True by (simp add: copy_round_def obind_def olift_def cret_def)
      next
        case no: False
        have "nat (sint fo) = length src" if "n = 0"
          using cr fo(2) lim that by simp
        with un no t2 n show ?thesis
          by (cases ok) (simp_all add: copy_round_def obind_def olift_def cret_def)
      qed
    qed
  qed
  show "\<exists>ok t. owloop (copy_round x z sp dp sh dh devbuf N bs) 0 s = Some (Ret ok, t) \<and> ?Q ok t"
    by (rule owloop_total [where R = ?R and I = ?I, OF _ _ round]) (use r src in \<open>auto simp: copied_def\<close>)
qed

text \<open>
  The manual page: a truncation that succeeds cuts the file or fills it with zeros, one that fails leaves
  it alone, and no other file changes.
\<close>

definition documented_truncate :: "'w aiscp_ext \<Rightarrow> 'w view \<Rightarrow> int \<Rightarrow> int \<Rightarrow> int \<Rightarrow> bool" where
  "documented_truncate z v fd same other \<longleftrightarrow>
     (\<forall>n w r w'. c_ftruncate_fd z fd n w = (r, w') \<longrightarrow>
        v_file v w' other = v_file v w other \<and>
        v_file v w' same =
          (if r = -1 then v_file v w same
           else take (unat n) (v_file v w same @ replicate (unat n - length (v_file v w same)) 0)))"

lemma copy_file_total:
  fixes s :: "('w, 'z) stats_state_scheme"
  assumes ctx: "copy_context x z v (sh, sf) (dh, df) devbuf N bs s" and b: "interrupts_bounded x budget"
    and src: "v_file v (world s) (File_bufferedFd sf) = src"
    and tr: "documented_truncate z v dst_fd (File_bufferedFd df) (File_bufferedFd sf)"
    and quiet: "\<And>m w. v_file v (c_fprintf_stderr z m w) = v_file v w"
  shows "\<exists>code t. copy_file x z sp dp sh dh dst_fd devbuf N bs fsz s = Some (Ret code, t) \<and>
    copy_ready (\<lambda>_. 0) (\<lambda>_. 0) (\<lambda>_. 0) x z {(sh, sf), (dh, df)} devbuf t \<and>
    (code = EXIT_FAILURE \<or> code = EXIT_SUCCESS \<and> v_file v (world t) (File_bufferedFd sf) = src \<and>
       (unat fsz = length src \<longrightarrow>
          take (length src) (v_file v (world t) (File_bufferedFd df)) = src \<and>
          ((\<forall>w. fst (c_ftruncate_fd z dst_fd fsz w) \<noteq> -1) \<longrightarrow> v_file v (world t) (File_bufferedFd df) = src)))"
proof -
  let ?ready = "copy_ready (\<lambda>_. 0) (\<lambda>_. 0) (\<lambda>_. 0) x z {(sh, sf), (dh, df)} devbuf"
  from copy_chunks_total [OF ctx b src] obtain ok t where
    t: "copy_chunks x z sp dp sh dh devbuf N bs s = Some (Ret ok, t)" "?ready t"
      "ok \<longrightarrow> v_file v (world t) (File_bufferedFd sf) = src \<and> copied v (File_bufferedFd df) src (length src) (world t)" by blast
  show ?thesis
  proof (cases ok)
    case False
    with t show ?thesis by (simp add: copy_file_def obind_def olift_def cret_def)
  next
    case True
    obtain r w where f: "c_ftruncate_fd z dst_fd fsz (world t) = (r, w)" by fastforce
    note tr' = tr [unfolded documented_truncate_def, rule_format, OF f]
    let ?w = "if r = -1 then c_fprintf_stderr z (''Could not truncate '' @ dp @ '' ('' @ dec_nat (unat fsz) @ '')'' @
      '' ('' @ c_strerror z (c_errno x w) @ '')'' @ line_end) w else w"
    have run: "copy_file x z sp dp sh dh dst_fd devbuf N bs fsz s = Some (Ret EXIT_SUCCESS, t\<lparr>world := ?w\<rparr>)"
      using t(1) True f
      by (simp add: copy_file_def obind_def olift_def cbind_def call_ext_def cret_def cget_def say_errno_def say_apply)
    have keep: "v_file v ?w = v_file v w" using quiet by simp
    have src': "v_file v w (File_bufferedFd sf) = src" using t(3) True tr' by simp
    have len: "length src \<le> length (v_file v (world t) (File_bufferedFd df))"
      using t(3) True by (cases "length src") (auto simp: copied_def Suc_le_eq)
    have pre: "take (length src) (v_file v (world t) (File_bufferedFd df)) = src"
      using t(3) True len by (intro nth_equalityI) (auto simp: copied_def)
    have "take (length src) (v_file v w (File_bufferedFd df)) = src" if "unat fsz = length src"
      using tr' pre len that by simp
    moreover have "v_file v w (File_bufferedFd df) = src"
      if "unat fsz = length src" "\<forall>w. fst (c_ftruncate_fd z dst_fd fsz w) \<noteq> -1"
      using tr' pre len that(1) that(2) [rule_format, of "world t"] f by simp
    moreover have "?ready (t\<lparr>world := ?w\<rparr>)" by (rule copy_ready_frame [OF io_frame_upds(1) t(2)])
    ultimately show ?thesis
      using run src' keep by (intro exI [of _ EXIT_SUCCESS] exI [of _ "t\<lparr>world := ?w\<rparr>"]) (simp split del: if_split)
  qed
qed

end
