(* ===== verification/Aiscp_Main.thy ===== *)
theory Aiscp_Main
  imports Aiscp_Copy Driver_Spec
begin

text \<open>
  The copy program leaves the driver as it was: whatever fails, every handle that it registers is
  deregistered again.
\<close>

section \<open>Between two calls\<close>

text \<open>What a client finds between two calls, with the registered handles.\<close>

definition idle :: "'w ext \<Rightarrow> 'w aiscp_ext \<Rightarrow> (ptr \<rightharpoonup> ptr) \<Rightarrow> ('w, 'z) stats_state_scheme \<Rightarrow> bool" where
  "idle x z F s \<longleftrightarrow>
     drv_inv (\<lambda>_. 0) (\<lambda>_. 0) (\<lambda>_. 0) s \<and> (\<forall>w. buf_heap s (new_buffer z w) = None) \<and>
     \<not> Configuration_fastpath x s \<and> file_lookup s = F"

definition careful :: "'w ext \<Rightarrow> ('w \<Rightarrow> nat) \<Rightarrow> bool" where
  "careful x budget \<longleftrightarrow> hip_codes x \<and> unmaps x \<and> transfer_counts x \<and> interrupts_bounded x budget \<and> closes x"

lemma idle_frame: "io_frame s t \<Longrightarrow> idle x z F s \<Longrightarrow> idle x z F t"
  by (simp add: idle_def io_frame_keeps io_frame_fastpath)

lemma idle_world [simp]: "idle x z F (s\<lparr>world := w\<rparr>) = idle x z F s"
  by (simp add: idle_def Configuration_fastpath_def)

lemma idle_io:
  assumes s: "idle x z F s" and c: "careful x budget"
  shows "\<exists>n t. hipFileRead x (new_buffer z w) h buf sz fo bo s = Some (Ret n, t) \<and> idle x z F t \<and> ref_count t = ref_count s"
    and "\<exists>n t. hipFileWrite x (new_buffer z w) h buf sz fo bo s = Some (Ret n, t) \<and> idle x z F t \<and> ref_count t = ref_count s"
proof -
  have a: "drv_inv (\<lambda>_. 0) (\<lambda>_. 0) (\<lambda>_. 0) s" "buf_heap s (new_buffer z w) = None" "hip_codes x" "\<not> Configuration_fastpath x s"
    "unmaps x" "transfer_counts x" "interrupts_bounded x budget" using s c by (simp_all add: idle_def careful_def)
  note fr = idle_frame [OF _ s] io_frame_keeps(5)
  note tot = hipFileRead_total [OF a(1,2,5,6,7)]
  show "\<exists>n t. hipFileRead x (new_buffer z w) h buf sz fo bo s = Some (Ret n, t) \<and> idle x z F t \<and> ref_count t = ref_count s"
    using tot(1) client_io_frame(1) [OF a(1-4)] fr by meson
  show "\<exists>n t. hipFileWrite x (new_buffer z w) h buf sz fo bo s = Some (Ret n, t) \<and> idle x z F t \<and> ref_count t = ref_count s"
    using tot(2) client_io_frame(2) [OF a(1-4)] fr by meson
qed

text \<open>A part of the program that returns a value, if it returns, and leaves the handles alone.\<close>

definition leaves :: "'w ext \<Rightarrow> 'w aiscp_ext \<Rightarrow> (ptr \<rightharpoonup> ptr) \<Rightarrow> (('w, 'z) stats_state_scheme, 'a) ocxx \<Rightarrow> bool" where
  "leaves x z F m \<longleftrightarrow>
     (\<forall>s r t. idle x z F s \<and> 0 < ref_count s \<and> m s = Some (r, t) \<longrightarrow>
        (\<exists>a. r = Ret a) \<and> idle x z F t \<and> 0 < ref_count t)"

lemma leavesD:
  "leaves x z F m \<Longrightarrow> idle x z F s \<Longrightarrow> 0 < ref_count s \<Longrightarrow> m s = Some (r, t) \<Longrightarrow>
     (\<exists>a. r = Ret a) \<and> idle x z F t \<and> 0 < ref_count t"
  unfolding leaves_def by blast

lemma leaves_obind:
  assumes "leaves x z F m" and "\<And>a. leaves x z F (k a)"
  shows "leaves x z F (obind m k)"
  unfolding leaves_def
proof (intro allI impI, elim conjE)
  fix s r t
  assume s: "idle x z F s" "0 < ref_count s" and b: "obind m k s = Some (r, t)"
  then obtain r0 u where m: "m s = Some (r0, u)" by (auto simp: obind_def split: option.splits)
  with leavesD [OF assms(1) s m] obtain a where "r0 = Ret a" "idle x z F u" "0 < ref_count u" by blast
  with leavesD [OF assms(2), of u a r t] b m show "(\<exists>a. r = Ret a) \<and> idle x z F t \<and> 0 < ref_count t"
    by (simp add: obind_def)
qed

definition only_world :: "(('w, 'z) sys_state_scheme, 'a) cxx \<Rightarrow> bool" where
  "only_world m \<longleftrightarrow> (\<forall>s. \<exists>a w. m s = (Ret a, s\<lparr>world := w\<rparr>))"

lemma only_world_basic: "only_world (cret a)" "only_world (call_ext f)" "only_world (cget g)"
  by (auto simp: only_world_def cret_def call_ext_apply cget_def intro: world_unchanged)

lemma only_worldE:
  assumes "only_world m"
  obtains a w where "m s = (Ret a, s\<lparr>world := w\<rparr>)"
  using assms unfolding only_world_def by blast

lemma only_world_cbind:
  assumes "only_world m" and "\<And>a. only_world (k a)"
  shows "only_world (cbind m k)"
  unfolding only_world_def
proof
  fix s
  obtain a w where m: "m s = (Ret a, s\<lparr>world := w\<rparr>)" by (rule only_worldE [OF assms(1)])
  obtain b w' where "k a (s\<lparr>world := w\<rparr>) = (Ret b, s\<lparr>world := w, world := w'\<rparr>)" by (rule only_worldE [OF assms(2)])
  with m show "\<exists>a w. cbind m k s = (Ret a, s\<lparr>world := w\<rparr>)" by (auto simp: cbind_def)
qed

lemma only_world_if: "only_world m \<Longrightarrow> only_world n \<Longrightarrow> only_world (if b then m else n)"
  by simp

lemmas only_world_intros = only_world_cbind only_world_if only_world_basic

lemma only_world_say: "only_world (say z m)" "only_world (say_errno x z m)" "only_world (io_message x z m n)"
  unfolding say_def say_errno_def io_message_def by (intro only_world_intros)+

lemma leaves_only_world:
  fixes m :: "(('w, 'z) stats_state_scheme, 'a) cxx"
  assumes "only_world m"
  shows "leaves x z F (olift m)"
  unfolding leaves_def olift_def
proof (intro allI impI, elim conjE)
  fix s r t
  assume s: "idle x z F s" "0 < ref_count s" and m: "Some (m s) = Some (r, t)"
  obtain a w where "m s = (Ret a, s\<lparr>world := w\<rparr>)" by (rule only_worldE [OF assms])
  with s m show "(\<exists>a. r = Ret a) \<and> idle x z F t \<and> 0 < ref_count t" by auto
qed

lemma leaves_owloop:
  assumes "\<And>a. leaves x z F (body a)"
  shows "leaves x z F (owloop body a)"
  unfolding leaves_def
proof (intro allI impI, elim conjE)
  fix s r t
  assume s: "idle x z F s" "0 < ref_count s" and l: "owloop body a s = Some (r, t)"
  show "(\<exists>a. r = Ret a) \<and> idle x z F t \<and> 0 < ref_count t"
  proof (rule owloop_inv [OF l, where I = "\<lambda>_ u. idle x z F u \<and> 0 < ref_count u" and
        Q = "\<lambda>r u. (\<exists>a. r = Ret a) \<and> idle x z F u \<and> 0 < ref_count u"])
    show "idle x z F s \<and> 0 < ref_count s" using s by blast
  qed (use leavesD [OF assms] in blast)+
qed

lemma leaves_io:
  assumes "careful x budget"
  shows "leaves x z F (\<lambda>s. hipFileRead x (new_buffer z (world s)) h buf n fo bo s)"
    and "leaves x z F (\<lambda>s. hipFileWrite x (new_buffer z (world s)) h buf n fo bo s)"
  unfolding leaves_def using idle_io [OF _ assms]
  by (metis Pair_inject option.inject)+

lemma leaves_if: "leaves x z F m \<Longrightarrow> leaves x z F n \<Longrightarrow> leaves x z F (if b then m else n)"
  by simp

lemma leaves_prod: "(\<And>a b. leaves x z F (f a b)) \<Longrightarrow> leaves x z F (case p of (a, b) \<Rightarrow> f a b)"
  by (cases p) simp

lemmas leaves_intros = leaves_obind leaves_if leaves_prod leaves_only_world only_world_intros only_world_say

lemma leaves_copy_file:
  assumes "careful x budget"
  shows "leaves x z F (copy_through_device x z sp dp sh dh fd fsz bs)"
  unfolding copy_through_device_def copy_file_def copy_chunks_def copy_round_def write_chunk_def write_chunk_round_def Let_def
  by (intro leaves_intros leaves_owloop leaves_io [OF assms])

section \<open>Opening and closing\<close>

lemma file_frame_idle:
  fixes s t :: "('w, 'z) stats_state_scheme"
  assumes "file_frame s t"
  shows "buf_heap t = buf_heap s" "Configuration_fastpath x t = Configuration_fastpath x s" "ref_count t = ref_count s"
  using assms by (cases s; cases t; simp add: file_frame_def Configuration_fastpath_def)+

lemma unused_address:
  fixes s :: "('w, 'z) stats_state_scheme"
  assumes "idle x z F s" and "F na = None"
  shows "file_heap s na = None"
proof -
  have inv: "file_inv (\<lambda>_. 0) s" using assms by (simp add: idle_def drv_inv_def)
  have "own_sum (table_uses s) (\<lambda>_. 0) na = 0"
    using table_uses_0 [OF inv, of na] assms by (simp add: own_sum_apply idle_def)
  with sp_owned_none_iff [OF file_inv_alists(5) [OF inv], of na] show ?thesis by simp
qed

lemma open_file_idle:
  fixes s t :: "('w, 'z) stats_state_scheme"
  assumes s: "idle x z F s" and c: "careful x budget" and na: "na \<noteq> nullptr" "F na = None"
    and op: "open_file x z na hp path flags mode s = (r, t)"
  shows "\<exists>failed fd h. r = Ret (failed, fd, h) \<and> (0 < ref_count s \<longrightarrow> 0 < ref_count t) \<and>
    (if failed = 0 then h = na \<and> idle x z (F(na \<mapsto> na)) t \<and> 0 < ref_count t else idle x z F t)"
proof -
  obtain fd w where fd: "c_open x path (flags OR O_DIRECT) (Some mode) (world s) = (fd, w)" by fastforce
  show ?thesis
  proof (cases "fd = -1")
    case True
    with op fd s show ?thesis
      by (intro exI [of _ 1] exI [of _ fd] exI [of _ nullptr])
        (auto simp: open_file_def cbind_def call_ext_def say_errno_def cget_def say_apply cret_def)
  next
    case False
    let ?s = "s\<lparr>world := w\<rparr>"
    let ?d = "\<lparr>descr_type = hipFileHandleTypeOpaqueFD, descr_fd = fd, descr_hFile = nullptr, descr_fs_ops = nullptr\<rparr>"
    have x: "closes x" using c by (simp add: careful_def)
    obtain e h u where u: "hipFileHandleRegister x na hp (Some ?d) ?s = (Ret (e, h), u)"
      using hipFileHandleRegister_not_terminate [OF x] by (metis surj_pair)
    have inv: "drv_inv (\<lambda>_. 0) (\<lambda>_. 0) (\<lambda>_. 0) ?s" "file_heap ?s na = None"
      using s unused_address [OF s na(2)] by (simp_all add: idle_def)
    note spec = hipFileHandleRegister_spec [OF inv na(1) u]
    have na': "h = None \<or> h = Some na \<and> e = hipFile_status hipFileSuccess" using spec by auto
    note fr = hipFileHandleRegister_frame [OF x u na']
    have keep: "buf_heap u = buf_heap s \<and> Configuration_fastpath x u = Configuration_fastpath x s \<and>
        (0 < ref_count s \<longrightarrow> 0 < ref_count u)"
      using fr
    proof (elim disjE exE conjE)
      fix w'
      assume "file_frame (implicit_init (?s\<lparr>world := w'\<rparr>)) u"
      from file_frame_idle [OF this] show ?thesis by (simp add: implicit_init_def Configuration_fastpath_def)
    qed (simp add: Configuration_fastpath_def)
    show ?thesis
    proof (cases "err e = hipFileSuccess")
      case True
      with fr have h: "h = Some na" by auto
      with spec keep s have "idle x z (F(na \<mapsto> na)) u" "0 < ref_count u" by (auto simp: idle_def)
      with op fd False u True h show ?thesis
        by (auto simp: open_file_def cbind_def call_ext_def cret_def)
    next
      case no: False
      have "h = None" using na' no by auto
      with spec keep s have "idle x z F u" by (auto simp: idle_def)
      with op fd False u no keep show ?thesis
        by (intro exI [of _ 1] exI [of _ fd] exI [of _ nullptr])
          (auto simp: open_file_def cbind_def call_ext_def cret_def say_apply split: prod.splits)
    qed
  qed
qed

lemma close_file_idle:
  fixes s t :: "('w, 'z) stats_state_scheme"
  assumes s: "idle x z (F(na \<mapsto> na)) s" "0 < ref_count s" and c: "careful x budget" and na: "F na = None"
    and op: "close_file x z path fd na s = (r, t)"
  shows "(r = Ret 0 \<or> r = Ret 1) \<and> idle x z F t \<and> 0 < ref_count t"
proof -
  obtain r0 u where u: "hipFileHandleDeregister x na s = (r0, u)" by fastforce
  have inv: "drv_inv (\<lambda>_. 0) (\<lambda>_. 0) (\<lambda>_. 0) s" using s by (simp add: idle_def)
  have "r0 \<noteq> Terminate" using hipFileHandleDeregister_not_terminate [OF _ inv u] c by (simp add: careful_def)
  note spec = hipFileHandleDeregister_spec [OF inv u this]
  have "file_lookup u = F(na := None)" using spec s by (simp add: idle_def)
  also have "\<dots> = F" using na by (rule fun_upd_idem)
  finally have "file_lookup u = F" .
  with spec file_frame_idle [OF hipFileHandleDeregister_frame [OF u]] s have "idle x z F u" "0 < ref_count u"
    by (simp_all add: idle_def)
  with op u spec show ?thesis
    by (auto simp: close_file_def cbind_def call_ext_def cret_def cget_def say_errno_def say_apply
        split: prod.splits if_splits)
qed

section \<open>The program\<close>

lemma copy_through_device_code:
  assumes "copy_through_device x z sp dp sh dh fd fsz bs s = Some (Ret code, t)"
  shows "code = EXIT_SUCCESS \<or> code = EXIT_FAILURE"
  using assms
  by (auto simp: copy_through_device_def copy_file_def Let_def obind_eq_Some_Ret_iff olift_def cbind_eq_Ret_iff cret_def
      split: if_splits prod.splits)

lemma copy_source_idle:
  fixes s t :: "('w, 'z) stats_state_scheme"
  assumes s: "idle x z F s" "0 < ref_count s" and c: "careful x budget"
    and na: "new_src_file z \<noteq> nullptr" "F (new_src_file z) = None"
    and op: "copy_source x z sp dp dh dfd fsz bs s = Some (r, t)"
  shows "(r = Ret EXIT_SUCCESS \<or> r = Ret EXIT_FAILURE) \<and> idle x z F t \<and> 0 < ref_count t"
proof (cases "fsz = 0")
  case True
  with op s show ?thesis by (simp add: copy_source_def olift_def cret_def)
next
  case False
  obtain ro u where o: "open_file x z (new_src_file z) (addr_src_handle z) sp O_RDONLY 0 s = (ro, u)" by fastforce
  from open_file_idle [OF s(1) c na o] obtain failed fd h where
    f: "ro = Ret (failed, fd, h)" "0 < ref_count u"
      "if failed = 0 then h = new_src_file z \<and> idle x z (F(new_src_file z \<mapsto> new_src_file z)) u else idle x z F u"
    using s(2) by (auto split: if_splits)
  show ?thesis
  proof (cases "failed = 0")
    case bad: False
    with op False o f show ?thesis by (simp add: copy_source_def obind_def olift_def cret_def)
  next
    case True
    let ?m = "copy_through_device x z sp dp h dh dfd fsz bs"
    obtain r1 v where v: "?m u = Some (r1, v)"
      using op False o f True by (auto simp: copy_source_def obind_def olift_def split: option.splits)
    with leavesD [OF leaves_copy_file [OF c] _ f(2)] f(3) True obtain code where
      v': "r1 = Ret code" "idle x z (F(new_src_file z \<mapsto> new_src_file z)) v" "0 < ref_count v" by force
    obtain rc q where q: "close_file x z sp fd (new_src_file z) v = (rc, q)" by fastforce
    note cl = close_file_idle [OF v'(2,3) c na(2) q]
    note code = copy_through_device_code [OF v [unfolded v'(1)]]
    from cl code op False o f True v v' q show ?thesis
      by (auto simp: copy_source_def obind_def olift_def cbind_def cret_def)
  qed
qed

lemma aiscp_main_idle:
  fixes s t :: "('w, 'z) stats_state_scheme"
  assumes s: "idle x z F s" and c: "careful x budget"
    and na: "new_src_file z \<noteq> nullptr" "F (new_src_file z) = None" "new_dst_file z \<noteq> nullptr" "F (new_dst_file z) = None"
      "new_src_file z \<noteq> new_dst_file z"
    and op: "aiscp_main x z argv s = Some (r, t)"
  shows "(r = Ret EXIT_SUCCESS \<or> r = Ret EXIT_FAILURE) \<and> idle x z F t"
proof (cases "length argv = 3")
  case False
  with op s show ?thesis
    by (auto simp: aiscp_main_def olift_def cbind_def say_apply cret_def EXIT_FAILURE_def)
next
  case True
  let ?sp = "argv ! 1" and ?dp = "argv ! 2"
  obtain r0 fsz bs w where st: "c_stat z ?sp (world s) = ((r0, fsz, bs), w)" by (metis surj_pair)
  let ?s = "s\<lparr>world := w\<rparr>"
  show ?thesis
  proof (cases "r0 \<noteq> 0 \<or> \<not> is_power_of_two bs")
    case bad: True
    with op True st s show ?thesis
      by (auto simp: aiscp_main_def Let_def obind_def olift_def call_ext_def cbind_def cget_def say_errno_def say_apply
          cret_def split: if_splits)
  next
    case ok: False
    obtain ro u where o: "open_file x z (new_dst_file z) (addr_dst_handle z) ?dp (O_WRONLY OR O_CREAT) dst_mode ?s = (ro, u)"
      by fastforce
    have "idle x z F ?s" using s by simp
    from open_file_idle [OF this c na(3,4) o] obtain failed fd h where f: "ro = Ret (failed, fd, h)"
      "if failed = 0 then h = new_dst_file z \<and> idle x z (F(new_dst_file z \<mapsto> new_dst_file z)) u \<and> 0 < ref_count u
       else idle x z F u" by (auto split: if_splits)
    show ?thesis
    proof (cases "failed = 0")
      case False
      with op True st ok o f show ?thesis
        by (simp add: aiscp_main_def Let_def obind_def olift_def call_ext_def cret_def)
    next
      case reg: True
      let ?F = "F(new_dst_file z \<mapsto> new_dst_file z)"
      have u: "idle x z ?F u" "0 < ref_count u" "h = new_dst_file z" using f(2) reg by simp_all
      obtain r1 v where v: "copy_source x z ?sp ?dp (new_dst_file z) fd fsz bs u = Some (r1, v)"
        using op True st ok o f reg
        by (auto simp: aiscp_main_def Let_def obind_def olift_def call_ext_def split: option.splits)
      note cs = copy_source_idle [OF u(1,2) c na(1) _ v]
      have v': "r1 = Ret EXIT_SUCCESS \<or> r1 = Ret EXIT_FAILURE" "idle x z ?F v" "0 < ref_count v"
        using cs na(2,5) by auto
      obtain rc q where q: "close_file x z ?dp fd (new_dst_file z) v = (rc, q)" by fastforce
      note cl = close_file_idle [OF v'(2,3) c na(4) q]
      from cl v' op True st ok o f reg v q show ?thesis
        by (auto simp: aiscp_main_def Let_def obind_def olift_def call_ext_def cbind_def cret_def)
    qed
  qed
qed

end
