(* ===== verification/Aiscp_Total.thy ===== *)
theory Aiscp_Total
  imports Aiscp_Main
begin

text \<open>
  The copy program returns: on a documented platform, through the fallback backend, both of its loops end
  whatever the files hold and whichever calls fail. The offset in the source grows with every round and stays
  below the largest offset, and a write that reports no error has written something.
\<close>

section \<open>The loops\<close>

lemma write_chunk_returns:
  fixes s :: "('w, 'z) stats_state_scheme"
  assumes r: "copy_ready EB EF ES x z hs devbuf s" and p: "documented_platform x v"
    and b: "interrupts_bounded x budget" and rw: "max_rw_count x \<noteq> 0" and bs: "is_power_of_two bs"
    and n: "nat n < 2 ^ 63"
  shows "\<exists>ok t. write_chunk x z path h devbuf bs fo n s = Some (Ret ok, t) \<and> copy_ready EB EF ES x z hs devbuf t"
  unfolding write_chunk_def
proof (rule owloop_total [where R = "measure (\<lambda>(m, u :: ('w, 'z) stats_state_scheme). nat (n - m))" and
      I = "\<lambda>m u. 0 \<le> m \<and> copy_ready EB EF ES x z hs devbuf u"])
  fix m :: int and u :: "('w, 'z) stats_state_scheme"
  assume "0 \<le> m \<and> copy_ready EB EF ES x z hs devbuf u"
  then have m: "0 \<le> m" and ru: "copy_ready EB EF ES x z hs devbuf u" by blast+
  let ?P = "\<lambda>r t. case r of
      Inl m' \<Rightarrow> (0 \<le> m' \<and> copy_ready EB EF ES x z hs devbuf t) \<and>
        ((m', t), (m, u)) \<in> measure (\<lambda>(m, u :: ('w, 'z) stats_state_scheme). nat (n - m))
    | Inr ok \<Rightarrow> copy_ready EB EF ES x z hs devbuf t"
  show "\<exists>r t. write_chunk_round x z path h devbuf bs fo n m u = Some (Ret r, t) \<and> ?P r t"
  proof (cases "m < n")
    case False
    with ru show ?thesis by (simp add: write_chunk_round_def olift_def cret_def)
  next
    case True
    let ?sz = "align_up (word_of_int (n - m)) bs"
    from copy_ready_io(2) [OF ru p b] obtain k t where t: "hipFileWrite x (new_buffer z (world u)) h devbuf ?sz
        (fo + word_of_int m) (word_of_int m) u = Some (Ret k, t)" and rt: "copy_ready EB EF ES x z hs devbuf t" by blast
    show ?thesis
    proof (cases "k < 0")
      case neg: True
      obtain w where "io_message x z (''Could not write to '' @ path) k t = (Ret (), t\<lparr>world := w\<rparr>)"
        by (metis io_message_world)
      with neg t True copy_ready_frame [OF io_frame_upds(1) rt] show ?thesis
        by (simp add: write_chunk_round_def obind_def olift_def cbind_def cret_def)
    next
      case False
      have ready: "drv_inv EB EF ES u" "buf_heap u (new_buffer z (world u)) = None" "hip_codes x"
        "\<not> Configuration_fastpath x u" and prog: "writes_progress x" "transfer_counts x"
        using ru p by (simp_all add: copy_ready_def documented_platform_def)
      have "0 < k"
        by (rule client_write_progress [OF ready prog rest_of_chunk [OF bs m True n] rw _ t]) (use False in simp)
      with m True t rt show ?thesis
        by (simp add: write_chunk_round_def obind_def olift_def cret_def)
    qed
  qed
qed (use r in auto)

lemma copy_chunks_returns:
  fixes s :: "('w, 'z) stats_state_scheme"
  assumes r: "copy_ready EB EF ES x z {(sh, sf)} devbuf s" and p: "documented_platform x v"
    and b: "interrupts_bounded x budget" and rw: "max_rw_count x \<noteq> 0" and bs: "is_power_of_two bs"
  shows "\<exists>ok t. copy_chunks x z sp dp sh dh devbuf N bs s = Some (Ret ok, t) \<and>
    copy_ready EB EF ES x z {(sh, sf)} devbuf t"
  unfolding copy_chunks_def
proof (rule owloop_total [where I = "\<lambda>fo u. 0 \<le> sint (fo :: hoff_t) \<and> copy_ready EB EF ES x z {(sh, sf)} devbuf u" and
      R = "measure (\<lambda>(fo, u :: ('w, 'z) stats_state_scheme). 2 ^ 63 - nat (sint (fo :: hoff_t)))"])
  fix fo :: hoff_t and u :: "('w, 'z) stats_state_scheme"
  let ?ready = "copy_ready EB EF ES x z {(sh, sf)} devbuf"
  assume "0 \<le> sint fo \<and> ?ready u"
  then have fo: "0 \<le> sint fo" and ru: "?ready u" by blast+
  let ?P = "\<lambda>r t. case r of
      Inl fo' \<Rightarrow> (0 \<le> sint (fo' :: hoff_t) \<and> ?ready t) \<and>
        ((fo', t), (fo, u)) \<in> measure (\<lambda>(fo, u :: ('w, 'z) stats_state_scheme). 2 ^ 63 - nat (sint (fo :: hoff_t)))
    | Inr ok \<Rightarrow> ?ready t"
  from copy_ready_io(1) [OF ru p b] obtain n t where
    t: "hipFileRead x (new_buffer z (world u)) sh devbuf N fo 0 u = Some (Ret n, t)" and rt: "?ready t" by blast
  show "\<exists>r t. copy_round x z sp dp sh dh devbuf N bs fo u = Some (Ret r, t) \<and> ?P r t"
  proof (cases "n < 0")
    case True
    obtain w where "io_message x z (''Could not read from '' @ sp) n t = (Ret (), t\<lparr>world := w\<rparr>)"
      by (metis io_message_world)
    with True t copy_ready_frame [OF io_frame_upds(1) rt] show ?thesis
      by (simp add: copy_round_def obind_def olift_def cbind_def cret_def)
  next
    case False
    then have n: "0 \<le> n" by simp
    obtain q where q: "file_lookup u sh = Some q" "sp_obj q (file_heap u) = Some sf"
      using ru by (auto simp: copy_ready_def)
    have ready: "drv_inv EB EF ES u" "buf_heap u (new_buffer z (world u)) = None" "hip_codes x"
      "\<not> Configuration_fastpath x u" "documented_queries x v" and nb: "buf_lookup u devbuf = None"
      and pr: "documented_pread x v" "documented_memcpy x v" "documented_mmap x v" "documented_munmap x v"
      using ru p by (simp_all add: copy_ready_def documented_platform_def)
    have "nat (sint fo) + nat n < 2 ^ 63" if "0 < n"
      using client_read [OF ready pr q nb n t] file_length_bound [OF pr(1), of "world u" "File_bufferedFd sf"] that
      by linarith
    moreover have "nat (sint fo) < 2 ^ 63" using sint_lt [of fo] fo by simp
    ultimately have lt: "nat (sint fo) + nat n < 2 ^ 63" using n by (cases "n = 0") auto
    then have "nat n < 2 ^ 63" by linarith
    from write_chunk_returns [OF rt p b rw bs this] obtain ok t2 where
      t2: "write_chunk x z dp dh devbuf bs fo n t = Some (Ret ok, t2)" "?ready t2" by blast
    show ?thesis
    proof (cases "ok \<and> 0 < n")
      case True
      note oa = offset_add [OF fo n lt]
      have "2 ^ 63 - nat (sint (fo + word_of_int n)) < 2 ^ 63 - nat (sint fo)"
        unfolding oa(1) using lt True by linarith
      with True False t t2 oa(2) show ?thesis by (simp add: copy_round_def obind_def olift_def cret_def)
    next
      case no: False
      with False t t2 show ?thesis by (cases ok) (simp_all add: copy_round_def obind_def olift_def cret_def)
    qed
  qed
qed (use r in auto)

section \<open>The program\<close>

text \<open>A part of the program that always returns, without an exception.\<close>

definition returns :: "('s, 'a) ocxx \<Rightarrow> 's \<Rightarrow> bool" where
  "returns m s \<longleftrightarrow> (\<exists>a t. m s = Some (Ret a, t))"

lemma returns_obind:
  assumes "returns m s" and "\<And>a t. m s = Some (Ret a, t) \<Longrightarrow> returns (k a) t"
  shows "returns (obind m k) s"
  using assms by (auto simp: returns_def obind_def)

lemma returns_if: "returns m s \<Longrightarrow> returns n s \<Longrightarrow> returns (if b then m else n) s"
  by simp

lemma returns_only_world: "only_world m \<Longrightarrow> returns (olift m) s"
  unfolding returns_def olift_def only_world_def by (metis option.inject)

lemma copy_through_device_returns:
  fixes s :: "('w, 'z) stats_state_scheme"
  assumes s: "idle x z F s" "F sh = Some fp" and p: "documented_platform x v" and b: "interrupts_bounded x budget"
    and rw: "max_rw_count x \<noteq> 0" and bs: "is_power_of_two bs"
    and fresh: "\<And>n w q w'. hip_Malloc z n w = ((hipSuccess, q), w') \<Longrightarrow> buf_lookup s q = None"
  shows "returns (copy_through_device x z sp dp sh dh fd fsz bs) s"
proof -
  let ?N = "align_up (min fsz AISCP_CHUNK_SIZE) bs"
  obtain e q w where m: "hip_Malloc z ?N (world s) = ((e, q), w)" by (metis surj_pair)
  show ?thesis
  proof (cases "e = hipSuccess")
    case False
    with m show ?thesis
      by (simp add: returns_def copy_through_device_def Let_def obind_def olift_def cbind_def call_ext_def say_apply cret_def)
  next
    case True
    let ?s = "s\<lparr>world := w\<rparr>"
    have "file_inv (\<lambda>_. 0) ?s" using s(1) by (simp add: idle_def drv_inv_def)
    moreover have "file_lookup ?s sh = Some fp" using s by (simp add: idle_def)
    ultimately obtain sf where "sp_obj fp (file_heap ?s) = Some sf" by (rule file_inv_fh)
    with s fresh m True have "copy_ready (\<lambda>_. 0) (\<lambda>_. 0) (\<lambda>_. 0) x z {(sh, sf)} q ?s"
      by (auto simp: copy_ready_def idle_def Configuration_fastpath_def buf_lookup_def)
    from copy_chunks_returns [OF this p b rw bs] obtain ok t where
      t: "copy_chunks x z sp dp sh dh q ?N bs ?s = Some (Ret ok, t)" by blast
    have "returns (copy_file x z sp dp sh dh fd q ?N bs fsz) ?s"
      unfolding copy_file_def
      by (intro returns_obind returns_if returns_only_world only_world_intros only_world_say)
        (use t in \<open>simp add: returns_def\<close>)
    then obtain code u where u: "copy_file x z sp dp sh dh fd q ?N bs fsz ?s = Some (Ret code, u)"
      by (auto simp: returns_def)
    with m True show ?thesis
      by (simp add: returns_def copy_through_device_def Let_def obind_def olift_def cbind_def call_ext_def say_apply cret_def
          split: prod.splits)
  qed
qed

lemma file_frame_buffers:
  fixes s t :: "('w, 'z) stats_state_scheme"
  shows "file_frame s t \<Longrightarrow> from_ptr t = from_ptr s"
  by (cases s; cases t) (simp add: file_frame_def)

lemma open_file_buffers:
  fixes s t :: "('w, 'z) stats_state_scheme"
  assumes s: "idle x z F s" and c: "careful x budget" and na: "na \<noteq> nullptr" "F na = None"
    and op: "open_file x z na hp path flags mode s = (r, t)"
  shows "buf_lookup t = buf_lookup s"
proof -
  obtain fd w where fd: "c_open x path (flags OR O_DIRECT) (Some mode) (world s) = (fd, w)" by fastforce
  show ?thesis
  proof (cases "fd = -1")
    case True
    with op fd show ?thesis
      by (auto simp: open_file_def cbind_def call_ext_def say_errno_def cget_def say_apply cret_def buf_lookup_def)
  next
    case False
    let ?s = "s\<lparr>world := w\<rparr>"
    let ?d = "\<lparr>descr_type = hipFileHandleTypeOpaqueFD, descr_fd = fd, descr_hFile = nullptr, descr_fs_ops = nullptr\<rparr>"
    have x: "closes x" using c by (simp add: careful_def)
    obtain e h u where u: "hipFileHandleRegister x na hp (Some ?d) ?s = (Ret (e, h), u)"
      using hipFileHandleRegister_not_terminate [OF x] by (metis surj_pair)
    have inv: "drv_inv (\<lambda>_. 0) (\<lambda>_. 0) (\<lambda>_. 0) ?s" "file_heap ?s na = None"
      using s unused_address [OF s na(2)] by (simp_all add: idle_def)
    have "h = None \<or> h = Some na \<and> e = hipFile_status hipFileSuccess"
      using hipFileHandleRegister_spec [OF inv na(1) u] by auto
    from hipFileHandleRegister_frame [OF x u this] have "from_ptr u = from_ptr s"
    proof (elim disjE exE conjE)
      fix w'
      assume "file_frame (implicit_init (?s\<lparr>world := w'\<rparr>)) u"
      from file_frame_buffers [OF this] show ?thesis by (simp add: implicit_init_def split: if_splits)
    qed simp
    then have "buf_lookup u = buf_lookup s" by (simp add: buf_lookup_def)
    with op fd False u show ?thesis
      by (auto simp: open_file_def cbind_def call_ext_def cret_def say_apply buf_lookup_def split: if_splits prod.splits)
  qed
qed

lemma copy_source_returns:
  fixes s :: "('w, 'z) stats_state_scheme"
  assumes s: "idle x z F s" "0 < ref_count s" and c: "careful x budget" and p: "documented_platform x v"
    and rw: "max_rw_count x \<noteq> 0" and bs: "is_power_of_two bs"
    and na: "new_src_file z \<noteq> nullptr" "F (new_src_file z) = None"
    and fresh: "\<And>n w q w'. hip_Malloc z n w = ((hipSuccess, q), w') \<Longrightarrow> buf_lookup s q = None"
  shows "returns (copy_source x z sp dp dh dfd fsz bs) s"
proof (cases "fsz = 0")
  case True
  then show ?thesis by (simp add: copy_source_def returns_def olift_def cret_def)
next
  case False
  have b: "interrupts_bounded x budget" using c by (simp add: careful_def)
  obtain ro u where o: "open_file x z (new_src_file z) (addr_src_handle z) sp O_RDONLY 0 s = (ro, u)" by fastforce
  from open_file_idle [OF s(1) c na o] obtain failed fd h where f: "ro = Ret (failed, fd, h)"
    "0 < ref_count u" "if failed = 0 then h = new_src_file z \<and> idle x z (F(new_src_file z \<mapsto> new_src_file z)) u else idle x z F u"
    using s(2) by (auto split: if_splits)
  show ?thesis
  proof (cases "failed = 0")
    case bad: False
    with False o f show ?thesis by (simp add: returns_def copy_source_def obind_def olift_def cret_def)
  next
    case True
    have m: "idle x z (F(new_src_file z \<mapsto> new_src_file z)) u" and h: "h = new_src_file z" using f(3) True by simp_all
    have fr: "buf_lookup u q = None" if "hip_Malloc z n w = ((hipSuccess, q), w')" for n w q w'
      using fresh [OF that] open_file_buffers [OF s(1) c na o] by simp
    have "returns (copy_through_device x z sp dp (new_src_file z) dh dfd fsz bs) u"
      by (rule copy_through_device_returns [OF m _ p b rw bs fr]) simp_all
    then obtain code v where v: "copy_through_device x z sp dp (new_src_file z) dh dfd fsz bs u = Some (Ret code, v)"
      by (auto simp: returns_def)
    with leavesD [OF leaves_copy_file [OF c] m f(2)] have v': "idle x z (F(new_src_file z \<mapsto> new_src_file z)) v" "0 < ref_count v"
      by blast+
    obtain rc q where q: "close_file x z sp fd (new_src_file z) v = (rc, q)" by fastforce
    from close_file_idle [OF v' c na(2) q] q False o f True h v show ?thesis
      by (auto simp: returns_def copy_source_def obind_def olift_def cbind_def cret_def)
  qed
qed

text \<open>The whole program, from any state between two calls.\<close>

lemma aiscp_main_returns:
  fixes s :: "('w, 'z) stats_state_scheme"
  assumes s: "idle x z F s" and c: "careful x budget" and p: "documented_platform x v" and rw: "max_rw_count x \<noteq> 0"
    and na: "new_src_file z \<noteq> nullptr" "F (new_src_file z) = None" "new_dst_file z \<noteq> nullptr" "F (new_dst_file z) = None"
      "new_src_file z \<noteq> new_dst_file z"
    and fresh: "\<And>n w q w'. hip_Malloc z n w = ((hipSuccess, q), w') \<Longrightarrow> buf_lookup s q = None"
  shows "returns (aiscp_main x z argv) s"
proof (cases "length argv = 3")
  case False
  then show ?thesis by (simp add: returns_def aiscp_main_def olift_def cbind_def say_apply cret_def)
next
  case True
  let ?sp = "argv ! 1" and ?dp = "argv ! 2"
  obtain r0 fsz bs w where st: "c_stat z ?sp (world s) = ((r0, fsz, bs), w)" by (metis surj_pair)
  let ?s = "s\<lparr>world := w\<rparr>"
  show ?thesis
  proof (cases "r0 \<noteq> 0 \<or> \<not> is_power_of_two bs")
    case bad: True
    with True st show ?thesis
      by (auto simp: returns_def aiscp_main_def Let_def obind_def olift_def call_ext_def cbind_def cget_def say_errno_def
          say_apply cret_def)
  next
    case ok: False
    obtain ro u where o: "open_file x z (new_dst_file z) (addr_dst_handle z) ?dp (O_WRONLY OR O_CREAT) dst_mode ?s = (ro, u)"
      by fastforce
    have i: "idle x z F ?s" using s by simp
    from open_file_idle [OF i c na(3,4) o] obtain failed fd h where f: "ro = Ret (failed, fd, h)"
      "failed = 0 \<Longrightarrow> h = new_dst_file z \<and> idle x z (F(new_dst_file z \<mapsto> new_dst_file z)) u \<and> 0 < ref_count u"
      by (auto split: if_splits)
    show ?thesis
    proof (cases "failed = 0")
      case False
      with True st ok o f show ?thesis
        by (simp add: returns_def aiscp_main_def Let_def obind_def olift_def call_ext_def cret_def)
    next
      case reg: True
      let ?F = "F(new_dst_file z \<mapsto> new_dst_file z)"
      have u: "idle x z ?F u" "0 < ref_count u" "h = new_dst_file z" using f(2) reg by simp_all
      have na': "?F (new_src_file z) = None" using na by simp
      have fr: "buf_lookup u q = None" if "hip_Malloc z n w = ((hipSuccess, q), w')" for n w q w'
        using fresh [OF that] open_file_buffers [OF i c na(3,4) o] by (simp add: buf_lookup_def)
      have bs: "is_power_of_two bs" using ok by simp
      have "returns (copy_source x z ?sp ?dp (new_dst_file z) fd fsz bs) u"
        by (rule copy_source_returns [OF u(1,2) c p rw bs na(1) na' fr])
      then obtain code v where v: "copy_source x z ?sp ?dp (new_dst_file z) fd fsz bs u = Some (Ret code, v)"
        by (auto simp: returns_def)
      from copy_source_idle [OF u(1,2) c na(1) na' v] have v': "idle x z ?F v" "0 < ref_count v" by blast+
      obtain rc q where q: "close_file x z ?dp fd (new_dst_file z) v = (rc, q)" by fastforce
      from close_file_idle [OF v' c na(4) q] q True st ok o f reg u v show ?thesis
        by (auto simp: returns_def aiscp_main_def Let_def obind_def olift_def call_ext_def cbind_def cret_def)
    qed
  qed
qed

end
