(* ===== verification/Sample_Aiscp.thy ===== *)
theory Sample_Aiscp
  imports Aiscp_Total Sample_Platform
begin

text \<open>
  A platform on which the copy program runs: the sample platform with two files that are opened by
  name, writes that fail when the device is full, and one device allocation.
\<close>

section \<open>The platform\<close>

definition sample_aiscp_open :: "string \<Rightarrow> 32 word \<Rightarrow> 32 word option \<Rightarrow> sample \<Rightarrow> int \<times> sample" where
  "sample_aiscp_open path flags mode w =
     (if path = ''missing'' then -1 else if path = ''src'' then 3 else if path = ''dst'' then 4 else if flags AND O_DIRECT \<noteq> 0 then 11 else 10, w)"

definition sample_full_pwrite :: "int \<Rightarrow> ptr \<Rightarrow> size_t \<Rightarrow> hoff_t \<Rightarrow> sample \<Rightarrow> int \<times> sample" where
  "sample_full_pwrite fd p n off w =
     (if sample_max_file \<le> nat (sint off) then (-1, w\<lparr>sm_errno := 28\<rparr>) else sample_pwrite fd p n off w)"

definition sample_range :: "ptr \<Rightarrow> sample \<Rightarrow> (hipError_t \<times> ptr \<times> size_t) \<times> sample" where
  "sample_range p w =
     ((if sample_device_base \<le> p \<and> p - sample_device_base < 0x1000000 then hipSuccess else hipErrorInvalidValue,
       sample_device_base, 0x1000000), w)"

definition sample_copier :: "sample ext" where
  "sample_copier = sample_compat
     \<lparr>c_open := sample_aiscp_open, c_pwrite := sample_full_pwrite, hip_MemGetAddressRange := sample_range\<rparr>"

definition sample_ftruncate :: "int \<Rightarrow> 64 word \<Rightarrow> sample \<Rightarrow> int \<times> sample" where
  "sample_ftruncate fd n w =
     (let c = sample_content w fd
      in if unat n \<le> sample_max_file
         then (0, w\<lparr>sm_file := (sm_file w)(fd := take (unat n) (c @ replicate (unat n - length c) 0))\<rparr>)
         else (-1, w))"

definition sample_aiscp :: "sample aiscp_ext" where
  "sample_aiscp =
     \<lparr>c_stat = (\<lambda>path w. ((0, of_nat (length (sample_content w 3)), 4), w)),
      c_ftruncate_fd = sample_ftruncate,
      c_strerror = (\<lambda>e. ''error''), c_fprintf_stderr = (\<lambda>msg w. w),
      hip_Malloc = (\<lambda>n w. ((hipSuccess, sample_buf), w)), hip_Free = (\<lambda>p w. (hipSuccess, w)),
      new_buffer = (\<lambda>w. 0x8000), new_src_file = 0x5100, new_dst_file = 0x5200,
      addr_src_handle = 0x7000, addr_dst_handle = 0x7008\<rparr>"

definition sample_disk :: "sample batch_state" where
  "sample_disk = (sample_init 1)\<lparr>world := (sample_world 1)\<lparr>sm_file :=
     (\<lambda>fd. if fd = 3 then [72, 73, 80, 70, 73, 76, 69] else if fd = 4 then replicate 12 1 else [])\<rparr>\<rparr>"

section \<open>It behaves as documented\<close>

lemma copier_same:
  "documented_pread sample_copier v = documented_pread sample_compat v"
  "documented_memcpy sample_copier v = documented_memcpy sample_compat v"
  "documented_mmap sample_copier v = documented_mmap sample_compat v"
  "documented_munmap sample_copier v = documented_munmap sample_compat v"
  "documented_syncs sample_copier v = documented_syncs sample_compat v"
  by (simp_all add: documented_pread_def documented_memcpy_def documented_mmap_def documented_munmap_def
      documented_syncs_def sample_copier_def)

lemma full_pwrite_cases:
  assumes "sample_full_pwrite fd p n off w = (r, w')"
  obtains "sample_max_file \<le> nat (sint off)" "r = -1" "w' = w\<lparr>sm_errno := 28\<rparr>"
    | "nat (sint off) < sample_max_file" "sample_pwrite fd p n off w = (r, w')"
  using assms by (auto simp: sample_full_pwrite_def split: if_splits)

lemma copier_pwrite: "documented_pwrite sample_copier sample_view"
  unfolding documented_pwrite_def
proof (intro allI impI, elim conjE)
  fix fd p n off w r w'
  assume pw: "c_pwrite sample_copier fd p n off w = (r, w')" and off: "0 \<le> sint off"
  then have "sample_full_pwrite fd p n off w = (r, w')" by (simp add: sample_copier_def)
  then show "v_mem sample_view w' = v_mem sample_view w \<and>
    (r = -1 \<and> v_file sample_view w' fd = v_file sample_view w fd \<or>
     0 \<le> r \<and> nat r \<le> unat n \<and> nat (sint off) + nat r < 2 ^ 63 \<and>
     v_file sample_view w' fd = write_at (v_file sample_view w fd) (nat (sint off))
       (map (\<lambda>i. v_mem sample_view w (p + of_nat i)) [0..<nat r]))"
  proof (cases rule: full_pwrite_cases)
    case 1
    then show ?thesis by (simp add: sample_view_def sample_content_def)
  next
    case 2
    have "c_pwrite (sample_ext (\<lambda>_. None)) fd p n off w = (r, w')" using 2 by (simp add: sample_ext_def)
    with sample_pwrite_documented [unfolded documented_pwrite_def] off show ?thesis by blast
  qed
qed

lemma copier_queries: "documented_queries sample_copier sample_view"
proof -
  have "region p (unat (0x1000000 - (p - sample_device_base))) \<subseteq> {a. sample_device_base \<le> a}"
    if "sample_device_base \<le> p" "p - sample_device_base < (0x1000000 :: size_t)" for p
  proof
    fix a
    assume "a \<in> region p (unat (0x1000000 - (p - sample_device_base)))"
    then obtain i where i: "i < unat (0x1000000 - (p - sample_device_base))" "a = p + of_nat i" by (auto simp: region_def)
    let ?d = "p - sample_device_base"
    have d: "unat ?d < 0x1000000" using that(2) by (simp add: word_less_nat_alt)
    have p: "unat p = 0x100000000 + unat ?d"
      using that(1) by (simp add: unat_sub word_le_nat_alt sample_device_base_def)
    have "unat (0x1000000 - ?d) = 0x1000000 - unat ?d" using that(2) by (simp add: unat_sub)
    with i d p have "unat a = 0x100000000 + unat ?d + i" by (simp add: unat_word_ariths unat_of_nat)
    then show "a \<in> {a. sample_device_base \<le> a}" by (simp add: word_le_nat_alt sample_device_base_def)
  qed
  then show ?thesis
    by (auto simp: documented_queries_def sample_copier_def sample_range_def sample_view_def sample_defs)
qed

lemma copier_codes: "hip_codes sample_copier"
  by (simp add: hip_codes_def sample_copier_def sample_defs split: hipError_t.split)

lemma copier_unmaps: "unmaps sample_copier" "closes sample_copier"
  by (simp_all add: unmaps_def closes_def sample_copier_def sample_defs)

lemma copier_pread: "c_pread sample_copier = sample_pread" "c_pwrite sample_copier = sample_full_pwrite"
  by (simp_all add: sample_copier_def sample_defs)

lemma copier_counts: "transfer_counts sample_copier"
  by (auto simp: transfer_counts_def copier_pread sample_full_pwrite_def sample_pread_def sample_pwrite_def Let_def
      split: if_splits)

lemma copier_interrupts: "interrupts_bounded sample_copier sm_interrupts"
  by (auto simp: interrupts_bounded_def copier_pread sample_full_pwrite_def sample_copier_def sample_defs sample_pread_def
      sample_pwrite_def Let_def sample_interrupted_def sample_memcpy_def EINTR_def split: if_splits)

lemma copier_progress: "writes_progress sample_copier"
  by (auto simp: writes_progress_def copier_pread sample_full_pwrite_def sample_pwrite_def Let_def unat_gt_0)

lemma copier_platform: "documented_platform sample_copier sample_view"
  using sample_documented [of "[''HIPFILE_FORCE_COMPAT_MODE'' \<mapsto> ''true'']", folded sample_compat_def]
  by (simp add: documented_platform_def copier_same copier_pwrite copier_queries copier_codes copier_unmaps
      copier_counts copier_progress)

lemma copier_careful: "careful sample_copier sm_interrupts"
  by (simp add: careful_def copier_codes copier_unmaps copier_counts copier_interrupts)

lemma copier_different: "fd \<noteq> fd' \<Longrightarrow> different_files sample_copier sample_view fd fd'"
  by (auto simp: different_files_def copier_pread sample_full_pwrite_def sample_pwrite_def Let_def sample_view_def
      sample_content_def sample_interrupted_def split: if_splits)

lemma copier_truncate: "fd \<noteq> fd' \<Longrightarrow> documented_truncate sample_aiscp sample_view fd fd fd'"
  by (auto simp: documented_truncate_def sample_aiscp_def sample_ftruncate_def Let_def sample_view_def sample_content_def
      min_def split: if_splits)

section \<open>Both files are registered\<close>

lemma disk_idle: "idle sample_copier sample_aiscp Map.empty sample_disk"
proof -
  have "drv_inv (\<lambda>_. 0) (\<lambda>_. 0) (\<lambda>_. 0) sample_disk"
    unfolding sample_disk_def by (simp add: sample_init_inv)
  moreover have "\<not> Configuration_fastpath sample_copier sample_disk" by code_simp
  ultimately show ?thesis
    by (simp add: idle_def sample_aiscp_def) (simp add: sample_disk_def sample_init_def file_lookup_def)
qed

definition disk_dst :: "sample batch_state" where
  "disk_dst = snd (open_file sample_copier sample_aiscp 0x5200 0x7008 ''dst'' (O_WRONLY OR O_CREAT) dst_mode sample_disk)"

definition disk_both :: "sample batch_state" where
  "disk_both = snd (open_file sample_copier sample_aiscp 0x5100 0x7000 ''src'' O_RDONLY 0 disk_dst)"

lemma disk_opened:
  "fst (open_file sample_copier sample_aiscp 0x5200 0x7008 ''dst'' (O_WRONLY OR O_CREAT) dst_mode sample_disk) =
     Ret (0, 4, 0x5200)"
  "fst (open_file sample_copier sample_aiscp 0x5100 0x7000 ''src'' O_RDONLY 0 disk_dst) = Ret (0, 3, 0x5100)"
  "map_option File_bufferedFd (sp_obj 0x5200 (file_heap disk_both)) = Some 4"
  "map_option File_bufferedFd (sp_obj 0x5100 (file_heap disk_both)) = Some 3"
  "buf_lookup disk_both sample_buf = None" "sample_content (world disk_both) 3 = [72, 73, 80, 70, 73, 76, 69]"
  by code_simp+

lemma disk_both_idle: "idle sample_copier sample_aiscp [0x5200 \<mapsto> 0x5200, 0x5100 \<mapsto> 0x5100] disk_both"
proof -
  have o1: "open_file sample_copier sample_aiscp 0x5200 0x7008 ''dst'' (O_WRONLY OR O_CREAT) dst_mode sample_disk =
      (Ret (0, 4, 0x5200), disk_dst)" using disk_opened(1) by (simp add: disk_dst_def prod_eq_iff)
  have o2: "open_file sample_copier sample_aiscp 0x5100 0x7000 ''src'' O_RDONLY 0 disk_dst =
      (Ret (0, 3, 0x5100), disk_both)" using disk_opened(2) by (simp add: disk_both_def prod_eq_iff)
  have d: "idle sample_copier sample_aiscp [0x5200 \<mapsto> 0x5200] disk_dst"
    using open_file_idle [OF disk_idle copier_careful _ _ o1] by simp
  show ?thesis using open_file_idle [OF d copier_careful _ _ o2] by simp
qed

lemma disk_context:
  assumes "sp_obj 0x5100 (file_heap disk_both) = Some sf" "File_bufferedFd sf = 3"
    and "sp_obj 0x5200 (file_heap disk_both) = Some df" "File_bufferedFd df = 4"
  shows "copy_context sample_copier sample_aiscp sample_view (0x5100, sf) (0x5200, df) sample_buf 8 4 disk_both"
proof -
  have "copy_ready (\<lambda>_. 0) (\<lambda>_. 0) (\<lambda>_. 0) sample_copier sample_aiscp {(0x5100, sf), (0x5200, df)} sample_buf disk_both"
    using disk_both_idle disk_opened(5) assms by (simp add: copy_ready_def idle_def)
  moreover have "region sample_buf (unat (8 :: size_t)) \<subseteq> v_live sample_view w" for w
  proof
    fix a
    assume "a \<in> region sample_buf (unat (8 :: size_t))"
    then obtain i where i: "i < 8" "a = sample_buf + of_nat i" by (auto simp: region_def)
    then have "unat a = 0x100000000 + i" by (simp add: sample_buf_def unat_word_ariths unat_of_nat)
    then show "a \<in> v_live sample_view w" by (simp add: sample_view_def sample_device_base_def word_le_nat_alt)
  qed
  moreover have "max_rw_count sample_copier \<noteq> 0" "is_power_of_two 4" by code_simp+
  ultimately show ?thesis
    using copier_platform copier_different [of 4 3] assms by (simp add: copy_context_def)
qed

end
