(* ===== verification/Aiscp_Properties.thy ===== *)
theory Aiscp_Properties
  imports Sample_Aiscp
begin

text \<open>
  The properties of the copy program, a client that rests on the whole stack: what it copies, and what it
  leaves behind.
\<close>

text \<open>
  C4: the copy of \<^verbatim>\<open>aiscp\<close> through the fallback backend, with the fast path off. The hypotheses
  (\<^const>\<open>copy_context\<close>): source and destination are registered and are different files, the device allocation
  of \<open>N\<close> bytes is mapped, the calls behave as documented and are interrupted finitely often, and a write that
  reports no error has written at least one byte. Then the copy returns; when it returns \<^verbatim>\<open>EXIT_SUCCESS\<close> the
  source is unchanged, the destination begins with all bytes of the source and, if the truncation cannot fail, it
  is equal to the source. No use of an object and no temporary object is left. Without the last two
  hypotheses it need not return: \<open>zero_write_spins\<close> shows the endless loop on writes of zero bytes.
\<close>

theorem aiscp_copies_the_file:
  fixes s :: "('w, 'z) stats_state_scheme"
  assumes "copy_context x z v (sh, sf) (dh, df) devbuf N bs s" and "interrupts_bounded x budget"
    and "v_file v (world s) (File_bufferedFd sf) = src" and "unat fsz = length src"
    and "documented_truncate z v dst_fd (File_bufferedFd df) (File_bufferedFd sf)"
    and "\<And>m w. v_file v (c_fprintf_stderr z m w) = v_file v w"
  shows "\<exists>code t. copy_file x z sp dp sh dh dst_fd devbuf N bs fsz s = Some (Ret code, t) \<and>
    drv_inv (\<lambda>_. 0) (\<lambda>_. 0) (\<lambda>_. 0) t \<and> (\<forall>w. buf_heap t (new_buffer z w) = None) \<and>
    (code = EXIT_FAILURE \<or> code = EXIT_SUCCESS \<and> v_file v (world t) (File_bufferedFd sf) = src \<and>
       take (length src) (v_file v (world t) (File_bufferedFd df)) = src \<and>
       ((\<forall>w. fst (c_ftruncate_fd z dst_fd fsz w) \<noteq> -1) \<longrightarrow> v_file v (world t) (File_bufferedFd df) = src))"
  using copy_file_total [OF assms(1-3,5,6), of sp dp fsz] assms(4) unfolding copy_ready_def by blast

theorem aiscp_copies_the_file_witness:
  "\<exists>t. copy_file sample_copier sample_aiscp ''src'' ''dst'' 0x5100 0x5200 4 sample_buf 8 4 7 disk_both =
       Some (Ret EXIT_SUCCESS, t) \<and> sample_content (world t) 4 = [72, 73, 80, 70, 73, 76, 69]"
proof -
  have code: "map_option fst (copy_file sample_copier sample_aiscp ''src'' ''dst'' 0x5100 0x5200 4 sample_buf 8 4 7 disk_both) =
      Some (Ret EXIT_SUCCESS)" by code_simp
  obtain sf df where f: "sp_obj 0x5100 (file_heap disk_both) = Some sf" "File_bufferedFd sf = 3"
    "sp_obj 0x5200 (file_heap disk_both) = Some df" "File_bufferedFd df = 4" using disk_opened(3,4) by auto
  have src: "v_file sample_view (world disk_both) (File_bufferedFd sf) = [72, 73, 80, 70, 73, 76, 69]"
    using disk_opened(6) f by (simp add: sample_view_def)
  have tr: "documented_truncate sample_aiscp sample_view 4 (File_bufferedFd df) (File_bufferedFd sf)"
    using copier_truncate [of 4 3] f by simp
  have quiet: "v_file sample_view (c_fprintf_stderr sample_aiscp m w) = v_file sample_view w" for m w
    by (simp add: sample_aiscp_def)
  have cut: "fst (c_ftruncate_fd sample_aiscp 4 7 w) \<noteq> -1" for w
    by (simp add: sample_aiscp_def sample_ftruncate_def sample_max_file_def Let_def)
  from aiscp_copies_the_file [OF disk_context [OF f] copier_interrupts src _ tr quiet, of 7 "''src''" "''dst''"] code cut f
  show ?thesis by (auto simp: sample_view_def EXIT_FAILURE_def EXIT_SUCCESS_def)
qed

text \<open>
  C15: on a platform whose calls behave as documented (a write that reports no error has written something,
  interruptions are finitely many) and with the fast path off, \<^verbatim>\<open>aiscp\<close> returns, whatever its arguments are
  and whichever calls fail. (Onto one and the same file it may copy until the device is full or offsets run out, but it
  ends.) It returns one of its two exit codes and
  leaves the driver as it was: every handle that it registered is deregistered, no use of an object is left,
  and the invariant holds. The device memory that it is given must not be a registered buffer.
\<close>

theorem aiscp_leaves_no_handle:
  fixes s :: "('w, 'z) stats_state_scheme"
  assumes "drv_inv (\<lambda>_. 0) (\<lambda>_. 0) (\<lambda>_. 0) s" and "\<forall>w. buf_heap s (new_buffer z w) = None"
    and "\<not> Configuration_fastpath x s" and "careful x budget" and "documented_platform x v" and "max_rw_count x \<noteq> 0"
    and "new_src_file z \<noteq> nullptr" "file_lookup s (new_src_file z) = None"
    and "new_dst_file z \<noteq> nullptr" "file_lookup s (new_dst_file z) = None" "new_src_file z \<noteq> new_dst_file z"
    and "\<And>n w q w'. hip_Malloc z n w = ((hipSuccess, q), w') \<Longrightarrow> buf_lookup s q = None"
  shows "\<exists>r t. aiscp_main x z argv s = Some (r, t) \<and>
    (r = Ret EXIT_SUCCESS \<or> r = Ret EXIT_FAILURE) \<and> drv_inv (\<lambda>_. 0) (\<lambda>_. 0) (\<lambda>_. 0) t \<and>
    file_lookup t = file_lookup s \<and> (\<forall>w. buf_heap t (new_buffer z w) = None)"
proof -
  have i: "idle x z (file_lookup s) s" using assms(1-3) by (simp add: idle_def)
  have "returns (aiscp_main x z argv) s" by (rule aiscp_main_returns [OF i assms(4-12)])
  then obtain r t where t: "aiscp_main x z argv s = Some (r, t)" by (auto simp: returns_def)
  from aiscp_main_idle [OF i assms(4,7-11) t] t show ?thesis by (simp add: idle_def)
qed

text \<open>The source cannot be opened after the destination was registered.\<close>

theorem aiscp_leaves_no_handle_witness:
  "\<exists>t. aiscp_main sample_copier sample_aiscp [''aiscp'', ''missing'', ''dst''] sample_disk = Some (Ret EXIT_FAILURE, t) \<and>
     file_lookup t = Map.empty"
proof -
  have code: "map_option fst (aiscp_main sample_copier sample_aiscp [''aiscp'', ''missing'', ''dst''] sample_disk) =
      Some (Ret EXIT_FAILURE)" by code_simp
  have addr: "new_src_file sample_aiscp = 0x5100" "new_dst_file sample_aiscp = 0x5200" by (simp_all add: sample_aiscp_def)
  have rw: "max_rw_count sample_copier \<noteq> 0" by code_simp
  have fresh: "buf_lookup sample_disk q = None" if "hip_Malloc sample_aiscp n w = ((hipSuccess, q), w')" for n w q w'
    by (simp add: sample_disk_def sample_init_def buf_lookup_def)
  note d = disk_idle [unfolded idle_def]
  have "\<exists>r t. aiscp_main sample_copier sample_aiscp [''aiscp'', ''missing'', ''dst''] sample_disk = Some (r, t) \<and>
    (r = Ret EXIT_SUCCESS \<or> r = Ret EXIT_FAILURE) \<and> drv_inv (\<lambda>_. 0) (\<lambda>_. 0) (\<lambda>_. 0) t \<and>
    file_lookup t = file_lookup sample_disk \<and> (\<forall>w. buf_heap t (new_buffer sample_aiscp w) = None)"
    by (rule aiscp_leaves_no_handle [OF _ _ _ copier_careful copier_platform rw _ _ _ _ _ fresh]) (use d addr in simp_all)
  with code d show ?thesis by auto
qed

end
