(* ===== verification/Spec2Isabelle.thy ===== *)
theory Spec2Isabelle
  imports Io_Properties Driver_Properties Component_Properties Platform_Properties
    Async_Properties Async_Io_Properties Stats_Tool Singleton Aiscp_Properties
begin

text \<open>
  A verification library for hipFile, the library that moves data between files and GPU memory.

  \<^bold>\<open>The program.\<close> A client opens the driver, registers file descriptors, device buffers and streams,
  and then reads and writes synchronously, in batches or on a stream
  (\<^verbatim>\<open>src/amd_detail/hipfile.cpp\<close>). \<^verbatim>\<open>DriverState\<close> (\<^verbatim>\<open>state.cpp\<close>) owns the tables of registered files,
  buffers, streams and batch contexts and hands out reference-counted objects, so that an object
  in use cannot be deregistered. A request goes to the backend with the best score: the fast path
  (\<^verbatim>\<open>backend/fastpath.cpp\<close>) gives an aligned request to the HIP runtime, the fallback
  (\<^verbatim>\<open>backend/fallback.cpp\<close>) copies through a bounce buffer and serves everything else, including
  what the fast path cannot finish. Around this core are statistics counters, the parsing of the
  environment, the query of the mount table and the wrappers over system and HIP calls. On NVIDIA
  platforms the same interface is a layer over cuFile (\<^verbatim>\<open>src/nvidia_detail\<close>).

  \<^bold>\<open>The model.\<close> A C++ function is a function from a state to an outcome (a value, an exception, or the
  end of the process) and a state; a loop that may not end gives an optional result, where
  \<^const>\<open>None\<close> means that it does not return. Code outside the repository (system calls, the HIP
  runtime, libmount, cuFile) is a record of functions over an arbitrary world. Words keep their
  width where the source computes with them. Destructors run where the source runs them, and an
  exception that leaves one ends the process. Each public function is one step: the mutex of
  \<^verbatim>\<open>DriverState\<close> makes its operations atomic.

  \<^bold>\<open>Asynchronous IO.\<close> A submission (\<^verbatim>\<open>Fallback::async_io\<close>) gives an operation to the monitor and launches on
  the client's stream up to four tasks: bind the parameters, copy on the host, copy on the device, clean up. The
  state has a queue of tasks for each stream; the runtime takes tasks from the heads of the queues in any
  interleaving (\<open>async_step\<close>), the completion thread deletes what is complete, and clients submit, manage the
  driver and change the variables they passed pointers to at any time. The threads of the copy kernel run in
  any order. Each task and each round of the completion thread is one step. One task of the code is not atomic in
  its effect: the cleanup announces its operation under the lock of the monitor and reads it again after that.
  \<^verbatim>\<open>Async_Cleanup\<close> therefore has a second step relation (\<open>fine_step\<close>) with the two halves as steps of their own.
  Each state that it reaches is reached by whole tasks too, so that the invariant holds in it; what it shows
  beyond them is the race: after every first half the completion thread can delete the operation, and then the
  second half reads a dead object (\<open>no_task_fails\<close>, \<open>cleanup_reads_deleted_operation\<close>).
  Pinned memory has an address for the host and one for the device; the field \<open>v_dev\<close> of a view translates the
  addresses of the device, and the theorems about bytes hold whether or not the two are equal.

  \<^item> \<^verbatim>\<open>Prelude\<close>: machine types, error values, exceptions, the monads and general lemmas.
  \<^item> \<^verbatim>\<open>Runs\<close>: contracts of systems that run as locales (an invariant kept from call to call, a simulation
    of calls by calls of a specification, a system whose tasks drain), whose lemmas about single calls are
    lifted to sequences of calls. They are interpreted for the driver in \<^verbatim>\<open>Driver_Spec\<close> and for the queues
    of asynchronous tasks in \<^verbatim>\<open>Async_System\<close>.
  \<^item> \<^verbatim>\<open>Externals\<close>: the external functions and the wrappers \<^verbatim>\<open>Sys\<close> (\<^verbatim>\<open>sys.cpp\<close>) and \<^verbatim>\<open>Hip\<close> (\<^verbatim>\<open>hip.cpp\<close>).
  \<^item> \<^verbatim>\<open>Shared_Ptr\<close>, \<^verbatim>\<open>Registry\<close>: reference-counted stores, and the contract of a table of such objects
    as a locale, interpreted for the tables of buffers and files.
  \<^item> \<^verbatim>\<open>File_Descriptor\<close>, \<^verbatim>\<open>Mount_Info\<close>, \<^verbatim>\<open>Configuration\<close>, \<^verbatim>\<open>Buffer_Map\<close>, \<^verbatim>\<open>File_Map\<close>, \<^verbatim>\<open>Stream_Map\<close>,
    \<^verbatim>\<open>Driver\<close>, \<^verbatim>\<open>Stats\<close>: the source files of the same names (\<^verbatim>\<open>Buffer_Map\<close> also \<^verbatim>\<open>io.cpp\<close>, \<^verbatim>\<open>Driver\<close> is
    \<^verbatim>\<open>state.cpp\<close>, \<^verbatim>\<open>Configuration\<close> also \<^verbatim>\<open>environment.cpp\<close>).
  \<^item> \<^verbatim>\<open>Backend\<close>, \<^verbatim>\<open>Fallback\<close>, \<^verbatim>\<open>Fastpath\<close>: the backends; \<^verbatim>\<open>Fallback_Bytes\<close> says what the fallback does to
    bytes and that its loop ends.
  \<^item> \<^verbatim>\<open>Batch\<close>: operations, contexts and submission (\<^verbatim>\<open>batch/batch.cpp\<close>).
  \<^item> \<^verbatim>\<open>Api\<close>: the public functions; \<^verbatim>\<open>Io\<close>: the synchronous ones from end to end; \<^verbatim>\<open>Process_Safety\<close>: no
    operation of the driver ends the process when descriptors can be closed.
  \<^item> \<^verbatim>\<open>Async\<close>: \<^verbatim>\<open>async.cpp\<close>, \<^verbatim>\<open>backend/asyncop-fallback.cpp\<close>, the asynchronous functions of
    \<^verbatim>\<open>backend/fallback.cpp\<close> and \<^verbatim>\<open>hipfile.cpp\<close>; \<^verbatim>\<open>Memcpy_Kernel\<close>: \<^verbatim>\<open>backend/memcpy-kernel.hip\<close>.
    \<^verbatim>\<open>Async_Invariant\<close>, \<^verbatim>\<open>Async_Tasks\<close>, \<^verbatim>\<open>Async_Submission\<close>, \<^verbatim>\<open>Async_Api\<close>: the invariant and that tasks,
    submissions and public functions keep it; \<^verbatim>\<open>Async_System\<close>: steps, reachable states and draining;
    \<^verbatim>\<open>Async_Cleanup\<close>: the same with the cleanup in two steps;
    \<^verbatim>\<open>Async_Bytes\<close>: what the copies do to bytes.
  \<^item> \<^verbatim>\<open>Stats_Server\<close>: the server and the client of the statistics (\<^verbatim>\<open>stats.cpp\<close>, \<^verbatim>\<open>hipfile-stats.cpp\<close>), with a
    record of the system calls that only they use; \<^verbatim>\<open>Stats_Tool\<close>: the tool \<^verbatim>\<open>ais-stats\<close> and the property of the
    report. \<^verbatim>\<open>Singleton\<close>: \<^verbatim>\<open>context.h\<close> and \<^verbatim>\<open>context.cpp\<close>.
  \<^item> \<^verbatim>\<open>No_Status\<close>, \<^verbatim>\<open>Driver_Spec\<close>: the abstract driver (how often it is open, sets of registered and busy
    objects) and the simulation of the calls that manage it.
  \<^item> \<^verbatim>\<open>Common\<close>: \<^verbatim>\<open>src/common\<close>; \<^verbatim>\<open>Cufile_Conversion\<close>, \<^verbatim>\<open>Nvidia_Api\<close>: \<^verbatim>\<open>src/nvidia_detail\<close>.
  \<^item> \<^verbatim>\<open>Aiscp\<close>: the program of \<^verbatim>\<open>examples/aiscp/aiscp.cpp\<close>, a client that copies a file through device memory;
    \<^verbatim>\<open>Io_Client\<close>: what such a client relies on from one call to the next; \<^verbatim>\<open>Aiscp_Copy\<close>: its loops end and copy
    every byte; \<^verbatim>\<open>Aiscp_Main\<close>: it leaves the driver as it found it; \<^verbatim>\<open>Aiscp_Total\<close>: it returns.
  \<^item> \<^verbatim>\<open>Sample_Platform\<close>: an executable platform on which the examples evaluate the model;
    \<^verbatim>\<open>Sample_Async\<close>: a client of asynchronous IO on it; \<^verbatim>\<open>Sample_Aiscp\<close>: files and paths for \<^verbatim>\<open>aiscp\<close>.

  \<^bold>\<open>The theorems.\<close> \<^verbatim>\<open>Io_Properties\<close>: a read puts exactly the bytes of the file into the buffer and a
  write that many bytes of the buffer into the file, which is unchanged outside the requested range (inside it, behind
  the reported count, a byte is the old one or the requested one), both return and leave no use of a registered
  object behind, the backend is chosen as documented, and the checks of parameters are exact.
  \<^verbatim>\<open>Driver_Properties\<close>: registration and deregistration on every path, protection of objects in use,
  opening and closing. \<^verbatim>\<open>Component_Properties\<close>: batches, streams, statistics, mount table, region
  check, limits and environment. \<^verbatim>\<open>Platform_Properties\<close>: texts and conversions of errors, properties,
  batch operations and events. \<^verbatim>\<open>Async_Properties\<close>: what holds in every reachable state of the asynchronous part,
  the outcome of a submission, draining and the end of the completion thread. \<^verbatim>\<open>Async_Io_Properties\<close>: the
  refinement of the abstract driver by any sequence of calls, the copy kernel as one \<^verbatim>\<open>memcpy\<close>, the bytes of asynchronous reads and
  writes, and the late check of their parameters. \<^verbatim>\<open>Stats_Tool\<close>: the report is written as a whole exactly when a
  success is reported, and a refused argument, a missing descriptor or a failed mapping writes nothing. \<^verbatim>\<open>Aiscp_Properties\<close>: a copy that reports success has put all bytes of the source at the
  start of the destination, which is equal to the source unless the truncation failed (the program prints this, but
  still reports success), and \<^verbatim>\<open>aiscp\<close> returns, leaves no handle registered and no object in use.

  \<^bold>\<open>Assumptions.\<close> Nothing is assumed of the external functions in a definition. Theorems about bytes take
  the documented behaviour of \<^verbatim>\<open>pread\<close>, \<^verbatim>\<open>pwrite\<close>, \<^verbatim>\<open>mmap\<close>, \<^verbatim>\<open>hipMemcpy\<close> and others as hypotheses,
  and theorems that an IO returns take a bound on the number of interrupted system calls, since the
  code retries them without limit. The addresses of new objects are arguments, assumed fresh where
  a theorem needs it. For asynchronous IO the runtime is taken to run every task that it accepted, in the order
  of its stream; draining needs the cleanup of each pending operation in a queue, which fails only when the
  runtime refuses to launch it (the code logs this case as a leak). The theorem about the bytes that \<^verbatim>\<open>aiscp\<close>
  copies is about the path through the fallback, with the two files distinct, the device buffer mapped and writes
  that make progress: a write of no bytes makes its inner loop repeat for ever (\<open>zero_write_spins\<close>). That the whole
  program returns needs the same of writes, but neither distinct files nor the mapping. That the report of the
  statistics is finished needs a bound on the writes that move nothing while \<^verbatim>\<open>errno\<close> is \<^verbatim>\<open>EINTR\<close>
  (\<open>zero_write_with_EINTR_spins\<close>).

  \<^bold>\<open>Not modelled.\<close> The interleaving of the server thread of the statistics with the process that it serves (its
  loop and the client are functions of their own; the memory they share is a parameter of the client), compile-time
  access control (\<^verbatim>\<open>passkey.h\<close>), failure of the host's memory allocation, and the texts of exceptions and log
  messages. Three small points of the source have no counterpart: \<^verbatim>\<open>errno = 0\<close> in the parsing of a number from the
  environment, a null type of a file system that libmount has found (libmount gives one only for a null file
  system), and the static list behind \<^verbatim>\<open>DriverState::getBackends\<close>, whose contents are a constant. The bytes that \<^verbatim>\<open>aiscp\<close> copies are stated for two open and registered files, not for the contents behind
  two paths, which would need a model of the file system.
\<close>

end
